(* ===== verification/Prelude.thy ===== *)
theory Prelude
  imports Complex_Main "HOL-Library.List_Lexorder" "HOL-Library.Char_ord"
    "HOL-Library.Product_Lexorder" "HOL-Library.Multiset"
begin

text \<open>
  Shared vocabulary of the development: the names of the model's base types, the application
  errors of apps/api/src/lib/errors.ts as values, the row operations of the database tables
  (a table is the list of its rows, in insertion order), and the list lemmas that the component
  theories use. The collections \<open>row_simps\<close> (projections of updated rows and tables)
  and \<open>arith_model\<close> (integer facts of the money code) are filled by the theories below.
\<close>

named_theorems row_simps
named_theorems arith_model

type_synonym id = string
type_synonym millis = int
type_synonym paise = int

text \<open>
  An exception that leaves a function is the left component of a sum. The constructors are the
  application errors (with the code or the message that callers tell apart) and the error classes of
  packages/shared.
\<close>

datatype err =
    NotFound
  | BadRequest string
  | Unauthorized string
  | Forbidden string
  | Conflict string
  | TooMany string
  | PricingError string
  | PageRangeError string
  | RangeError string
  | InvalidTransition
  | Thrown string

type_synonym 'a result = "err + 'a"

definition is_ok :: "'a result \<Rightarrow> bool" where
  "is_ok r = (case r of Inl _ \<Rightarrow> False | Inr _ \<Rightarrow> True)"

lemma is_ok_simps [simp]: "is_ok (Inr x)" "\<not> is_ok (Inl e)"
  by (simp_all add: is_ok_def)

subsection \<open>JavaScript conventions\<close>

text \<open>A nullable string in a condition: null and the empty string are both falsy.\<close>

definition truthy :: "string option \<Rightarrow> bool" where
  "truthy v = (case v of None \<Rightarrow> False | Some s \<Rightarrow> s \<noteq> [])"

lemma truthy_simps [simp]:
  "\<not> truthy None" "truthy (Some s) \<longleftrightarrow> s \<noteq> []"
  by (simp_all add: truthy_def)

lemma truthyE: "truthy v \<Longrightarrow> (\<And>s. v = Some s \<Longrightarrow> s \<noteq> [] \<Longrightarrow> P) \<Longrightarrow> P"
  by (cases v) simp_all

text \<open>\<open>[...new Set(xs)]\<close>: the first occurrence of every element, in order.\<close>

definition unique_first :: "'a list \<Rightarrow> 'a list" where
  "unique_first xs = rev (remdups (rev xs))"

lemma unique_first_facts [simp]: "set (unique_first xs) = set xs" "distinct (unique_first xs)"
  by (simp_all add: unique_first_def)

subsection \<open>Tables as lists of rows\<close>

text \<open>\<open>updateMany({where, data})\<close>: every row that satisfies the condition is rewritten.\<close>

definition update_where :: "('r \<Rightarrow> bool) \<Rightarrow> ('r \<Rightarrow> 'r) \<Rightarrow> 'r list \<Rightarrow> 'r list" where
  "update_where p f rows = map (\<lambda>r. if p r then f r else r) rows"

text \<open>The \<open>count\<close> that \<open>updateMany\<close> returns.\<close>

definition count_where :: "('r \<Rightarrow> bool) \<Rightarrow> 'r list \<Rightarrow> nat" where
  "count_where p rows = length (filter p rows)"

lemma update_where_simps [simp]:
  "update_where p f [] = []"
  "update_where p f (r # rs) = (if p r then f r else r) # update_where p f rs"
  by (simp_all add: update_where_def)

lemma length_update_where [simp]: "length (update_where p f rows) = length rows"
  by (simp add: update_where_def)

lemma set_update_where: "set (update_where p f rows) = (\<lambda>r. if p r then f r else r) ` set rows"
  by (simp add: update_where_def)

lemma update_where_none: "(\<And>r. r \<in> set rows \<Longrightarrow> \<not> p r) \<Longrightarrow> update_where p f rows = rows"
  by (induction rows) auto

lemma count_where_0_iff: "count_where p rows = 0 \<longleftrightarrow> (\<forall>r \<in> set rows. \<not> p r)"
  by (auto simp: count_where_def filter_empty_conv)

lemma count_where_pos_iff: "0 < count_where p rows \<longleftrightarrow> (\<exists>r \<in> set rows. p r)"
  using count_where_0_iff [of p rows] by auto

lemma map_update_where:
  "(\<And>r. g (f r) = g r) \<Longrightarrow> map g (update_where p f rows) = map g rows"
  by (induction rows) auto

lemma filter_update_where:
  "(\<And>r. q (f r) = q r) \<Longrightarrow> filter q (update_where p f rows) = update_where p f (filter q rows)"
  by (induction rows) auto

text \<open>Lookup by primary key.\<close>

lemma find_eq_Some_distinct:
  assumes "distinct (map key rows)" "r \<in> set rows"
  shows "find (\<lambda>x. key x = key r) rows = Some r"
  using assms by (induction rows) (auto simp: rev_image_eqI)

lemma find_SomeD: "find p rows = Some r \<Longrightarrow> r \<in> set rows \<and> p r"
  by (auto simp: find_Some_iff)

lemma find_update_where_key:
  assumes "\<And>r. key (f r) = key r"
  shows "find (\<lambda>x. key x = k) (update_where p f rows)
    = map_option (\<lambda>r. if p r then f r else r) (find (\<lambda>x. key x = k) rows)"
  by (induction rows) (auto simp: assms)

lemma distinct_key_eq:
  "distinct (map key rows) \<Longrightarrow> x \<in> set rows \<Longrightarrow> y \<in> set rows \<Longrightarrow> key x = key y \<Longrightarrow> x = y"
  by (induction rows) (auto simp: rev_image_eqI)

subsection \<open>Sums over tables\<close>

lemma sum_list_nonneg_map: "(\<And>x. x \<in> set xs \<Longrightarrow> 0 \<le> (f x :: int)) \<Longrightarrow> 0 \<le> sum_list (map f xs)"
  by (induction xs) (simp_all add: add_nonneg_nonneg)

lemma fold_sum_list: "fold (\<lambda>x s. s + f x) xs s = s + sum_list (map (f :: _ \<Rightarrow> int) xs)"
  by (induction xs arbitrary: s) simp_all

lemma sum_list_sort_key: "sum_list (map g (sort_key f xs)) = sum_list (map (g :: _ \<Rightarrow> int) xs)"
proof -
  have "mset (map g (sort_key f xs)) = mset (map g xs)" by simp
  then show ?thesis by (metis sum_mset_sum_list)
qed

lemma sum_list_update_where:
  fixes g :: "'r \<Rightarrow> int"
  shows "sum_list (map g (update_where p f rows))
    = sum_list (map g rows) + sum_list (map (\<lambda>r. g (f r) - g r) (filter p rows))"
  by (induction rows) auto

lemma filter_key_singleton:
  assumes "distinct (map key rows)" "r \<in> set rows"
  shows "filter (\<lambda>x. key x = key r) rows = [r]"
  using assms
proof (induction rows)
  case Nil
  then show ?case by simp
next
  case (Cons a rows)
  show ?case
  proof (cases "r = a")
    case True
    with Cons.prems have "\<forall>x \<in> set rows. key x \<noteq> key r" by (metis distinct.simps(2) image_eqI list.set_map list.simps(9))
    then have "filter (\<lambda>x. key x = key r) rows = []" by (simp add: filter_empty_conv)
    with True show ?thesis by simp
  next
    case False
    with Cons.prems have "r \<in> set rows" "key a \<noteq> key r" by auto
    with Cons show ?thesis by simp
  qed
qed

text \<open>A single-row update by primary key changes a sum by the difference of that row.\<close>

lemma sum_list_update_key:
  fixes g :: "'r \<Rightarrow> int"
  assumes "distinct (map key rows)" "r \<in> set rows"
  shows "sum_list (map g (update_where (\<lambda>x. key x = key r) f rows)) = sum_list (map g rows) + (g (f r) - g r)"
  by (simp add: sum_list_update_where filter_key_singleton [OF assms])

subsection \<open>Stable sorting\<close>

lemma set_sort_key [simp]: "set (sort_key f xs) = set xs"
  by simp

lemma sort_key_Nil_iff [simp]: "sort_key f xs = [] \<longleftrightarrow> xs = []"
  by (metis length_0_conv length_sort)

lemma hd_case_None [simp]: "(case xs of [] \<Rightarrow> None | x # _ \<Rightarrow> Some x) = None \<longleftrightarrow> xs = []"
  by (cases xs) simp_all

lemma hd_case_Some [simp]: "(case xs of [] \<Rightarrow> None | x # _ \<Rightarrow> Some x) = Some y \<longleftrightarrow> xs \<noteq> [] \<and> hd xs = y"
  by (cases xs) simp_all

lemma sort_key_hd_min:
  fixes f :: "'a \<Rightarrow> 'b::linorder"
  assumes "x \<in> set xs"
  shows "f (hd (sort_key f xs)) \<le> f x"
proof -
  have "sort_key f xs \<noteq> []" using assms by auto
  then obtain y ys where s: "sort_key f xs = y # ys" by (cases "sort_key f xs") auto
  have "sorted (map f (y # ys))" using s sorted_sort_key [of f xs] by simp
  moreover have "x \<in> set (y # ys)" using s assms by (metis set_sort)
  ultimately show ?thesis using s by auto
qed

lemma sort_key_last:
  assumes "\<And>x. x \<in> set xs \<Longrightarrow> f x \<le> f y"
  shows "sort_key f (xs @ [y]) = sort_key f xs @ [y]"
proof (rule properties_for_sort_key)
  show "mset (sort_key f xs @ [y]) = mset (xs @ [y])" by simp
  show "filter (\<lambda>x. f k = f x) (sort_key f xs @ [y]) = filter (\<lambda>x. f k = f x) (xs @ [y])"
    if "k \<in> set (sort_key f xs @ [y])" for k
    using sort_key_stable [of f "f k" xs] by (simp add: eq_commute)
  show "sorted (map f (sort_key f xs @ [y]))"
    using assms by (auto simp: sorted_append)
qed

end
