(* ===== verification/State_Machine.thy ===== *)
theory State_Machine
  imports Prelude
begin

text \<open>
  packages/shared/src/stateMachine.ts and the status types of packages/shared/src/types.ts: the
  thirteen job statuses, the sixteen events, the transition table, and what the table implies for
  the life of an order. \<open>sm_step\<close> is the relation of the table; its reflexive transitive
  closure is the set of lives an order can have.
\<close>

datatype job_status =
    Pending_payment | Awaiting_arrival | Queued | Notified | Otp_verified | Printing | Finishing
  | Ready_for_pickup | Completed | No_show | Requeued | Expired | Cancelled

datatype job_event =
    PAYMENT_CONFIRMED | CASH_SELECTED | ARRIVED | QUEUE_SKIPPED | COUNTER_RELEASE | FRONT_REACHED
  | OTP_VERIFIED | PRINT_STARTED | PRINT_COMPLETED | FINISHING_REQUIRED | FINISHING_COMPLETED
  | PRINT_FAILED | CASH_RETURNED | COUNTER_PAYMENT_RETURNED | HANDED_OVER | CANCEL

text \<open>The table: an absent entry is None.\<close>

primrec TRANSITIONS :: "job_status \<Rightarrow> job_event \<Rightarrow> job_status option" where
  "TRANSITIONS Pending_payment ev = (case ev of
      PAYMENT_CONFIRMED \<Rightarrow> Some Awaiting_arrival | CASH_SELECTED \<Rightarrow> Some Awaiting_arrival | CANCEL \<Rightarrow> Some Cancelled | _ \<Rightarrow> None)"
| "TRANSITIONS Awaiting_arrival ev = (case ev of
      ARRIVED \<Rightarrow> Some Queued | COUNTER_RELEASE \<Rightarrow> Some Otp_verified | CANCEL \<Rightarrow> Some Cancelled | _ \<Rightarrow> None)"
| "TRANSITIONS Queued ev = (case ev of
      FRONT_REACHED \<Rightarrow> Some Notified | COUNTER_RELEASE \<Rightarrow> Some Otp_verified | QUEUE_SKIPPED \<Rightarrow> Some Awaiting_arrival | CANCEL \<Rightarrow> Some Cancelled | _ \<Rightarrow> None)"
| "TRANSITIONS Notified ev = (case ev of
      OTP_VERIFIED \<Rightarrow> Some Otp_verified | COUNTER_RELEASE \<Rightarrow> Some Otp_verified | QUEUE_SKIPPED \<Rightarrow> Some Awaiting_arrival | CANCEL \<Rightarrow> Some Cancelled | _ \<Rightarrow> None)"
| "TRANSITIONS No_show ev = (case ev of
      ARRIVED \<Rightarrow> Some Queued | COUNTER_RELEASE \<Rightarrow> Some Otp_verified | QUEUE_SKIPPED \<Rightarrow> Some Awaiting_arrival | _ \<Rightarrow> None)"
| "TRANSITIONS Requeued ev = (case ev of
      ARRIVED \<Rightarrow> Some Queued | COUNTER_RELEASE \<Rightarrow> Some Otp_verified | QUEUE_SKIPPED \<Rightarrow> Some Awaiting_arrival | _ \<Rightarrow> None)"
| "TRANSITIONS Otp_verified ev = (case ev of
      PRINT_STARTED \<Rightarrow> Some Printing | CASH_RETURNED \<Rightarrow> Some Cancelled | COUNTER_PAYMENT_RETURNED \<Rightarrow> Some Cancelled | _ \<Rightarrow> None)"
| "TRANSITIONS Printing ev = (case ev of
      PRINT_COMPLETED \<Rightarrow> Some Ready_for_pickup | FINISHING_REQUIRED \<Rightarrow> Some Finishing | PRINT_FAILED \<Rightarrow> Some Otp_verified | _ \<Rightarrow> None)"
| "TRANSITIONS Finishing ev = (case ev of
      FINISHING_COMPLETED \<Rightarrow> Some Ready_for_pickup | _ \<Rightarrow> None)"
| "TRANSITIONS Ready_for_pickup ev = (case ev of
      HANDED_OVER \<Rightarrow> Some Completed | _ \<Rightarrow> None)"
| "TRANSITIONS Completed ev = None"
| "TRANSITIONS Expired ev = None"
| "TRANSITIONS Cancelled ev = None"

definition transition :: "job_status \<Rightarrow> job_event \<Rightarrow> job_status result" where
  "transition from ev = (case TRANSITIONS from ev of None \<Rightarrow> Inl InvalidTransition | Some nxt \<Rightarrow> Inr nxt)"

definition canTransition :: "job_status \<Rightarrow> job_event \<Rightarrow> bool" where
  "canTransition from ev = (TRANSITIONS from ev \<noteq> None)"

definition ACTIVE_QUEUE_STATUSES :: "job_status list" where
  "ACTIVE_QUEUE_STATUSES = [Queued, Notified]"

definition TERMINAL_STATUSES :: "job_status list" where
  "TERMINAL_STATUSES = [Completed, Expired, Cancelled]"

definition all_statuses :: "job_status list" where
  "all_statuses = [Pending_payment, Awaiting_arrival, Queued, Notified, Otp_verified, Printing, Finishing,
    Ready_for_pickup, Completed, No_show, Requeued, Expired, Cancelled]"

lemma all_statuses_complete: "s \<in> set all_statuses"
  by (cases s) (simp_all add: all_statuses_def)

lemma transition_Inr [simp]: "transition from ev = Inr nxt \<longleftrightarrow> TRANSITIONS from ev = Some nxt"
  by (auto simp: transition_def split: option.splits)

lemma transition_Inl [simp]: "transition from ev = Inl e \<longleftrightarrow> e = InvalidTransition \<and> TRANSITIONS from ev = None"
  by (auto simp: transition_def split: option.splits)

text \<open>A numbering of the statuses, and the order it gives them.\<close>

primrec status_index :: "job_status \<Rightarrow> nat" where
  "status_index Pending_payment = 0"
| "status_index Awaiting_arrival = 1"
| "status_index Queued = 2"
| "status_index Notified = 3"
| "status_index Otp_verified = 4"
| "status_index Printing = 5"
| "status_index Finishing = 6"
| "status_index Ready_for_pickup = 7"
| "status_index Completed = 8"
| "status_index No_show = 9"
| "status_index Requeued = 10"
| "status_index Expired = 11"
| "status_index Cancelled = 12"

lemma status_index_inj: "status_index s = status_index t \<Longrightarrow> s = t"
  by (cases s; cases t) simp_all

instantiation job_status :: linorder
begin

definition less_eq_job_status :: "job_status \<Rightarrow> job_status \<Rightarrow> bool" where
  "less_eq_job_status s t = (status_index s \<le> status_index t)"

definition less_job_status :: "job_status \<Rightarrow> job_status \<Rightarrow> bool" where
  "less_job_status s t = (status_index s < status_index t)"

instance
  by standard (auto simp: less_eq_job_status_def less_job_status_def intro: status_index_inj)

end

subsection \<open>The relation of the table\<close>

inductive sm_step :: "job_status \<Rightarrow> job_event \<Rightarrow> job_status \<Rightarrow> bool" where
  "TRANSITIONS s ev = Some t \<Longrightarrow> sm_step s ev t"

inductive_simps sm_step_iff [simp]: "sm_step s ev t"
inductive_cases sm_stepE: "sm_step s ev t"

inductive sm_path :: "job_status \<Rightarrow> job_event list \<Rightarrow> job_status \<Rightarrow> bool" where
  sm_path_nil: "sm_path s [] s"
| sm_path_cons: "sm_step s ev t \<Longrightarrow> sm_path t evs u \<Longrightarrow> sm_path s (ev # evs) u"

inductive_cases sm_path_nilE: "sm_path s [] t"
inductive_cases sm_path_consE: "sm_path s (ev # evs) t"

lemma sm_path_snoc: "sm_path s evs t \<Longrightarrow> TRANSITIONS t ev = Some u \<Longrightarrow> sm_path s (evs @ [ev]) u"
  by (induction rule: sm_path.induct) (auto intro: sm_path.intros)

fun run :: "job_status \<Rightarrow> job_event list \<Rightarrow> job_status option" where
  "run s [] = Some s"
| "run s (ev # evs) = (case TRANSITIONS s ev of None \<Rightarrow> None | Some t \<Rightarrow> run t evs)"

lemma sm_path_iff_run: "sm_path s evs t \<longleftrightarrow> run s evs = Some t"
proof
  show "sm_path s evs t \<Longrightarrow> run s evs = Some t"
    by (induction rule: sm_path.induct) auto
  show "run s evs = Some t \<Longrightarrow> sm_path s evs t"
  proof (induction evs arbitrary: s)
    case Nil then show ?case by (simp add: sm_path_nil)
  next
    case (Cons ev evs)
    then show ?case by (auto split: option.splits intro: sm_path_cons)
  qed
qed

text \<open>The rank of a status: how far the order is from the paper being in the student's hands.\<close>

definition released :: "job_status \<Rightarrow> bool" where
  "released s = (s \<in> {Otp_verified, Printing, Finishing, Ready_for_pickup, Completed})"

lemma released_step: "TRANSITIONS s ev = Some t \<Longrightarrow> released s \<Longrightarrow> released t \<or> t = Cancelled"
  by (cases s; cases ev) (auto simp: released_def)

lemma terminal_step: "s \<in> set TERMINAL_STATUSES \<Longrightarrow> TRANSITIONS s ev = None"
  by (auto simp: TERMINAL_STATUSES_def)

lemma no_self_loop: "TRANSITIONS s ev \<noteq> Some s"
  by (cases s; cases ev) simp_all

lemma enter_released:
  "TRANSITIONS s ev = Some t \<Longrightarrow> released t \<Longrightarrow> \<not> released s \<Longrightarrow> t = Otp_verified \<and> ev \<in> {COUNTER_RELEASE, OTP_VERIFIED}"
  by (cases s; cases ev) (auto simp: released_def)

text \<open>The printed side: reached only through a confirmed print.\<close>

definition printed :: "job_status \<Rightarrow> bool" where
  "printed s = (s \<in> {Finishing, Ready_for_pickup, Completed})"

lemma enter_printed:
  "TRANSITIONS s ev = Some t \<Longrightarrow> printed t \<Longrightarrow> \<not> printed s
    \<Longrightarrow> s = Printing \<and> ev \<in> {PRINT_COMPLETED, FINISHING_REQUIRED}"
  by (cases s; cases ev) (auto simp: printed_def)

lemma printed_step: "TRANSITIONS s ev = Some t \<Longrightarrow> printed s \<Longrightarrow> printed t"
  by (cases s; cases ev) (auto simp: printed_def)

lemma terminal_path: "sm_path s evs t \<Longrightarrow> s \<in> set TERMINAL_STATUSES \<Longrightarrow> evs = [] \<and> t = s"
  by (induction rule: sm_path.induct) (simp_all add: terminal_step)

lemma released_path: "sm_path s evs t \<Longrightarrow> released s \<Longrightarrow> released t \<or> t = Cancelled"
proof (induction rule: sm_path.induct)
  case (sm_path_cons s ev u evs t)
  then have "released u \<or> u = Cancelled" by (auto dest: released_step)
  then show ?case
    using sm_path_cons terminal_path [of Cancelled evs t] by (auto simp: TERMINAL_STATUSES_def)
qed simp

lemma printed_path: "sm_path s evs t \<Longrightarrow> printed s \<Longrightarrow> printed t"
  by (induction rule: sm_path.induct) (auto dest: printed_step)

lemma release_event_in_path:
  "sm_path s evs t \<Longrightarrow> \<not> released s \<Longrightarrow> released t \<Longrightarrow> COUNTER_RELEASE \<in> set evs \<or> OTP_VERIFIED \<in> set evs"
proof (induction rule: sm_path.induct)
  case (sm_path_cons s ev u evs t)
  then show ?case using enter_released [of s ev u] by (cases "released u") auto
qed simp

lemma print_event_in_path:
  "sm_path s evs t \<Longrightarrow> \<not> printed s \<Longrightarrow> printed t
    \<Longrightarrow> PRINT_COMPLETED \<in> set evs \<or> FINISHING_REQUIRED \<in> set evs"
proof (induction rule: sm_path.induct)
  case (sm_path_cons s ev u evs t)
  then show ?case using enter_printed [of s ev u] by (cases "printed u") auto
qed simp

text \<open>From every non-terminal status a terminal one is reachable, within six events.\<close>

fun finish_plan :: "job_status \<Rightarrow> job_event list" where
  "finish_plan Pending_payment = [CANCEL]"
| "finish_plan Awaiting_arrival = [COUNTER_RELEASE, PRINT_STARTED, PRINT_COMPLETED, HANDED_OVER]"
| "finish_plan Queued = [COUNTER_RELEASE, PRINT_STARTED, PRINT_COMPLETED, HANDED_OVER]"
| "finish_plan Notified = [OTP_VERIFIED, PRINT_STARTED, PRINT_COMPLETED, HANDED_OVER]"
| "finish_plan No_show = [COUNTER_RELEASE, PRINT_STARTED, PRINT_COMPLETED, HANDED_OVER]"
| "finish_plan Requeued = [COUNTER_RELEASE, PRINT_STARTED, PRINT_COMPLETED, HANDED_OVER]"
| "finish_plan Otp_verified = [PRINT_STARTED, PRINT_COMPLETED, HANDED_OVER]"
| "finish_plan Printing = [PRINT_COMPLETED, HANDED_OVER]"
| "finish_plan Finishing = [FINISHING_COMPLETED, HANDED_OVER]"
| "finish_plan Ready_for_pickup = [HANDED_OVER]"
| "finish_plan _ = []"

lemma finish_plan_runs: "\<exists>t. run s (finish_plan s) = Some t \<and> t \<in> set TERMINAL_STATUSES"
  by (cases s) (simp_all add: TERMINAL_STATUSES_def)

text \<open>
  C1. The life of an order. From the moment payment is pending, any sequence of events that the
  transition table allows has these properties: an order that is past the counter (released to a
  printer, printing, being finished, ready or completed) was released by a counter-release or
  legacy-code event; an order whose paper exists (finishing, ready, completed) went through a
  successful print; and from the status it is in, an order can still reach a terminal status, unless
  it is already there, where no event applies.
\<close>

theorem order_life:
  assumes "sm_path Pending_payment evs s"
  shows "(released s \<longrightarrow> COUNTER_RELEASE \<in> set evs \<or> OTP_VERIFIED \<in> set evs)
    \<and> (printed s \<longrightarrow> PRINT_COMPLETED \<in> set evs \<or> FINISHING_REQUIRED \<in> set evs)
    \<and> (\<exists>more t. sm_path s more t \<and> t \<in> set TERMINAL_STATUSES)
    \<and> (s \<in> set TERMINAL_STATUSES \<longleftrightarrow> (\<forall>ev. \<not> canTransition s ev))"
proof (intro conjI impI)
  show "released s \<Longrightarrow> COUNTER_RELEASE \<in> set evs \<or> OTP_VERIFIED \<in> set evs"
    using release_event_in_path [OF assms] by (simp add: released_def)
  show "printed s \<Longrightarrow> PRINT_COMPLETED \<in> set evs \<or> FINISHING_REQUIRED \<in> set evs"
    using print_event_in_path [OF assms] by (simp add: printed_def)
  show "\<exists>more t. sm_path s more t \<and> t \<in> set TERMINAL_STATUSES"
    using finish_plan_runs [of s] sm_path_iff_run by blast
  show "s \<in> set TERMINAL_STATUSES \<longleftrightarrow> (\<forall>ev. \<not> canTransition s ev)"
  proof
    show "s \<in> set TERMINAL_STATUSES \<Longrightarrow> \<forall>ev. \<not> canTransition s ev"
      by (simp add: canTransition_def terminal_step)
    show "\<forall>ev. \<not> canTransition s ev \<Longrightarrow> s \<in> set TERMINAL_STATUSES"
      using finish_plan_runs [of s] by (cases "finish_plan s") (auto simp: canTransition_def split: option.splits)
  qed
qed

theorem order_life_witness:
  "sm_path Pending_payment [PAYMENT_CONFIRMED, ARRIVED, COUNTER_RELEASE, PRINT_STARTED, PRINT_COMPLETED] Ready_for_pickup
    \<and> (\<exists>more t. sm_path Ready_for_pickup more t \<and> t \<in> set TERMINAL_STATUSES)"
proof -
  have p: "sm_path Pending_payment [PAYMENT_CONFIRMED, ARRIVED, COUNTER_RELEASE, PRINT_STARTED, PRINT_COMPLETED] Ready_for_pickup"
    by (simp add: sm_path_iff_run)
  from order_life [OF p] p show ?thesis by simp
qed

text \<open>
  A released order never returns to the waiting line: once released, every later status is a
  released one or cancelled, a printed order is never cancelled any more, and a terminal status is
  final.
\<close>

theorem released_never_requeued:
  assumes "sm_path s evs t"
  shows "(released s \<longrightarrow> (released t \<or> t = Cancelled) \<and> t \<notin> set ACTIVE_QUEUE_STATUSES)
    \<and> (printed s \<longrightarrow> printed t) \<and> (s \<in> set TERMINAL_STATUSES \<longrightarrow> evs = [] \<and> t = s)"
  using released_path [OF assms] printed_path [OF assms] terminal_path [OF assms]
  by (auto simp: ACTIVE_QUEUE_STATUSES_def released_def)

theorem released_never_requeued_witness:
  "sm_path Otp_verified [PRINT_STARTED, PRINT_FAILED, CASH_RETURNED] Cancelled \<and> Cancelled \<notin> set ACTIVE_QUEUE_STATUSES"
proof -
  have p: "sm_path Otp_verified [PRINT_STARTED, PRINT_FAILED, CASH_RETURNED] Cancelled"
    by (simp add: sm_path_iff_run)
  from released_never_requeued [OF p] p show ?thesis by (simp add: released_def)
qed

end
