(* ===== verification/Job_Types.thy ===== *)
theory Job_Types
  imports State_Machine
begin

text \<open>
  The data of packages/shared/src/types.ts and the row of the Job table (model Job of
  apps/api/prisma/schema.prisma). A nullable column is an option; a timestamp is a number of
  milliseconds; an amount is an integer number of paise. The JSON columns \<open>specs\<close> and
  \<open>priceBreakdown\<close> hold the records \<open>job_specs\<close> and \<open>price_breakdown\<close>.
\<close>

subsection \<open>packages/shared/src/types.ts\<close>

datatype printer_status = P_online | P_offline | P_jammed

datatype payment_status =
    Pay_pending | Counter_due | Cash_due | Paid | Refunding | Refunded | Pay_failed

datatype job_mode = Instant | Scheduled

record paper_option =
  po_id :: id
  po_label :: string
  po_bwPaise :: paise
  po_colorPaise :: "paise option"

record binding_option =
  bo_id :: id
  bo_label :: string
  bo_paise :: paise

record shop_options =
  o_papers :: "paper_option list"
  o_bindings :: "binding_option list"
  o_duplexEnabled :: bool

record job_specs =
  copies :: int
  paperSize :: id
  color :: bool
  duplex :: bool
  js_binding :: "id option"
  pageRange :: "string option"

record price_breakdown =
  pb_paperLabel :: string
  pb_pagesPerCopy :: int
  pb_copies :: int
  pb_perPagePaise :: paise
  pb_pagesTotalPaise :: paise
  pb_bindingLabel :: "string option"
  pb_bindingPaise :: paise
  pb_discountPaise :: paise
  pb_totalPaise :: paise

record resolved_coupon =
  rc_code :: string
  percentOff :: "int option"
  paiseOff :: "paise option"

record printer_profile =
  pr_id :: id
  pr_label :: string
  paperSizesLoaded :: "id list"
  colorSupport :: bool
  finishingOptions :: "id list"
  avgPagesPerMinute :: int
  pr_status :: printer_status

record queued_job_lite =
  ql_id :: id
  ql_assignedPrinterId :: "id option"
  ql_pages :: int
  ql_copies :: int

subsection \<open>The Job table\<close>

datatype payment_method = M_cash | M_shop_upi
datatype completion_method = Simulator | Staff_confirmed
datatype actor_type = A_student | A_shop | A_agent | A_system

record actor =
  actorType :: actor_type
  actorId :: "id option"

record job =
  j_id :: id
  j_shopId :: id
  j_studentId :: id
  j_fileId :: id
  j_assignedPrinterId :: "id option"
  j_specs :: job_specs
  j_pagesPerCopy :: int
  j_totalPaise :: paise
  j_shopBasePaise :: paise
  j_platformMarkupPaise :: paise
  j_platformDiscountPaise :: paise
  j_paymentStatus :: payment_status
  j_paymentProvider :: "string option"
  j_paymentOrderId :: "id option"
  j_paymentId :: "id option"
  j_cashCollectedAt :: "millis option"
  j_counterPaymentMethod :: "payment_method option"
  j_counterPaymentConfirmedAt :: "millis option"
  j_counterPaymentConfirmedById :: "id option"
  j_counterPaymentReference :: "string option"
  j_counterPaymentAmountPaise :: "paise option"
  j_couponCode :: "string option"
  j_mode :: job_mode
  j_scheduledTime :: "millis option"
  j_status :: job_status
  j_otpHash :: "string option"
  j_otpCode :: "string option"
  j_otpExpiresAt :: "millis option"
  j_releaseCodeDigest :: "string option"
  j_releaseCodeEncrypted :: "string option"
  j_releaseCodeGeneratedAt :: "millis option"
  j_nearFrontNotifiedAt :: "millis option"
  j_revealedAt :: "millis option"
  j_revealDeadlineAt :: "millis option"
  j_arrivingNotifiedAt :: "millis option"
  j_absentAt :: "millis option"
  j_absentReason :: "string option"
  j_rating :: "int option"
  j_queuedAt :: "millis option"
  j_arrivedAt :: "millis option"
  j_queueLeftAt :: "millis option"
  j_checkInCount :: int
  j_claimedByAgentId :: "id option"
  j_claimedBySessionId :: "id option"
  j_printError :: "string option"
  j_printAttempts :: int
  j_spoolAcceptedAt :: "millis option"
  j_printConfirmedAt :: "millis option"
  j_printConfirmedById :: "id option"
  j_printCompletionMethod :: "completion_method option"
  j_createdAt :: millis
  j_updatedAt :: millis
  j_refundConfirmedAt :: "millis option"
  j_refundAmountPaise :: "paise option"

definition job_pages :: "job \<Rightarrow> int" where
  "job_pages j = j_pagesPerCopy j * copies (j_specs j)"

subsection \<open>Sample rows for the witnesses\<close>

definition sample_specs :: job_specs where
  "sample_specs = \<lparr>copies = 2, paperSize = ''A4'', color = False, duplex = False, js_binding = None, pageRange = None\<rparr>"

definition sample_job :: "id \<Rightarrow> job_status \<Rightarrow> job" where
  "sample_job i st = \<lparr>j_id = i, j_shopId = ''s'', j_studentId = ''u'', j_fileId = ''f'',
    j_assignedPrinterId = Some ''p'', j_specs = sample_specs, j_pagesPerCopy = 3, j_totalPaise = 1200,
    j_shopBasePaise = 1000, j_platformMarkupPaise = 200, j_platformDiscountPaise = 0,
    j_paymentStatus = Counter_due, j_paymentProvider = Some ''pay_at_shop'', j_paymentOrderId = None,
    j_paymentId = None, j_cashCollectedAt = None, j_counterPaymentMethod = None,
    j_counterPaymentConfirmedAt = None, j_counterPaymentConfirmedById = None,
    j_counterPaymentReference = None, j_counterPaymentAmountPaise = None, j_couponCode = None,
    j_mode = Instant, j_scheduledTime = None, j_status = st, j_otpHash = None, j_otpCode = None,
    j_otpExpiresAt = None, j_releaseCodeDigest = Some ''d'', j_releaseCodeEncrypted = Some ''e'',
    j_releaseCodeGeneratedAt = Some 0, j_nearFrontNotifiedAt = None, j_revealedAt = None,
    j_revealDeadlineAt = None, j_arrivingNotifiedAt = None, j_absentAt = None, j_absentReason = None,
    j_rating = None, j_queuedAt = None, j_arrivedAt = None, j_queueLeftAt = None, j_checkInCount = 0,
    j_claimedByAgentId = None, j_claimedBySessionId = None, j_printError = None, j_printAttempts = 0,
    j_spoolAcceptedAt = None, j_printConfirmedAt = None, j_printConfirmedById = None,
    j_printCompletionMethod = None, j_createdAt = 0, j_updatedAt = 0,
    j_refundConfirmedAt = None, j_refundAmountPaise = None\<rparr>"

end
