(* ===== verification/Job_Columns.thy ===== *)
theory Job_Columns
  imports Job_Types
begin

text \<open>
  The columns of the Job table that a status transition writes (apps/api/src/modules/jobs/transitions.ts,
  lines 10-53): the map of the columns the single-statement path may set, the values they take,
  and reading and writing a column of a row. The four last columns stand for the columns that the map
  does not list.
\<close>

datatype column =
    C_assignedPrinterId | C_claimedByAgentId | C_claimedBySessionId | C_releaseCodeDigest
  | C_releaseCodeEncrypted | C_printConfirmedById | C_printError | C_paymentId
  | C_paymentProvider | C_otpHash | C_otpCode | C_absentReason
  | C_counterPaymentConfirmedById | C_counterPaymentReference | C_counterPaymentAmountPaise | C_releaseCodeGeneratedAt
  | C_queuedAt | C_arrivedAt | C_queueLeftAt | C_nearFrontNotifiedAt
  | C_revealedAt | C_revealDeadlineAt | C_arrivingNotifiedAt | C_absentAt
  | C_spoolAcceptedAt | C_printConfirmedAt | C_otpExpiresAt | C_cashCollectedAt
  | C_counterPaymentConfirmedAt | C_paymentStatus | C_counterPaymentMethod | C_printCompletionMethod
  | C_checkInCount | C_printAttempts | C_couponCode | C_paymentOrderId
  | C_scheduledTime | C_rating

datatype column_kind = KText | KInt | KTs | KPaymentStatus | KCounterMethod | KCompletionMethod | KIncrement

text \<open>The constant map of the columns that the single statement may set; None for a column it does not list.\<close>

primrec FAST_COLUMNS :: "column \<Rightarrow> column_kind option" where
  "FAST_COLUMNS C_assignedPrinterId = Some KText"
| "FAST_COLUMNS C_claimedByAgentId = Some KText"
| "FAST_COLUMNS C_claimedBySessionId = Some KText"
| "FAST_COLUMNS C_releaseCodeDigest = Some KText"
| "FAST_COLUMNS C_releaseCodeEncrypted = Some KText"
| "FAST_COLUMNS C_printConfirmedById = Some KText"
| "FAST_COLUMNS C_printError = Some KText"
| "FAST_COLUMNS C_paymentId = Some KText"
| "FAST_COLUMNS C_paymentProvider = Some KText"
| "FAST_COLUMNS C_otpHash = Some KText"
| "FAST_COLUMNS C_otpCode = Some KText"
| "FAST_COLUMNS C_absentReason = Some KText"
| "FAST_COLUMNS C_counterPaymentConfirmedById = Some KText"
| "FAST_COLUMNS C_counterPaymentReference = Some KText"
| "FAST_COLUMNS C_counterPaymentAmountPaise = Some KInt"
| "FAST_COLUMNS C_releaseCodeGeneratedAt = Some KTs"
| "FAST_COLUMNS C_queuedAt = Some KTs"
| "FAST_COLUMNS C_arrivedAt = Some KTs"
| "FAST_COLUMNS C_queueLeftAt = Some KTs"
| "FAST_COLUMNS C_nearFrontNotifiedAt = Some KTs"
| "FAST_COLUMNS C_revealedAt = Some KTs"
| "FAST_COLUMNS C_revealDeadlineAt = Some KTs"
| "FAST_COLUMNS C_arrivingNotifiedAt = Some KTs"
| "FAST_COLUMNS C_absentAt = Some KTs"
| "FAST_COLUMNS C_spoolAcceptedAt = Some KTs"
| "FAST_COLUMNS C_printConfirmedAt = Some KTs"
| "FAST_COLUMNS C_otpExpiresAt = Some KTs"
| "FAST_COLUMNS C_cashCollectedAt = Some KTs"
| "FAST_COLUMNS C_counterPaymentConfirmedAt = Some KTs"
| "FAST_COLUMNS C_paymentStatus = Some KPaymentStatus"
| "FAST_COLUMNS C_counterPaymentMethod = Some KCounterMethod"
| "FAST_COLUMNS C_printCompletionMethod = Some KCompletionMethod"
| "FAST_COLUMNS C_checkInCount = Some KIncrement"
| "FAST_COLUMNS C_printAttempts = Some KIncrement"
| "FAST_COLUMNS C_couponCode = None"
| "FAST_COLUMNS C_paymentOrderId = None"
| "FAST_COLUMNS C_scheduledTime = None"
| "FAST_COLUMNS C_rating = None"

text \<open>
  A value of \<open>extraData\<close>: null, a string, an integer, a Date, one of the three enumerations, or
  \<open>{increment: n}\<close>.
\<close>

datatype cval =
    VNull | VText string | VInt int | VTs millis | VPay payment_status | VMethod payment_method
  | VCompletion completion_method | VInc int

text \<open>
  The column of a row that holds the given value. A value of another type, or null in a column that is
  not nullable, leaves the row as it is: the callers below check the types first.
\<close>

definition text_cell :: "cval \<Rightarrow> string option \<Rightarrow> string option" where
  "text_cell v old = (case v of VNull \<Rightarrow> None | VText s \<Rightarrow> Some s | _ \<Rightarrow> old)"

definition int_cell :: "cval \<Rightarrow> int option \<Rightarrow> int option" where
  "int_cell v old = (case v of VNull \<Rightarrow> None | VInt n \<Rightarrow> Some n | VInc n \<Rightarrow> map_option (\<lambda>x. x + n) old | _ \<Rightarrow> old)"

definition ts_cell :: "cval \<Rightarrow> millis option \<Rightarrow> millis option" where
  "ts_cell v old = (case v of VNull \<Rightarrow> None | VTs t \<Rightarrow> Some t | _ \<Rightarrow> old)"

definition count_cell :: "cval \<Rightarrow> int \<Rightarrow> int" where
  "count_cell v old = (case v of VInt n \<Rightarrow> n | VInc n \<Rightarrow> old + n | _ \<Rightarrow> old)"

definition pay_cell :: "cval \<Rightarrow> payment_status \<Rightarrow> payment_status" where
  "pay_cell v old = (case v of VPay p \<Rightarrow> p | _ \<Rightarrow> old)"

definition method_cell :: "cval \<Rightarrow> payment_method option \<Rightarrow> payment_method option" where
  "method_cell v old = (case v of VNull \<Rightarrow> None | VMethod m \<Rightarrow> Some m | _ \<Rightarrow> old)"

definition completion_cell :: "cval \<Rightarrow> completion_method option \<Rightarrow> completion_method option" where
  "completion_cell v old = (case v of VNull \<Rightarrow> None | VCompletion m \<Rightarrow> Some m | _ \<Rightarrow> old)"

lemmas cell_defs [simp] = text_cell_def int_cell_def ts_cell_def count_cell_def pay_cell_def method_cell_def completion_cell_def

primrec write_col :: "column \<Rightarrow> cval \<Rightarrow> job \<Rightarrow> job" where
  "write_col C_assignedPrinterId v j = j\<lparr>j_assignedPrinterId := text_cell v (j_assignedPrinterId j)\<rparr>"
| "write_col C_claimedByAgentId v j = j\<lparr>j_claimedByAgentId := text_cell v (j_claimedByAgentId j)\<rparr>"
| "write_col C_claimedBySessionId v j = j\<lparr>j_claimedBySessionId := text_cell v (j_claimedBySessionId j)\<rparr>"
| "write_col C_releaseCodeDigest v j = j\<lparr>j_releaseCodeDigest := text_cell v (j_releaseCodeDigest j)\<rparr>"
| "write_col C_releaseCodeEncrypted v j = j\<lparr>j_releaseCodeEncrypted := text_cell v (j_releaseCodeEncrypted j)\<rparr>"
| "write_col C_printConfirmedById v j = j\<lparr>j_printConfirmedById := text_cell v (j_printConfirmedById j)\<rparr>"
| "write_col C_printError v j = j\<lparr>j_printError := text_cell v (j_printError j)\<rparr>"
| "write_col C_paymentId v j = j\<lparr>j_paymentId := text_cell v (j_paymentId j)\<rparr>"
| "write_col C_paymentProvider v j = j\<lparr>j_paymentProvider := text_cell v (j_paymentProvider j)\<rparr>"
| "write_col C_otpHash v j = j\<lparr>j_otpHash := text_cell v (j_otpHash j)\<rparr>"
| "write_col C_otpCode v j = j\<lparr>j_otpCode := text_cell v (j_otpCode j)\<rparr>"
| "write_col C_absentReason v j = j\<lparr>j_absentReason := text_cell v (j_absentReason j)\<rparr>"
| "write_col C_counterPaymentConfirmedById v j = j\<lparr>j_counterPaymentConfirmedById := text_cell v (j_counterPaymentConfirmedById j)\<rparr>"
| "write_col C_counterPaymentReference v j = j\<lparr>j_counterPaymentReference := text_cell v (j_counterPaymentReference j)\<rparr>"
| "write_col C_counterPaymentAmountPaise v j = j\<lparr>j_counterPaymentAmountPaise := int_cell v (j_counterPaymentAmountPaise j)\<rparr>"
| "write_col C_releaseCodeGeneratedAt v j = j\<lparr>j_releaseCodeGeneratedAt := ts_cell v (j_releaseCodeGeneratedAt j)\<rparr>"
| "write_col C_queuedAt v j = j\<lparr>j_queuedAt := ts_cell v (j_queuedAt j)\<rparr>"
| "write_col C_arrivedAt v j = j\<lparr>j_arrivedAt := ts_cell v (j_arrivedAt j)\<rparr>"
| "write_col C_queueLeftAt v j = j\<lparr>j_queueLeftAt := ts_cell v (j_queueLeftAt j)\<rparr>"
| "write_col C_nearFrontNotifiedAt v j = j\<lparr>j_nearFrontNotifiedAt := ts_cell v (j_nearFrontNotifiedAt j)\<rparr>"
| "write_col C_revealedAt v j = j\<lparr>j_revealedAt := ts_cell v (j_revealedAt j)\<rparr>"
| "write_col C_revealDeadlineAt v j = j\<lparr>j_revealDeadlineAt := ts_cell v (j_revealDeadlineAt j)\<rparr>"
| "write_col C_arrivingNotifiedAt v j = j\<lparr>j_arrivingNotifiedAt := ts_cell v (j_arrivingNotifiedAt j)\<rparr>"
| "write_col C_absentAt v j = j\<lparr>j_absentAt := ts_cell v (j_absentAt j)\<rparr>"
| "write_col C_spoolAcceptedAt v j = j\<lparr>j_spoolAcceptedAt := ts_cell v (j_spoolAcceptedAt j)\<rparr>"
| "write_col C_printConfirmedAt v j = j\<lparr>j_printConfirmedAt := ts_cell v (j_printConfirmedAt j)\<rparr>"
| "write_col C_otpExpiresAt v j = j\<lparr>j_otpExpiresAt := ts_cell v (j_otpExpiresAt j)\<rparr>"
| "write_col C_cashCollectedAt v j = j\<lparr>j_cashCollectedAt := ts_cell v (j_cashCollectedAt j)\<rparr>"
| "write_col C_counterPaymentConfirmedAt v j = j\<lparr>j_counterPaymentConfirmedAt := ts_cell v (j_counterPaymentConfirmedAt j)\<rparr>"
| "write_col C_paymentStatus v j = j\<lparr>j_paymentStatus := pay_cell v (j_paymentStatus j)\<rparr>"
| "write_col C_counterPaymentMethod v j = j\<lparr>j_counterPaymentMethod := method_cell v (j_counterPaymentMethod j)\<rparr>"
| "write_col C_printCompletionMethod v j = j\<lparr>j_printCompletionMethod := completion_cell v (j_printCompletionMethod j)\<rparr>"
| "write_col C_checkInCount v j = j\<lparr>j_checkInCount := count_cell v (j_checkInCount j)\<rparr>"
| "write_col C_printAttempts v j = j\<lparr>j_printAttempts := count_cell v (j_printAttempts j)\<rparr>"
| "write_col C_couponCode v j = j\<lparr>j_couponCode := text_cell v (j_couponCode j)\<rparr>"
| "write_col C_paymentOrderId v j = j\<lparr>j_paymentOrderId := text_cell v (j_paymentOrderId j)\<rparr>"
| "write_col C_scheduledTime v j = j\<lparr>j_scheduledTime := ts_cell v (j_scheduledTime j)\<rparr>"
| "write_col C_rating v j = j\<lparr>j_rating := int_cell v (j_rating j)\<rparr>"

primrec read_col :: "column \<Rightarrow> job \<Rightarrow> cval" where
  "read_col C_assignedPrinterId j = case_option VNull VText (j_assignedPrinterId j)"
| "read_col C_claimedByAgentId j = case_option VNull VText (j_claimedByAgentId j)"
| "read_col C_claimedBySessionId j = case_option VNull VText (j_claimedBySessionId j)"
| "read_col C_releaseCodeDigest j = case_option VNull VText (j_releaseCodeDigest j)"
| "read_col C_releaseCodeEncrypted j = case_option VNull VText (j_releaseCodeEncrypted j)"
| "read_col C_printConfirmedById j = case_option VNull VText (j_printConfirmedById j)"
| "read_col C_printError j = case_option VNull VText (j_printError j)"
| "read_col C_paymentId j = case_option VNull VText (j_paymentId j)"
| "read_col C_paymentProvider j = case_option VNull VText (j_paymentProvider j)"
| "read_col C_otpHash j = case_option VNull VText (j_otpHash j)"
| "read_col C_otpCode j = case_option VNull VText (j_otpCode j)"
| "read_col C_absentReason j = case_option VNull VText (j_absentReason j)"
| "read_col C_counterPaymentConfirmedById j = case_option VNull VText (j_counterPaymentConfirmedById j)"
| "read_col C_counterPaymentReference j = case_option VNull VText (j_counterPaymentReference j)"
| "read_col C_counterPaymentAmountPaise j = case_option VNull VInt (j_counterPaymentAmountPaise j)"
| "read_col C_releaseCodeGeneratedAt j = case_option VNull VTs (j_releaseCodeGeneratedAt j)"
| "read_col C_queuedAt j = case_option VNull VTs (j_queuedAt j)"
| "read_col C_arrivedAt j = case_option VNull VTs (j_arrivedAt j)"
| "read_col C_queueLeftAt j = case_option VNull VTs (j_queueLeftAt j)"
| "read_col C_nearFrontNotifiedAt j = case_option VNull VTs (j_nearFrontNotifiedAt j)"
| "read_col C_revealedAt j = case_option VNull VTs (j_revealedAt j)"
| "read_col C_revealDeadlineAt j = case_option VNull VTs (j_revealDeadlineAt j)"
| "read_col C_arrivingNotifiedAt j = case_option VNull VTs (j_arrivingNotifiedAt j)"
| "read_col C_absentAt j = case_option VNull VTs (j_absentAt j)"
| "read_col C_spoolAcceptedAt j = case_option VNull VTs (j_spoolAcceptedAt j)"
| "read_col C_printConfirmedAt j = case_option VNull VTs (j_printConfirmedAt j)"
| "read_col C_otpExpiresAt j = case_option VNull VTs (j_otpExpiresAt j)"
| "read_col C_cashCollectedAt j = case_option VNull VTs (j_cashCollectedAt j)"
| "read_col C_counterPaymentConfirmedAt j = case_option VNull VTs (j_counterPaymentConfirmedAt j)"
| "read_col C_paymentStatus j = VPay (j_paymentStatus j)"
| "read_col C_counterPaymentMethod j = case_option VNull VMethod (j_counterPaymentMethod j)"
| "read_col C_printCompletionMethod j = case_option VNull VCompletion (j_printCompletionMethod j)"
| "read_col C_checkInCount j = VInt (j_checkInCount j)"
| "read_col C_printAttempts j = VInt (j_printAttempts j)"
| "read_col C_couponCode j = case_option VNull VText (j_couponCode j)"
| "read_col C_paymentOrderId j = case_option VNull VText (j_paymentOrderId j)"
| "read_col C_scheduledTime j = case_option VNull VTs (j_scheduledTime j)"
| "read_col C_rating j = case_option VNull VInt (j_rating j)"

primrec prisma_kind :: "column \<Rightarrow> column_kind" where
  "prisma_kind C_assignedPrinterId = KText"
| "prisma_kind C_claimedByAgentId = KText"
| "prisma_kind C_claimedBySessionId = KText"
| "prisma_kind C_releaseCodeDigest = KText"
| "prisma_kind C_releaseCodeEncrypted = KText"
| "prisma_kind C_printConfirmedById = KText"
| "prisma_kind C_printError = KText"
| "prisma_kind C_paymentId = KText"
| "prisma_kind C_paymentProvider = KText"
| "prisma_kind C_otpHash = KText"
| "prisma_kind C_otpCode = KText"
| "prisma_kind C_absentReason = KText"
| "prisma_kind C_counterPaymentConfirmedById = KText"
| "prisma_kind C_counterPaymentReference = KText"
| "prisma_kind C_counterPaymentAmountPaise = KInt"
| "prisma_kind C_releaseCodeGeneratedAt = KTs"
| "prisma_kind C_queuedAt = KTs"
| "prisma_kind C_arrivedAt = KTs"
| "prisma_kind C_queueLeftAt = KTs"
| "prisma_kind C_nearFrontNotifiedAt = KTs"
| "prisma_kind C_revealedAt = KTs"
| "prisma_kind C_revealDeadlineAt = KTs"
| "prisma_kind C_arrivingNotifiedAt = KTs"
| "prisma_kind C_absentAt = KTs"
| "prisma_kind C_spoolAcceptedAt = KTs"
| "prisma_kind C_printConfirmedAt = KTs"
| "prisma_kind C_otpExpiresAt = KTs"
| "prisma_kind C_cashCollectedAt = KTs"
| "prisma_kind C_counterPaymentConfirmedAt = KTs"
| "prisma_kind C_paymentStatus = KPaymentStatus"
| "prisma_kind C_counterPaymentMethod = KCounterMethod"
| "prisma_kind C_printCompletionMethod = KCompletionMethod"
| "prisma_kind C_checkInCount = KIncrement"
| "prisma_kind C_printAttempts = KIncrement"
| "prisma_kind C_couponCode = KText"
| "prisma_kind C_paymentOrderId = KText"
| "prisma_kind C_scheduledTime = KTs"
| "prisma_kind C_rating = KInt"

end
