(* ===== verification/Claim_Once.thy ===== *)
theory Claim_Once
  imports Prelude
begin

text \<open>
  The interface of an optimistic (compare-and-set) write: an attempt wins only while the resource is
  free, and a winning attempt leaves it taken. The conditional updates of the program (status
  transitions, payment settlement, refunds, payouts) provide it; their clients rely on the lemmas below,
  which say what a sequence of competing attempts can do.
\<close>

text \<open>The winners of a sequence of attempts, in order, and the state they leave.\<close>

fun race :: "('c \<Rightarrow> 's \<Rightarrow> 's option) \<Rightarrow> 'c list \<Rightarrow> 's \<Rightarrow> 'c list \<times> 's" where
  "race attempt [] s = ([], s)"
| "race attempt (c # cs) s = (case attempt c s of
      None \<Rightarrow> race attempt cs s
    | Some s' \<Rightarrow> (let (ws, t) = race attempt cs s' in (c # ws, t)))"

text \<open>
  \<open>ok\<close> are the well-formed attempts and \<open>inv\<close> is the invariant of the store (its keys are unique, say).
\<close>

locale claim_once =
  fixes attempt :: "'c \<Rightarrow> 's \<Rightarrow> 's option"
    and free :: "'s \<Rightarrow> bool"
    and ok :: "'c \<Rightarrow> bool"
    and inv :: "'s \<Rightarrow> bool"
  assumes won_was_free: "ok c \<Longrightarrow> inv s \<Longrightarrow> attempt c s = Some s' \<Longrightarrow> free s"
    and won_takes: "ok c \<Longrightarrow> inv s \<Longrightarrow> attempt c s = Some s' \<Longrightarrow> \<not> free s'"
    and won_keeps: "ok c \<Longrightarrow> inv s \<Longrightarrow> attempt c s = Some s' \<Longrightarrow> inv s'"
begin

lemma lost_when_taken: "ok c \<Longrightarrow> inv s \<Longrightarrow> \<not> free s \<Longrightarrow> attempt c s = None"
  using won_was_free by (cases "attempt c s") auto

lemma race_taken: "inv s \<Longrightarrow> \<not> free s \<Longrightarrow> list_all ok cs \<Longrightarrow> race attempt cs s = ([], s)"
  by (induction cs) (simp_all add: lost_when_taken)

lemma race_result:
  assumes "inv s" "list_all ok cs"
  shows "race attempt cs s = ([], s) \<or> (\<exists>c s'. c \<in> set cs \<and> attempt c s = Some s' \<and> race attempt cs s = ([c], s'))"
  using assms
proof (induction cs)
  case Nil
  then show ?case by simp
next
  case (Cons c cs)
  show ?case
  proof (cases "attempt c s")
    case None
    with Cons show ?thesis by auto
  next
    case (Some s')
    have "ok c" "inv s" "list_all ok cs" using Cons.prems by simp_all
    then have "race attempt cs s' = ([], s')"
      using Some won_takes won_keeps by (intro race_taken) blast+
    with Some show ?thesis by simp
  qed
qed

lemma at_most_one_winner:
  "inv s \<Longrightarrow> list_all ok cs \<Longrightarrow> length (fst (race attempt cs s)) \<le> 1"
  using race_result [of s cs] by fastforce

lemma race_keeps:
  "inv s \<Longrightarrow> list_all ok cs \<Longrightarrow> inv (snd (race attempt cs s))"
  using race_result [of s cs] won_keeps by (auto simp: list_all_iff)

lemma second_attempt_lost: "ok c \<Longrightarrow> ok e \<Longrightarrow> inv s \<Longrightarrow> attempt c s = Some s' \<Longrightarrow> attempt e s' = None"
  using won_takes won_keeps lost_when_taken by blast

end

text \<open>A write that may be repeated: the second one finds its own effect and changes nothing.\<close>

locale write_once =
  fixes put :: "'c \<Rightarrow> 's \<Rightarrow> 's"
  assumes rewrite: "put c (put c s) = put c s"
begin

lemma replays: "(put c ^^ Suc n) s = put c s"
  by (induction n) (simp_all add: rewrite)

lemma replay_list: "fold put (replicate (Suc n) c) s = put c s"
  by (induction n arbitrary: s) (simp_all add: rewrite)

end

end
