(* ===== verification/Transitions.thy ===== *)
theory Transitions
  imports Job_Columns Claim_Once
begin

text \<open>
  apps/api/src/modules/jobs/transitions.ts: \<open>applyTransition\<close>, the one sanctioned way to change a
  job's status. The single-statement path is modelled as the SQL it builds (a list of SET clauses and of
  WHERE conditions) and the execution of that statement; the transaction path as Prisma's conditional
  update followed by the two inserts. The clock is the argument \<open>now\<close>. The random ids of the audit
  and outbox rows are not modelled: an outbox row names its audit row by position.
\<close>

record job_event_row =
  e_jobId :: id
  e_fromStatus :: job_status
  e_toStatus :: job_status
  e_event :: string
  e_actor :: actor
  e_at :: millis

text \<open>A payment event is found by its provider's event id, which is unique.\<close>

record payment_event_row =
  pe_providerEventId :: string
  pe_provider :: string
  pe_jobId :: "id option"
  pe_amountPaise :: "paise option"

record db =
  jobs :: "job list"
  jobEvents :: "job_event_row list"
  outbox :: "(nat \<times> id) list"
  paymentEvents :: "payment_event_row list"

subsection \<open>Building the statement\<close>

datatype sql_set = SetNull column | SetTo column cval | SetInc column int

definition setClause :: "column \<Rightarrow> column_kind \<Rightarrow> cval \<Rightarrow> sql_set option" where
  "setClause c k v = (if k = KIncrement then (case v of VInc n \<Rightarrow> Some (SetInc c n) | _ \<Rightarrow> None)
    else if v = VNull then Some (SetNull c)
    else (case (k, v) of
        (KText, VText s) \<Rightarrow> Some (SetTo c v)
      | (KInt, VInt n) \<Rightarrow> Some (SetTo c v)
      | (KTs, VTs t) \<Rightarrow> Some (SetTo c v)
      | (KPaymentStatus, VPay p) \<Rightarrow> Some (SetTo c v)
      | (KCounterMethod, VMethod m) \<Rightarrow> Some (SetTo c v)
      | (KCompletionMethod, VCompletion m) \<Rightarrow> Some (SetTo c v)
      | _ \<Rightarrow> None))"

text \<open>A guard: per column null, a string, or an object of operators (\<open>gt\<close> stands for the unsupported ones).\<close>

datatype ts_op = Op_not_null | Op_lte millis | Op_gt millis
datatype guard_cond = G_null | G_text string | G_ops "ts_op list"
type_synonym guard = "(column \<times> guard_cond) list"

datatype sql_cond = IsNull column | EqText column string | IsNotNull column | LteTs column millis

definition GUARD_TS_COLUMNS :: "column list" where
  "GUARD_TS_COLUMNS = [C_revealedAt, C_revealDeadlineAt]"

definition GUARD_TEXT_COLUMNS :: "column list" where
  "GUARD_TEXT_COLUMNS = [C_claimedByAgentId, C_claimedBySessionId]"

definition GUARD_NULL_ONLY_COLUMNS :: "column list" where
  "GUARD_NULL_ONLY_COLUMNS = [C_spoolAcceptedAt]"

fun op_clauses :: "column \<Rightarrow> ts_op list \<Rightarrow> sql_cond list option" where
  "op_clauses c [] = Some []"
| "op_clauses c (Op_not_null # ops) = map_option ((#) (IsNotNull c)) (op_clauses c ops)"
| "op_clauses c (Op_lte t # ops) = map_option ((#) (LteTs c t)) (op_clauses c ops)"
| "op_clauses c (Op_gt t # ops) = None"

definition column_clauses :: "column \<Rightarrow> guard_cond \<Rightarrow> sql_cond list option" where
  "column_clauses c g = (case g of
      G_null \<Rightarrow> if c \<in> set GUARD_TEXT_COLUMNS \<or> c \<in> set GUARD_NULL_ONLY_COLUMNS then Some [IsNull c] else None
    | G_text s \<Rightarrow> if c \<in> set GUARD_TEXT_COLUMNS then Some [EqText c s] else None
    | G_ops ops \<Rightarrow> if c \<in> set GUARD_TS_COLUMNS then op_clauses c ops else None)"

fun guardClauses :: "guard \<Rightarrow> sql_cond list option" where
  "guardClauses [] = Some []"
| "guardClauses ((c, g) # gs) = (case column_clauses c g of
      None \<Rightarrow> None | Some cs \<Rightarrow> map_option ((@) cs) (guardClauses gs))"

fun setClauses :: "(column \<times> cval) list \<Rightarrow> sql_set list option" where
  "setClauses [] = Some []"
| "setClauses ((c, v) # rest) = (case FAST_COLUMNS c of None \<Rightarrow> None
    | Some k \<Rightarrow> (case setClause c k v of None \<Rightarrow> None | Some s \<Rightarrow> map_option ((#) s) (setClauses rest)))"

definition fastPathSql :: "(column \<times> cval) list \<Rightarrow> guard \<Rightarrow> (sql_set list \<times> sql_cond list) option" where
  "fastPathSql extra g = (case setClauses extra of None \<Rightarrow> None
    | Some sets \<Rightarrow> (case guardClauses g of None \<Rightarrow> None | Some conds \<Rightarrow> Some (sets, conds)))"

subsection \<open>Executing it\<close>

primrec exec_set :: "sql_set \<Rightarrow> job \<Rightarrow> job" where
  "exec_set (SetNull c) j = write_col c VNull j"
| "exec_set (SetTo c v) j = write_col c v j"
| "exec_set (SetInc c n) j = write_col c (VInc n) j"

definition lte_at :: "cval \<Rightarrow> millis \<Rightarrow> bool" where
  "lte_at v t = (case v of VTs x \<Rightarrow> x \<le> t | _ \<Rightarrow> False)"

definition gt_at :: "cval \<Rightarrow> millis \<Rightarrow> bool" where
  "gt_at v t = (case v of VTs x \<Rightarrow> t < x | _ \<Rightarrow> False)"

primrec exec_cond :: "sql_cond \<Rightarrow> job \<Rightarrow> bool" where
  "exec_cond (IsNull c) j = (read_col c j = VNull)"
| "exec_cond (EqText c s) j = (read_col c j = VText s)"
| "exec_cond (IsNotNull c) j = (read_col c j \<noteq> VNull)"
| "exec_cond (LteTs c t) j = lte_at (read_col c j) t"

definition mk_event :: "id \<Rightarrow> job_status \<Rightarrow> job_status \<Rightarrow> string \<Rightarrow> actor \<Rightarrow> millis \<Rightarrow> job_event_row" where
  "mk_event k from to label act now = \<lparr>e_jobId = k, e_fromStatus = from, e_toStatus = to, e_event = label,
    e_actor = act, e_at = now\<rparr>"

definition stamp :: "job_status \<Rightarrow> millis \<Rightarrow> job \<Rightarrow> job" where
  "stamp to now j = j\<lparr>j_status := to, j_updatedAt := now\<rparr>"

text \<open>The statement: update, one audit row per updated row, one outbox row per audit row, the first row returned.\<close>

definition run_fast :: "id \<Rightarrow> job_status \<Rightarrow> job_status \<Rightarrow> string \<Rightarrow> actor \<Rightarrow> sql_set list \<Rightarrow> sql_cond list \<Rightarrow> millis
    \<Rightarrow> db \<Rightarrow> (job option \<times> db) result" where
  "run_fast k from to label act sets conds now d =
    (let hit = (\<lambda>j. j_id j = k \<and> j_status j = from \<and> list_all (\<lambda>c. exec_cond c j) conds);
         write = (\<lambda>j. stamp to now (fold exec_set sets j));
         upd = map write (filter hit (jobs d));
         n = length (jobEvents d)
     in if upd \<noteq> [] \<and> SetNull C_paymentStatus \<in> set sets then Inl (Thrown ''23502'')
        else Inr (case upd of [] \<Rightarrow> None | j # _ \<Rightarrow> Some j,
          d\<lparr>jobs := update_where hit write (jobs d),
            jobEvents := jobEvents d @ map (\<lambda>j. mk_event (j_id j) from to label act now) upd,
            outbox := outbox d @ map (\<lambda>i. (n + i, k)) [0..<length upd]\<rparr>))"

subsection \<open>The transaction path\<close>

definition prisma_value_ok :: "column_kind \<Rightarrow> cval \<Rightarrow> bool" where
  "prisma_value_ok k v = (case k of
      KText \<Rightarrow> (case v of VNull \<Rightarrow> True | VText _ \<Rightarrow> True | _ \<Rightarrow> False)
    | KInt \<Rightarrow> (case v of VNull \<Rightarrow> True | VInt _ \<Rightarrow> True | VInc _ \<Rightarrow> True | _ \<Rightarrow> False)
    | KTs \<Rightarrow> (case v of VNull \<Rightarrow> True | VTs _ \<Rightarrow> True | _ \<Rightarrow> False)
    | KPaymentStatus \<Rightarrow> (case v of VPay _ \<Rightarrow> True | _ \<Rightarrow> False)
    | KCounterMethod \<Rightarrow> (case v of VNull \<Rightarrow> True | VMethod _ \<Rightarrow> True | _ \<Rightarrow> False)
    | KCompletionMethod \<Rightarrow> (case v of VNull \<Rightarrow> True | VCompletion _ \<Rightarrow> True | _ \<Rightarrow> False)
    | KIncrement \<Rightarrow> (case v of VInt _ \<Rightarrow> True | VInc _ \<Rightarrow> True | _ \<Rightarrow> False))"

definition prisma_guard_ok :: "column_kind \<Rightarrow> guard_cond \<Rightarrow> bool" where
  "prisma_guard_ok k g = (case g of G_null \<Rightarrow> k \<noteq> KIncrement \<and> k \<noteq> KPaymentStatus
    | G_text _ \<Rightarrow> k = KText | G_ops _ \<Rightarrow> k = KTs)"

primrec op_holds :: "cval \<Rightarrow> ts_op \<Rightarrow> bool" where
  "op_holds v Op_not_null = (v \<noteq> VNull)"
| "op_holds v (Op_lte t) = lte_at v t"
| "op_holds v (Op_gt t) = gt_at v t"

definition guard_holds :: "guard \<Rightarrow> job \<Rightarrow> bool" where
  "guard_holds g j = list_all (\<lambda>(c, gc). case gc of
      G_null \<Rightarrow> read_col c j = VNull
    | G_text s \<Rightarrow> read_col c j = VText s
    | G_ops ops \<Rightarrow> list_all (op_holds (read_col c j)) ops) g"

definition write_cols :: "(column \<times> cval) list \<Rightarrow> job \<Rightarrow> job" where
  "write_cols extra j = fold (\<lambda>(c, v). write_col c v) extra j"

definition prisma_ok :: "(column \<times> cval) list \<Rightarrow> guard \<Rightarrow> bool" where
  "prisma_ok extra g = (list_all (\<lambda>(c, v). prisma_value_ok (prisma_kind c) v) extra
    \<and> list_all (\<lambda>(c, gc). prisma_guard_ok (prisma_kind c) gc) g)"

definition run_tx :: "id \<Rightarrow> job_status \<Rightarrow> job_status \<Rightarrow> string \<Rightarrow> actor \<Rightarrow> (column \<times> cval) list \<Rightarrow> guard \<Rightarrow> millis
    \<Rightarrow> db \<Rightarrow> (job option \<times> db) result" where
  "run_tx k from to label act extra g now d =
    (if \<not> prisma_ok extra g then Inl (Thrown ''PrismaClientValidationError'')
     else let hit = (\<lambda>j. j_id j = k \<and> j_status j = from \<and> guard_holds g j);
              write = (\<lambda>j. stamp to now (write_cols extra j))
       in case map write (filter hit (jobs d)) of
          [] \<Rightarrow> Inr (None, d)
        | updated # _ \<Rightarrow> Inr (Some updated,
            d\<lparr>jobs := update_where hit write (jobs d),
              jobEvents := jobEvents d @ [mk_event k from to label act now],
              outbox := outbox d @ [(length (jobEvents d), k)]\<rparr>))"

subsection \<open>applyTransition\<close>

text \<open>The name of an event, the default audit label.\<close>

primrec event_name :: "job_event \<Rightarrow> string" where
  "event_name PAYMENT_CONFIRMED = ''PAYMENT_CONFIRMED''"
| "event_name CASH_SELECTED = ''CASH_SELECTED''"
| "event_name ARRIVED = ''ARRIVED''"
| "event_name QUEUE_SKIPPED = ''QUEUE_SKIPPED''"
| "event_name COUNTER_RELEASE = ''COUNTER_RELEASE''"
| "event_name FRONT_REACHED = ''FRONT_REACHED''"
| "event_name OTP_VERIFIED = ''OTP_VERIFIED''"
| "event_name PRINT_STARTED = ''PRINT_STARTED''"
| "event_name PRINT_COMPLETED = ''PRINT_COMPLETED''"
| "event_name FINISHING_REQUIRED = ''FINISHING_REQUIRED''"
| "event_name FINISHING_COMPLETED = ''FINISHING_COMPLETED''"
| "event_name PRINT_FAILED = ''PRINT_FAILED''"
| "event_name CASH_RETURNED = ''CASH_RETURNED''"
| "event_name COUNTER_PAYMENT_RETURNED = ''COUNTER_PAYMENT_RETURNED''"
| "event_name HANDED_OVER = ''HANDED_OVER''"
| "event_name CANCEL = ''CANCEL''"

record transition_request =
  t_from :: job_status
  t_event :: job_event
  t_actor :: actor
  t_extra :: "(column \<times> cval) list"
  t_audit :: "string option"
  t_guard :: guard
  t_now :: millis

definition audit_label :: "transition_request \<Rightarrow> string" where
  "audit_label r = (case t_audit r of None \<Rightarrow> event_name (t_event r) | Some a \<Rightarrow> a)"

definition applyTransition :: "id \<Rightarrow> transition_request \<Rightarrow> db \<Rightarrow> (job option \<times> db) result" where
  "applyTransition k r d = (case transition (t_from r) (t_event r) of
      Inl e \<Rightarrow> Inl e
    | Inr to \<Rightarrow> (case fastPathSql (t_extra r) (t_guard r) of
        Some (sets, conds) \<Rightarrow> run_fast k (t_from r) to (audit_label r) (t_actor r) sets conds (t_now r) d
      | None \<Rightarrow> run_tx k (t_from r) to (audit_label r) (t_actor r) (t_extra r) (t_guard r) (t_now r) d))"

subsection \<open>What the column writes leave alone\<close>

lemma write_col_frame [simp]:
  "j_id (write_col c v j) = j_id j"
  "j_status (write_col c v j) = j_status j"
  "j_shopId (write_col c v j) = j_shopId j"
  "j_studentId (write_col c v j) = j_studentId j"
  "j_fileId (write_col c v j) = j_fileId j"
  "j_totalPaise (write_col c v j) = j_totalPaise j"
  "j_specs (write_col c v j) = j_specs j"
  "j_createdAt (write_col c v j) = j_createdAt j"
  by (cases c; simp)+

lemma fold_write_frame:
  "j_id (fold (\<lambda>(c, v). write_col c v) extra j) = j_id j"
  "j_status (fold (\<lambda>(c, v). write_col c v) extra j) = j_status j"
  "j_shopId (fold (\<lambda>(c, v). write_col c v) extra j) = j_shopId j"
  "j_studentId (fold (\<lambda>(c, v). write_col c v) extra j) = j_studentId j"
  "j_fileId (fold (\<lambda>(c, v). write_col c v) extra j) = j_fileId j"
  "j_totalPaise (fold (\<lambda>(c, v). write_col c v) extra j) = j_totalPaise j"
  "j_createdAt (fold (\<lambda>(c, v). write_col c v) extra j) = j_createdAt j"
  by (induction extra arbitrary: j; auto)+

lemma write_cols_frame [simp]:
  "j_id (write_cols extra j) = j_id j"
  "j_status (write_cols extra j) = j_status j"
  "j_shopId (write_cols extra j) = j_shopId j"
  "j_studentId (write_cols extra j) = j_studentId j"
  "j_fileId (write_cols extra j) = j_fileId j"
  "j_totalPaise (write_cols extra j) = j_totalPaise j"
  "j_createdAt (write_cols extra j) = j_createdAt j"
  by (simp_all add: write_cols_def fold_write_frame)

lemma write_cols_simps [simp]:
  "write_cols [] j = j"
  "write_cols ((c, v) # extra) j = write_cols extra (write_col c v j)"
  by (simp_all add: write_cols_def)

lemma guard_holds_simps [simp]:
  "guard_holds [] j"
  "guard_holds ((c, gc) # g) j \<longleftrightarrow> (case gc of
      G_null \<Rightarrow> read_col c j = VNull
    | G_text s \<Rightarrow> read_col c j = VText s
    | G_ops ops \<Rightarrow> list_all (op_holds (read_col c j)) ops) \<and> guard_holds g j"
  by (simp_all add: guard_holds_def)

lemma prisma_ok_simps [simp]:
  "prisma_ok [] []"
  "prisma_ok ((c, v) # extra) g \<longleftrightarrow> prisma_value_ok (prisma_kind c) v \<and> prisma_ok extra g"
  "prisma_ok [] ((c, gc) # g) \<longleftrightarrow> prisma_guard_ok (prisma_kind c) gc \<and> prisma_ok [] g"
  by (auto simp: prisma_ok_def)

lemma prisma_value_ok_simps [simp]:
  "prisma_value_ok KText VNull" "prisma_value_ok KText (VText s)"
  "prisma_value_ok KInt VNull" "prisma_value_ok KInt (VInt n)"
  "prisma_value_ok KTs VNull" "prisma_value_ok KTs (VTs t)"
  "prisma_value_ok KPaymentStatus (VPay p)"
  "prisma_value_ok KCounterMethod VNull" "prisma_value_ok KCounterMethod (VMethod m)"
  "prisma_value_ok KCompletionMethod VNull" "prisma_value_ok KCompletionMethod (VCompletion q)"
  "prisma_value_ok KIncrement (VInc n)"
  by (simp_all add: prisma_value_ok_def)

lemma prisma_guard_ok_simps [simp]:
  "prisma_guard_ok KText G_null" "prisma_guard_ok KTs G_null" "prisma_guard_ok KText (G_text s)"
  "prisma_guard_ok KTs (G_ops ops)"
  by (simp_all add: prisma_guard_ok_def)

lemma stamp_simps [simp]:
  "j_id (stamp to now j) = j_id j" "j_status (stamp to now j) = to"
  by (simp_all add: stamp_def)

subsection \<open>The statement does what the transaction does\<close>

lemma op_clauses_sem:
  "op_clauses c ops = Some cs \<Longrightarrow> list_all (\<lambda>x. exec_cond x j) cs = list_all (op_holds (read_col c j)) ops"
  by (induction c ops arbitrary: cs rule: op_clauses.induct) auto

lemma column_clauses_sem:
  "column_clauses c gc = Some cs \<Longrightarrow> list_all (\<lambda>x. exec_cond x j) cs = guard_holds [(c, gc)] j"
  by (auto simp: column_clauses_def op_clauses_sem split: guard_cond.splits if_splits)

lemma guardClauses_sem:
  "guardClauses g = Some cs \<Longrightarrow> list_all (\<lambda>x. exec_cond x j) cs = guard_holds g j"
proof (induction g arbitrary: cs rule: guardClauses.induct)
  case (2 c gc gs)
  then show ?case
    using column_clauses_sem [of c gc _ j] by (fastforce split: option.splits)
qed simp

lemma setClause_sem: "setClause c k v = Some s \<Longrightarrow> exec_set s j = write_col c v j"
  by (auto simp: setClause_def split: if_splits column_kind.splits cval.splits)

lemma setClauses_sem: "setClauses extra = Some sets \<Longrightarrow> fold exec_set sets j = write_cols extra j"
proof (induction extra arbitrary: sets j rule: setClauses.induct)
  case (2 c v rest)
  then show ?case
    using setClause_sem [of c _ v _ j] by (fastforce split: option.splits)
qed simp

lemma setClause_null:
  "setClause c k v = Some (SetNull b) \<Longrightarrow> b = c \<and> v = VNull"
  by (auto simp: setClause_def split: if_splits column_kind.splits cval.splits)

lemma no_null_payment:
  "setClauses extra = Some sets \<Longrightarrow> list_all (\<lambda>(c, v). prisma_value_ok (prisma_kind c) v) extra
    \<Longrightarrow> SetNull C_paymentStatus \<notin> set sets"
proof (induction extra arbitrary: sets rule: setClauses.induct)
  case (2 c v rest)
  then show ?case
    by (auto simp: prisma_value_ok_def dest!: setClause_null split: option.splits)
qed simp

lemma unique_hit:
  assumes "distinct (map j_id js)"
  shows "filter (\<lambda>j. j_id j = k \<and> P j) js
    = (case find (\<lambda>j. j_id j = k \<and> P j) js of None \<Rightarrow> [] | Some j \<Rightarrow> [j])"
  using assms
proof (induction js)
  case (Cons a js)
  show ?case
  proof (cases "j_id a = k \<and> P a")
    case True
    with Cons.prems have "filter (\<lambda>j. j_id j = k \<and> P j) js = []"
      by (auto simp: filter_empty_conv) (metis image_eqI)
    with True show ?thesis by simp
  next
    case False
    with Cons show ?thesis by auto
  qed
qed simp

lemma run_fast_eq_run_tx:
  assumes "distinct (map j_id (jobs d))" "fastPathSql extra g = Some (sets, conds)" "prisma_ok extra g"
  shows "run_fast k from to label act sets conds now d = run_tx k from to label act extra g now d"
proof -
  from assms(2) have s: "setClauses extra = Some sets" and c: "guardClauses g = Some conds"
    by (auto simp: fastPathSql_def split: option.splits)
  have nn: "SetNull C_paymentStatus \<notin> set sets"
    using no_null_payment [OF s] assms(3) by (simp add: prisma_ok_def)
  show ?thesis
    using assms(3)
    by (simp add: run_fast_def run_tx_def Let_def nn guardClauses_sem [OF c] setClauses_sem [OF s]
        unique_hit [OF assms(1)] update_where_none find_None_iff split: option.splits)
       (auto simp: find_None_iff update_where_none dest!: find_SomeD)
qed

subsection \<open>The contract of applyTransition\<close>

text \<open>
  What the callers rely on: the row with that id, in the expected status and satisfying the guard, is
  rewritten and one audit and one outbox row are appended; otherwise nothing happens and the result is
  None.
\<close>

definition target :: "id \<Rightarrow> transition_request \<Rightarrow> db \<Rightarrow> job option" where
  "target k r d = find (\<lambda>j. j_id j = k \<and> j_status j = t_from r \<and> guard_holds (t_guard r) j) (jobs d)"

definition rewritten :: "transition_request \<Rightarrow> job_status \<Rightarrow> job \<Rightarrow> job" where
  "rewritten r to j = stamp to (t_now r) (write_cols (t_extra r) j)"

definition commit :: "id \<Rightarrow> transition_request \<Rightarrow> job_status \<Rightarrow> job \<Rightarrow> db \<Rightarrow> db" where
  "commit k r to j d = d\<lparr>
      jobs := update_where (\<lambda>x. j_id x = k) (\<lambda>_. rewritten r to j) (jobs d),
      jobEvents := jobEvents d @ [mk_event k (t_from r) to (audit_label r) (t_actor r) (t_now r)],
      outbox := outbox d @ [(length (jobEvents d), k)]\<rparr>"

definition well_formed :: "transition_request \<Rightarrow> bool" where
  "well_formed r = prisma_ok (t_extra r) (t_guard r)"

definition unique_ids :: "db \<Rightarrow> bool" where
  "unique_ids d = distinct (map j_id (jobs d))"

lemma update_hit_single:
  assumes "distinct (map j_id js)" "find (\<lambda>j. j_id j = k \<and> P j) js = Some j"
  shows "update_where (\<lambda>x. j_id x = k \<and> P x) f js = update_where (\<lambda>x. j_id x = k) (\<lambda>_. f j) js"
proof -
  have j: "j \<in> set js" "j_id j = k" "P j"
    using assms(2) by (auto dest: find_SomeD)
  have "(if j_id x = k \<and> P x then f x else x) = (if j_id x = k then f j else x)" if "x \<in> set js" for x
  proof (cases "j_id x = k")
    case True
    then have "x = j" using distinct_key_eq [OF assms(1) that j(1)] j(2) by simp
    then show ?thesis using j by simp
  qed simp
  then show ?thesis by (simp add: update_where_def)
qed

lemma applyTransition_spec:
  assumes "unique_ids d" "well_formed r"
  shows "applyTransition k r d = (case TRANSITIONS (t_from r) (t_event r) of
      None \<Rightarrow> Inl InvalidTransition
    | Some to \<Rightarrow> Inr (case target k r d of
        None \<Rightarrow> (None, d)
      | Some j \<Rightarrow> (Some (rewritten r to j), commit k r to j d)))"
proof (cases "TRANSITIONS (t_from r) (t_event r)")
  case None
  then show ?thesis by (simp add: applyTransition_def transition_def)
next
  case (Some to)
  have ids: "distinct (map j_id (jobs d))"
    using assms(1) by (simp add: unique_ids_def)
  have "applyTransition k r d = run_tx k (t_from r) to (audit_label r) (t_actor r) (t_extra r) (t_guard r) (t_now r) d"
  proof (cases "fastPathSql (t_extra r) (t_guard r)")
    case None
    then show ?thesis by (simp add: applyTransition_def transition_def Some)
  next
    case (Some sc)
    obtain sets conds where "sc = (sets, conds)" by (cases sc)
    with Some run_fast_eq_run_tx [OF ids, of "t_extra r" "t_guard r" sets conds] assms(2) show ?thesis
      by (simp add: applyTransition_def transition_def \<open>TRANSITIONS (t_from r) (t_event r) = Some to\<close> well_formed_def)
  qed
  also have "\<dots> = Inr (case target k r d of None \<Rightarrow> (None, d)
      | Some j \<Rightarrow> (Some (rewritten r to j), commit k r to j d))"
    using assms(2) ids
    by (simp add: run_tx_def Let_def well_formed_def unique_hit target_def commit_def rewritten_def
        update_hit_single split: option.splits)
  finally show ?thesis by (simp add: Some)
qed

lemma target_SomeD:
  "target k r d = Some j \<Longrightarrow> j \<in> set (jobs d) \<and> j_id j = k \<and> j_status j = t_from r \<and> guard_holds (t_guard r) j"
  by (auto simp: target_def dest: find_SomeD)

lemma rewritten_simps [simp]:
  "j_id (rewritten r to j) = j_id j" "j_status (rewritten r to j) = to"
  "j_shopId (rewritten r to j) = j_shopId j" "j_studentId (rewritten r to j) = j_studentId j"
  "j_fileId (rewritten r to j) = j_fileId j" "j_totalPaise (rewritten r to j) = j_totalPaise j"
  by (simp_all add: rewritten_def stamp_def)

lemma commit_ids:
  assumes "j_id j = k"
  shows "map j_id (jobs (commit k r to j d)) = map j_id (jobs d)"
  using assms by (simp add: commit_def update_where_def)

lemma unique_ids_commit: "unique_ids d \<Longrightarrow> j_id j = k \<Longrightarrow> unique_ids (commit k r to j d)"
  by (simp add: unique_ids_def commit_ids)

lemma applyTransition_won:
  assumes "unique_ids d" "well_formed r" "applyTransition k r d = Inr (Some j', d')"
  obtains to j where "TRANSITIONS (t_from r) (t_event r) = Some to" "target k r d = Some j"
    "j' = rewritten r to j" "d' = commit k r to j d"
  using assms(3) by (simp add: applyTransition_spec [OF assms(1,2)] split: option.splits)

lemma applyTransition_lost:
  assumes "unique_ids d" "well_formed r" "applyTransition k r d = Inr (None, d')"
  shows "d' = d"
  using assms(3) by (auto simp: applyTransition_spec [OF assms(1,2)] split: option.splits)

lemma unique_ids_applyTransition:
  assumes "unique_ids d" "well_formed r" "applyTransition k r d = Inr (res, d')"
  shows "unique_ids d'"
proof -
  have "unique_ids (commit k r to j d)" if "target k r d = Some j" for to j
    using unique_ids_commit [OF assms(1)] target_SomeD [OF that] by blast
  with assms(1,3) show ?thesis
    by (auto simp: applyTransition_spec [OF assms(1,2)] split: option.splits)
qed

end
