(* ===== verification/Shop_Types.thy ===== *)
theory Shop_Types
  imports Job_Types
begin

text \<open>
  The rows of the Shop, Printer and Agent tables (apps/api/prisma/schema.prisma) with the columns the
  modelled code reads or writes. Of the printers that a print computer has detected only the names are kept, and
  neither the Json column \<open>mediaConfig\<close> of a printer nor the legacy \<open>rateCard\<close> of a shop is. Coordinates are reals: the arithmetic of the distance check is exact
  here, so a position whose distance is within the rounding error of the radius is outside the model.
  \<open>toProfile\<close> is the projection of a printer row that the ranking of packages/shared takes.
\<close>

datatype verification_status = V_draft | V_submitted | V_verified | V_rejected
datatype payout_schedule = Po_daily | Po_on_demand

record shop_row =
  sh_id :: id
  sh_slug :: string
  sh_verificationStatus :: verification_status
  sh_publishedAt :: "millis option"
  sh_autoLive :: bool
  sh_latitude :: "real option"
  sh_longitude :: "real option"
  sh_checkInRadiusM :: int
  sh_counterCapacity :: int
  sh_revealGraceSeconds :: int
  sh_counterUpiVpa :: "string option"
  sh_counterUpiVerifiedAt :: "millis option"
  sh_autoAssignEnabled :: bool
  sh_acceptingOrders :: bool
  sh_feeBlockedAt :: "millis option"
  sh_feeBlockReason :: "string option"
  sh_feeBlockOverrideUntil :: "millis option"
  sh_printOptions :: "shop_options option"
  sh_printOptionsVersion :: int
  sh_name :: string
  sh_address :: string
  sh_campusId :: "id option"
  sh_campusName :: "string option"
  sh_verificationSubmittedAt :: "millis option"
  sh_verifiedAt :: "millis option"
  sh_verificationNotes :: "string option"
  sh_locationUpdatedAt :: "millis option"
  sh_cashPaymentsEnabled :: bool
  sh_counterUpiPayeeName :: "string option"
  sh_payoutSchedule :: payout_schedule
  sh_razorpayLinkedAccountId :: "string option"

datatype test_status = Test_requested | Test_spool_accepted | Test_failed

record printer_row =
  pt_id :: id
  pt_shopId :: id
  pt_label :: string
  pt_paperSizesLoaded :: "id list"
  pt_colorSupport :: bool
  pt_finishingOptions :: "id list"
  pt_avgPagesPerMinute :: int
  pt_status :: printer_status
  pt_osPrinterName :: "string option"
  pt_currentlyLoadedPaper :: "string option"
  pt_lastTestRequestId :: "id option"
  pt_lastTestRequestedAt :: "millis option"
  pt_lastTestedAt :: "millis option"
  pt_lastTestStatus :: "test_status option"
  pt_lastTestError :: "string option"
  pt_lastTestAgentId :: "id option"

datatype agent_status = Ag_online | Ag_offline

record agent_row =
  ag_id :: id
  ag_shopId :: id
  ag_connectedPrinterIds :: "id list"
  ag_lastHeartbeatAt :: "millis option"
  ag_status :: agent_status
  ag_sessionId :: "id option"
  ag_createdAt :: millis
  ag_machineLabel :: string
  ag_tokenHash :: string
  ag_detectedPrinters :: "string list option"

definition toProfile :: "printer_row \<Rightarrow> printer_profile" where
  "toProfile p = \<lparr>pr_id = pt_id p, pr_label = pt_label p, paperSizesLoaded = pt_paperSizesLoaded p,
    colorSupport = pt_colorSupport p, finishingOptions = pt_finishingOptions p,
    avgPagesPerMinute = pt_avgPagesPerMinute p, pr_status = pt_status p\<rparr>"

definition sample_printer :: "id \<Rightarrow> printer_row" where
  "sample_printer i = \<lparr>pt_id = i, pt_shopId = ''s'', pt_label = ''L'', pt_paperSizesLoaded = [''A4''],
    pt_colorSupport = False, pt_finishingOptions = [], pt_avgPagesPerMinute = 15, pt_status = P_online,
    pt_osPrinterName = Some ''os'', pt_currentlyLoadedPaper = None, pt_lastTestRequestId = None,
    pt_lastTestRequestedAt = None, pt_lastTestedAt = None, pt_lastTestStatus = None, pt_lastTestError = None,
    pt_lastTestAgentId = None\<rparr>"

definition sample_agent :: agent_row where
  "sample_agent = \<lparr>ag_id = ''ag'', ag_shopId = ''s'', ag_connectedPrinterIds = [''p''],
    ag_lastHeartbeatAt = Some 0, ag_status = Ag_online, ag_sessionId = Some ''x'', ag_createdAt = 0,
    ag_machineLabel = ''pc'', ag_tokenHash = ''h'', ag_detectedPrinters = None\<rparr>"

definition sample_shop :: shop_row where
  "sample_shop = \<lparr>sh_id = ''s'', sh_slug = ''s'', sh_verificationStatus = V_verified, sh_publishedAt = Some 0,
    sh_autoLive = False, sh_latitude = Some 12, sh_longitude = Some 77, sh_checkInRadiusM = 200,
    sh_counterCapacity = 1, sh_revealGraceSeconds = 60, sh_counterUpiVpa = None, sh_counterUpiVerifiedAt = None,
    sh_autoAssignEnabled = True, sh_acceptingOrders = True, sh_feeBlockedAt = None, sh_feeBlockReason = None,
    sh_feeBlockOverrideUntil = None, sh_printOptions = None, sh_printOptionsVersion = 0, sh_name = ''Shop'',
    sh_address = ''Road'', sh_campusId = None, sh_campusName = None, sh_verificationSubmittedAt = None,
    sh_verifiedAt = Some 0, sh_verificationNotes = None, sh_locationUpdatedAt = None,
    sh_cashPaymentsEnabled = False, sh_counterUpiPayeeName = None, sh_payoutSchedule = Po_daily,
    sh_razorpayLinkedAccountId = None\<rparr>"

subsection \<open>Side effects outside the database\<close>

text \<open>
  What a handler sends: a push notification (with the key that makes its delivery idempotent), a socket
  event, a delayed timer. Keys and payloads are structured values instead of formatted strings; the texts
  of the notifications are not modelled.
\<close>

datatype channel = Ch_shop id | Ch_student id | Ch_agent id

datatype notice_key =
    K_revealed id millis | K_arriving id int | K_checked_in id int | K_absent id int
  | K_prepared id | K_scheduled id | K_other string id

datatype effect =
    Notify id notice_key
  | Publish channel string id
  | Reveal_timer id millis millis
  | Due_timer id millis
  | Refund_check id
  | File_deletion id
  | Background string id

end
