(* ===== verification/Assignment.thy ===== *)
theory Assignment
  imports Shop_Types
begin

text \<open>
  packages/shared/src/assignment.ts and packages/shared/src/capability.ts, and \<open>rankFromSnapshot\<close> of
  apps/api/src/modules/queue/engine.ts. The wait is \<open>Math.ceil\<close> of a quotient of integers below
  \<open>2 ^ 53\<close>; the ceiling of the rounded quotient equals the ceiling of the exact one there, so it is
  integer arithmetic here. \<open>eligible.sort\<close> is stable, as ECMAScript requires.
\<close>

record recommendation =
  rec_printerId :: id
  rec_wait :: int
  rec_queueLength :: int

definition printerMatchesSpecs :: "printer_profile \<Rightarrow> job_specs \<Rightarrow> bool" where
  "printerMatchesSpecs p specs =
    (if pr_status p \<noteq> P_online then False
     else if paperSize specs \<notin> set (paperSizesLoaded p) then False
     else if color specs \<and> \<not> colorSupport p then False
     else if truthy (js_binding specs) \<and> the (js_binding specs) \<notin> set (finishingOptions p) then False
     else True)"

text \<open>\<open>Math.ceil(a / b)\<close> for integers, \<open>b\<close> positive.\<close>

definition ceil_div :: "int \<Rightarrow> int \<Rightarrow> int" where
  "ceil_div a b = - ((- a) div b)"

lemma ceil_div_ceiling: "0 < b \<Longrightarrow> ceil_div a b = \<lceil>of_int a / of_int b :: real\<rceil>"
  unfolding ceil_div_def ceiling_def by (metis floor_divide_of_int_eq minus_divide_left of_int_minus)

lemma ceil_div_bounds: "0 < b \<Longrightarrow> a \<le> ceil_div a b * b \<and> ceil_div a b * b < a + b"
proof -
  assume b: "0 < b"
  have "ceil_div a b * b = a + (- a) mod b"
    unfolding ceil_div_def using div_mult_mod_eq [of "- a" b] by linarith
  with b pos_mod_bound [of b "- a"] pos_mod_sign [of b "- a"] show ?thesis by simp
qed

lemma ceil_div_mono: "0 < b \<Longrightarrow> a \<le> a' \<Longrightarrow> ceil_div a b \<le> ceil_div a' b"
  by (simp add: ceil_div_def zdiv_mono1)

lemma ceil_div_nonneg: "0 < b \<Longrightarrow> 0 \<le> a \<Longrightarrow> 0 \<le> ceil_div a b"
  using ceil_div_mono [of b 0 a] by (simp add: ceil_div_def)

definition recommend :: "job_specs \<Rightarrow> int \<Rightarrow> queued_job_lite list \<Rightarrow> printer_profile \<Rightarrow> recommendation" where
  "recommend specs jobPages queuedJobs p =
    (let queue = filter (\<lambda>j. ql_assignedPrinterId j = Some (pr_id p)) queuedJobs;
         queuedPages = fold (\<lambda>j sum. sum + ql_pages j * ql_copies j) queue 0;
         newJobPages = jobPages * copies specs;
         ppm = max (avgPagesPerMinute p) 1
     in \<lparr>rec_printerId = pr_id p, rec_wait = ceil_div (queuedPages + newJobPages) ppm,
         rec_queueLength = int (length queue)\<rparr>)"

definition rankPrinters :: "printer_profile list \<Rightarrow> job_specs \<Rightarrow> int \<Rightarrow> queued_job_lite list
    \<Rightarrow> recommendation list \<times> recommendation option" where
  "rankPrinters printers specs jobPages queuedJobs =
    (let eligible = sort_key (\<lambda>r. (rec_wait r, rec_queueLength r))
           (map (recommend specs jobPages queuedJobs) (filter (\<lambda>p. printerMatchesSpecs p specs) printers))
     in (eligible, case eligible of [] \<Rightarrow> None | r # _ \<Rightarrow> Some r))"

subsection \<open>Capability of the shop\<close>

datatype unsupported_code = U_color | U_paper_size | U_binding | U_combination

text \<open>The codes; their texts are not modelled.\<close>

definition can_produce :: "printer_profile \<Rightarrow> job_specs \<Rightarrow> bool" where
  "can_produce p specs = (paperSize specs \<in> set (paperSizesLoaded p) \<and> (\<not> color specs \<or> colorSupport p)
    \<and> (\<not> truthy (js_binding specs) \<or> the (js_binding specs) \<in> set (finishingOptions p)))"

definition unsupportedSpecs :: "printer_profile list \<Rightarrow> job_specs \<Rightarrow> unsupported_code list" where
  "unsupportedSpecs printers specs =
    (if printers = [] then []
     else let paperOk = list_ex (\<lambda>p. paperSize specs \<in> set (paperSizesLoaded p)) printers;
              colorOk = (\<not> color specs \<or> list_ex colorSupport printers);
              bindingOk = (\<not> truthy (js_binding specs)
                \<or> list_ex (\<lambda>p. the (js_binding specs) \<in> set (finishingOptions p)) printers);
              out = (if paperOk then [] else [U_paper_size]) @ (if colorOk then [] else [U_color])
                @ (if bindingOk then [] else [U_binding])
          in if out = [] then (if list_ex (\<lambda>p. can_produce p specs) printers then [] else [U_combination])
             else out)"

subsection \<open>Ranking from a snapshot of the shop\<close>

definition lite :: "job \<Rightarrow> queued_job_lite" where
  "lite j = \<lparr>ql_id = j_id j, ql_assignedPrinterId = j_assignedPrinterId j, ql_pages = j_pagesPerCopy j,
    ql_copies = copies (j_specs j)\<rparr>"

definition rankFromSnapshot :: "printer_row list \<Rightarrow> agent_row list \<Rightarrow> job list \<Rightarrow> job_specs \<Rightarrow> int \<Rightarrow> id option
    \<Rightarrow> recommendation list \<times> recommendation option" where
  "rankFromSnapshot printers onlineAgents activeJobs specs pagesPerCopy excludeJobId =
    (let reachable = concat (map ag_connectedPrinterIds onlineAgents) in
     rankPrinters (map toProfile (filter (\<lambda>p. pt_id p \<in> set reachable) printers)) specs pagesPerCopy
       (map lite (filter (\<lambda>j. Some (j_id j) \<noteq> excludeJobId) activeJobs)))"

subsection \<open>Lemmas\<close>

lemma unsupported_nil_iff:
  "unsupportedSpecs printers specs = [] \<longleftrightarrow> printers = [] \<or> (\<exists>p \<in> set printers. can_produce p specs)"
  by (auto simp: unsupportedSpecs_def list_ex_iff can_produce_def Let_def)

lemma matches_can_produce: "printerMatchesSpecs p specs \<longleftrightarrow> pr_status p = P_online \<and> can_produce p specs"
  by (auto simp: printerMatchesSpecs_def can_produce_def)

lemma rank_eligible_set:
  "set (fst (rankPrinters printers specs n queued)) = recommend specs n queued ` {p \<in> set printers. printerMatchesSpecs p specs}"
  by (auto simp: rankPrinters_def Let_def)

lemma rank_recommended_min:
  assumes "snd (rankPrinters printers specs n queued) = Some r"
  shows "r \<in> set (fst (rankPrinters printers specs n queued))
    \<and> (\<forall>e \<in> set (fst (rankPrinters printers specs n queued)). (rec_wait r, rec_queueLength r) \<le> (rec_wait e, rec_queueLength e))"
proof -
  let ?k = "\<lambda>r. (rec_wait r, rec_queueLength r)"
  obtain xs where xs: "rankPrinters printers specs n queued
      = (sort_key ?k xs, case sort_key ?k xs of [] \<Rightarrow> None | r # _ \<Rightarrow> Some r)"
    by (simp add: rankPrinters_def Let_def)
  with assms have r: "xs \<noteq> []" "hd (sort_key ?k xs) = r" by simp_all
  then have "r \<in> set xs" by (metis hd_in_set set_sort sort_key_Nil_iff)
  moreover have "?k r \<le> ?k e" if "e \<in> set xs" for e
    using sort_key_hd_min [OF that, of ?k] r(2) by simp
  ultimately show ?thesis by (simp only: xs fst_conv set_sort) blast
qed

lemma rank_none_iff:
  "snd (rankPrinters printers specs n queued) = None \<longleftrightarrow> (\<forall>p \<in> set printers. \<not> printerMatchesSpecs p specs)"
  by (simp add: rankPrinters_def Let_def filter_empty_conv)

end
