(* ===== verification/Queue_Bands.thy ===== *)
theory Queue_Bands
  imports Prelude
begin

text \<open>
  packages/shared/src/queueBands.ts: the counter-capacity bands. Capacities are integers (the schema
  admits no other), so \<open>Math.floor\<close> is the identity. \<open>assignBands\<close> returns a JavaScript Map, here a
  partial function. The interface \<open>reveal_rule\<close> states what any implementation of the counter rule
  owes the students in line; its laws fix the revealed set uniquely, which is how the SQL of
  apps/api/src/modules/queue/bands.ts is proved to agree with \<open>assignBands\<close>.
\<close>

datatype queue_band = Revealed | Arriving | Waiting

definition COUNTER_CAPACITY_MIN :: int where "COUNTER_CAPACITY_MIN = 1"
definition COUNTER_CAPACITY_MAX :: int where "COUNTER_CAPACITY_MAX = 20"
definition COUNTER_CAPACITY_DEFAULT :: int where "COUNTER_CAPACITY_DEFAULT = 5"
definition REVEAL_GRACE_OPTIONS :: "int list" where "REVEAL_GRACE_OPTIONS = [30, 60, 120]"
definition REVEAL_GRACE_DEFAULT :: int where "REVEAL_GRACE_DEFAULT = 60"

definition queueBand :: "int option \<Rightarrow> int \<Rightarrow> queue_band option" where
  "queueBand position capacity = (case position of None \<Rightarrow> None
    | Some p \<Rightarrow> if p < 1 then None
      else let cap = max COUNTER_CAPACITY_MIN capacity in
        if p \<le> cap then Some Revealed else if p \<le> cap * 2 then Some Arriving else Some Waiting)"

record band_input =
  bi_id :: id
  bi_revealed :: bool

text \<open>The loop of \<open>assignBands\<close>, with its two counters and the Map it fills.\<close>

fun assign_loop :: "int \<Rightarrow> int \<Rightarrow> (id \<rightharpoonup> queue_band) \<Rightarrow> band_input list \<Rightarrow> (id \<rightharpoonup> queue_band)" where
  "assign_loop free arriving out [] = out"
| "assign_loop free arriving out (item # queue) =
    (if bi_revealed item then assign_loop free arriving (out(bi_id item \<mapsto> Revealed)) queue
     else if free > 0 then assign_loop (free - 1) arriving (out(bi_id item \<mapsto> Revealed)) queue
     else if arriving > 0 then assign_loop free (arriving - 1) (out(bi_id item \<mapsto> Arriving)) queue
     else assign_loop free arriving (out(bi_id item \<mapsto> Waiting)) queue)"

definition assignBands :: "band_input list \<Rightarrow> int \<Rightarrow> (id \<rightharpoonup> queue_band)" where
  "assignBands queue capacity = (let cap = max COUNTER_CAPACITY_MIN capacity in
    assign_loop (max 0 (cap - int (length (filter bi_revealed queue)))) cap Map.empty queue)"

subsection \<open>The band of a rank among the unrevealed\<close>

text \<open>\<open>u\<close> unrevealed jobs stand before the job.\<close>

definition rank_band :: "bool \<Rightarrow> int \<Rightarrow> int \<Rightarrow> int \<Rightarrow> queue_band" where
  "rank_band shown_already free arriving u = (if shown_already \<or> u < free then Revealed else if u < free + arriving then Arriving else Waiting)"

definition unrevealed_before :: "bool list \<Rightarrow> nat \<Rightarrow> int" where
  "unrevealed_before bs i = int (length (filter Not (take i bs)))"

lemma unrevealed_before_simps [simp]:
  "unrevealed_before bs 0 = 0"
  "unrevealed_before (b # bs) (Suc i) = (if b then 0 else 1) + unrevealed_before bs i"
  by (simp_all add: unrevealed_before_def)

lemma unrevealed_before_nonneg [simp]: "0 \<le> unrevealed_before bs i"
  by (simp add: unrevealed_before_def)

lemma assign_loop_other: "k \<notin> bi_id ` set queue \<Longrightarrow> assign_loop f a out queue k = out k"
  by (induction f a out queue rule: assign_loop.induct) auto

lemma assign_loop_rank:
  assumes "distinct (map bi_id queue)" "i < length queue" "0 \<le> f" "0 \<le> a"
  shows "assign_loop f a out queue (bi_id (queue ! i))
    = Some (rank_band (bi_revealed (queue ! i)) f a (unrevealed_before (map bi_revealed queue) i))"
  using assms
proof (induction f a out queue arbitrary: i rule: assign_loop.induct)
  case (1 free arriving out)
  then show ?case by simp
next
  case (2 free arriving out item queue)
  show ?case
  proof (cases i)
    case 0
    with "2.prems" show ?thesis by (auto simp: rank_band_def assign_loop_other)
  next
    case (Suc n)
    have n: "distinct (map bi_id queue)" "n < length queue" "0 \<le> free" "0 \<le> arriving"
      using "2.prems" Suc by simp_all
    show ?thesis
    proof (cases "bi_revealed item")
      case True
      with "2.IH"(1) [of n] n Suc show ?thesis by (simp add: fun_upd_def)
    next
      case hidden: False
      show ?thesis
      proof (cases "free > 0")
        case True
        with "2.IH"(2) [of n] n Suc hidden show ?thesis by (simp add: rank_band_def algebra_simps fun_upd_def)
      next
        case full: False
        with "2.IH"(3,4) [of n] n Suc hidden show ?thesis
          by (cases "arriving > 0") (auto simp: rank_band_def algebra_simps fun_upd_def unrevealed_before_def)
      qed
    qed
  qed
qed

definition free_slots :: "bool list \<Rightarrow> int \<Rightarrow> int" where
  "free_slots bs capacity = max 0 (max COUNTER_CAPACITY_MIN capacity - int (length (filter id bs)))"

lemma assignBands_rank:
  assumes "distinct (map bi_id queue)" "i < length queue"
  shows "assignBands queue capacity (bi_id (queue ! i))
    = Some (rank_band (bi_revealed (queue ! i)) (free_slots (map bi_revealed queue) capacity)
        (max COUNTER_CAPACITY_MIN capacity) (unrevealed_before (map bi_revealed queue) i))"
proof -
  have "length (filter bi_revealed queue) = length (filter id (map bi_revealed queue))"
    by (simp add: filter_map comp_def id_def)
  then show ?thesis
    using assign_loop_rank [OF assms] by (simp add: assignBands_def Let_def free_slots_def COUNTER_CAPACITY_MIN_def)
qed

subsection \<open>What the counter rule promises\<close>

text \<open>
  The line is the list of the jobs' revealed flags, in queue order; \<open>shown bs cap i\<close> says that the
  job at index \<open>i\<close> is revealed after the rule has run. A revealed job stays revealed; nobody is
  revealed past an unrevealed job that stays hidden; and the counter is filled exactly up to its
  capacity.
\<close>

locale reveal_rule =
  fixes shown :: "bool list \<Rightarrow> int \<Rightarrow> nat \<Rightarrow> bool"
  assumes sticky: "i < length bs \<Longrightarrow> bs ! i \<Longrightarrow> shown bs capacity i"
    and fifo: "i < j \<Longrightarrow> j < length bs \<Longrightarrow> \<not> bs ! j \<Longrightarrow> shown bs capacity j \<Longrightarrow> shown bs capacity i"
    and filled: "int (card {i. i < length bs \<and> shown bs capacity i})
      = max (int (length (filter id bs))) (min (max COUNTER_CAPACITY_MIN capacity) (int (length bs)))"
begin

lemma at_most_capacity:
  "int (card {i. i < length bs \<and> shown bs capacity i})
    \<le> max (int (length (filter id bs))) (max COUNTER_CAPACITY_MIN capacity)"
  by (simp add: filled)

lemma hidden_only_when_full:
  assumes "i < length bs" "\<not> shown bs capacity i"
  shows "max COUNTER_CAPACITY_MIN capacity \<le> int (card {i. i < length bs \<and> shown bs capacity i})"
proof -
  have "card {i. i < length bs \<and> shown bs capacity i} < card {i. i < length bs}"
    using assms by (intro psubset_card_mono) auto
  then show ?thesis using filled [of bs capacity] by (auto simp: max_def min_def split: if_splits)
qed

lemma shown_iff_rank:
  assumes "i < length bs"
  shows "shown bs capacity i \<longleftrightarrow> bs ! i \<or> unrevealed_before bs i < free_slots bs capacity"
proof (cases "bs ! i")
  case True
  then show ?thesis using sticky [OF assms] by simp
next
  case False
  let ?n = "length bs"
  define U where "U = {j. j < ?n \<and> \<not> bs ! j}"
  define S where "S = {j \<in> U. shown bs capacity j}"
  define R where "R = {j. j < ?n \<and> bs ! j}"
  have fin: "finite U" "finite S" "finite R" by (auto simp: U_def S_def R_def)
  have before: "unrevealed_before bs i = int (card {j \<in> U. j < i})"
  proof -
    have "{j. j < length (take i bs) \<and> \<not> take i bs ! j} = {j \<in> U. j < i}"
      using assms by (auto simp: U_def)
    then show ?thesis by (simp add: unrevealed_before_def length_filter_conv_card)
  qed
  have cR: "card R = length (filter id bs)"
    by (simp add: R_def length_filter_conv_card)
  have "{j. j < ?n \<and> shown bs capacity j} = R \<union> S"
    using sticky by (auto simp: R_def S_def U_def)
  moreover have "R \<inter> S = {}" by (auto simp: R_def S_def U_def)
  ultimately have cS: "int (card R) + int (card S)
      = max (int (card R)) (min (max COUNTER_CAPACITY_MIN capacity) (int ?n))"
    using filled [of bs capacity] fin by (simp add: card_Un_disjoint cR)
  have cRU: "card R + card U = ?n"
  proof -
    have "R \<union> U = {j. j < ?n}" "R \<inter> U = {}" by (auto simp: R_def U_def)
    then show ?thesis using fin by (metis card_Un_disjoint card_Collect_less_nat)
  qed
  have iU: "i \<in> U" using assms False by (simp add: U_def)
  have lt: "card {j \<in> U. j < i} < card U"
    using fin iU by (intro psubset_card_mono) auto
  show ?thesis
  proof (cases "shown bs capacity i")
    case True
    have "insert i {j \<in> U. j < i} \<subseteq> S"
      using True iU fifo [of _ i bs capacity] assms False by (auto simp: S_def)
    then have "card (insert i {j \<in> U. j < i}) \<le> card S"
      using fin by (intro card_mono) auto
    then have "int (card {j \<in> U. j < i}) < int (card S)"
      using fin by simp
    with True cS show ?thesis
      using cR before by (auto simp: free_slots_def max_def min_def split: if_splits)
  next
    case hidden: False
    have "S \<subseteq> {j \<in> U. j < i}"
    proof
      fix j assume j: "j \<in> S"
      then have "\<not> i < j" using hidden fifo [of i j bs capacity] by (auto simp: S_def U_def)
      moreover have "i \<noteq> j" using j hidden by (auto simp: S_def)
      ultimately show "j \<in> {j \<in> U. j < i}" using j by (auto simp: S_def)
    qed
    then have "card S \<le> card {j \<in> U. j < i}"
      using fin by (intro card_mono) auto
    with hidden False cS cRU lt show ?thesis
      using cR before by (auto simp: free_slots_def max_def min_def split: if_splits)
  qed
qed

end

subsection \<open>assignBands implements it\<close>

definition shown_by_rank :: "bool list \<Rightarrow> int \<Rightarrow> nat \<Rightarrow> bool" where
  "shown_by_rank bs capacity i = (rank_band (bs ! i) (free_slots bs capacity) (max COUNTER_CAPACITY_MIN capacity)
    (unrevealed_before bs i) = Revealed)"

lemma shown_by_rank_iff: "shown_by_rank bs capacity i \<longleftrightarrow> bs ! i \<or> unrevealed_before bs i < free_slots bs capacity"
  by (simp add: shown_by_rank_def rank_band_def)

lemma card_below_Suc:
  "card {i. i < Suc n \<and> P i} = (if P 0 then 1 else 0) + card {i. i < n \<and> P (Suc i)}"
proof -
  have "{i. i < Suc n \<and> P i} = (if P 0 then {0} else {}) \<union> Suc ` {i. i < n \<and> P (Suc i)}"
    by (auto simp: image_iff less_Suc_eq_0_disj)
  moreover have "card (Suc ` {i. i < n \<and> P (Suc i)}) = card {i. i < n \<and> P (Suc i)}"
    by (simp add: card_image)
  ultimately show ?thesis by (simp add: card_insert_if)
qed

lemma card_shown:
  "0 \<le> f \<Longrightarrow> int (card {i. i < length bs \<and> (bs ! i \<or> unrevealed_before bs i < f)})
    = int (length (filter id bs)) + min f (int (length (filter Not bs)))"
proof (induction bs arbitrary: f)
  case Nil
  then show ?case by simp
next
  case (Cons b bs)
  have IH: "int (card {i. i < length bs \<and> (bs ! i \<or> unrevealed_before bs i < g)})
    = int (length (filter id bs)) + min g (int (length (filter Not bs)))" if "0 \<le> g" for g
    by (rule Cons.IH [OF that])
  show ?case
  proof (cases "\<not> b \<and> f = 0")
    case True
    have "\<not> 1 + unrevealed_before bs i < 0" "\<not> unrevealed_before bs i < 0" for i
      by (simp_all add: unrevealed_before_def)
    with True IH [of 0] show ?thesis by (simp add: card_below_Suc id_def)
  next
    case False
    define g where "g = (if b then f else f - 1)"
    have g: "0 \<le> g" using False Cons.prems by (auto simp: g_def)
    have eq: "((b # bs) ! Suc i \<or> unrevealed_before (b # bs) (Suc i) < f) = (bs ! i \<or> unrevealed_before bs i < g)" for i
      by (auto simp: g_def)
    have "(b # bs) ! 0 \<or> unrevealed_before (b # bs) 0 < f" using False Cons.prems by auto
    then have "int (card {i. i < length (b # bs) \<and> ((b # bs) ! i \<or> unrevealed_before (b # bs) i < f)})
        = 1 + (int (length (filter id bs)) + min g (int (length (filter Not bs))))"
      using IH [OF g] by (simp only: card_below_Suc list.size eq add.right_neutral add_Suc_right) simp
    then show ?thesis by (auto simp: g_def id_def)
  qed
qed

lemma unrevealed_before_mono: "i \<le> j \<Longrightarrow> unrevealed_before bs i \<le> unrevealed_before bs j"
proof -
  assume "i \<le> j"
  then obtain k where j: "j = i + k" using le_Suc_ex by blast
  show ?thesis by (simp add: unrevealed_before_def j take_add)
qed

lemma length_flags: "length (filter id bs) + length (filter Not bs) = length bs"
  by (induction bs) auto

interpretation assign_bands: reveal_rule shown_by_rank
proof
  fix i j :: nat and bs :: "bool list" and capacity :: int
  show "shown_by_rank bs capacity i" if "i < length bs" "bs ! i"
    using that by (simp add: shown_by_rank_iff)
  show "shown_by_rank bs capacity i" if "i < j" "j < length bs" "\<not> bs ! j" "shown_by_rank bs capacity j"
    using that unrevealed_before_mono [of i j bs] by (auto simp: shown_by_rank_iff)
  have "int (card {i. i < length bs \<and> shown_by_rank bs capacity i})
      = int (length (filter id bs)) + min (free_slots bs capacity) (int (length (filter Not bs)))"
    using card_shown [of "free_slots bs capacity" bs] by (simp add: shown_by_rank_iff free_slots_def)
  also have "\<dots> = max (int (length (filter id bs))) (min (max COUNTER_CAPACITY_MIN capacity) (int (length bs)))"
    using length_flags [of bs] by (auto simp: free_slots_def)
  finally show "int (card {i. i < length bs \<and> shown_by_rank bs capacity i})
      = max (int (length (filter id bs))) (min (max COUNTER_CAPACITY_MIN capacity) (int (length bs)))" .
qed

lemma assignBands_revealed_iff:
  assumes "distinct (map bi_id queue)" "i < length queue"
  shows "assignBands queue capacity (bi_id (queue ! i)) = Some Revealed
    \<longleftrightarrow> shown_by_rank (map bi_revealed queue) capacity i"
  using assms by (simp add: assignBands_rank shown_by_rank_def)

text \<open>Without sticky reveals the band is positional.\<close>

lemma no_reveal_rank:
  assumes "list_all Not bs" "i < length bs"
  shows "unrevealed_before bs i = int i" "free_slots bs capacity = max COUNTER_CAPACITY_MIN capacity"
proof -
  have "filter Not (take i bs) = take i bs" "filter id bs = []"
    using assms by (auto simp: filter_id_conv filter_empty_conv list_all_iff dest: in_set_takeD)
  then show "unrevealed_before bs i = int i" "free_slots bs capacity = max COUNTER_CAPACITY_MIN capacity"
    using assms(2) by (simp_all add: unrevealed_before_def free_slots_def COUNTER_CAPACITY_MIN_def)
qed

subsection \<open>Properties\<close>

definition band_at :: "band_input list \<Rightarrow> int \<Rightarrow> nat \<Rightarrow> queue_band option" where
  "band_at queue capacity i = assignBands queue capacity (bi_id (queue ! i))"

lemma band_at_rank:
  assumes "distinct (map bi_id queue)" "i < length queue"
  shows "band_at queue capacity i = Some (rank_band (bi_revealed (queue ! i)) (free_slots (map bi_revealed queue) capacity)
      (max 1 capacity) (unrevealed_before (map bi_revealed queue) i))"
  using assignBands_rank [OF assms] by (simp add: band_at_def COUNTER_CAPACITY_MIN_def)

lemma card_others: "int (card {i. i < n \<and> \<not> P i}) = int n - int (card {i. i < n \<and> P i})"
  by (induction n arbitrary: P) (auto simp: card_below_Suc)

text \<open>The arriving jobs are those shown by one more counter's worth of places and not by the free ones.\<close>

lemma card_arriving:
  fixes f a :: int
  assumes "0 \<le> f" "0 \<le> a"
  shows "int (card {i. i < length bs \<and> rank_band (bs ! i) f a (unrevealed_before bs i) = Arriving})
    = min a (int (length (filter Not bs)) - min f (int (length (filter Not bs))))"
proof -
  let ?S = "\<lambda>g. {i. i < length bs \<and> (bs ! i \<or> unrevealed_before bs i < g)}"
  have "{i. i < length bs \<and> rank_band (bs ! i) f a (unrevealed_before bs i) = Arriving} = ?S (f + a) - ?S f"
    by (auto simp: rank_band_def)
  moreover have "?S f \<subseteq> ?S (f + a)" using assms by auto
  ultimately have "int (card {i. i < length bs \<and> rank_band (bs ! i) f a (unrevealed_before bs i) = Arriving})
      = int (card (?S (f + a))) - int (card (?S f))"
    by (simp add: card_Diff_subset card_mono of_nat_diff)
  then show ?thesis using card_shown [of f bs] card_shown [of "f + a" bs] assms by simp
qed

text \<open>
  C5. The counter is filled fairly and exactly: for a line of distinct jobs, \<open>assignBands\<close> gives every
  job of the line, and nobody else, a band; a job revealed before stays revealed; no unrevealed job is passed
  over in favour of a later one, neither for a place at the counter nor for one of the arriving places; the
  number of revealed jobs afterwards is the capacity (at least 1) or the length of the line when that is
  shorter, unless more were already revealed, in which case nobody is added; and of the jobs that are not
  revealed as many as the capacity (at least 1), or all of them when they are fewer, are arriving, so the rest
  is waiting.
\<close>

theorem assignBands_counter:
  assumes "distinct (map bi_id queue)"
  shows "(\<forall>i < length queue. band_at queue capacity i \<noteq> None)
    \<and> (\<forall>k. k \<notin> bi_id ` set queue \<longrightarrow> assignBands queue capacity k = None)
    \<and> (\<forall>i < length queue. bi_revealed (queue ! i) \<longrightarrow> band_at queue capacity i = Some Revealed)
    \<and> (\<forall>i j. i < j \<and> j < length queue \<and> \<not> bi_revealed (queue ! j) \<and> band_at queue capacity j = Some Revealed \<longrightarrow> band_at queue capacity i = Some Revealed)
    \<and> (\<forall>i j. i < j \<and> j < length queue \<and> band_at queue capacity j = Some Arriving \<longrightarrow> band_at queue capacity i \<noteq> Some Waiting)
    \<and> int (card {i. i < length queue \<and> band_at queue capacity i = Some Revealed})
      = max (int (length (filter bi_revealed queue))) (min (max 1 capacity) (int (length queue)))
    \<and> int (card {i. i < length queue \<and> band_at queue capacity i = Some Arriving})
      = min (max 1 capacity) (int (card {i. i < length queue \<and> band_at queue capacity i \<noteq> Some Revealed}))"
proof (intro conjI allI impI)
  let ?bs = "map bi_revealed queue"
  let ?n = "length queue"
  have iff: "band_at queue capacity i = Some Revealed \<longleftrightarrow> shown_by_rank ?bs capacity i" if "i < length queue" for i
    using assignBands_revealed_iff [OF assms(1) that] by (simp add: band_at_def)
  note rank = band_at_rank [OF assms(1)]
  show "band_at queue capacity i \<noteq> None" if "i < length queue" for i
    using assignBands_rank [OF assms(1) that] by (simp add: band_at_def)
  show "assignBands queue capacity k = None" if "k \<notin> bi_id ` set queue" for k
    using that by (simp add: assignBands_def Let_def assign_loop_other)
  show "band_at queue capacity i = Some Revealed" if "i < length queue" "bi_revealed (queue ! i)" for i
    using that iff assign_bands.sticky [of i ?bs] by simp
  show "band_at queue capacity i = Some Revealed" if "i < j \<and> j < length queue \<and> \<not> bi_revealed (queue ! j) \<and> band_at queue capacity j = Some Revealed" for i j
    using that iff [of i] iff [of j] assign_bands.fifo [of i j ?bs capacity] by simp
  show "band_at queue capacity i \<noteq> Some Waiting" if "i < j \<and> j < length queue \<and> band_at queue capacity j = Some Arriving" for i j
    using that rank [of i] rank [of j] unrevealed_before_mono [of i j ?bs]
    by (auto simp: rank_band_def split: if_splits)
  have "{i. i < length queue \<and> band_at queue capacity i = Some Revealed} = {i. i < length ?bs \<and> shown_by_rank ?bs capacity i}"
    using iff by auto
  moreover have known: "length (filter id ?bs) = length (filter bi_revealed queue)"
    by (simp add: filter_map comp_def id_def)
  ultimately show shown: "int (card {i. i < length queue \<and> band_at queue capacity i = Some Revealed})
      = max (int (length (filter bi_revealed queue))) (min (max 1 capacity) (int (length queue)))"
    using assign_bands.filled [of ?bs capacity] by (simp add: COUNTER_CAPACITY_MIN_def)
  have rest: "int (card {i. i < ?n \<and> band_at queue capacity i \<noteq> Some Revealed})
      = int ?n - int (card {i. i < ?n \<and> band_at queue capacity i = Some Revealed})"
    by (rule card_others)
  have "{i. i < ?n \<and> band_at queue capacity i = Some Arriving}
      = {i. i < length ?bs \<and> rank_band (?bs ! i) (free_slots ?bs capacity) (max 1 capacity) (unrevealed_before ?bs i) = Arriving}"
    using rank by auto
  then have "int (card {i. i < ?n \<and> band_at queue capacity i = Some Arriving})
      = min (max 1 capacity) (int (length (filter Not ?bs)) - min (free_slots ?bs capacity) (int (length (filter Not ?bs))))"
    using card_arriving [of "free_slots ?bs capacity" "max 1 capacity" ?bs] by (simp add: free_slots_def)
  moreover have "int (length (filter Not ?bs)) - min (free_slots ?bs capacity) (int (length (filter Not ?bs)))
      = int ?n - max (int (length (filter bi_revealed queue))) (min (max 1 capacity) (int ?n))"
    using length_flags [of ?bs] known by (auto simp: free_slots_def COUNTER_CAPACITY_MIN_def)
  ultimately show "int (card {i. i < ?n \<and> band_at queue capacity i = Some Arriving})
      = min (max 1 capacity) (int (card {i. i < ?n \<and> band_at queue capacity i \<noteq> Some Revealed}))"
    unfolding rest shown by (simp only:)
qed

definition sample_line :: "band_input list" where
  "sample_line = [\<lparr>bi_id = ''a'', bi_revealed = False\<rparr>, \<lparr>bi_id = ''b'', bi_revealed = True\<rparr>,
    \<lparr>bi_id = ''c'', bi_revealed = False\<rparr>, \<lparr>bi_id = ''d'', bi_revealed = False\<rparr>, \<lparr>bi_id = ''e'', bi_revealed = False\<rparr>]"

theorem assignBands_counter_witness:
  "distinct (map bi_id sample_line)
    \<and> int (card {i. i < length sample_line \<and> band_at sample_line 2 i = Some Revealed})
      = max (int (length (filter bi_revealed sample_line))) (min (max 1 2) (int (length sample_line)))
    \<and> int (card {i. i < length sample_line \<and> band_at sample_line 2 i = Some Arriving})
      = min (max 1 2) (int (card {i. i < length sample_line \<and> band_at sample_line 2 i \<noteq> Some Revealed}))
    \<and> map (\<lambda>x. assignBands sample_line 2 (bi_id x)) sample_line
      = [Some Revealed, Some Revealed, Some Arriving, Some Arriving, Some Waiting]"
proof -
  have d: "distinct (map bi_id sample_line)" by (simp add: sample_line_def)
  have "map (\<lambda>x. assignBands sample_line 2 (bi_id x)) sample_line
      = [Some Revealed, Some Revealed, Some Arriving, Some Arriving, Some Waiting]"
    by (simp add: sample_line_def assignBands_def COUNTER_CAPACITY_MIN_def)
  with d assignBands_counter [OF d, of 2] show ?thesis by (elim conjE) (intro conjI)
qed

text \<open>
  With no sticky reveals \<open>assignBands\<close> is \<open>queueBand\<close> of the 1-based position, for every job of
  the line (the equivalence its documentation promises).
\<close>

theorem assignBands_is_positional:
  assumes "distinct (map bi_id queue)" "list_all (\<lambda>q. \<not> bi_revealed q) queue" "i < length queue"
  shows "assignBands queue capacity (bi_id (queue ! i)) = queueBand (Some (int i + 1)) capacity"
proof -
  have n: "list_all Not (map bi_revealed queue)"
    using assms(2) by (simp add: list_all_iff)
  have "\<not> bi_revealed (queue ! i)"
    using assms(2,3) by (simp add: list_all_length)
  then show ?thesis
    using assms(3) no_reveal_rank [OF n, of i]
    by (auto simp: assignBands_rank [OF assms(1,3)] rank_band_def queueBand_def Let_def)
qed

theorem assignBands_is_positional_witness:
  "assignBands [\<lparr>bi_id = ''a'', bi_revealed = False\<rparr>, \<lparr>bi_id = ''b'', bi_revealed = False\<rparr>] 1 ''b''
    = queueBand (Some 2) 1"
  using assignBands_is_positional [of "[\<lparr>bi_id = ''a'', bi_revealed = False\<rparr>, \<lparr>bi_id = ''b'', bi_revealed = False\<rparr>]" 1 1]
  by simp

end
