(* ===== verification/Band_Sync.thy ===== *)
theory Band_Sync
  imports Transitions Shop_Types Assignment Queue_Bands
begin

text \<open>
  apps/api/src/modules/queue/bands.ts: the shop's line with bands and ETAs, the locked reveal pass (its
  SQL statement, clause by clause), and the reconcile that patches what a pass won into a queue already
  read. The advisory lock makes a pass atomic; \<open>now\<close> is the clock read under the lock. Postgres leaves
  the order of rows with equal sort keys open; here both the database and the JavaScript sort keep table
  order.
\<close>

record queue_entry =
  qe_job :: job
  qe_position :: int
  qe_band :: queue_band
  qe_etaMinutes :: "int option"

record shop_queue =
  sq_counterCapacity :: int
  sq_revealGraceSeconds :: int
  sq_printers :: "printer_row list"
  sq_entries :: "queue_entry list"

definition band_of_job :: "job \<Rightarrow> band_input" where
  "band_of_job j = \<lparr>bi_id = j_id j, bi_revealed = (j_revealedAt j \<noteq> None)\<rparr>"

definition ppm_of :: "printer_row list \<Rightarrow> id \<Rightarrow> int option" where
  "ppm_of printers = map_of (rev (map (\<lambda>p. (pt_id p, max (pt_avgPagesPerMinute p) 1)) printers))"

text \<open>The map over the jobs, with the pages ahead per printer as its accumulator.\<close>

fun build_entries :: "(id \<rightharpoonup> queue_band) \<Rightarrow> (id \<rightharpoonup> int) \<Rightarrow> int \<Rightarrow> (id \<rightharpoonup> int) \<Rightarrow> job list \<Rightarrow> queue_entry list" where
  "build_entries bands ppm index ahead [] = []"
| "build_entries bands ppm index ahead (j # js) =
    (let pid = j_assignedPrinterId j;
         pagesAhead = (if truthy pid then (case ahead (the pid) of None \<Rightarrow> 0 | Some n \<Rightarrow> n) else 0);
         ahead' = (if truthy pid then ahead(the pid \<mapsto> pagesAhead + job_pages j) else ahead)
     in \<lparr>qe_job = j, qe_position = index + 1, qe_band = the (bands (j_id j)),
         qe_etaMinutes = (if truthy pid
           then Some (ceil_div pagesAhead (case ppm (the pid) of None \<Rightarrow> 15 | Some n \<Rightarrow> n)) else None)\<rparr>
       # build_entries bands ppm (index + 1) ahead' js)"

definition buildShopQueue :: "(int \<times> int) option \<Rightarrow> printer_row list \<Rightarrow> job list \<Rightarrow> shop_queue" where
  "buildShopQueue settings printers js =
    (let counterCapacity = (case settings of None \<Rightarrow> 5 | Some (c, _) \<Rightarrow> c);
         bands = assignBands (map band_of_job js) counterCapacity
     in \<lparr>sq_counterCapacity = counterCapacity,
         sq_revealGraceSeconds = (case settings of None \<Rightarrow> 60 | Some (_, g) \<Rightarrow> g), sq_printers = printers,
         sq_entries = build_entries bands (ppm_of printers) 0 Map.empty js\<rparr>)"

text \<open>The order of the line: \<open>queuedAt\<close> ascending with nulls last, then \<open>createdAt\<close>.\<close>

definition line_key :: "job \<Rightarrow> (int \<times> int) \<times> int" where
  "line_key j = (case j_queuedAt j of None \<Rightarrow> (1, 0) | Some t \<Rightarrow> (0, t), j_createdAt j)"

definition sortQueueJobs :: "job list \<Rightarrow> job list" where
  "sortQueueJobs js = sort_key line_key js"

definition in_line :: "id \<Rightarrow> job \<Rightarrow> bool" where
  "in_line shopId j = (j_shopId j = shopId \<and> j_status j \<in> set ACTIVE_QUEUE_STATUSES)"

definition ACTIVE_QUEUE_JOBS :: "id \<Rightarrow> job list \<Rightarrow> job list" where
  "ACTIVE_QUEUE_JOBS shopId js = sort_key line_key (filter (in_line shopId) js)"

definition loadShopQueue :: "id \<Rightarrow> (int \<times> int) option \<Rightarrow> printer_row list \<Rightarrow> job list \<Rightarrow> shop_queue" where
  "loadShopQueue shopId settings printers js = buildShopQueue settings printers (ACTIVE_QUEUE_JOBS shopId js)"

definition needsReconcile :: "shop_queue \<Rightarrow> bool" where
  "needsReconcile q = list_ex (\<lambda>e. j_revealedAt (qe_job e) = None
    \<and> (qe_band e = Revealed \<or> (qe_band e = Arriving \<and> j_arrivingNotifiedAt (qe_job e) = None))) (sq_entries q)"

subsection \<open>The locked reveal pass\<close>

record pass_row =
  w_id :: id
  w_studentId :: id
  w_checkInCount :: int
  w_isReveal :: bool
  w_graceSeconds :: int
  w_revealedAt :: "millis option"
  w_revealDeadlineAt :: "millis option"

text \<open>\<open>row_number()\<close> over rows already in order.\<close>

fun row_number :: "int \<Rightarrow> 'a list \<Rightarrow> (int \<times> 'a) list" where
  "row_number n [] = []"
| "row_number n (x # xs) = (n, x) # row_number (n + 1) xs"

definition pick_rows :: "int \<Rightarrow> int \<Rightarrow> (int \<times> job) list \<Rightarrow> (id \<times> bool) list" where
  "pick_rows cap free un = map (\<lambda>(urank, j). (j_id j, urank \<le> free))
    (filter (\<lambda>(urank, j). urank \<le> free \<or> (urank \<le> free + cap \<and> j_arrivingNotifiedAt j = None)) un)"

definition pass_picks :: "int \<Rightarrow> job list \<Rightarrow> (id \<times> bool) list" where
  "pass_picks counterCapacity q =
    (let cap = max COUNTER_CAPACITY_MIN counterCapacity;
         free = max 0 (cap - int (length (filter (\<lambda>j. j_revealedAt j \<noteq> None) q)));
         un = row_number 1 (filter (\<lambda>j. j_revealedAt j = None) q)
     in pick_rows cap free un)"

definition pick_update :: "id \<Rightarrow> int \<Rightarrow> millis \<Rightarrow> (id \<times> bool) list \<Rightarrow> job \<Rightarrow> (bool \<times> job) option" where
  "pick_update shopId grace now picks j = (case find (\<lambda>p. fst p = j_id j) picks of
      None \<Rightarrow> None
    | Some (_, is_reveal) \<Rightarrow>
        if in_line shopId j \<and> j_revealedAt j = None \<and> (is_reveal \<or> j_arrivingNotifiedAt j = None)
        then Some (is_reveal, j\<lparr>
          j_revealedAt := (if is_reveal then Some now else j_revealedAt j),
          j_revealDeadlineAt := (if is_reveal then Some (now + grace * 1000) else j_revealDeadlineAt j),
          j_arrivingNotifiedAt := (if is_reveal then j_arrivingNotifiedAt j else Some now),
          j_updatedAt := now\<rparr>)
        else None)"

definition mk_pass_row :: "int \<Rightarrow> bool \<times> job \<Rightarrow> pass_row" where
  "mk_pass_row grace u = \<lparr>w_id = j_id (snd u), w_studentId = j_studentId (snd u),
    w_checkInCount = j_checkInCount (snd u), w_isReveal = fst u, w_graceSeconds = grace,
    w_revealedAt = j_revealedAt (snd u), w_revealDeadlineAt = j_revealDeadlineAt (snd u)\<rparr>"

text \<open>No shop row, no settings: then the statement picks nothing.\<close>

definition lockedRevealPass :: "id \<Rightarrow> (int \<times> int) option \<Rightarrow> millis \<Rightarrow> job list \<Rightarrow> pass_row list \<times> job list" where
  "lockedRevealPass shopId settings now js = (case settings of
      None \<Rightarrow> ([], js)
    | Some (counterCapacity, grace) \<Rightarrow>
        (let picks = pass_picks counterCapacity (ACTIVE_QUEUE_JOBS shopId js);
             upd = pick_update shopId grace now picks
         in (map (mk_pass_row grace) (map the (filter (\<lambda>u. u \<noteq> None) (map upd js))),
             map (\<lambda>j. case upd j of None \<Rightarrow> j | Some u \<Rightarrow> snd u) js)))"

text \<open>The reveals and arrivals of a pass, and what is sent for them.\<close>

definition reveals_of :: "pass_row list \<Rightarrow> pass_row list" where
  "reveals_of won = filter w_isReveal won"

definition arrivals_of :: "pass_row list \<Rightarrow> pass_row list" where
  "arrivals_of won = filter (\<lambda>w. \<not> w_isReveal w) won"

definition dispatch_pass :: "pass_row list \<Rightarrow> effect list" where
  "dispatch_pass won =
    map (\<lambda>r. Reveal_timer (w_id r) (the (w_revealedAt r)) (w_graceSeconds r * 1000 + 250)) (reveals_of won)
    @ map (\<lambda>r. Notify (w_studentId r) (K_revealed (w_id r) (the (w_revealedAt r)))) (reveals_of won)
    @ map (\<lambda>a. Notify (w_studentId a) (K_arriving (w_id a) (w_checkInCount a))) (arrivals_of won)"

definition runRevealPass :: "id \<Rightarrow> (int \<times> int) option \<Rightarrow> millis \<Rightarrow> job list \<Rightarrow> pass_row list \<times> job list \<times> effect list" where
  "runRevealPass shopId settings now js =
    (let (won, js') = lockedRevealPass shopId settings now js in (won, js', dispatch_pass won))"

subsection \<open>Patching a loaded queue\<close>

text \<open>None when the pass touched a job that the snapshot lacks; \<open>wonAt\<close> is the clock after the commit.\<close>

definition patch_row :: "millis \<Rightarrow> pass_row \<Rightarrow> job \<Rightarrow> job" where
  "patch_row wonAt w j = (if w_isReveal w
    then j\<lparr>j_revealedAt := w_revealedAt w, j_revealDeadlineAt := w_revealDeadlineAt w\<rparr>
    else j\<lparr>j_arrivingNotifiedAt := Some wonAt\<rparr>)"

fun patch_entries :: "millis \<Rightarrow> pass_row list \<Rightarrow> queue_entry list \<Rightarrow> queue_entry list option" where
  "patch_entries wonAt [] es = Some es"
| "patch_entries wonAt (w # ws) es =
    (if list_ex (\<lambda>e. j_id (qe_job e) = w_id w) es
     then patch_entries wonAt ws (map (\<lambda>e. if j_id (qe_job e) = w_id w
       then e\<lparr>qe_job := patch_row wonAt w (qe_job e)\<rparr> else e) es)
     else None)"

definition applyPassToQueue :: "millis \<Rightarrow> shop_queue \<Rightarrow> pass_row list \<Rightarrow> shop_queue option" where
  "applyPassToQueue wonAt q won = map_option (\<lambda>es. q\<lparr>sq_entries := es\<rparr>)
    (patch_entries wonAt (reveals_of won @ arrivals_of won) (sq_entries q))"

definition rebuildQueue :: "shop_queue \<Rightarrow> shop_queue" where
  "rebuildQueue q = buildShopQueue (Some (sq_counterCapacity q, sq_revealGraceSeconds q)) (sq_printers q)
    (map qe_job (sq_entries q))"

text \<open>
  \<open>reconcileShopQueue\<close>: the preview read sees \<open>js0\<close>, the pass runs on \<open>js\<close> (what other requests
  committed in between included). The result is the queue, the number of rows won, the jobs and the
  effects.
\<close>

definition reconcileShopQueue :: "id \<Rightarrow> (int \<times> int) option \<Rightarrow> printer_row list \<Rightarrow> millis \<Rightarrow> job list \<Rightarrow> job list
    \<Rightarrow> shop_queue \<times> nat \<times> job list \<times> effect list" where
  "reconcileShopQueue shopId settings printers now js0 js =
    (let preview = loadShopQueue shopId settings printers js0 in
     if \<not> needsReconcile preview then (preview, 0, js, [])
     else let (won, js', effs) = runRevealPass shopId settings now js;
              q = (case applyPassToQueue now preview won of
                  Some patched \<Rightarrow> rebuildQueue patched
                | None \<Rightarrow> loadShopQueue shopId settings printers js')
          in (q, length won, js', effs))"

definition syncShopQueue :: "id \<Rightarrow> (int \<times> int) option \<Rightarrow> printer_row list \<Rightarrow> millis \<Rightarrow> job list \<Rightarrow> job list
    \<Rightarrow> nat \<times> job list \<times> effect list" where
  "syncShopQueue shopId settings printers now js0 js =
    (case reconcileShopQueue shopId settings printers now js0 js of (_, n, js', effs) \<Rightarrow> (n, js', effs))"

subsection \<open>What a pass does to a job of the line\<close>

definition flags :: "job list \<Rightarrow> bool list" where
  "flags q = map (\<lambda>j. j_revealedAt j \<noteq> None) q"

lemma flags_simps [simp]:
  "length (flags q) = length q" "flags [] = []" "flags (j # q) = (j_revealedAt j \<noteq> None) # flags q"
  by (simp_all add: flags_def)

lemma flags_bands: "map bi_revealed (map band_of_job q) = flags q"
  by (simp add: flags_def band_of_job_def)

lemma ids_bands: "map bi_id (map band_of_job q) = map j_id q"
  by (simp add: band_of_job_def)

lemma find_pick_other:
  "k \<notin> j_id ` set q \<Longrightarrow> find (\<lambda>p. fst p = k) (pick_rows cap free (row_number n (filter P q))) = None"
  by (induction q arbitrary: n) (auto simp: pick_rows_def)

lemma find_pick:
  assumes "distinct (map j_id q)" "i < length q" "1 \<le> n" "0 \<le> cap" "0 \<le> free"
  shows "find (\<lambda>p. fst p = j_id (q ! i)) (pick_rows cap free (row_number n (filter (\<lambda>j. j_revealedAt j = None) q)))
    = (let u = n - 1 + unrevealed_before (flags q) i in
       if j_revealedAt (q ! i) \<noteq> None then None
       else if u < free then Some (j_id (q ! i), True)
       else if u < free + cap \<and> j_arrivingNotifiedAt (q ! i) = None then Some (j_id (q ! i), False)
       else None)"
  using assms
proof (induction q arbitrary: i n)
  case Nil
  then show ?case by simp
next
  case (Cons a q)
  show ?case
  proof (cases i)
    case 0
    with Cons.prems show ?thesis
      using find_pick_other [of "j_id a" q cap free] by (auto simp: Let_def pick_rows_def)
  next
    case (Suc m)
    have other: "j_id a \<noteq> j_id (q ! m)" using Cons.prems Suc by (metis distinct.simps(2) length_Cons list.simps(9) image_eqI list.set_map nth_mem Suc_less_eq)
    have pre: "distinct (map j_id q)" "m < length q" using Cons.prems Suc by simp_all
    have step: "find (\<lambda>p. fst p = j_id (q ! m)) (pick_rows cap free (row_number k (filter (\<lambda>j. j_revealedAt j = None) (a # q))))
      = find (\<lambda>p. fst p = j_id (q ! m)) (pick_rows cap free
          (row_number (if j_revealedAt a = None then k + 1 else k) (filter (\<lambda>j. j_revealedAt j = None) q)))" for k
      using other by (simp add: pick_rows_def)
    show ?thesis
    proof (cases "j_revealedAt a = None")
      case True
      with Cons.IH [OF pre, of "n + 1"] Cons.prems Suc step [of n] show ?thesis
        by (simp add: Let_def algebra_simps)
    next
      case False
      then obtain y where "j_revealedAt a = Some y" by blast
      with Cons.IH [OF pre, of n] Cons.prems Suc step [of n] show ?thesis
        by (simp add: Let_def)
    qed
  qed
qed

text \<open>The effect of a pass on one job of the line, in terms of its band.\<close>

definition settle_job :: "queue_band \<Rightarrow> int \<Rightarrow> millis \<Rightarrow> job \<Rightarrow> job" where
  "settle_job b grace now j =
    (if j_revealedAt j \<noteq> None then j
     else case b of
       Revealed \<Rightarrow> j\<lparr>j_revealedAt := Some now, j_revealDeadlineAt := Some (now + grace * 1000), j_updatedAt := now\<rparr>
     | Arriving \<Rightarrow> if j_arrivingNotifiedAt j = None then j\<lparr>j_arrivingNotifiedAt := Some now, j_updatedAt := now\<rparr> else j
     | Waiting \<Rightarrow> j)"

definition to_write :: "queue_band \<Rightarrow> job \<Rightarrow> bool" where
  "to_write b j = (j_revealedAt j = None \<and> (b = Revealed \<or> (b = Arriving \<and> j_arrivingNotifiedAt j = None)))"

definition line_bands :: "id \<Rightarrow> int \<Rightarrow> job list \<Rightarrow> id \<Rightarrow> queue_band" where
  "line_bands shopId capacity js k = the (assignBands (map band_of_job (ACTIVE_QUEUE_JOBS shopId js)) capacity k)"

lemma set_line [simp]: "set (ACTIVE_QUEUE_JOBS shopId js) = {j \<in> set js. in_line shopId j}"
  by (simp add: ACTIVE_QUEUE_JOBS_def)

lemma distinct_line: "distinct (map j_id js) \<Longrightarrow> distinct (map j_id (ACTIVE_QUEUE_JOBS shopId js))"
proof -
  assume "distinct (map j_id js)"
  then have "distinct (map j_id (filter (in_line shopId) js))" by (rule distinct_map_filter)
  moreover have "mset (map j_id (sort_key line_key (filter (in_line shopId) js))) = mset (map j_id (filter (in_line shopId) js))"
    by simp
  ultimately show ?thesis unfolding ACTIVE_QUEUE_JOBS_def by (metis mset_eq_imp_distinct_iff)
qed

lemma band_at_index:
  assumes "distinct (map j_id q)" "i < length q"
  shows "assignBands (map band_of_job q) capacity (j_id (q ! i))
    = Some (rank_band (j_revealedAt (q ! i) \<noteq> None) (free_slots (flags q) capacity) (max COUNTER_CAPACITY_MIN capacity)
        (unrevealed_before (flags q) i))"
proof -
  have d: "distinct (map bi_id (map band_of_job q))" using assms(1) by (simp only: ids_bands)
  show ?thesis
    using assignBands_rank [OF d, of i capacity] assms(2)
    by (simp only: flags_bands) (simp add: band_of_job_def)
qed

lemma pick_update_line:
  fixes capacity :: int
  assumes "distinct (map j_id js)" "j \<in> set js" "in_line shopId j"
  defines "b \<equiv> line_bands shopId capacity js (j_id j)"
  shows "pick_update shopId grace now (pass_picks capacity (ACTIVE_QUEUE_JOBS shopId js)) j
    = (if to_write b j then Some (b = Revealed, settle_job b grace now j) else None)"
proof -
  let ?q = "ACTIVE_QUEUE_JOBS shopId js"
  have dq: "distinct (map j_id ?q)" using distinct_line [OF assms(1)] .
  have "j \<in> set ?q" using assms(2,3) by simp
  then obtain i where i: "i < length ?q" "?q ! i = j" by (metis in_set_conv_nth)
  have free: "max 0 (max COUNTER_CAPACITY_MIN capacity - int (length (filter (\<lambda>j. j_revealedAt j \<noteq> None) ?q)))
      = free_slots (flags ?q) capacity"
    by (simp add: free_slots_def flags_def filter_map comp_def)
  have cap: "0 \<le> max COUNTER_CAPACITY_MIN capacity" by (simp add: COUNTER_CAPACITY_MIN_def)
  have b: "b = rank_band (j_revealedAt j \<noteq> None) (free_slots (flags ?q) capacity) (max COUNTER_CAPACITY_MIN capacity)
      (unrevealed_before (flags ?q) i)"
    using band_at_index [OF dq i(1), of capacity] i(2) by (simp add: b_def line_bands_def)
  have "find (\<lambda>p. fst p = j_id j) (pass_picks capacity ?q)
      = (let u = unrevealed_before (flags ?q) i in
         if j_revealedAt j \<noteq> None then None
         else if u < free_slots (flags ?q) capacity then Some (j_id j, True)
         else if u < free_slots (flags ?q) capacity + max COUNTER_CAPACITY_MIN capacity \<and> j_arrivingNotifiedAt j = None
           then Some (j_id j, False)
         else None)"
    using find_pick [OF dq i(1), of 1 "max COUNTER_CAPACITY_MIN capacity" "free_slots (flags ?q) capacity"] cap i(2)
    by (simp only: pass_picks_def Let_def free) (simp add: free_slots_def)
  then show ?thesis
    using assms(3) by (auto simp: pick_update_def b to_write_def settle_job_def rank_band_def Let_def)
qed

lemma find_pick_outside:
  "j_id j \<notin> j_id ` set q \<Longrightarrow> find (\<lambda>p. fst p = j_id j) (pass_picks capacity q) = None"
  by (simp add: pass_picks_def Let_def find_pick_other)

lemma pick_update_outside: "\<not> in_line shopId j \<Longrightarrow> pick_update shopId grace now picks j = None"
  by (auto simp: pick_update_def split: option.splits)

subsection \<open>The pass as a whole\<close>

definition settled :: "id \<Rightarrow> int \<Rightarrow> int \<Rightarrow> millis \<Rightarrow> job list \<Rightarrow> job \<Rightarrow> job" where
  "settled shopId capacity grace now js j =
    (if in_line shopId j then settle_job (line_bands shopId capacity js (j_id j)) grace now j else j)"

lemma settle_job_idle: "\<not> to_write b j \<Longrightarrow> settle_job b grace now j = j"
  by (cases b; cases "j_revealedAt j"; cases "j_arrivingNotifiedAt j") (simp_all add: to_write_def settle_job_def)

lemma lockedRevealPass_settles:
  assumes "distinct (map j_id js)"
  shows "snd (lockedRevealPass shopId (Some (capacity, grace)) now js) = map (settled shopId capacity grace now js) js"
  using pick_update_line [OF assms] pick_update_outside
  by (auto simp: lockedRevealPass_def Let_def settled_def settle_job_idle)

lemma settle_job_keeps [simp]:
  "j_id (settle_job b grace now j) = j_id j" "j_shopId (settle_job b grace now j) = j_shopId j"
  "j_status (settle_job b grace now j) = j_status j" "j_queuedAt (settle_job b grace now j) = j_queuedAt j"
  "j_createdAt (settle_job b grace now j) = j_createdAt j" "j_assignedPrinterId (settle_job b grace now j) = j_assignedPrinterId j"
  "j_specs (settle_job b grace now j) = j_specs j" "j_pagesPerCopy (settle_job b grace now j) = j_pagesPerCopy j"
  "j_studentId (settle_job b grace now j) = j_studentId j" "j_checkInCount (settle_job b grace now j) = j_checkInCount j"
  by (simp_all add: settle_job_def split: queue_band.splits)

lemma settled_keeps [simp]:
  "j_id (settled s c g now js j) = j_id j" "j_shopId (settled s c g now js j) = j_shopId j"
  "j_status (settled s c g now js j) = j_status j" "j_queuedAt (settled s c g now js j) = j_queuedAt j"
  "j_createdAt (settled s c g now js j) = j_createdAt j"
  "in_line s' (settled s c g now js j) = in_line s' j" "line_key (settled s c g now js j) = line_key j"
  by (simp_all add: settled_def in_line_def line_key_def)

lemma sort_key_map:
  assumes "\<And>x. f (g x) = f x"
  shows "sort_key f (map g xs) = map g (sort_key f xs)"
proof -
  have ins: "insort_key f (g x) (map g ys) = map g (insort_key f x ys)" for x ys
    by (induction ys) (simp_all add: assms)
  show ?thesis by (induction xs) (simp_all add: ins)
qed

lemma line_after_pass:
  "ACTIVE_QUEUE_JOBS shopId (map (settled shopId c g now js) js)
    = map (settled shopId c g now js) (ACTIVE_QUEUE_JOBS shopId js)"
  by (simp add: ACTIVE_QUEUE_JOBS_def filter_map comp_def sort_key_map)

text \<open>A job of the line is revealed after the pass exactly when the rule shows it.\<close>

lemma settle_revealed_iff:
  "j_revealedAt (settle_job b grace now j) \<noteq> None \<longleftrightarrow> j_revealedAt j \<noteq> None \<or> b = Revealed"
  by (auto simp: settle_job_def split: queue_band.splits)

lemma line_bands_index:
  assumes "distinct (map j_id js)" "i < length (ACTIVE_QUEUE_JOBS shopId js)"
  shows "line_bands shopId capacity js (j_id (ACTIVE_QUEUE_JOBS shopId js ! i))
    = rank_band (j_revealedAt (ACTIVE_QUEUE_JOBS shopId js ! i) \<noteq> None) (free_slots (flags (ACTIVE_QUEUE_JOBS shopId js)) capacity)
        (max COUNTER_CAPACITY_MIN capacity) (unrevealed_before (flags (ACTIVE_QUEUE_JOBS shopId js)) i)"
  using band_at_index [OF distinct_line [OF assms(1)] assms(2)] by (simp add: line_bands_def)

lemma flags_after_pass:
  fixes shopId :: id
  assumes "distinct (map j_id js)"
  defines "q \<equiv> ACTIVE_QUEUE_JOBS shopId js"
  shows "flags (map (settled shopId capacity g now js) q)
    = map (shown_by_rank (flags q) capacity) [0..<length q]"
proof (rule nth_equalityI)
  fix i assume "i < length (flags (map (settled shopId capacity g now js) q))"
  then have i: "i < length q" by simp
  have "q ! i \<in> set q" using i by simp
  then have l: "in_line shopId (q ! i)" by (simp add: q_def)
  have lhs: "flags (map (settled shopId capacity g now js) q) ! i
      \<longleftrightarrow> j_revealedAt (settle_job (line_bands shopId capacity js (j_id (q ! i))) g now (q ! i)) \<noteq> None"
    using i l by (simp add: flags_def settled_def)
  have b: "line_bands shopId capacity js (j_id (q ! i)) = rank_band (j_revealedAt (q ! i) \<noteq> None)
      (free_slots (flags q) capacity) (max COUNTER_CAPACITY_MIN capacity) (unrevealed_before (flags q) i)"
    using i line_bands_index [OF assms(1), of i shopId capacity] by (simp only: q_def)
  have f: "flags q ! i = (j_revealedAt (q ! i) \<noteq> None)"
    using i by (simp add: flags_def)
  have "flags (map (settled shopId capacity g now js) q) ! i
      \<longleftrightarrow> flags q ! i \<or> unrevealed_before (flags q) i < free_slots (flags q) capacity"
    unfolding lhs settle_revealed_iff b f rank_band_def by simp
  then show "flags (map (settled shopId capacity g now js) q) ! i = map (shown_by_rank (flags q) capacity) [0..<length q] ! i"
    using i by (simp add: shown_by_rank_iff)
qed simp

subsection \<open>A second pass has nothing to do\<close>

lemma unrevealed_before_Suc:
  "i < length bs \<Longrightarrow> unrevealed_before bs (Suc i) = unrevealed_before bs i + (if bs ! i then 0 else 1)"
  by (simp add: unrevealed_before_def take_Suc_conv_app_nth)

lemma unrevealed_after:
  assumes "i \<le> length bs" "0 \<le> f"
  shows "unrevealed_before (map (\<lambda>k. bs ! k \<or> unrevealed_before bs k < f) [0..<length bs]) i
    = max 0 (unrevealed_before bs i - f)"
  using assms
proof (induction i)
  case 0
  then show ?case by simp
next
  case (Suc i)
  then show ?case by (auto simp: unrevealed_before_Suc)
qed

lemma shown_flags:
  "map (shown_by_rank bs capacity) [0..<length bs]
    = map (\<lambda>k. bs ! k \<or> unrevealed_before bs k < free_slots bs capacity) [0..<length bs]"
  by (simp add: shown_by_rank_iff)

lemma count_shown:
  "length (filter id (map (shown_by_rank bs capacity) [0..<length bs]))
    = card {i. i < length bs \<and> shown_by_rank bs capacity i}"
proof -
  have "{i. i < length (map (shown_by_rank bs capacity) [0..<length bs]) \<and> id (map (shown_by_rank bs capacity) [0..<length bs] ! i)}
      = {i. i < length bs \<and> shown_by_rank bs capacity i}"
    by auto
  then show ?thesis by (simp add: length_filter_conv_card)
qed

lemma hidden_band_after:
  assumes "i < length bs" "\<not> shown_by_rank bs capacity i"
  defines "bs' \<equiv> map (shown_by_rank bs capacity) [0..<length bs]"
  shows "rank_band False (free_slots bs' capacity) (max COUNTER_CAPACITY_MIN capacity) (unrevealed_before bs' i)
    = rank_band False (free_slots bs capacity) (max COUNTER_CAPACITY_MIN capacity) (unrevealed_before bs i)"
    and "rank_band False (free_slots bs' capacity) (max COUNTER_CAPACITY_MIN capacity) (unrevealed_before bs' i) \<noteq> Revealed"
proof -
  have f0: "free_slots bs' capacity = 0"
    using assign_bands.hidden_only_when_full [OF assms(1,2)] count_shown [of bs capacity]
    by (simp add: free_slots_def bs'_def)
  have "0 \<le> free_slots bs capacity" by (simp add: free_slots_def)
  then have u: "unrevealed_before bs' i = max 0 (unrevealed_before bs i - free_slots bs capacity)"
    using unrevealed_after [of i bs "free_slots bs capacity"] assms(1) by (simp only: bs'_def shown_flags)
  have h: "free_slots bs capacity \<le> unrevealed_before bs i"
    using assms(2) by (simp add: shown_by_rank_iff)
  show "rank_band False (free_slots bs' capacity) (max COUNTER_CAPACITY_MIN capacity) (unrevealed_before bs' i)
    = rank_band False (free_slots bs capacity) (max COUNTER_CAPACITY_MIN capacity) (unrevealed_before bs i)"
    using h by (auto simp: rank_band_def f0 u)
  show "rank_band False (free_slots bs' capacity) (max COUNTER_CAPACITY_MIN capacity) (unrevealed_before bs' i) \<noteq> Revealed"
    using h by (auto simp: rank_band_def f0 u)
qed

lemma nothing_to_write_after:
  fixes capacity g :: int and now :: millis
  assumes "distinct (map j_id js)" "j \<in> set js" "in_line shopId j"
  defines "js' \<equiv> map (settled shopId capacity g now js) js"
  shows "\<not> to_write (line_bands shopId capacity js' (j_id j)) (settled shopId capacity g now js j)"
proof -
  let ?q = "ACTIVE_QUEUE_JOBS shopId js"
  let ?s = "settled shopId capacity g now js"
  have "j \<in> set ?q" using assms(2,3) by simp
  then obtain i where i: "i < length ?q" "?q ! i = j" by (metis in_set_conv_nth)
  have q': "ACTIVE_QUEUE_JOBS shopId js' = map ?s ?q"
    by (simp add: js'_def line_after_pass)
  have d': "distinct (map j_id js')"
    using assms(1) by (simp add: js'_def comp_def)
  have fl: "flags (map ?s ?q) = map (shown_by_rank (flags ?q) capacity) [0..<length (flags ?q)]"
    using flags_after_pass [OF assms(1)] by simp
  have b': "line_bands shopId capacity js' (j_id j) = rank_band (j_revealedAt (?s j) \<noteq> None)
      (free_slots (flags (map ?s ?q)) capacity) (max COUNTER_CAPACITY_MIN capacity) (unrevealed_before (flags (map ?s ?q)) i)"
    using line_bands_index [OF d', of i shopId capacity] i by (simp only: q' length_map nth_map settled_keeps)
  have b: "line_bands shopId capacity js (j_id j) = rank_band (j_revealedAt j \<noteq> None)
      (free_slots (flags ?q) capacity) (max COUNTER_CAPACITY_MIN capacity) (unrevealed_before (flags ?q) i)"
    using line_bands_index [OF assms(1) i(1), of capacity] i by simp
  have il: "i < length (flags ?q)" using i by simp
  have shown: "j_revealedAt (?s j) \<noteq> None \<longleftrightarrow> shown_by_rank (flags ?q) capacity i"
  proof -
    have "flags (map ?s ?q) ! i \<longleftrightarrow> j_revealedAt (?s j) \<noteq> None" using i by (simp add: flags_def)
    then show ?thesis using il fl by simp
  qed
  show ?thesis
  proof (cases "j_revealedAt (?s j) = None")
    case False
    then show ?thesis by (simp add: to_write_def)
  next
    case True
    then have hid: "\<not> shown_by_rank (flags ?q) capacity i" using shown by simp
    then have jn: "j_revealedAt j = None" using i by (auto simp: shown_by_rank_iff flags_def)
    have b'': "line_bands shopId capacity js' (j_id j) = line_bands shopId capacity js (j_id j)"
      "line_bands shopId capacity js' (j_id j) \<noteq> Revealed"
      using hidden_band_after [OF il hid] True jn by (simp_all only: b' b fl) simp_all
    show ?thesis
      using assms(3) jn b'' by (auto simp: to_write_def settled_def settle_job_def split: if_splits)
  qed
qed

subsection \<open>What the pass wins\<close>

definition writes_of :: "id \<Rightarrow> int \<Rightarrow> int \<Rightarrow> millis \<Rightarrow> job list \<Rightarrow> job \<Rightarrow> (bool \<times> job) option" where
  "writes_of shopId capacity grace now js j =
    (let b = line_bands shopId capacity js (j_id j) in
     if in_line shopId j \<and> to_write b j then Some (b = Revealed, settle_job b grace now j) else None)"

lemma pick_update_writes:
  "distinct (map j_id js) \<Longrightarrow> j \<in> set js
    \<Longrightarrow> pick_update shopId grace now (pass_picks capacity (ACTIVE_QUEUE_JOBS shopId js)) j
      = writes_of shopId capacity grace now js j"
  using pick_update_line [of js j shopId grace now capacity]
  by (cases "in_line shopId j") (simp_all add: writes_of_def Let_def pick_update_outside)

lemma lockedRevealPass_eq:
  assumes "distinct (map j_id js)"
  shows "lockedRevealPass shopId (Some (capacity, grace)) now js =
    (map (mk_pass_row grace) (map the (filter (\<lambda>u. u \<noteq> None) (map (writes_of shopId capacity grace now js) js))),
     map (settled shopId capacity grace now js) js)"
proof -
  have "map (pick_update shopId grace now (pass_picks capacity (ACTIVE_QUEUE_JOBS shopId js))) js
      = map (writes_of shopId capacity grace now js) js"
    using pick_update_writes [OF assms] by simp
  then have "fst (lockedRevealPass shopId (Some (capacity, grace)) now js)
      = map (mk_pass_row grace) (map the (filter (\<lambda>u. u \<noteq> None) (map (writes_of shopId capacity grace now js) js)))"
    by (simp only: lockedRevealPass_def Let_def option.case prod.case fst_conv)
  then show ?thesis
    using lockedRevealPass_settles [OF assms, of shopId capacity grace now] by (metis prod.collapse)
qed

lemma map_id_on: "(\<And>x. x \<in> set xs \<Longrightarrow> f x = x) \<Longrightarrow> map f xs = xs"
  by (induction xs) auto

lemma idle_pass:
  assumes "distinct (map j_id js)"
    "\<And>j. j \<in> set js \<Longrightarrow> in_line shopId j \<Longrightarrow> \<not> to_write (line_bands shopId capacity js (j_id j)) j"
  shows "lockedRevealPass shopId (Some (capacity, grace)) now js = ([], js)"
proof -
  have "writes_of shopId capacity grace now js j = None" if "j \<in> set js" for j
    using assms(2) [OF that] by (auto simp: writes_of_def Let_def)
  then have "filter (\<lambda>u. u \<noteq> None) (map (writes_of shopId capacity grace now js) js) = []"
    by (auto simp: filter_empty_conv)
  moreover have "map (settled shopId capacity grace now js) js = js"
    using assms(2) by (intro map_id_on) (simp add: settled_def settle_job_idle)
  ultimately show ?thesis by (simp only: lockedRevealPass_eq [OF assms(1)]) simp
qed

lemma second_pass_idle:
  assumes "distinct (map j_id js)"
  shows "lockedRevealPass shopId (Some (capacity, grace')) now' (map (settled shopId capacity grace now js) js)
    = ([], map (settled shopId capacity grace now js) js)"
proof (rule idle_pass)
  show "distinct (map j_id (map (settled shopId capacity grace now js) js))"
    using assms by (simp add: comp_def)
  show "\<not> to_write (line_bands shopId capacity (map (settled shopId capacity grace now js) js) (j_id j)) j"
    if "j \<in> set (map (settled shopId capacity grace now js) js)" "in_line shopId j" for j
    using that nothing_to_write_after [OF assms, of _ shopId capacity grace now] by auto
qed

lemma some_write_iff:
  assumes "distinct (map j_id js)"
  shows "fst (lockedRevealPass shopId (Some (capacity, grace)) now js) = []
    \<longleftrightarrow> (\<forall>j \<in> set js. in_line shopId j \<longrightarrow> \<not> to_write (line_bands shopId capacity js (j_id j)) j)"
  by (auto simp: lockedRevealPass_eq [OF assms] filter_empty_conv writes_of_def Let_def split: if_splits)

lemma set_build_entries:
  "e \<in> set (build_entries bands ppm n ahead q) \<Longrightarrow> qe_job e \<in> set q \<and> qe_band e = the (bands (j_id (qe_job e)))"
  by (induction bands ppm n ahead q rule: build_entries.induct) (auto simp: Let_def)

lemma map_job_build_entries [simp]: "map qe_job (build_entries bands ppm n ahead q) = q"
  by (induction bands ppm n ahead q rule: build_entries.induct) (auto simp: Let_def)

lemma needsReconcile_iff:
  "needsReconcile (loadShopQueue shopId (Some (capacity, grace)) printers js)
    \<longleftrightarrow> (\<exists>j \<in> set js. in_line shopId j \<and> to_write (line_bands shopId capacity js (j_id j)) j)"
proof -
  let ?q = "ACTIVE_QUEUE_JOBS shopId js"
  let ?es = "sq_entries (loadShopQueue shopId (Some (capacity, grace)) printers js)"
  have band: "qe_job e \<in> set ?q \<and> qe_band e = line_bands shopId capacity js (j_id (qe_job e))" if "e \<in> set ?es" for e
    using that set_build_entries by (fastforce simp: loadShopQueue_def buildShopQueue_def Let_def line_bands_def)
  have job: "\<exists>e \<in> set ?es. qe_job e = j" if "j \<in> set ?q" for j
  proof -
    have "map qe_job ?es = ?q" by (simp add: loadShopQueue_def buildShopQueue_def Let_def)
    then have "j \<in> qe_job ` set ?es" using that by (metis set_map)
    then show ?thesis by blast
  qed
  have "needsReconcile (loadShopQueue shopId (Some (capacity, grace)) printers js)
      \<longleftrightarrow> (\<exists>e \<in> set ?es. to_write (qe_band e) (qe_job e))"
    by (simp add: needsReconcile_def list_ex_iff to_write_def)
  also have "\<dots> \<longleftrightarrow> (\<exists>j \<in> set ?q. to_write (line_bands shopId capacity js (j_id j)) j)"
    using band job by metis
  finally show ?thesis by auto
qed

subsection \<open>Properties\<close>

text \<open>
  C6. The SQL of the locked pass is \<open>assignBands\<close>: on a table with unique ids, the statement reveals
  exactly the unrevealed jobs of the shop's line that \<open>assignBands\<close> puts in the revealed band (with
  the reveal time and a deadline of the shop's grace after it), flags exactly the arriving ones not yet
  flagged, and writes no other job; and the rows it returns are those jobs.
\<close>

theorem sql_pass_is_assignBands:
  assumes "distinct (map j_id js)"
  shows "(case lockedRevealPass shopId (Some (capacity, grace)) now js of (won, js') \<Rightarrow>
      js' = map (\<lambda>j. if in_line shopId j then settle_job
          (the (assignBands (map band_of_job (ACTIVE_QUEUE_JOBS shopId js)) capacity (j_id j))) grace now j else j) js
      \<and> map w_id won = map j_id (filter (\<lambda>j. in_line shopId j \<and> to_write
          (the (assignBands (map band_of_job (ACTIVE_QUEUE_JOBS shopId js)) capacity (j_id j))) j) js)
      \<and> (\<forall>w \<in> set won. w_isReveal w \<longrightarrow> w_revealedAt w = Some now \<and> w_revealDeadlineAt w = Some (now + grace * 1000)))"
proof -
  let ?w = "writes_of shopId capacity grace now js"
  have ids: "map w_id (map (mk_pass_row grace) (map the (filter (\<lambda>u. u \<noteq> None) (map ?w xs))))
      = map j_id (filter (\<lambda>j. in_line shopId j \<and> to_write (line_bands shopId capacity js (j_id j)) j) xs)" for xs
    by (induction xs) (auto simp: writes_of_def Let_def mk_pass_row_def)
  have rev: "fst u \<longrightarrow> j_revealedAt (snd u) = Some now \<and> j_revealDeadlineAt (snd u) = Some (now + grace * 1000)"
    if "?w j = Some u" for j u
    using that by (auto simp: writes_of_def Let_def to_write_def settle_job_def split: if_splits)
  show ?thesis
    unfolding lockedRevealPass_eq [OF assms] prod.case ids
    using rev by (auto simp: settled_def line_bands_def mk_pass_row_def)
qed

definition waiting_job :: "id \<Rightarrow> millis \<Rightarrow> job" where
  "waiting_job k t = (sample_job k Queued)\<lparr>j_queuedAt := Some t\<rparr>"

lemma waiting_job_simps [simp]:
  "j_id (waiting_job k t) = k" "j_revealedAt (waiting_job k t) = None" "j_queuedAt (waiting_job k t) = Some t"
  "j_arrivingNotifiedAt (waiting_job k t) = None" "j_createdAt (waiting_job k t) = 0"
  "in_line ''s'' (waiting_job k t)"
  by (simp_all add: waiting_job_def sample_job_def in_line_def ACTIVE_QUEUE_STATUSES_def)

theorem sql_pass_is_assignBands_witness:
  "map w_id (fst (lockedRevealPass ''s'' (Some (1, 60)) 500 [waiting_job ''b'' 2, waiting_job ''a'' 1, waiting_job ''c'' 3]))
    = [''b'', ''a'']"
proof -
  let ?js = "[waiting_job ''b'' 2, waiting_job ''a'' 1, waiting_job ''c'' 3]"
  have l: "ACTIVE_QUEUE_JOBS ''s'' ?js = [waiting_job ''a'' 1, waiting_job ''b'' 2, waiting_job ''c'' 3]"
    by (simp add: ACTIVE_QUEUE_JOBS_def line_key_def)
  have "distinct (map j_id ?js)" by simp
  from sql_pass_is_assignBands [OF this, of "''s''" 1 60 500] show ?thesis
    by (simp add: l band_of_job_def assignBands_def COUNTER_CAPACITY_MIN_def to_write_def split: prod.splits)
qed

text \<open>
  A reveal pass is exactly-once and bounded: a second pass over the result, at any later time and
  with any grace, wins no row (so nobody is notified twice) and changes nothing; after the pass the
  number of revealed jobs in the line is the capacity, or the whole line when it is shorter, or what it
  was before when that is more; and no revealed job is touched.
\<close>

theorem reveal_pass_once:
  assumes "distinct (map j_id js)"
  shows "(case lockedRevealPass shopId (Some (capacity, grace)) now js of (won, js') \<Rightarrow>
      lockedRevealPass shopId (Some (capacity, grace')) now' js' = ([], js')
      \<and> int (length (filter id (flags (ACTIVE_QUEUE_JOBS shopId js'))))
        = max (int (length (filter id (flags (ACTIVE_QUEUE_JOBS shopId js)))))
            (min (max 1 capacity) (int (length (ACTIVE_QUEUE_JOBS shopId js))))
      \<and> (\<forall>j \<in> set js. j_revealedAt j \<noteq> None \<longrightarrow> j \<in> set js'))"
proof -
  let ?q = "ACTIVE_QUEUE_JOBS shopId js"
  let ?js' = "map (settled shopId capacity grace now js) js"
  have "flags (ACTIVE_QUEUE_JOBS shopId ?js') = map (shown_by_rank (flags ?q) capacity) [0..<length (flags ?q)]"
    using flags_after_pass [OF assms] by (simp add: line_after_pass)
  then have n: "int (length (filter id (flags (ACTIVE_QUEUE_JOBS shopId ?js'))))
      = max (int (length (filter id (flags ?q)))) (min (max 1 capacity) (int (length ?q)))"
    using assign_bands.filled [of "flags ?q" capacity] count_shown [of "flags ?q" capacity]
    by (simp only: COUNTER_CAPACITY_MIN_def) simp
  have "j \<in> set ?js'" if "j \<in> set js" "j_revealedAt j \<noteq> None" for j
  proof -
    have "settled shopId capacity grace now js j = j" using that(2) by (simp add: settled_def settle_job_def)
    with that(1) show ?thesis by (metis image_eqI set_map)
  qed
  with n show ?thesis
    unfolding lockedRevealPass_eq [OF assms] prod.case second_pass_idle [OF assms] by blast
qed

theorem reveal_pass_once_witness:
  "lockedRevealPass ''s'' (Some (1, 30)) 900 (snd (lockedRevealPass ''s'' (Some (1, 60)) 500 [waiting_job ''b'' 2, waiting_job ''a'' 1]))
    = ([], snd (lockedRevealPass ''s'' (Some (1, 60)) 500 [waiting_job ''b'' 2, waiting_job ''a'' 1]))"
proof -
  have "distinct (map j_id [waiting_job ''b'' 2, waiting_job ''a'' 1])" by simp
  from reveal_pass_once [OF this, where shopId = "''s''" and capacity = 1 and grace = 60 and now = 500
    and grace' = 30 and now' = 900] show ?thesis
    by (simp split: prod.splits)
qed

text \<open>
  Skipping the pass is safe: \<open>needsReconcile\<close> of the freshly loaded queue is false exactly when
  the locked pass would win no row, and then it would leave the table as it is.
\<close>

theorem needsReconcile_exact:
  assumes "distinct (map j_id js)"
  shows "(\<not> needsReconcile (loadShopQueue shopId (Some (capacity, grace)) printers js)
      \<longleftrightarrow> fst (lockedRevealPass shopId (Some (capacity, grace)) now js) = [])
    \<and> (needsReconcile (loadShopQueue shopId (Some (capacity, grace)) printers js)
      \<or> lockedRevealPass shopId (Some (capacity, grace)) now js = ([], js))"
  using some_write_iff [OF assms, of shopId capacity grace now] idle_pass [OF assms, of shopId capacity grace now]
  by (auto simp: needsReconcile_iff)

theorem needsReconcile_exact_witness:
  "needsReconcile (loadShopQueue ''s'' (Some (1, 60)) [] [waiting_job ''a'' 1])
    \<and> fst (lockedRevealPass ''s'' (Some (1, 60)) 500 [waiting_job ''a'' 1]) \<noteq> []"
proof -
  have d: "distinct (map j_id [waiting_job ''a'' 1])" by simp
  have "needsReconcile (loadShopQueue ''s'' (Some (1, 60)) [] [waiting_job ''a'' 1])"
    by (simp add: needsReconcile_def loadShopQueue_def buildShopQueue_def ACTIVE_QUEUE_JOBS_def Let_def
        band_of_job_def assignBands_def COUNTER_CAPACITY_MIN_def)
  with needsReconcile_exact [OF d, of "''s''" 1 60 "[]" 500] show ?thesis by simp
qed

end
