(* ===== verification/Queue_Engine.thy ===== *)
theory Queue_Engine
  imports Band_Sync
begin

text \<open>
  apps/api/src/modules/queue/engine.ts, queue/visibility.ts and lib/geo.ts: checking in at the shop,
  marking a student absent, the reveal timer, allocating the counter code and dispatching a print. A
  handler that reads a snapshot and commits later takes both: \<open>seen\<close> is what it read and \<open>d\<close> the
  store its conditional update meets, so what other requests did in between is a difference of the two.
  Each handler returns its result (an error is the left component), the store, and the effects it starts.
  Environment constants: SCHEDULE_LEAD_MINUTES and PREPARED_ORDER_TTL_HOURS have their defaults.
\<close>

subsection \<open>Constants and geometry\<close>

definition leadMs :: millis where "leadMs = 10 * 60000"
definition MAX_LOCATION_AGE_MS :: millis where "MAX_LOCATION_AGE_MS = 90000"
definition MAX_LOCATION_ACCURACY_M :: int where "MAX_LOCATION_ACCURACY_M = 100"
definition EARTH_RADIUS_M :: real where "EARTH_RADIUS_M = 6371000"

definition radians :: "real \<Rightarrow> real" where
  "radians degrees = degrees * pi / 180"

record coordinates =
  latitude :: real
  longitude :: real

definition distanceMeters :: "coordinates \<Rightarrow> coordinates \<Rightarrow> real" where
  "distanceMeters a b =
    (let lat1 = radians (latitude a); lat2 = radians (latitude b);
         deltaLat = radians (latitude b - latitude a);
         deltaLng = radians (longitude b - longitude a);
         haversine = (sin (deltaLat / 2))\<^sup>2 + cos lat1 * cos lat2 * (sin (deltaLng / 2))\<^sup>2
     in 2 * EARTH_RADIUS_M * arcsin (sqrt haversine))"

definition isWithinRadius :: "real \<Rightarrow> real \<Rightarrow> bool" where
  "isWithinRadius distanceM radiusM = (distanceM \<le> radiusM)"

subsection \<open>visibility.ts\<close>

definition isCounterCodeAvailable :: "job_status \<Rightarrow> millis option \<Rightarrow> bool" where
  "isCounterCodeAvailable st revealedAt =
    (if st = Ready_for_pickup then True else (st = Queued \<or> st = Notified) \<and> revealedAt \<noteq> None)"

definition isNormalCounterRelease :: "job_status \<Rightarrow> queue_band option \<Rightarrow> bool" where
  "isNormalCounterRelease st band = ((st = Queued \<or> st = Notified) \<and> band = Some Revealed)"

subsection \<open>The shop as a handler reads it\<close>

record shop_view =
  v_shop :: shop_row
  v_printers :: "printer_row list"
  v_agents :: "agent_row list"
  v_jobs :: "job list"

definition shop_printers :: "shop_view \<Rightarrow> printer_row list" where
  "shop_printers v = filter (\<lambda>p. pt_shopId p = sh_id (v_shop v)) (v_printers v)"

definition online_agents :: "shop_view \<Rightarrow> agent_row list" where
  "online_agents v = filter (\<lambda>a. ag_shopId a = sh_id (v_shop v) \<and> ag_status a = Ag_online) (v_agents v)"

definition queue_settings :: "shop_row \<Rightarrow> (int \<times> int) option" where
  "queue_settings s = Some (sh_counterCapacity s, sh_revealGraceSeconds s)"

definition view_line :: "shop_view \<Rightarrow> job list" where
  "view_line v = ACTIVE_QUEUE_JOBS (sh_id (v_shop v)) (v_jobs v)"

definition view_queue :: "shop_view \<Rightarrow> shop_queue" where
  "view_queue v = buildShopQueue (queue_settings (v_shop v)) (shop_printers v) (view_line v)"

record live_metrics =
  lm_position :: "int option"
  lm_etaMinutes :: "int option"
  lm_band :: "queue_band option"
  lm_revealDeadlineAt :: "millis option"

definition NOT_IN_LINE :: live_metrics where
  "NOT_IN_LINE = \<lparr>lm_position = None, lm_etaMinutes = None, lm_band = None, lm_revealDeadlineAt = None\<rparr>"

definition liveMetricsFromQueue :: "shop_queue \<Rightarrow> id \<Rightarrow> live_metrics" where
  "liveMetricsFromQueue q jobId = (case find (\<lambda>e. j_id (qe_job e) = jobId) (sq_entries q) of
      None \<Rightarrow> NOT_IN_LINE
    | Some e \<Rightarrow> \<lparr>lm_position = Some (qe_position e), lm_etaMinutes = qe_etaMinutes e, lm_band = Some (qe_band e),
        lm_revealDeadlineAt = (if qe_band e = Revealed then j_revealDeadlineAt (qe_job e) else None)\<rparr>)"

definition find_job :: "id \<Rightarrow> job list \<Rightarrow> job option" where
  "find_job k js = find (\<lambda>j. j_id j = k) js"

definition getJobLiveMetrics :: "id \<Rightarrow> shop_view \<Rightarrow> live_metrics" where
  "getJobLiveMetrics jobId v = (case find_job jobId (v_jobs v) of
      None \<Rightarrow> NOT_IN_LINE
    | Some t \<Rightarrow> if j_status t \<notin> set ACTIVE_QUEUE_STATUSES then NOT_IN_LINE
        else liveMetricsFromQueue (view_queue v) jobId)"

definition recommendPrinter :: "shop_view \<Rightarrow> job_specs \<Rightarrow> int \<Rightarrow> id option \<Rightarrow> recommendation list \<times> recommendation option" where
  "recommendPrinter v specs pagesPerCopy excludeJobId =
    rankFromSnapshot (shop_printers v) (online_agents v) (view_line v) specs pagesPerCopy excludeJobId"

text \<open>The dashboard and the students in line: what is published, and whether the student's page may fetch the code.\<close>

definition publishQueueSnapshots :: "id \<Rightarrow> shop_queue \<Rightarrow> effect list" where
  "publishQueueSnapshots shopId q = Publish (Ch_shop shopId) ''queue:update'' shopId
    # map (\<lambda>e. Publish (Ch_student (j_studentId (qe_job e))) ''job:update'' (j_id (qe_job e))) (sq_entries q)"

definition emitQueueUpdate :: "shop_view \<Rightarrow> millis \<Rightarrow> job list \<Rightarrow> job list \<times> effect list" where
  "emitQueueUpdate v now js =
    (case reconcileShopQueue (sh_id (v_shop v)) (queue_settings (v_shop v)) (shop_printers v) now js js of
      (q, _, js', effs) \<Rightarrow> (js', effs @ publishQueueSnapshots (sh_id (v_shop v)) q))"

subsection \<open>The counter code\<close>

definition system :: actor where "system = \<lparr>actorType = A_system, actorId = None\<rparr>"

definition UNFINISHED_EXCLUDED :: "job_status list" where
  "UNFINISHED_EXCLUDED = [Completed, Expired, Cancelled]"

definition counterCodeInUse :: "id \<Rightarrow> string \<Rightarrow> job list \<Rightarrow> nat" where
  "counterCodeInUse shopId digest js = count_where (\<lambda>j. j_shopId j = shopId \<and> j_releaseCodeDigest j = Some digest
    \<and> j_status j \<notin> set UNFINISHED_EXCLUDED) js"

text \<open>
  The random six-digit codes are the argument \<open>candidates\<close>, the HMAC and the cipher the arguments
  \<open>digestOf\<close> and \<open>encrypt\<close>. Each attempt counts against the table as it is then; the loop tries twenty.
\<close>

definition newCounterCode :: "(id \<Rightarrow> string \<Rightarrow> string) \<Rightarrow> id \<Rightarrow> string \<Rightarrow> string \<times> string" where
  "newCounterCode digestOf shopId code = (code, digestOf shopId code)"

definition allocatePayAtShopCode :: "(id \<Rightarrow> string \<Rightarrow> string) \<Rightarrow> (id \<Rightarrow> string \<Rightarrow> string) \<Rightarrow> string list
    \<Rightarrow> (string \<times> string) option \<Rightarrow> millis \<Rightarrow> job \<Rightarrow> job list \<Rightarrow> db \<Rightarrow> (job option \<times> db) result" where
  "allocatePayAtShopCode digestOf encrypt candidates preallocated now j seen d =
    (let searched = find (\<lambda>(code, digest). counterCodeInUse (j_shopId j) digest seen = 0)
           (map (newCounterCode digestOf (j_shopId j)) (take 20 candidates));
         chosen = (case preallocated of Some (code, digest) \<Rightarrow> if code \<noteq> [] then Some (code, digest) else searched
                   | None \<Rightarrow> searched)
     in case chosen of
          None \<Rightarrow> Inl (Thrown ''Could not allocate a unique release code'')
        | Some (code, digest) \<Rightarrow> applyTransition (j_id j)
            \<lparr>t_from = Pending_payment, t_event = CASH_SELECTED, t_actor = system,
             t_extra = [(C_paymentStatus, VPay Counter_due), (C_paymentProvider, VText ''pay_at_shop''),
               (C_releaseCodeDigest, VText digest), (C_releaseCodeEncrypted, VText (encrypt (j_shopId j) code)),
               (C_releaseCodeGeneratedAt, VTs now)],
             t_audit = None, t_guard = [], t_now = now\<rparr> d)"

definition notifyPayAtShopPrepared :: "millis \<Rightarrow> job \<Rightarrow> effect list" where
  "notifyPayAtShopPrepared now j =
    (case (j_mode j, j_scheduledTime j) of
      (Scheduled, Some t) \<Rightarrow> [Due_timer (j_id j) (max (t - leadMs - now) 0), Notify (j_studentId j) (K_prepared (j_id j))]
    | _ \<Rightarrow> [Notify (j_studentId j) (K_prepared (j_id j))])"

definition preparePayAtShopOrder :: "(id \<Rightarrow> string \<Rightarrow> string) \<Rightarrow> (id \<Rightarrow> string \<Rightarrow> string) \<Rightarrow> string list \<Rightarrow> millis \<Rightarrow> id
    \<Rightarrow> shop_view \<Rightarrow> db \<Rightarrow> unit result \<times> db \<times> effect list" where
  "preparePayAtShopOrder digestOf encrypt candidates now jobId v d = (case find_job jobId (v_jobs v) of
      None \<Rightarrow> (Inr (), d, [])
    | Some j \<Rightarrow> if j_status j \<noteq> Pending_payment then (Inr (), d, [])
        else (case allocatePayAtShopCode digestOf encrypt candidates None now j (v_jobs v) d of
            Inl e \<Rightarrow> (Inl e, d, [])
          | Inr (None, d') \<Rightarrow> (Inr (), d', [])
          | Inr (Some _, d') \<Rightarrow> (case emitQueueUpdate v now (jobs d') of (js, effs) \<Rightarrow>
              (Inr (), d'\<lparr>jobs := js\<rparr>, notifyPayAtShopPrepared now j @ effs))))"

definition handleScheduledDue :: "id \<Rightarrow> db \<Rightarrow> effect list" where
  "handleScheduledDue jobId d = (case find_job jobId (jobs d) of
      None \<Rightarrow> []
    | Some j \<Rightarrow> if j_status j \<noteq> Awaiting_arrival then [] else [Notify (j_studentId j) (K_scheduled (j_id j))])"

end
