(* ===== verification/Check_In.thy ===== *)
theory Check_In
  imports Queue_Engine
begin

text \<open>
  The arrival and absence handlers of apps/api/src/modules/queue/engine.ts: \<open>checkInJob\<close>,
  \<open>markAbsent\<close> and its callers, the reveal timer with its sweep, the legacy handlers and the hourly
  expiry of stale orders. Database failures after a committed check-in (the catch branch of
  \<open>checkInJob\<close>) are not modelled; the reveal pass runs on the store as it is after the commit.
\<close>

subsection \<open>checkInJob\<close>

record arrival_proof = coordinates +
  ap_accuracyM :: real
  ap_measuredAt :: millis

definition payment_ready :: "job \<Rightarrow> bool" where
  "payment_ready j = (j_paymentStatus j = Paid
    \<or> (j_paymentProvider j = Some ''pay_at_shop'' \<and> j_paymentStatus j = Counter_due)
    \<or> (j_paymentProvider j = Some ''cash'' \<and> j_paymentStatus j = Cash_due))"

text \<open>The guards in the order of the code; the printer to assign when all pass. \<open>now\<close> stands for each clock read.\<close>

definition check_in_guards :: "shop_view \<Rightarrow> arrival_proof \<Rightarrow> millis \<Rightarrow> job \<Rightarrow> id result" where
  "check_in_guards v arrival now j =
    (let shop = v_shop v; locationAge = now - ap_measuredAt arrival in
     if j_status j \<noteq> Awaiting_arrival \<and> j_status j \<noteq> No_show \<and> j_status j \<noteq> Requeued then Inl (Conflict ''state'')
     else if \<not> payment_ready j then Inl (Conflict ''not prepared'')
     else if locationAge < - 10000 then Inl (Conflict ''future location'')
     else if locationAge > MAX_LOCATION_AGE_MS then Inl (Conflict ''stale location'')
     else if sh_latitude shop = None \<or> sh_longitude shop = None then Inl (Conflict ''no check-in'')
     else let required = min MAX_LOCATION_ACCURACY_M (sh_checkInRadiusM shop) in
       if ap_accuracyM arrival > of_int required then Inl (Conflict ''accuracy'')
       else if \<not> isWithinRadius (distanceMeters \<lparr>latitude = latitude arrival, longitude = longitude arrival\<rparr>
            \<lparr>latitude = the (sh_latitude shop), longitude = the (sh_longitude shop)\<rparr>) (of_int (sh_checkInRadiusM shop))
         then Inl (Conflict ''too far'')
       else if j_mode j = Scheduled \<and> (case j_scheduledTime j of None \<Rightarrow> False | Some t \<Rightarrow> now < t - leadMs)
         then Inl (Conflict ''not open yet'')
       else (case snd (recommendPrinter v (j_specs j) (j_pagesPerCopy j) (Some (j_id j))) of
           None \<Rightarrow> Inl (Conflict ''no printer'')
         | Some r \<Rightarrow> Inr (rec_printerId r)))"

definition arrived_request :: "job \<Rightarrow> id \<Rightarrow> id \<Rightarrow> millis \<Rightarrow> transition_request" where
  "arrived_request j studentId printerId now =
    \<lparr>t_from = j_status j, t_event = ARRIVED, t_actor = \<lparr>actorType = A_student, actorId = Some studentId\<rparr>,
     t_extra = [(C_assignedPrinterId, VText printerId), (C_queuedAt, VTs now), (C_arrivedAt, VTs now),
       (C_queueLeftAt, VNull), (C_nearFrontNotifiedAt, VNull), (C_revealedAt, VNull), (C_revealDeadlineAt, VNull),
       (C_arrivingNotifiedAt, VNull), (C_absentAt, VNull), (C_absentReason, VNull), (C_checkInCount, VInc 1),
       (C_otpHash, VNull), (C_otpCode, VNull), (C_otpExpiresAt, VNull)],
     t_audit = None, t_guard = [], t_now = now\<rparr>"

text \<open>After the commit: the local line, and the pass when it implies a reveal.\<close>

definition own_reveal_missing :: "shop_queue \<Rightarrow> id \<Rightarrow> bool" where
  "own_reveal_missing q jobId = (case find (\<lambda>e. j_id (qe_job e) = jobId) (sq_entries q) of
      None \<Rightarrow> False | Some e \<Rightarrow> qe_band e = Revealed \<and> j_revealedAt (qe_job e) = None)"

definition post_check_in :: "shop_view \<Rightarrow> millis \<Rightarrow> job \<Rightarrow> job list \<Rightarrow> shop_queue \<times> job list \<times> effect list" where
  "post_check_in v now updated js =
    (let settings = queue_settings (v_shop v); shopId = sh_id (v_shop v);
         local = buildShopQueue settings (shop_printers v)
           (sortQueueJobs (filter (\<lambda>x. j_id x \<noteq> j_id updated) (view_line v) @ [updated]))
     in if \<not> needsReconcile local then (local, js, [])
        else let (won, js', effs) = runRevealPass shopId settings now js;
                 q = (case applyPassToQueue now local won of
                     Some patched \<Rightarrow> rebuildQueue patched
                   | None \<Rightarrow> loadShopQueue shopId settings (shop_printers v) js');
                 q' = (if own_reveal_missing q (j_id updated)
                   then loadShopQueue shopId settings (shop_printers v) js' else q)
             in (q', js', effs))"

definition checkInJob :: "id \<Rightarrow> id \<Rightarrow> arrival_proof \<Rightarrow> millis \<Rightarrow> shop_view \<Rightarrow> db
    \<Rightarrow> (job \<times> live_metrics) result \<times> db \<times> effect list" where
  "checkInJob jobId studentId arrival now v d =
    (case find (\<lambda>j. j_id j = jobId \<and> j_studentId j = studentId) (v_jobs v) of
      None \<Rightarrow> (Inl NotFound, d, [])
    | Some j \<Rightarrow>
      if j_status j = Queued then (Inr (j, liveMetricsFromQueue (view_queue v) (j_id j)), d, [])
      else (case check_in_guards v arrival now j of
          Inl e \<Rightarrow> (Inl e, d, [])
        | Inr printerId \<Rightarrow>
          (case applyTransition (j_id j) (arrived_request j studentId printerId now) d of
            Inl e \<Rightarrow> (Inl e, d, [])
          | Inr (None, d') \<Rightarrow> (case find_job (j_id j) (jobs d') of
                Some current \<Rightarrow> if j_status current = Queued
                  then (Inr (current, getJobLiveMetrics (j_id current) (v\<lparr>v_jobs := jobs d'\<rparr>)), d', [])
                  else (Inl (Conflict ''changed''), d', [])
              | None \<Rightarrow> (Inl (Conflict ''changed''), d', []))
          | Inr (Some updated, d') \<Rightarrow>
              (case post_check_in v now updated (jobs d') of (q, js', effs) \<Rightarrow>
                (Inr (updated, liveMetricsFromQueue q (j_id j)), d'\<lparr>jobs := js'\<rparr>,
                 [Publish (Ch_shop (j_shopId j)) ''queue:arrival'' (j_id j),
                  Notify (j_studentId j) (K_checked_in (j_id j) (j_checkInCount j + 1))] @ effs
                 @ [Background ''check-in-queue-fanout'' (j_shopId j)])))))"

subsection \<open>Absence\<close>

datatype absent_reason = R_staff | R_grace_expired

definition reason_text :: "absent_reason \<Rightarrow> string" where
  "reason_text r = (case r of R_staff \<Rightarrow> ''staff'' | R_grace_expired \<Rightarrow> ''grace_expired'')"

definition absent_request :: "job \<Rightarrow> actor \<Rightarrow> absent_reason \<Rightarrow> guard \<Rightarrow> millis \<Rightarrow> transition_request" where
  "absent_request j act reason g now =
    \<lparr>t_from = j_status j, t_event = QUEUE_SKIPPED, t_actor = act,
     t_extra = [(C_queuedAt, VNull), (C_queueLeftAt, VTs now), (C_otpHash, VNull), (C_otpCode, VNull),
       (C_otpExpiresAt, VNull), (C_revealedAt, VNull), (C_revealDeadlineAt, VNull), (C_arrivingNotifiedAt, VNull),
       (C_absentAt, VTs now), (C_absentReason, VText (reason_text reason))],
     t_audit = Some (if reason = R_grace_expired then ''ABSENT_TIMEOUT'' else ''ABSENT_STAFF''),
     t_guard = g, t_now = now\<rparr>"

text \<open>The follow-up re-syncs the line: the next student is revealed.\<close>

definition markAbsent :: "job \<Rightarrow> actor \<Rightarrow> absent_reason \<Rightarrow> guard \<Rightarrow> millis \<Rightarrow> shop_view \<Rightarrow> db
    \<Rightarrow> (job option) result \<times> db \<times> effect list" where
  "markAbsent j act reason g now v d = (case applyTransition (j_id j) (absent_request j act reason g now) d of
      Inl e \<Rightarrow> (Inl e, d, [])
    | Inr (None, d') \<Rightarrow> (Inr None, d', [])
    | Inr (Some updated, d') \<Rightarrow> (case emitQueueUpdate v now (jobs d') of (js', effs) \<Rightarrow>
        (Inr (Some updated), d'\<lparr>jobs := js'\<rparr>,
         [Publish (Ch_student (j_studentId j)) ''job:update'' (j_id j),
          Notify (j_studentId j) (K_absent (j_id j) (j_checkInCount j))] @ effs)))"

definition removeFromLiveQueue :: "id \<Rightarrow> id \<Rightarrow> id \<Rightarrow> millis \<Rightarrow> shop_view \<Rightarrow> db \<Rightarrow> job result \<times> db \<times> effect list" where
  "removeFromLiveQueue jobId shopId staffId now v d =
    (case find (\<lambda>j. j_id j = jobId \<and> j_shopId j = shopId) (v_jobs v) of
      None \<Rightarrow> (Inl NotFound, d, [])
    | Some j \<Rightarrow>
      if j_status j = Awaiting_arrival then (Inr j, d, [])
      else if j_status j \<noteq> Queued \<and> j_status j \<noteq> Notified then (Inl (Conflict ''not waiting''), d, [])
      else (case markAbsent j \<lparr>actorType = A_shop, actorId = Some staffId\<rparr> R_staff [] now v d of
          (Inl e, d', effs) \<Rightarrow> (Inl e, d', effs)
        | (Inr None, d', effs) \<Rightarrow> (Inl (Conflict ''changed''), d', effs)
        | (Inr (Some updated), d', effs) \<Rightarrow> (Inr updated, d', effs)))"

definition expire_guard :: "millis \<Rightarrow> guard" where
  "expire_guard now = [(C_revealedAt, G_ops [Op_not_null]), (C_revealDeadlineAt, G_ops [Op_lte now])]"

definition expireReveal :: "id \<Rightarrow> millis \<Rightarrow> shop_view \<Rightarrow> db \<Rightarrow> bool result \<times> db \<times> effect list" where
  "expireReveal jobId now v d = (case find_job jobId (v_jobs v) of
      None \<Rightarrow> (Inr False, d, [])
    | Some j \<Rightarrow>
      if j_status j \<noteq> Queued \<and> j_status j \<noteq> Notified then (Inr False, d, [])
      else if j_revealedAt j = None \<or> (case j_revealDeadlineAt j of None \<Rightarrow> True | Some t \<Rightarrow> t > now) then (Inr False, d, [])
      else (case markAbsent j system R_grace_expired (expire_guard now) now v d of
          (Inl e, d', effs) \<Rightarrow> (Inl e, d', effs)
        | (Inr res, d', effs) \<Rightarrow> (Inr (res \<noteq> None), d', effs)))"

text \<open>The overdue jobs the sweep picks (100 at most, earliest deadline first), and its loop over them.\<close>

definition overdue :: "millis \<Rightarrow> job list \<Rightarrow> id list" where
  "overdue now js = take 100 (map j_id (sort_key (\<lambda>j. the (j_revealDeadlineAt j))
    (filter (\<lambda>j. (j_status j = Queued \<or> j_status j = Notified)
      \<and> (case j_revealDeadlineAt j of None \<Rightarrow> False | Some t \<Rightarrow> t \<le> now)) js)))"

definition view_of :: "shop_row list \<Rightarrow> printer_row list \<Rightarrow> agent_row list \<Rightarrow> db \<Rightarrow> id \<Rightarrow> shop_view option" where
  "view_of shops printers agents d shopId = map_option
    (\<lambda>s. \<lparr>v_shop = s, v_printers = printers, v_agents = agents, v_jobs = jobs d\<rparr>) (find (\<lambda>s. sh_id s = shopId) shops)"

fun expire_loop :: "shop_row list \<Rightarrow> printer_row list \<Rightarrow> agent_row list \<Rightarrow> millis \<Rightarrow> id list \<Rightarrow> db
    \<Rightarrow> nat \<times> db \<times> effect list" where
  "expire_loop shops printers agents now [] d = (0, d, [])"
| "expire_loop shops printers agents now (k # ks) d =
    (case (case find_job k (jobs d) of None \<Rightarrow> None | Some j \<Rightarrow> view_of shops printers agents d (j_shopId j)) of
      None \<Rightarrow> expire_loop shops printers agents now ks d
    | Some v \<Rightarrow> (case expireReveal k now v d of (res, d1, effs1) \<Rightarrow>
        (case expire_loop shops printers agents now ks d1 of (n, d2, effs2) \<Rightarrow>
          ((if res = Inr True then Suc n else n), d2, effs1 @ effs2))))"

fun sync_loop :: "shop_row list \<Rightarrow> printer_row list \<Rightarrow> agent_row list \<Rightarrow> millis \<Rightarrow> id list \<Rightarrow> db \<Rightarrow> db \<times> effect list" where
  "sync_loop shops printers agents now [] d = (d, [])"
| "sync_loop shops printers agents now (s # ss) d = (case view_of shops printers agents d s of
      None \<Rightarrow> sync_loop shops printers agents now ss d
    | Some v \<Rightarrow> (case syncShopQueue s (queue_settings (v_shop v)) (shop_printers v) now (jobs d) (jobs d) of
        (n, js, effs) \<Rightarrow>
          (let (js', effs') = (if n > 0 then emitQueueUpdate v now js else (js, []));
               (d', effs'') = sync_loop shops printers agents now ss (d\<lparr>jobs := js'\<rparr>)
           in (d', effs @ effs' @ effs''))))"

definition sweepExpiredReveals :: "shop_row list \<Rightarrow> printer_row list \<Rightarrow> agent_row list \<Rightarrow> millis \<Rightarrow> db \<Rightarrow> nat \<times> db \<times> effect list" where
  "sweepExpiredReveals shops printers agents now d =
    (let (expired, d1, effs1) = expire_loop shops printers agents now (overdue now (jobs d)) d;
         stale = take 100 (remdups (map j_shopId (filter (\<lambda>j. (j_status j = Queued \<or> j_status j = Notified)
           \<and> j_revealedAt j = None) (jobs d1))));
         (d2, effs2) = sync_loop shops printers agents now stale d1
     in (expired, d2, effs1 @ effs2))"

subsection \<open>Legacy handlers and the expiry of stale orders\<close>

definition isLegacyNoShowTimerDue :: "millis option \<Rightarrow> millis \<Rightarrow> bool" where
  "isLegacyNoShowTimerDue otpExpiresAt now = (case otpExpiresAt of None \<Rightarrow> True | Some t \<Rightarrow> t \<le> now)"

definition handleNoShowCheck :: "id \<Rightarrow> millis \<Rightarrow> shop_view \<Rightarrow> db \<Rightarrow> unit result \<times> db \<times> effect list" where
  "handleNoShowCheck jobId now v d = (case find_job jobId (v_jobs v) of
      None \<Rightarrow> (Inr (), d, [])
    | Some j \<Rightarrow> if j_status j \<noteq> Notified \<or> \<not> isLegacyNoShowTimerDue (j_otpExpiresAt j) now then (Inr (), d, [])
        else (case removeFromLiveQueue (j_id j) (j_shopId j) ''legacy-no-show-sweeper'' now v d of
            (Inl e, d', effs) \<Rightarrow> (Inl e, d', effs) | (Inr _, d', effs) \<Rightarrow> (Inr (), d', effs)))"

definition handleGraceExpiry :: "id \<Rightarrow> millis \<Rightarrow> shop_view \<Rightarrow> db \<Rightarrow> unit result \<times> db \<times> effect list" where
  "handleGraceExpiry jobId now v d = (case find_job jobId (v_jobs v) of
      None \<Rightarrow> (Inr (), d, [])
    | Some j \<Rightarrow> if j_status j \<noteq> No_show then (Inr (), d, [])
        else (case applyTransition jobId \<lparr>t_from = No_show, t_event = QUEUE_SKIPPED, t_actor = system,
            t_extra = [(C_queuedAt, VNull), (C_queueLeftAt, VTs now)], t_audit = None, t_guard = [], t_now = now\<rparr> d of
            Inl e \<Rightarrow> (Inl e, d, [])
          | Inr (None, d') \<Rightarrow> (Inr (), d', [])
          | Inr (Some _, d') \<Rightarrow> (case emitQueueUpdate v now (jobs d') of (js', effs) \<Rightarrow>
              (Inr (), d'\<lparr>jobs := js'\<rparr>, Notify (j_studentId j) (K_other ''legacy-queue-skipped'' (j_id j)) # effs))))"

definition requeueJob :: "id \<Rightarrow> id \<Rightarrow> shop_view \<Rightarrow> job result" where
  "requeueJob jobId studentId v =
    (case find (\<lambda>j. j_id j = jobId \<and> j_studentId j = studentId) (v_jobs v) of
      None \<Rightarrow> Inl NotFound | Some _ \<Rightarrow> Inl (Conflict ''fresh check-in required''))"

definition PREPARED_ORDER_TTL_MS :: millis where "PREPARED_ORDER_TTL_MS = 168 * 3600000"

definition is_stale :: "millis \<Rightarrow> job \<Rightarrow> bool" where
  "is_stale now j = (j_status j = Awaiting_arrival \<and> (j_paymentStatus j = Counter_due \<or> j_paymentStatus j = Cash_due)
    \<and> j_updatedAt j < now - PREPARED_ORDER_TTL_MS)"

fun expire_orders :: "millis \<Rightarrow> job list \<Rightarrow> db \<Rightarrow> db \<times> effect list" where
  "expire_orders now [] d = (d, [])"
| "expire_orders now (j # js) d =
    (case applyTransition (j_id j) \<lparr>t_from = Awaiting_arrival, t_event = CANCEL, t_actor = system,
        t_extra = (if j_paymentStatus j = Counter_due \<or> j_paymentStatus j = Cash_due
          then [(C_paymentStatus, VPay Pay_failed)] else []),
        t_audit = None, t_guard = [], t_now = now\<rparr> d of
      Inl e \<Rightarrow> (d, [])
    | Inr (None, d') \<Rightarrow> expire_orders now js d'
    | Inr (Some c, d') \<Rightarrow> (case expire_orders now js d' of (d2, effs) \<Rightarrow>
        (d2, [Refund_check (j_id c), File_deletion (j_fileId c), Notify (j_studentId c) (K_other ''expired'' (j_id c)),
          Publish (Ch_student (j_studentId c)) ''job:update'' (j_id c)] @ effs)))"

definition needs_legacy_refund :: "job \<Rightarrow> bool" where
  "needs_legacy_refund j = ((j_status j = Cancelled \<or> j_status j = Expired) \<and> j_paymentStatus j = Paid
    \<and> j_paymentId j \<noteq> None \<and> (case j_paymentProvider j of None \<Rightarrow> False | Some p \<Rightarrow> p \<noteq> ''pay_at_shop''))"

definition expireStalePreparedOrders :: "millis \<Rightarrow> db \<Rightarrow> db \<times> effect list" where
  "expireStalePreparedOrders now d =
    (case expire_orders now (take 100 (filter (is_stale now) (jobs d))) d of (d', effs) \<Rightarrow>
      (d', effs @ map (\<lambda>j. Refund_check (j_id j)) (take 100 (filter needs_legacy_refund (jobs d')))))"

subsection \<open>Dispatch\<close>

definition no_agent_error :: string where
  "no_agent_error = ''No connected print agent is online for this printer.''"

text \<open>The agents preloaded by the caller are the online ones; else all registered ones are looked up.\<close>

definition dispatchJob :: "millis \<Rightarrow> job \<Rightarrow> agent_row list option \<Rightarrow> agent_row list \<Rightarrow> db \<Rightarrow> db \<times> effect list" where
  "dispatchJob now j preloadedOnlineAgents agents d =
    (if \<not> truthy (j_assignedPrinterId j) then (d, [])
     else let printerId = the (j_assignedPrinterId j);
              onlineAgents = (case preloadedOnlineAgents of
                  Some as \<Rightarrow> filter (\<lambda>a. printerId \<in> set (ag_connectedPrinterIds a)) as
                | None \<Rightarrow> filter (\<lambda>a. ag_status a = Ag_online) (filter (\<lambda>a. ag_shopId a = j_shopId j
                    \<and> printerId \<in> set (ag_connectedPrinterIds a)) agents))
          in if onlineAgents = []
             then (d\<lparr>jobs := update_where (\<lambda>x. j_id x = j_id j \<and> j_status x = Otp_verified)
                 (\<lambda>x. x\<lparr>j_printError := Some no_agent_error, j_updatedAt := now\<rparr>) (jobs d)\<rparr>,
               [Publish (Ch_shop (j_shopId j)) ''queue:no_agent'' (j_id j)])
             else (d, map (\<lambda>a. Publish (Ch_agent (ag_id a)) ''job:dispatch'' (j_id j)) onlineAgents))"

subsection \<open>Requests the handlers make\<close>

lemma requests_well_formed [simp]:
  "well_formed (arrived_request j studentId printerId now)"
  "well_formed (absent_request j act reason [] now)"
  "well_formed (absent_request j act reason (expire_guard t) now)"
  by (simp_all add: well_formed_def arrived_request_def absent_request_def expire_guard_def)

lemma request_simps [simp]:
  "t_from (arrived_request j s p now) = j_status j" "t_event (arrived_request j s p now) = ARRIVED"
  "t_guard (arrived_request j s p now) = []" "t_now (arrived_request j s p now) = now"
  "t_from (absent_request j act reason g now) = j_status j" "t_event (absent_request j act reason g now) = QUEUE_SKIPPED"
  "t_guard (absent_request j act reason g now) = g" "t_now (absent_request j act reason g now) = now"
  by (simp_all add: arrived_request_def absent_request_def)

lemma arrived_row [row_simps]:
  "j_queuedAt (rewritten (arrived_request j s p now) to x) = Some now"
  "j_revealedAt (rewritten (arrived_request j s p now) to x) = None"
  "j_revealDeadlineAt (rewritten (arrived_request j s p now) to x) = None"
  "j_arrivingNotifiedAt (rewritten (arrived_request j s p now) to x) = None"
  "j_absentAt (rewritten (arrived_request j s p now) to x) = None"
  "j_assignedPrinterId (rewritten (arrived_request j s p now) to x) = Some p"
  "j_checkInCount (rewritten (arrived_request j s p now) to x) = j_checkInCount x + 1"
  "j_createdAt (rewritten (arrived_request j s p now) to x) = j_createdAt x"
  "j_paymentStatus (rewritten (arrived_request j s p now) to x) = j_paymentStatus x"
  by (simp_all add: rewritten_def arrived_request_def stamp_def)

lemma absent_row [row_simps]:
  "j_queuedAt (rewritten (absent_request j act reason g now) to x) = None"
  "j_revealedAt (rewritten (absent_request j act reason g now) to x) = None"
  "j_revealDeadlineAt (rewritten (absent_request j act reason g now) to x) = None"
  "j_absentAt (rewritten (absent_request j act reason g now) to x) = Some now"
  "j_releaseCodeDigest (rewritten (absent_request j act reason g now) to x) = j_releaseCodeDigest x"
  "j_paymentStatus (rewritten (absent_request j act reason g now) to x) = j_paymentStatus x"
  by (simp_all add: rewritten_def absent_request_def stamp_def)

lemma find_jobD: "find_job k js = Some j \<Longrightarrow> j \<in> set js \<and> j_id j = k"
  by (auto simp: find_job_def dest: find_SomeD)

lemma find_job_distinct: "distinct (map j_id js) \<Longrightarrow> j \<in> set js \<Longrightarrow> find_job (j_id j) js = Some j"
  by (simp add: find_job_def find_eq_Some_distinct)

subsection \<open>A sync keeps ids, the line's order and the rows outside it\<close>

lemma reconcile_jobs:
  assumes "distinct (map j_id js)"
  shows "fst (snd (snd (reconcileShopQueue s (Some (c, g)) ps now js0 js))) = js
    \<or> fst (snd (snd (reconcileShopQueue s (Some (c, g)) ps now js0 js))) = map (settled s c g now js) js"
  by (simp add: reconcileShopQueue_def Let_def runRevealPass_def lockedRevealPass_eq [OF assms])

definition synced :: "id \<Rightarrow> millis \<Rightarrow> int \<Rightarrow> job list \<Rightarrow> job list \<Rightarrow> bool" where
  "synced s now g js js' = (\<exists>f. js' = map f js \<and> (\<forall>j. j_id (f j) = j_id j \<and> j_status (f j) = j_status j
    \<and> j_shopId (f j) = j_shopId j \<and> line_key (f j) = line_key j \<and> (\<not> in_line s j \<longrightarrow> f j = j)
    \<and> (j_revealedAt j \<noteq> None \<longrightarrow> f j = j)
    \<and> (j_revealedAt (f j) = None \<or> f j = j \<or> j_revealDeadlineAt (f j) = Some (now + g * 1000))))"

lemma synced_refl: "synced s now g js js"
  unfolding synced_def by (rule exI [of _ id]) simp

lemma synced_settled: "synced s now g js (map (settled s c g now js') js)"
  unfolding synced_def
  by (rule exI [of _ "settled s c g now js'"])
     (auto simp: settled_def settle_job_def line_key_def split: queue_band.splits)

lemma synced_emit:
  assumes "distinct (map j_id js)"
  shows "synced (sh_id (v_shop v)) now (sh_revealGraceSeconds (v_shop v)) js (fst (emitQueueUpdate v now js))"
proof -
  let ?s = "sh_id (v_shop v)" and ?c = "sh_counterCapacity (v_shop v)" and ?g = "sh_revealGraceSeconds (v_shop v)"
  have "synced ?s now ?g js (fst (snd (snd (reconcileShopQueue ?s (Some (?c, ?g)) (shop_printers v) now js js))))"
    using reconcile_jobs [OF assms, of ?s ?c ?g "shop_printers v" now js] synced_refl synced_settled by metis
  moreover have "fst (emitQueueUpdate v now js)
      = fst (snd (snd (reconcileShopQueue ?s (Some (?c, ?g)) (shop_printers v) now js js)))"
    by (simp add: emitQueueUpdate_def queue_settings_def split: prod.splits)
  ultimately show ?thesis by simp
qed

lemma synced_post_check_in:
  assumes "distinct (map j_id js)"
  shows "synced (sh_id (v_shop v)) now (sh_revealGraceSeconds (v_shop v)) js (fst (snd (post_check_in v now u js)))"
proof -
  have "fst (snd (post_check_in v now u js)) = js
      \<or> fst (snd (post_check_in v now u js))
        = map (settled (sh_id (v_shop v)) (sh_counterCapacity (v_shop v)) (sh_revealGraceSeconds (v_shop v)) now js) js"
    by (simp add: post_check_in_def Let_def runRevealPass_def queue_settings_def lockedRevealPass_eq [OF assms])
  then show ?thesis using synced_refl synced_settled by metis
qed

lemma synced_ids: "synced s now g js js' \<Longrightarrow> map j_id js' = map j_id js"
  by (auto simp: synced_def)

lemma synced_line: "synced s now g js js' \<Longrightarrow> map j_id (ACTIVE_QUEUE_JOBS s js') = map j_id (ACTIVE_QUEUE_JOBS s js)"
proof -
  assume "synced s now g js js'"
  then obtain f where js': "js' = map f js" and all: "\<forall>j. j_id (f j) = j_id j \<and> j_status (f j) = j_status j
      \<and> j_shopId (f j) = j_shopId j \<and> line_key (f j) = line_key j"
    unfolding synced_def by blast
  have f: "js' = map f js" "\<And>j. line_key (f j) = line_key j" "\<And>j. j_id (f j) = j_id j"
    "\<And>j. in_line s (f j) = in_line s j"
    using js' all by (simp_all add: in_line_def)
  then have "ACTIVE_QUEUE_JOBS s js' = map f (ACTIVE_QUEUE_JOBS s js)"
    by (simp add: ACTIVE_QUEUE_JOBS_def filter_map comp_def sort_key_map)
  with f(3) show ?thesis by simp
qed

lemma synced_row:
  assumes "synced s now g js js'" "j \<in> set js"
  shows "\<exists>j' \<in> set js'. j_id j' = j_id j \<and> j_status j' = j_status j \<and> (\<not> in_line s j \<longrightarrow> j' = j)"
  using assms by (auto simp: synced_def)

lemma synced_row_back:
  assumes "synced s now g js js'" "j' \<in> set js'"
  shows "j_revealedAt j' = None \<or> j' \<in> set js \<or> j_revealDeadlineAt j' = Some (now + g * 1000)"
proof -
  obtain f where f: "js' = map f js" "\<forall>j. j_revealedAt (f j) = None \<or> f j = j \<or> j_revealDeadlineAt (f j) = Some (now + g * 1000)"
    using assms(1) unfolding synced_def by blast
  then obtain j where "j \<in> set js" "j' = f j" using assms(2) by auto
  with f(2) show ?thesis by metis
qed

subsection \<open>Where a fresh check-in stands\<close>

lemma sort_key_last_from_middle:
  assumes "\<And>x. x \<in> set xs \<union> set ys \<Longrightarrow> f x < f u"
  shows "sort_key f (xs @ u # ys) = sort_key f (xs @ ys) @ [u]"
proof (rule properties_for_sort_key)
  show "mset (sort_key f (xs @ ys) @ [u]) = mset (xs @ u # ys)" by simp
  show "filter (\<lambda>x. f k = f x) (sort_key f (xs @ ys) @ [u]) = filter (\<lambda>x. f k = f x) (xs @ u # ys)"
    if "k \<in> set (sort_key f (xs @ ys) @ [u])" for k
  proof (cases "f k = f u")
    case True
    then have "filter (\<lambda>x. f k = f x) zs = []" if "set zs \<subseteq> set xs \<union> set ys" for zs
      using that assms by (fastforce simp: filter_empty_conv)
    with True show ?thesis by simp
  next
    case False
    then show ?thesis using sort_key_stable [of f "f k" "xs @ ys"] by (simp add: eq_commute)
  qed
  show "sorted (map f (sort_key f (xs @ ys) @ [u]))"
    using assms by (auto simp: sorted_append less_imp_le)
qed

lemma line_after_arrival:
  assumes "distinct (map j_id js)" "j \<in> set js" "\<not> in_line s j" "in_line s u" "j_id u = j_id j"
    "\<And>x. x \<in> set js \<Longrightarrow> in_line s x \<Longrightarrow> line_key x < line_key u"
  shows "ACTIVE_QUEUE_JOBS s (update_where (\<lambda>x. j_id x = j_id j) (\<lambda>_. u) js) = ACTIVE_QUEUE_JOBS s js @ [u]"
proof -
  obtain xs ys where js: "js = xs @ j # ys" using assms(2) by (meson split_list)
  have ne: "j_id j \<notin> j_id ` (set xs \<union> set ys)" using assms(1) by (simp add: js image_Un)
  have other: "update_where (\<lambda>x. j_id x = j_id j) (\<lambda>_. u) zs = zs" if "set zs \<subseteq> set xs \<union> set ys" for zs
  proof (rule update_where_none)
    fix r assume "r \<in> set zs"
    then have "j_id r \<in> j_id ` (set xs \<union> set ys)" using that by blast
    with ne show "\<not> j_id r = j_id j" by metis
  qed
  have "update_where (\<lambda>x. j_id x = j_id j) (\<lambda>_. u) js = xs @ u # ys"
  proof -
    have "update_where (\<lambda>x. j_id x = j_id j) (\<lambda>_. u) js
        = update_where (\<lambda>x. j_id x = j_id j) (\<lambda>_. u) xs @ u # update_where (\<lambda>x. j_id x = j_id j) (\<lambda>_. u) ys"
      by (simp add: js update_where_def)
    then show ?thesis by (simp only: other [of xs] other [of ys] Un_upper1 Un_upper2)
  qed
  moreover have "sort_key line_key (filter (in_line s) xs @ u # filter (in_line s) ys)
      = sort_key line_key (filter (in_line s) xs @ filter (in_line s) ys) @ [u]"
    by (rule sort_key_last_from_middle) (use assms(6) js in auto)
  ultimately show ?thesis
    using assms(3,4) by (simp add: ACTIVE_QUEUE_JOBS_def js)
qed

subsection \<open>Check-in: properties\<close>

lemma check_in_guards_status:
  "check_in_guards v arrival now j = Inr p \<Longrightarrow> j_status j = Awaiting_arrival \<or> j_status j = No_show \<or> j_status j = Requeued"
  by (auto simp: check_in_guards_def Let_def split: if_splits)

lemma arrived_event: "j_status j = Awaiting_arrival \<or> j_status j = No_show \<or> j_status j = Requeued
    \<Longrightarrow> TRANSITIONS (j_status j) ARRIVED = Some Queued"
  by auto

text \<open>The three ways a check-in of a job not yet queued can answer.\<close>

lemma checkInJob_cases:
  assumes "unique_ids d" "find (\<lambda>j. j_id j = jobId \<and> j_studentId j = studentId) (v_jobs v) = Some j"
    "j_status j \<noteq> Queued" "check_in_guards v arrival now j = Inr p"
  shows "checkInJob jobId studentId arrival now v d =
    (case target jobId (arrived_request j studentId p now) d of
      None \<Rightarrow> (case find_job jobId (jobs d) of
          Some current \<Rightarrow> if j_status current = Queued
            then (Inr (current, getJobLiveMetrics (j_id current) (v\<lparr>v_jobs := jobs d\<rparr>)), d, [])
            else (Inl (Conflict ''changed''), d, [])
        | None \<Rightarrow> (Inl (Conflict ''changed''), d, []))
    | Some j0 \<Rightarrow> (let u = rewritten (arrived_request j studentId p now) Queued j0;
          d1 = commit jobId (arrived_request j studentId p now) Queued j0 d
        in case post_check_in v now u (jobs d1) of (q, js', effs) \<Rightarrow>
          (Inr (u, liveMetricsFromQueue q jobId), d1\<lparr>jobs := js'\<rparr>,
           [Publish (Ch_shop (j_shopId j)) ''queue:arrival'' jobId,
            Notify (j_studentId j) (K_checked_in jobId (j_checkInCount j + 1))] @ effs
           @ [Background ''check-in-queue-fanout'' (j_shopId j)])))"
proof -
  have id: "j_id j = jobId" using assms(2) by (auto dest: find_SomeD)
  have tr: "TRANSITIONS (j_status j) ARRIVED = Some Queued"
    using arrived_event check_in_guards_status [OF assms(4)] by blast
  show ?thesis
    using assms(2-4) applyTransition_spec [OF assms(1), of "arrived_request j studentId p now" jobId]
    by (simp add: checkInJob_def id tr Let_def split: option.splits)
qed

end
