(* ===== verification/Release.thy ===== *)
theory Release
  imports Check_In
begin

text \<open>
  apps/api/src/modules/queue/release.ts: the counter's release by code, whole: lookup, legacy codes,
  refusals, queue override, printer choice, payment confirmation, the guarded transition and what follows
  a lost race. The HMAC and the argon2 check of legacy codes are the arguments \<open>digestOf\<close> and
  \<open>verifyHash\<close>. The texts of the errors are shortened.
\<close>

record release_result =
  rr_ok :: bool
  rr_job :: "job option"
  rr_requiresManualAssignment :: bool
  rr_requiresQueueOverride :: bool
  rr_position :: "int option"
  rr_queueStatus :: "job_status option"
  rr_eligiblePrinters :: "(id \<times> int) list"
  rr_requiresPaymentConfirmation :: bool
  rr_counterPaymentAmountPaise :: "paise option"
  rr_selectedPrinterId :: "id option"

definition no_result :: release_result where
  "no_result = \<lparr>rr_ok = False, rr_job = None, rr_requiresManualAssignment = False, rr_requiresQueueOverride = False,
    rr_position = None, rr_queueStatus = None, rr_eligiblePrinters = [], rr_requiresPaymentConfirmation = False,
    rr_counterPaymentAmountPaise = None, rr_selectedPrinterId = None\<rparr>"

definition COUNTER_CODE_LOOKUP_STATUSES :: "job_status list" where
  "COUNTER_CODE_LOOKUP_STATUSES = [Awaiting_arrival, Queued, Notified, No_show, Requeued, Otp_verified, Printing,
    Finishing, Ready_for_pickup]"

definition isDirectCounterReleaseRecoverable :: "job_status \<Rightarrow> bool" where
  "isDirectCounterReleaseRecoverable st = (st \<in> {Awaiting_arrival, Queued, Notified, No_show, Requeued})"

text \<open>\<open>findFirst\<close> by digest, newest first.\<close>

definition lookup_by_code :: "id \<Rightarrow> string \<Rightarrow> job list \<Rightarrow> job option" where
  "lookup_by_code shopId digest js = (case sort_key (\<lambda>j. - j_createdAt j)
      (filter (\<lambda>j. j_shopId j = shopId \<and> j_releaseCodeDigest j = Some digest \<and> payment_ready j
        \<and> j_status j \<in> set COUNTER_CODE_LOOKUP_STATUSES) js) of
      [] \<Rightarrow> None | j # _ \<Rightarrow> Some j)"

definition lookup_legacy :: "(string \<Rightarrow> string \<Rightarrow> bool) \<Rightarrow> id \<Rightarrow> string \<Rightarrow> job list \<Rightarrow> job option" where
  "lookup_legacy verifyHash shopId otp js = find (\<lambda>j. verifyHash (the (j_otpHash j)) otp)
    (filter (\<lambda>j. j_shopId j = shopId \<and> j_status j = Notified \<and> j_paymentStatus j = Paid \<and> j_otpHash j \<noteq> None) js)"

definition lookup_release :: "(id \<Rightarrow> string \<Rightarrow> string) \<Rightarrow> (string \<Rightarrow> string \<Rightarrow> bool) \<Rightarrow> id \<Rightarrow> string \<Rightarrow> job list \<Rightarrow> job option" where
  "lookup_release digestOf verifyHash shopId otp js = (case lookup_by_code shopId (digestOf shopId otp) js of
      Some j \<Rightarrow> Some j | None \<Rightarrow> lookup_legacy verifyHash shopId otp js)"

definition disarmAbsentTimer :: "millis \<Rightarrow> job \<Rightarrow> id \<Rightarrow> db \<Rightarrow> db \<times> effect list" where
  "disarmAbsentTimer now j shopId d =
    (if j_status j \<noteq> Queued \<and> j_status j \<noteq> Notified then (d, [])
     else if j_revealDeadlineAt j = None then (d, [])
     else let hit = (\<lambda>x. j_id x = j_id j \<and> j_shopId x = shopId \<and> (j_status x = Queued \<or> j_status x = Notified))
       in (d\<lparr>jobs := update_where hit (\<lambda>x. x\<lparr>j_revealDeadlineAt := None, j_updatedAt := now\<rparr>) (jobs d)\<rparr>,
           if count_where hit (jobs d) > 0 then [Background ''release-disarm-fanout'' shopId] else []))"

definition is_counter_due :: "job \<Rightarrow> bool" where
  "is_counter_due j = (j_paymentProvider j = Some ''pay_at_shop'' \<and> j_paymentStatus j = Counter_due)"

definition is_legacy_cash_due :: "job \<Rightarrow> bool" where
  "is_legacy_cash_due j = (j_paymentProvider j = Some ''cash'' \<and> j_paymentStatus j = Cash_due)"

definition method_text :: "payment_method \<Rightarrow> string" where
  "method_text m = (case m of M_cash \<Rightarrow> ''cash'' | M_shop_upi \<Rightarrow> ''shop_upi'')"

definition payment_columns :: "job \<Rightarrow> id \<Rightarrow> (payment_method \<times> string option) \<Rightarrow> millis \<Rightarrow> (column \<times> cval) list" where
  "payment_columns j staffId pc now =
    [(C_paymentStatus, VPay Paid), (C_paymentId, VText (''counter_'' @ method_text (fst pc) @ ''_'' @ j_id j)),
     (C_cashCollectedAt, if fst pc = M_cash then VTs now else VNull), (C_counterPaymentMethod, VMethod (fst pc)),
     (C_counterPaymentConfirmedAt, VTs now), (C_counterPaymentConfirmedById, VText staffId),
     (C_counterPaymentReference, case_option VNull VText (snd pc)), (C_counterPaymentAmountPaise, VInt (j_totalPaise j))]"

definition release_request :: "job \<Rightarrow> id \<Rightarrow> id \<Rightarrow> (payment_method \<times> string option) option \<Rightarrow> bool \<Rightarrow> millis \<Rightarrow> transition_request" where
  "release_request j printerId staffId payment inWindow now =
    \<lparr>t_from = j_status j,
     t_event = (if truthy (j_releaseCodeDigest j) then COUNTER_RELEASE else OTP_VERIFIED),
     t_actor = \<lparr>actorType = A_shop, actorId = Some staffId\<rparr>,
     t_extra = [(C_assignedPrinterId, VText printerId), (C_claimedByAgentId, VNull), (C_claimedBySessionId, VNull),
         (C_printError, VNull)]
       @ (if is_counter_due j \<or> is_legacy_cash_due j then payment_columns j staffId (the payment) now else [])
       @ (if j_status j = Awaiting_arrival \<or> j_status j = No_show \<or> j_status j = Requeued
          then [(C_arrivedAt, VTs now), (C_queuedAt, VNull), (C_queueLeftAt, VTs now)] else [])
       @ [(C_otpHash, VNull), (C_otpCode, VNull), (C_otpExpiresAt, VNull)],
     t_audit = (if \<not> inWindow then Some ''COUNTER_QUEUE_OVERRIDE_RELEASE'' else None), t_guard = [], t_now = now\<rparr>"

text \<open>
  The printer: the manual choice when it is eligible; else the assigned one if still eligible, else the
  recommended one; \<open>Inr None\<close> asks staff to choose.
\<close>

definition choose_printer :: "shop_row \<Rightarrow> id option \<Rightarrow> job \<Rightarrow> recommendation list \<Rightarrow> recommendation option \<Rightarrow> id option result" where
  "choose_printer shop manualPrinterId j eligible recommended =
    (if \<not> truthy manualPrinterId
     then let stillEligible = list_ex (\<lambda>e. Some (rec_printerId e) = j_assignedPrinterId j) eligible;
              printerId = (if stillEligible then j_assignedPrinterId j else map_option rec_printerId recommended)
          in if \<not> truthy printerId \<or> \<not> sh_autoAssignEnabled shop then Inr None else Inr printerId
     else if \<not> list_ex (\<lambda>e. Some (rec_printerId e) = manualPrinterId) eligible
       then Inl (BadRequest ''That printer is offline or cannot produce this job'') else Inr manualPrinterId)"

definition releaseByOtp :: "(id \<Rightarrow> string \<Rightarrow> string) \<Rightarrow> (string \<Rightarrow> string \<Rightarrow> bool) \<Rightarrow> string \<Rightarrow> id \<Rightarrow> id option \<Rightarrow> bool
    \<Rightarrow> (payment_method \<times> string option) option \<Rightarrow> millis \<Rightarrow> shop_view \<Rightarrow> db \<Rightarrow> release_result result \<times> db \<times> effect list" where
  "releaseByOtp digestOf verifyHash otp staffId manualPrinterId overrideQueue payment now v d =
    (let shopId = sh_id (v_shop v); shop = v_shop v in
     case lookup_release digestOf verifyHash shopId otp (v_jobs v) of
       None \<Rightarrow> (Inl (BadRequest ''OTP_INVALID''), d, [])
     | Some j \<Rightarrow>
       if \<not> truthy (j_releaseCodeDigest j) \<and> (case j_otpExpiresAt j of None \<Rightarrow> False | Some t \<Rightarrow> t < now)
         then (Inl (Conflict ''This OTP has expired''), d, [])
       else if j_status j = Otp_verified \<or> j_status j = Printing \<or> j_status j = Finishing
         then (Inl (Conflict ''already released''), d, [])
       else if j_status j = Ready_for_pickup then (Inl (Conflict ''already printed''), d, [])
       else let live = liveMetricsFromQueue (view_queue v) (j_id j);
                inWindow = isNormalCounterRelease (j_status j) (lm_band live)
         in if \<not> inWindow \<and> \<not> overrideQueue
            then (case disarmAbsentTimer now j shopId d of (d', effs) \<Rightarrow>
              (Inr (no_result\<lparr>rr_requiresQueueOverride := True, rr_position := lm_position live,
                rr_queueStatus := Some (j_status j), rr_job := Some j\<rparr>), d', effs))
            else let (eligible, recommended) = recommendPrinter v (j_specs j) (j_pagesPerCopy j) (Some (j_id j))
              in (case choose_printer shop manualPrinterId j eligible recommended of
                Inl e \<Rightarrow> (Inl e, d, [])
              | Inr None \<Rightarrow> (case disarmAbsentTimer now j shopId d of (d', effs) \<Rightarrow>
                  (Inr (no_result\<lparr>rr_requiresManualAssignment := True,
                    rr_eligiblePrinters := map (\<lambda>e. (rec_printerId e, rec_wait e)) eligible, rr_job := Some j\<rparr>), d', effs))
              | Inr (Some printerId) \<Rightarrow>
                if (is_counter_due j \<or> is_legacy_cash_due j) \<and> payment = None
                then (case disarmAbsentTimer now j shopId d of (d', effs) \<Rightarrow>
                  (Inr (no_result\<lparr>rr_requiresPaymentConfirmation := True,
                    rr_counterPaymentAmountPaise := Some (j_totalPaise j), rr_selectedPrinterId := Some printerId,
                    rr_job := Some j\<rparr>), d', effs))
                else if (case payment of None \<Rightarrow> False | Some (m, _) \<Rightarrow> m = M_shop_upi)
                    \<and> (\<not> truthy (sh_counterUpiVpa shop) \<or> sh_counterUpiVerifiedAt shop = None)
                then (Inl (Conflict ''verify UPI''), d, [])
                else (case applyTransition (j_id j) (release_request j printerId staffId payment inWindow now) d of
                    Inl e \<Rightarrow> (Inl e, d, [])
                  | Inr (None, d') \<Rightarrow>
                    (case find (\<lambda>x. j_id x = j_id j \<and> j_shopId x = shopId) (jobs d') of
                      None \<Rightarrow> (Inl (Conflict ''changed''), d', [])
                    | Some current \<Rightarrow>
                      if isDirectCounterReleaseRecoverable (j_status current) \<and> j_status current \<noteq> j_status j
                      then (Inr (no_result\<lparr>rr_requiresQueueOverride := True, rr_queueStatus := Some (j_status current),
                        rr_job := Some current\<rparr>), d', [])
                      else (Inl (Conflict ''changed''), d', []))
                  | Inr (Some updated, d') \<Rightarrow>
                    (case dispatchJob now updated (Some (online_agents v)) (v_agents v) d' of (d2, effs) \<Rightarrow>
                      (Inr (no_result\<lparr>rr_ok := True, rr_job := Some updated\<rparr>), d2,
                       effs @ [Publish (Ch_student (j_studentId updated)) ''job:update'' (j_id updated),
                         Background ''release-queue-sync'' shopId])))))"

end
