(* ===== verification/Print_Agent.thy ===== *)
theory Print_Agent
  imports Release
begin

text \<open>
  Printing: the agent routes (apps/api/src/modules/agents/routes.ts), the print lease
  (jobs/printLease.ts), the completion of a print (jobs/printCompletion.ts), the problem codes
  (lib/printProblem.ts) and the shop's actions on a released order (shops/routes.ts). A job in printing is
  held by the agent that claimed it; the lease is lost by silence, restart or time. The environment's time
  limits have their defaults. As in the queue handlers, a handler that reads and later commits takes the
  row it read and the store it meets.
\<close>

subsection \<open>Problem codes\<close>

definition AGENT_OFFLINE :: string where "AGENT_OFFLINE = ''agent_offline''"
definition AGENT_RESTARTED :: string where "AGENT_RESTARTED = ''agent_restarted''"
definition CLAIM_TIMEOUT :: string where "CLAIM_TIMEOUT = ''claim_timeout''"
definition SPOOL_TIMEOUT :: string where "SPOOL_TIMEOUT = ''spool_timeout''"

definition STAFF_DECISION_PRINT_ERRORS :: "string list" where
  "STAFF_DECISION_PRINT_ERRORS = [AGENT_OFFLINE, AGENT_RESTARTED, CLAIM_TIMEOUT, SPOOL_TIMEOUT]"

datatype problem_code = Pc_agent_offline | Pc_agent_restarted | Pc_claim_timeout | Pc_spool_timeout | Pc_no_agent
  | Pc_printer_not_linked | Pc_printer_error

definition to_lower :: "char \<Rightarrow> char" where
  "to_lower c = (let n = of_char c :: nat in if 65 \<le> n \<and> n \<le> 90 then char_of (n + 32) else c)"

fun has_prefix :: "string \<Rightarrow> string \<Rightarrow> bool" where
  "has_prefix [] s = True"
| "has_prefix (p # ps) [] = False"
| "has_prefix (p # ps) (c # s) = (p = c \<and> has_prefix ps s)"

fun contains :: "string \<Rightarrow> string \<Rightarrow> bool" where
  "contains p [] = has_prefix p []"
| "contains p (c # s) = (has_prefix p (c # s) \<or> contains p s)"

definition describePrintProblem :: "string option \<Rightarrow> problem_code option" where
  "describePrintProblem raw = (if \<not> truthy raw then None
    else Some (if the raw = AGENT_OFFLINE then Pc_agent_offline
      else if the raw = AGENT_RESTARTED then Pc_agent_restarted
      else if the raw = CLAIM_TIMEOUT then Pc_claim_timeout
      else if the raw = SPOOL_TIMEOUT then Pc_spool_timeout
      else if the raw = no_agent_error then Pc_no_agent
      else if contains ''not linked to an os printer'' (map to_lower (the raw)) then Pc_printer_not_linked
      else Pc_printer_error))"

subsection \<open>The lease\<close>

definition STAFF_OFFLINE_AFTER_MS :: millis where "STAFF_OFFLINE_AFTER_MS = 45000"
definition IN_FLIGHT_GRACE_MS :: millis where "IN_FLIGHT_GRACE_MS = 15000"
definition PRINT_LEASE_TIMEOUT_SECONDS :: int where "PRINT_LEASE_TIMEOUT_SECONDS = 90"
definition PRINT_CLAIM_TIMEOUT_SECONDS :: int where "PRINT_CLAIM_TIMEOUT_SECONDS = 120"
definition PRINT_SPOOL_TIMEOUT_SECONDS :: int where "PRINT_SPOOL_TIMEOUT_SECONDS = 900"

definition agentHoldsLease :: "agent_row option \<Rightarrow> millis \<Rightarrow> millis \<Rightarrow> bool" where
  "agentHoldsLease agent now silentMs = (case agent of None \<Rightarrow> False
    | Some a \<Rightarrow> now - (case ag_lastHeartbeatAt a of None \<Rightarrow> ag_createdAt a | Some t \<Rightarrow> t) \<le> silentMs)"

definition agentGoneForStaff :: "agent_row option \<Rightarrow> millis \<Rightarrow> bool" where
  "agentGoneForStaff agent now = (case agent of None \<Rightarrow> True
    | Some a \<Rightarrow> ag_status a = Ag_offline \<or> \<not> agentHoldsLease agent now STAFF_OFFLINE_AFTER_MS)"

datatype lease_mode = Sweep | Staff

definition session_differs :: "job \<Rightarrow> agent_row option \<Rightarrow> bool" where
  "session_differs j agent = (case agent of None \<Rightarrow> False
    | Some a \<Rightarrow> truthy (j_claimedBySessionId j) \<and> truthy (ag_sessionId a) \<and> j_claimedBySessionId j \<noteq> ag_sessionId a)"

definition printLostReason :: "job \<Rightarrow> agent_row option \<Rightarrow> millis \<Rightarrow> lease_mode \<Rightarrow> string option" where
  "printLostReason j agent now mode =
    (let spooled = (j_spoolAcceptedAt j \<noteq> None) in
     if \<not> spooled \<and> session_differs j agent then Some AGENT_RESTARTED
     else let jobAgeMs = now - j_updatedAt j;
              leaseMs = PRINT_LEASE_TIMEOUT_SECONDS * 1000;
              gone = (if mode = Staff then agentGoneForStaff agent now
                else jobAgeMs \<ge> leaseMs \<and> \<not> agentHoldsLease agent now leaseMs)
       in if gone then Some AGENT_OFFLINE
          else if \<not> spooled \<and> jobAgeMs \<ge> PRINT_CLAIM_TIMEOUT_SECONDS * 1000 then Some CLAIM_TIMEOUT
          else if spooled \<and> now - the (j_spoolAcceptedAt j) \<ge> PRINT_SPOOL_TIMEOUT_SECONDS * 1000 then Some SPOOL_TIMEOUT
          else None)"

definition find_agent :: "id \<Rightarrow> agent_row list \<Rightarrow> agent_row option" where
  "find_agent k agents = find (\<lambda>a. ag_id a = k) agents"

definition agent_of :: "job \<Rightarrow> agent_row list \<Rightarrow> agent_row option" where
  "agent_of j agents = (if truthy (j_claimedByAgentId j) then find_agent (the (j_claimedByAgentId j)) agents else None)"

definition isPrintOrphaned :: "job \<Rightarrow> agent_row list \<Rightarrow> millis \<Rightarrow> bool" where
  "isPrintOrphaned j agents now = (if \<not> truthy (j_claimedByAgentId j) then True
    else printLostReason j (agent_of j agents) now Staff \<noteq> None)"

definition failed_request :: "job \<Rightarrow> actor \<Rightarrow> string \<Rightarrow> millis \<Rightarrow> transition_request" where
  "failed_request j act reason now =
    \<lparr>t_from = Printing, t_event = PRINT_FAILED, t_actor = act,
     t_extra = [(C_claimedByAgentId, VNull), (C_claimedBySessionId, VNull), (C_printError, VText reason)],
     t_audit = Some (if reason = AGENT_OFFLINE then ''print_lease_expired'' else ''print_'' @ reason),
     t_guard = (C_claimedByAgentId, case_option G_null G_text (j_claimedByAgentId j))
       # (if reason = AGENT_RESTARTED then [(C_spoolAcceptedAt, G_null)] else []),
     t_now = now\<rparr>"

definition markPrintFailedAgentGone :: "job \<Rightarrow> actor \<Rightarrow> string \<Rightarrow> millis \<Rightarrow> db \<Rightarrow> (job option) result \<times> db \<times> effect list" where
  "markPrintFailedAgentGone j act reason now d = (case applyTransition (j_id j) (failed_request j act reason now) d of
      Inl e \<Rightarrow> (Inl e, d, [])
    | Inr (None, d') \<Rightarrow> (Inr None, d', [])
    | Inr (Some u, d') \<Rightarrow> (Inr (Some u), d',
        [Publish (Ch_shop (j_shopId j)) ''queue:print_failed'' (j_id j),
         Publish (Ch_student (j_studentId j)) ''job:update'' (j_id j),
         Notify (j_studentId j) (K_other ''print-problem'' (j_id j))]))"

fun fail_each :: "(job \<Rightarrow> string option) \<Rightarrow> millis \<Rightarrow> job list \<Rightarrow> db \<Rightarrow> nat \<times> db \<times> effect list" where
  "fail_each reason now [] d = (0, d, [])"
| "fail_each reason now (j # js) d = (case reason j of
      None \<Rightarrow> fail_each reason now js d
    | Some r \<Rightarrow> (case markPrintFailedAgentGone j system r now d of (res, d1, effs1) \<Rightarrow>
        (case fail_each reason now js d1 of (n, d2, effs2) \<Rightarrow>
          ((case res of Inr (Some _) \<Rightarrow> Suc n | _ \<Rightarrow> n), d2, effs1 @ effs2))))"

definition reconcileAgentSession :: "id \<Rightarrow> id \<Rightarrow> id list option \<Rightarrow> millis \<Rightarrow> db \<Rightarrow> nat \<times> db \<times> effect list" where
  "reconcileAgentSession agentId sessionId inFlightJobIds now d =
    fail_each (\<lambda>_. Some AGENT_RESTARTED) now
      (take 50 (filter (\<lambda>j. j_status j = Printing \<and> j_claimedByAgentId j = Some agentId \<and> j_spoolAcceptedAt j = None
        \<and> ((case j_claimedBySessionId j of None \<Rightarrow> False | Some s \<Rightarrow> s \<noteq> sessionId)
          \<or> (case inFlightJobIds of None \<Rightarrow> False
             | Some ids \<Rightarrow> j_id j \<notin> set ids \<and> j_updatedAt j < now - IN_FLIGHT_GRACE_MS))) (jobs d))) d"

definition orphan_candidate :: "millis \<Rightarrow> job \<Rightarrow> bool" where
  "orphan_candidate now j = (j_status j = Printing
    \<and> (j_updatedAt j < now - min PRINT_LEASE_TIMEOUT_SECONDS PRINT_CLAIM_TIMEOUT_SECONDS * 1000
      \<or> (j_claimedBySessionId j \<noteq> None \<and> j_spoolAcceptedAt j = None)))"

definition failOrphanedPrints :: "agent_row list \<Rightarrow> millis \<Rightarrow> db \<Rightarrow> nat \<times> db \<times> effect list" where
  "failOrphanedPrints agents now d =
    fail_each (\<lambda>j. printLostReason j (agent_of j agents) now Sweep) now
      (take 200 (filter (orphan_candidate now) (jobs d))) d"

subsection \<open>Completion\<close>

definition confirm_request :: "job \<Rightarrow> actor \<Rightarrow> completion_method \<Rightarrow> millis \<Rightarrow> transition_request" where
  "confirm_request j act method now =
    \<lparr>t_from = Printing,
     t_event = (if truthy (js_binding (j_specs j)) then FINISHING_REQUIRED else PRINT_COMPLETED), t_actor = act,
     t_extra = [(C_printError, VNull),
       (C_spoolAcceptedAt, VTs (case j_spoolAcceptedAt j of None \<Rightarrow> now | Some t \<Rightarrow> t)),
       (C_printConfirmedAt, VTs now),
       (C_printConfirmedById, if method = Staff_confirmed then case_option VNull VText (actorId act) else VNull),
       (C_printCompletionMethod, VCompletion method)],
     t_audit = None, t_guard = [], t_now = now\<rparr>"

definition confirmSuccessfulPrint :: "job \<Rightarrow> actor \<Rightarrow> completion_method \<Rightarrow> millis \<Rightarrow> db
    \<Rightarrow> (job \<times> bool) option result \<times> db \<times> effect list" where
  "confirmSuccessfulPrint j act method now d =
    (let finishingRequired = truthy (js_binding (j_specs j)) in
     case applyTransition (j_id j) (confirm_request j act method now) d of
       Inl e \<Rightarrow> (Inl e, d, [])
     | Inr (None, d') \<Rightarrow> (Inr None, d', [])
     | Inr (Some u, d') \<Rightarrow> (Inr (Some (u, finishingRequired)), d',
         [Publish (Ch_student (j_studentId j)) ''job:update'' (j_id j),
          Publish (Ch_shop (j_shopId j)) (if finishingRequired then ''queue:finishing_required'' else ''queue:job_ready'') (j_id j),
          File_deletion (j_fileId u), Background ''commission'' (j_id u),
          Notify (j_studentId j) (K_other (if finishingRequired then ''printing-finished'' else ''print-ready'') (j_id j))]))"

definition recordSpoolAccepted :: "id \<Rightarrow> millis \<Rightarrow> db \<Rightarrow> db" where
  "recordSpoolAccepted jobId now d = d\<lparr>jobs := update_where
    (\<lambda>j. j_id j = jobId \<and> j_status j = Printing \<and> j_spoolAcceptedAt j = None)
    (\<lambda>j. j\<lparr>j_spoolAcceptedAt := Some now, j_printError := None, j_updatedAt := now\<rparr>) (jobs d)\<rparr>"

end
