(* ===== verification/Print_Routes.thy ===== *)
theory Print_Routes
  imports Print_Agent
begin

text \<open>
  The routes around printing: what an agent may do (heartbeat, pending, claim, file, complete, fail, in
  apps/api/src/modules/agents/routes.ts) and what staff may do with a released order (assign, retry,
  confirm, return the payment, finish, hand over, in apps/api/src/modules/shops/routes.ts). Reads and the
  first conditional writes of one route see the same store \<open>d\<close> unless the route is given a separate
  \<open>seen\<close> row.
\<close>

record agent_auth =
  au_id :: id
  au_shopId :: id
  au_connectedPrinterIds :: "id list"
  au_sessionId :: "id option"

definition NOT_STAFF_HELD :: "job \<Rightarrow> bool" where
  "NOT_STAFF_HELD j = (case j_printError j of None \<Rightarrow> True | Some e \<Rightarrow> e \<notin> set STAFF_DECISION_PRINT_ERRORS)"

definition otherSessionHolds :: "job \<Rightarrow> id option \<Rightarrow> bool" where
  "otherSessionHolds j sessionId = (truthy (j_claimedBySessionId j) \<and> truthy sessionId
    \<and> j_claimedBySessionId j \<noteq> sessionId)"

definition beat :: "agent_auth \<Rightarrow> millis \<Rightarrow> agent_row \<Rightarrow> agent_row" where
  "beat au now a = (let a1 = a\<lparr>ag_lastHeartbeatAt := Some now, ag_status := Ag_online\<rparr> in
    if truthy (au_sessionId au) then a1\<lparr>ag_sessionId := au_sessionId au\<rparr> else a1)"

definition heartbeat :: "agent_auth \<Rightarrow> id list option \<Rightarrow> millis \<Rightarrow> agent_row list \<Rightarrow> db \<Rightarrow> agent_row list \<times> db \<times> effect list" where
  "heartbeat au inFlightJobIds now agents d =
    (let agents' = update_where (\<lambda>a. ag_id a = au_id au) (beat au now) agents in
     case au_sessionId au of
       None \<Rightarrow> (agents', d, [Background ''publishIfReady'' (au_shopId au)])
     | Some s \<Rightarrow> if s = [] then (agents', d, [Background ''publishIfReady'' (au_shopId au)])
         else (case reconcileAgentSession (au_id au) s inFlightJobIds now d of (_, d', effs) \<Rightarrow>
           (agents', d', effs @ [Background ''publishIfReady'' (au_shopId au)])))"

text \<open>The printers a PC reports: those linked to one of the reported names become reachable through it.\<close>

definition reachable_printers :: "agent_auth \<Rightarrow> string list \<Rightarrow> printer_row list \<Rightarrow> id list" where
  "reachable_printers au names printers = (if names = [] then [] else map pt_id (filter (\<lambda>p. pt_shopId p = au_shopId au
    \<and> (case pt_osPrinterName p of None \<Rightarrow> False | Some n \<Rightarrow> n \<in> set names)) printers))"

definition report_printers :: "agent_auth \<Rightarrow> string list \<Rightarrow> printer_row list \<Rightarrow> millis \<Rightarrow> agent_row list \<Rightarrow> db
    \<Rightarrow> agent_row list \<times> db \<times> effect list" where
  "report_printers au names printers now agents d =
    (let connected = unique_first (au_connectedPrinterIds au @ reachable_printers au names printers);
         agents' = update_where (\<lambda>a. ag_id a = au_id au)
           (\<lambda>a. a\<lparr>ag_detectedPrinters := Some names, ag_connectedPrinterIds := connected,
             ag_sessionId := (if truthy (au_sessionId au) then au_sessionId au else ag_sessionId a)\<rparr>) agents;
         (d', effs) = (if truthy (au_sessionId au)
           then (case reconcileAgentSession (au_id au) (the (au_sessionId au)) None now d of (_, d', effs) \<Rightarrow> (d', effs))
           else (d, []))
     in (agents', d', effs @ [Background ''emitQueueUpdate'' (au_shopId au), Background ''notifyShopReopened'' (au_shopId au),
       Background ''publishIfReady'' (au_shopId au), Publish (Ch_shop (au_shopId au)) ''agent:printers_detected'' (au_id au)]))"

definition printable_by :: "agent_auth \<Rightarrow> job \<Rightarrow> bool" where
  "printable_by au j = (j_shopId j = au_shopId au \<and> j_status j = Otp_verified \<and> NOT_STAFF_HELD j
    \<and> (case j_assignedPrinterId j of None \<Rightarrow> False | Some p \<Rightarrow> p \<in> set (au_connectedPrinterIds au))
    \<and> (j_claimedByAgentId j = None \<or> j_claimedByAgentId j = Some (au_id au)))"

definition pending_jobs :: "agent_auth \<Rightarrow> db \<Rightarrow> job list" where
  "pending_jobs au d = filter (printable_by au) (jobs d)"

text \<open>The two statements of a claim: the conditional update that is the lock, and the transition.\<close>

definition claim_lock :: "agent_auth \<Rightarrow> id \<Rightarrow> millis \<Rightarrow> db \<Rightarrow> nat \<times> db" where
  "claim_lock au jobId now d =
    (count_where (\<lambda>j. j_id j = jobId \<and> printable_by au j) (jobs d),
     d\<lparr>jobs := update_where (\<lambda>j. j_id j = jobId \<and> printable_by au j)
       (\<lambda>j. j\<lparr>j_claimedByAgentId := Some (au_id au), j_claimedBySessionId := au_sessionId au, j_updatedAt := now\<rparr>) (jobs d)\<rparr>)"

definition started_request :: "agent_auth \<Rightarrow> millis \<Rightarrow> transition_request" where
  "started_request au now = \<lparr>t_from = Otp_verified, t_event = PRINT_STARTED,
    t_actor = \<lparr>actorType = A_agent, actorId = Some (au_id au)\<rparr>,
    t_extra = [(C_printError, VNull), (C_printAttempts, VInc 1)], t_audit = None, t_guard = [], t_now = now\<rparr>"

definition claim_start :: "agent_auth \<Rightarrow> id \<Rightarrow> millis \<Rightarrow> db \<Rightarrow> job result \<times> db \<times> effect list" where
  "claim_start au jobId now d = (case applyTransition jobId (started_request au now) d of
      Inl e \<Rightarrow> (Inl e, d, [])
    | Inr (None, d') \<Rightarrow> (Inl (Conflict ''Job state changed''), d', [])
    | Inr (Some j, d') \<Rightarrow> (Inr j, d', [Publish (Ch_student (j_studentId j)) ''job:update'' (j_id j),
        Publish (Ch_shop (j_shopId j)) ''queue:job_printing'' (j_id j)]))"

definition claimJob :: "agent_auth \<Rightarrow> id \<Rightarrow> millis \<Rightarrow> db \<Rightarrow> job result \<times> db \<times> effect list" where
  "claimJob au jobId now d = (case claim_lock au jobId now d of (n, d1) \<Rightarrow>
    if n = 0 then (Inl (Conflict ''Job already claimed or not printable''), d, [])
    else claim_start au jobId now d1)"

definition may_download :: "agent_auth \<Rightarrow> id \<Rightarrow> bool \<Rightarrow> db \<Rightarrow> bool" where
  "may_download au jobId converted d =
    (case find (\<lambda>j. j_id j = jobId \<and> j_shopId j = au_shopId au \<and> j_claimedByAgentId j = Some (au_id au)
        \<and> (j_status j = Otp_verified \<or> j_status j = Printing)) (jobs d) of
      None \<Rightarrow> False
    | Some j \<Rightarrow> converted \<and> \<not> otherSessionHolds j (au_sessionId au))"

datatype outcome = Spool_accepted | Simulator_complete
datatype completion = Already_confirmed | Confirmed bool | Needs_confirmation

definition completePrint :: "bool \<Rightarrow> agent_auth \<Rightarrow> id \<Rightarrow> outcome \<Rightarrow> millis \<Rightarrow> job list \<Rightarrow> db \<Rightarrow> completion result \<times> db \<times> effect list" where
  "completePrint ALLOW_SIMULATED au jobId out now seen d =
    (case find (\<lambda>j. j_id j = jobId \<and> j_shopId j = au_shopId au) seen of
      None \<Rightarrow> (Inl NotFound, d, [])
    | Some j \<Rightarrow>
      if j_claimedByAgentId j \<noteq> Some (au_id au) \<or> otherSessionHolds j (au_sessionId au)
        then (Inl (Conflict ''no longer assigned''), d, [])
      else if j_status j \<noteq> Printing
        then (if j_printConfirmedAt j \<noteq> None then (Inr Already_confirmed, d, []) else (Inl (Conflict ''not printing''), d, []))
      else if out = Simulator_complete
        then (if \<not> ALLOW_SIMULATED then (Inl (Conflict ''simulator disabled''), d, [])
          else (case confirmSuccessfulPrint j \<lparr>actorType = A_agent, actorId = Some (au_id au)\<rparr> Simulator now d of
              (Inl e, d', effs) \<Rightarrow> (Inl e, d', effs)
            | (Inr None, d', effs) \<Rightarrow> (Inl (Conflict ''changed''), d', effs)
            | (Inr (Some (_, fin)), d', effs) \<Rightarrow> (Inr (Confirmed fin), d', effs)))
      else (Inr Needs_confirmation, recordSpoolAccepted (j_id j) now d,
        [Publish (Ch_shop (j_shopId j)) ''queue:print_confirmation_required'' (j_id j)]))"

definition agent_failed_request :: "agent_auth \<Rightarrow> string \<Rightarrow> millis \<Rightarrow> transition_request" where
  "agent_failed_request au reason now = \<lparr>t_from = Printing, t_event = PRINT_FAILED,
    t_actor = \<lparr>actorType = A_agent, actorId = Some (au_id au)\<rparr>,
    t_extra = [(C_claimedByAgentId, VNull), (C_claimedBySessionId, VNull), (C_printError, VText reason)],
    t_audit = None, t_guard = [], t_now = now\<rparr>"

text \<open>
  The code of the problem is read only for the message to the shop, after the commit, from a description
  that is null for an empty reason.
\<close>

definition failPrint :: "agent_auth \<Rightarrow> id \<Rightarrow> string option \<Rightarrow> millis \<Rightarrow> job list \<Rightarrow> db \<Rightarrow> unit result \<times> db \<times> effect list" where
  "failPrint au jobId rawReason now seen d =
    (case find (\<lambda>j. j_id j = jobId \<and> j_shopId j = au_shopId au \<and> j_claimedByAgentId j = Some (au_id au)) seen of
      None \<Rightarrow> (Inl NotFound, d, [])
    | Some j \<Rightarrow>
      if otherSessionHolds j (au_sessionId au) then (Inl NotFound, d, [])
      else if j_status j \<noteq> Printing then (Inl (Conflict ''Job is not printing''), d, [])
      else (let reason = (case rawReason of None \<Rightarrow> ''unknown'' | Some r \<Rightarrow> take 200 r) in
        case applyTransition (j_id j) (agent_failed_request au reason now) d of
          Inl e \<Rightarrow> (Inl e, d, [])
        | Inr (None, d') \<Rightarrow> (Inl (Conflict ''changed''), d', [])
        | Inr (Some _, d') \<Rightarrow> (case describePrintProblem (Some reason) of
            None \<Rightarrow> (Inl (Thrown ''TypeError''), d', [Publish (Ch_student (j_studentId j)) ''job:update'' (j_id j)])
          | Some problem \<Rightarrow> (Inr (), d', [Publish (Ch_student (j_studentId j)) ''job:update'' (j_id j),
              Publish (Ch_shop (j_shopId j)) ''queue:print_failed'' (j_id j)]))))"

subsection \<open>The shop's actions on a released order\<close>

definition staff :: "id \<Rightarrow> actor" where
  "staff k = \<lparr>actorType = A_shop, actorId = Some k\<rparr>"

definition plain_request :: "job_status \<Rightarrow> job_event \<Rightarrow> actor \<Rightarrow> (column \<times> cval) list \<Rightarrow> millis \<Rightarrow> transition_request" where
  "plain_request from ev act extra now = \<lparr>t_from = from, t_event = ev, t_actor = act, t_extra = extra,
    t_audit = None, t_guard = [], t_now = now\<rparr>"

definition assignPrinter :: "id \<Rightarrow> id \<Rightarrow> millis \<Rightarrow> shop_view \<Rightarrow> db \<Rightarrow> unit result \<times> db \<times> effect list" where
  "assignPrinter jobId printerId now v d =
    (let shopId = sh_id (v_shop v) in
     case (find (\<lambda>j. j_id j = jobId \<and> j_shopId j = shopId) (v_jobs v), find (\<lambda>p. pt_id p = printerId) (shop_printers v)) of
       (Some j, Some p) \<Rightarrow>
         if j_status j \<noteq> Queued then (Inl (Conflict ''Only queued jobs can be reassigned''), d, [])
         else if \<not> list_ex (\<lambda>r. rec_printerId r = pt_id p)
             (fst (recommendPrinter v (j_specs j) (j_pagesPerCopy j) (Some (j_id j))))
           then (Inl (Conflict ''offline or cannot produce''), d, [])
         else (let d1 = d\<lparr>jobs := update_where (\<lambda>x. j_id x = j_id j)
               (\<lambda>x. x\<lparr>j_assignedPrinterId := Some printerId, j_updatedAt := now\<rparr>) (jobs d)\<rparr>;
             (js, effs) = emitQueueUpdate v now (jobs d1);
             (js', effs') = emitQueueUpdate v now js
           in (Inr (), d1\<lparr>jobs := js'\<rparr>, effs @ effs'))
     | _ \<Rightarrow> (Inl NotFound, d, []))"

definition releaseOrphanedPrint :: "job \<Rightarrow> id \<Rightarrow> agent_row list \<Rightarrow> millis \<Rightarrow> db \<Rightarrow> job result \<times> db \<times> effect list" where
  "releaseOrphanedPrint j staffId agents now d =
    (if j_status j \<noteq> Printing then (Inr j, d, [])
     else if \<not> isPrintOrphaned j agents now then (Inl (Conflict ''still printing''), d, [])
     else (case markPrintFailedAgentGone j (staff staffId) AGENT_OFFLINE now d of
         (Inl e, d', effs) \<Rightarrow> (Inl e, d', effs)
       | (Inr None, d', effs) \<Rightarrow> (Inl (Conflict ''changed''), d', effs)
       | (Inr (Some u), d', effs) \<Rightarrow> (Inr u, d', effs)))"

text \<open>\<open>requested ?? (assigned if eligible else recommended)\<close>, then checked for eligibility.\<close>

definition retry_printer :: "id option \<Rightarrow> job \<Rightarrow> recommendation list \<times> recommendation option \<Rightarrow> id option" where
  "retry_printer requested j recommendation =
    (let choice = (case requested of Some p \<Rightarrow> Some p
         | None \<Rightarrow> if list_ex (\<lambda>r. Some (rec_printerId r) = j_assignedPrinterId j) (fst recommendation)
             then j_assignedPrinterId j else map_option rec_printerId (snd recommendation))
     in if \<not> truthy choice \<or> \<not> list_ex (\<lambda>r. Some (rec_printerId r) = choice) (fst recommendation) then None else choice)"

definition retry_write :: "id \<Rightarrow> id \<Rightarrow> millis \<Rightarrow> db \<Rightarrow> db" where
  "retry_write jobId printerId now d = d\<lparr>jobs := update_where (\<lambda>x. j_id x = jobId)
    (\<lambda>x. x\<lparr>j_assignedPrinterId := Some printerId, j_claimedByAgentId := None, j_claimedBySessionId := None,
      j_printError := None, j_updatedAt := now\<rparr>) (jobs d)\<rparr>"

definition retryPrint :: "id \<Rightarrow> id \<Rightarrow> id option \<Rightarrow> millis \<Rightarrow> shop_view \<Rightarrow> db \<Rightarrow> job result \<times> db \<times> effect list" where
  "retryPrint jobId staffId requested now v d =
    (let shopId = sh_id (v_shop v) in
     case find (\<lambda>j. j_id j = jobId \<and> j_shopId j = shopId) (v_jobs v) of
       None \<Rightarrow> (Inl NotFound, d, [])
     | Some j0 \<Rightarrow> (case releaseOrphanedPrint j0 staffId (v_agents v) now d of
         (Inl e, d1, effs) \<Rightarrow> (Inl e, d1, effs)
       | (Inr j, d1, effs) \<Rightarrow>
         if j_status j \<noteq> Otp_verified then (Inl (Conflict ''not waiting for a print retry''), d1, effs)
         else (case retry_printer requested j (recommendPrinter v (j_specs j) (j_pagesPerCopy j) (Some (j_id j))) of
             None \<Rightarrow> (Inl (Conflict ''No compatible online printer''), d1, effs)
           | Some printerId \<Rightarrow>
             (let d2 = retry_write (j_id j) printerId now d1 in
              case find_job (j_id j) (jobs d2) of
                None \<Rightarrow> (Inl (Thrown ''P2025''), d1, effs)
              | Some updated \<Rightarrow> (case dispatchJob now updated None (v_agents v) d2 of (d3, effs') \<Rightarrow>
                  (Inr updated, d3, effs @ effs' @ [Publish (Ch_shop shopId) ''queue:retry_dispatched'' (j_id updated)]))))))"

definition confirmPrintCompletion :: "id \<Rightarrow> id \<Rightarrow> id \<Rightarrow> millis \<Rightarrow> job list \<Rightarrow> db \<Rightarrow> (job \<times> bool) result \<times> db \<times> effect list" where
  "confirmPrintCompletion jobId shopId staffId now seen d =
    (case find (\<lambda>j. j_id j = jobId \<and> j_shopId j = shopId) seen of
      None \<Rightarrow> (Inl NotFound, d, [])
    | Some j \<Rightarrow>
      if j_status j \<noteq> Printing then (Inl (Conflict ''not awaiting print confirmation''), d, [])
      else (case confirmSuccessfulPrint j (staff staffId) Staff_confirmed now d of
          (Inl e, d', effs) \<Rightarrow> (Inl e, d', effs)
        | (Inr None, d', effs) \<Rightarrow> (Inl (Conflict ''changed''), d', effs)
        | (Inr (Some r), d', effs) \<Rightarrow> (Inr r, d', effs)))"

text \<open>The payment event of a returned counter payment: an upsert that updates nothing.\<close>

definition record_returned :: "job \<Rightarrow> db \<Rightarrow> db" where
  "record_returned j d =
    (let key = ''counter_payment_returned_'' @ j_id j in
     if list_ex (\<lambda>e. pe_providerEventId e = key) (paymentEvents d) then d
     else d\<lparr>paymentEvents := paymentEvents d @ [\<lparr>pe_providerEventId = key, pe_provider = ''pay_at_shop'', pe_jobId = Some (j_id j),
       pe_amountPaise = Some (case j_counterPaymentAmountPaise j of None \<Rightarrow> j_totalPaise j | Some a \<Rightarrow> a)\<rparr>]\<rparr>)"

interpretation returned_once: write_once record_returned
  by unfold_locales (simp add: record_returned_def Let_def)

definition counterPaymentReturned :: "id \<Rightarrow> id \<Rightarrow> millis \<Rightarrow> shop_view \<Rightarrow> db \<Rightarrow> job result \<times> db \<times> effect list" where
  "counterPaymentReturned jobId staffId now v d =
    (let shopId = sh_id (v_shop v) in
     case find (\<lambda>j. j_id j = jobId \<and> j_shopId j = shopId) (v_jobs v) of
       None \<Rightarrow> (Inl NotFound, d, [])
     | Some j0 \<Rightarrow> (case releaseOrphanedPrint j0 staffId (v_agents v) now d of
         (Inl e, d1, effs) \<Rightarrow> (Inl e, d1, effs)
       | (Inr j, d1, effs) \<Rightarrow>
         if j_paymentProvider j \<noteq> Some ''pay_at_shop'' \<or> j_paymentStatus j \<noteq> Paid
             \<or> j_counterPaymentConfirmedAt j = None \<or> j_status j \<noteq> Otp_verified
         then (Inl (Conflict ''cannot be closed''), d1, effs)
         else (case applyTransition (j_id j) (plain_request Otp_verified COUNTER_PAYMENT_RETURNED (staff staffId)
               [(C_paymentStatus, VPay Refunded), (C_claimedByAgentId, VNull), (C_claimedBySessionId, VNull), (C_printError, VNull)]
               now) d1 of
             Inl e \<Rightarrow> (Inl e, d1, effs)
           | Inr (None, d2) \<Rightarrow> (Inl (Conflict ''changed''), d2, effs)
           | Inr (Some u, d2) \<Rightarrow> (case emitQueueUpdate v now (jobs (record_returned j d2)) of (js, effs') \<Rightarrow>
               (Inr u, (record_returned j d2)\<lparr>jobs := js\<rparr>, effs @ [File_deletion (j_fileId j),
                 Notify (j_studentId j) (K_other ''counter-payment-returned'' (j_id j)),
                 Publish (Ch_student (j_studentId j)) ''job:update'' (j_id j)] @ effs')))))"

definition finishingComplete :: "id \<Rightarrow> id \<Rightarrow> id \<Rightarrow> millis \<Rightarrow> job list \<Rightarrow> db \<Rightarrow> job result \<times> db \<times> effect list" where
  "finishingComplete jobId shopId staffId now seen d =
    (case find (\<lambda>j. j_id j = jobId \<and> j_shopId j = shopId) seen of
      None \<Rightarrow> (Inl NotFound, d, [])
    | Some j \<Rightarrow>
      if j_status j \<noteq> Finishing then (Inl (Conflict ''not waiting for manual finishing''), d, [])
      else (case applyTransition (j_id j) (plain_request Finishing FINISHING_COMPLETED (staff staffId) [] now) d of
          Inl e \<Rightarrow> (Inl e, d, [])
        | Inr (None, d') \<Rightarrow> (Inl (Conflict ''changed''), d', [])
        | Inr (Some u, d') \<Rightarrow> (Inr u, d', [Publish (Ch_student (j_studentId j)) ''job:update'' (j_id j),
            Publish (Ch_shop shopId) ''queue:job_ready'' (j_id j), Notify (j_studentId j) (K_other ''finishing-ready'' (j_id j))])))"

definition handover :: "id \<Rightarrow> id \<Rightarrow> millis \<Rightarrow> shop_view \<Rightarrow> db \<Rightarrow> job result \<times> db \<times> effect list" where
  "handover jobId staffId now v d =
    (case find (\<lambda>j. j_id j = jobId \<and> j_shopId j = sh_id (v_shop v)) (v_jobs v) of
      None \<Rightarrow> (Inl NotFound, d, [])
    | Some j \<Rightarrow>
      if j_status j \<noteq> Ready_for_pickup then (Inl (Conflict ''not ready for pickup''), d, [])
      else (case applyTransition (j_id j) (plain_request Ready_for_pickup HANDED_OVER (staff staffId) [] now) d of
          Inl e \<Rightarrow> (Inl e, d, [])
        | Inr (None, d') \<Rightarrow> (Inl (Conflict ''changed''), d', [])
        | Inr (Some u, d') \<Rightarrow> (case emitQueueUpdate v now (jobs d') of (js, effs) \<Rightarrow>
            (Inr u, d'\<lparr>jobs := js\<rparr>, Publish (Ch_student (j_studentId j)) ''job:update'' (j_id j) # effs))))"

end
