(* ===== verification/Print_Laws.thy ===== *)
theory Print_Laws
  imports Print_Routes
begin

text \<open>
  The properties of printing: a claim is exclusive, a healthy print is never failed by the sweep, what a
  report may change that reads its job at one time and writes at another, and what the never-cleared spool
  acknowledgement does to a retried print.
\<close>

lemma started_well_formed [simp]: "well_formed (started_request au now)"
  by (simp add: well_formed_def started_request_def)

lemma started_simps [simp]:
  "t_from (started_request au now) = Otp_verified" "t_event (started_request au now) = PRINT_STARTED"
  "t_guard (started_request au now) = []" "t_now (started_request au now) = now"
  by (simp_all add: started_request_def)

lemma started_row [row_simps]:
  "j_claimedByAgentId (rewritten (started_request au now) to x) = j_claimedByAgentId x"
  "j_claimedBySessionId (rewritten (started_request au now) to x) = j_claimedBySessionId x"
  "j_spoolAcceptedAt (rewritten (started_request au now) to x) = j_spoolAcceptedAt x"
  "j_printAttempts (rewritten (started_request au now) to x) = j_printAttempts x + 1"
  "j_printError (rewritten (started_request au now) to x) = None"
  "j_updatedAt (rewritten (started_request au now) to x) = now"
  by (simp_all add: rewritten_def started_request_def stamp_def)

definition locked :: "agent_auth \<Rightarrow> millis \<Rightarrow> job \<Rightarrow> job" where
  "locked au now j = j\<lparr>j_claimedByAgentId := Some (au_id au), j_claimedBySessionId := au_sessionId au, j_updatedAt := now\<rparr>"

lemma claim_lock_eq: "claim_lock au k now d = (count_where (\<lambda>j. j_id j = k \<and> printable_by au j) (jobs d),
    d\<lparr>jobs := update_where (\<lambda>j. j_id j = k \<and> printable_by au j) (locked au now) (jobs d)\<rparr>)"
  by (simp add: claim_lock_def locked_def [abs_def])

lemma map_id_update: "(\<And>r. j_id (f r) = j_id r) \<Longrightarrow> map j_id (update_where p f js) = map j_id js"
  by (rule map_update_where)

lemma unique_ids_locked: "unique_ids d \<Longrightarrow> unique_ids (d\<lparr>jobs := update_where p (locked au now) (jobs d)\<rparr>)"
  by (simp add: unique_ids_def map_id_update locked_def)

text \<open>The claim's outcome, from the row it finds.\<close>

lemma claimJob_won:
  assumes "unique_ids d" "claimJob au k now d = (Inr j, d', effs)"
  obtains j0 where "j0 \<in> set (jobs d)" "j_id j0 = k" "printable_by au j0"
    "j = rewritten (started_request au now) Printing (locked au now j0)"
    "\<And>x. x \<in> set (jobs d') \<Longrightarrow> j_id x = k \<Longrightarrow> x = j" "unique_ids d'" "j \<in> set (jobs d')"
proof -
  let ?p = "\<lambda>j. j_id j = k \<and> printable_by au j"
  let ?d1 = "d\<lparr>jobs := update_where ?p (locked au now) (jobs d)\<rparr>"
  have "0 < count_where ?p (jobs d)"
    using assms(2) by (simp add: claimJob_def claim_lock_eq split: if_splits)
  then obtain j0 where j0: "j0 \<in> set (jobs d)" "j_id j0 = k" "printable_by au j0"
    by (auto simp: count_where_pos_iff)
  have u1: "unique_ids ?d1" by (rule unique_ids_locked [OF assms(1)])
  have "applyTransition k (started_request au now) ?d1 = Inr (Some j, d')"
    using assms(2) by (auto simp: claimJob_def claim_lock_eq claim_start_def split: if_splits sum.splits option.splits prod.splits)
  then show thesis
  proof (rule applyTransition_won [OF u1 started_well_formed])
    fix to x
    assume tr: "TRANSITIONS (t_from (started_request au now)) (t_event (started_request au now)) = Some to"
      and t: "target k (started_request au now) ?d1 = Some x"
      and j: "j = rewritten (started_request au now) to x"
      and d': "d' = commit k (started_request au now) to x ?d1"
    have to: "to = Printing" using tr by simp
    have x: "x \<in> set (jobs ?d1)" "j_id x = k" using target_SomeD [OF t] by simp_all
    have "locked au now j0 \<in> set (jobs ?d1)" "j_id (locked au now j0) = k"
      using j0 by (auto simp: set_update_where locked_def)
    then have "x = locked au now j0"
      using distinct_key_eq [of j_id "jobs ?d1" x "locked au now j0"] u1 x by (simp add: unique_ids_def)
    moreover have "y = j" if "y \<in> set (jobs d')" "j_id y = k" for y
      using that x(2) by (auto simp: d' j commit_def set_update_where)
    moreover have "unique_ids d'" using unique_ids_commit [OF u1 x(2)] by (simp add: d')
    moreover have "j \<in> set (jobs d')" using x by (auto simp: d' j commit_def set_update_where)
    ultimately show thesis using that [OF j0] j to by blast
  qed
qed

lemma claim_refused:
  assumes "\<And>x. x \<in> set (jobs d) \<Longrightarrow> j_id x = k \<Longrightarrow> \<not> printable_by au x"
  shows "claimJob au k now d = (Inl (Conflict ''Job already claimed or not printable''), d, [])"
proof -
  have "count_where (\<lambda>j. j_id j = k \<and> printable_by au j) (jobs d) = 0"
    using assms by (auto simp: count_where_0_iff)
  then show ?thesis by (simp add: claimJob_def claim_lock_def)
qed

text \<open>
  C8. A print is claimed once: the agent that wins holds the job in printing under its own id and
  process, counted as one more attempt; it was released, assigned to one of that agent's printers, not
  waiting for a staff decision, and not held by another agent; and from then on every claim of the job, by
  any agent at any time, is refused and changes nothing.
\<close>

theorem claim_exclusive:
  assumes "unique_ids d" "claimJob au k now d = (Inr j, d', effs)"
  shows "j \<in> set (jobs d') \<and> j_id j = k \<and> j_status j = Printing \<and> j_claimedByAgentId j = Some (au_id au)
      \<and> j_claimedBySessionId j = au_sessionId au
    \<and> (\<exists>j0 \<in> set (jobs d). j_id j0 = k \<and> j_status j0 = Otp_verified \<and> NOT_STAFF_HELD j0
        \<and> j_claimedByAgentId j0 \<in> {None, Some (au_id au)} \<and> j_printAttempts j = j_printAttempts j0 + 1
        \<and> (\<exists>p \<in> set (au_connectedPrinterIds au). j_assignedPrinterId j0 = Some p))
    \<and> claimJob au' k now' d' = (Inl (Conflict ''Job already claimed or not printable''), d', [])"
proof -
  obtain j0 where j0: "j0 \<in> set (jobs d)" "j_id j0 = k" "printable_by au j0"
    and j: "j = rewritten (started_request au now) Printing (locked au now j0)"
    and only: "\<And>x. x \<in> set (jobs d') \<Longrightarrow> j_id x = k \<Longrightarrow> x = j" and m: "j \<in> set (jobs d')"
    by (rule claimJob_won [OF assms]) blast
  have r: "claimJob au' k now' d' = (Inl (Conflict ''Job already claimed or not printable''), d', [])"
  proof (rule claim_refused)
    fix x assume "x \<in> set (jobs d')" "j_id x = k"
    then have "x = j" by (rule only)
    then have "j_status x = Printing" using j by simp
    then show "\<not> printable_by au' x" by (simp add: printable_by_def)
  qed
  have "\<exists>p \<in> set (au_connectedPrinterIds au). j_assignedPrinterId j0 = Some p"
    using j0(3) by (auto simp: printable_by_def split: option.splits)
  then show ?thesis
    using r j0 m by (auto simp: j row_simps locked_def printable_by_def)
qed

definition sample_auth :: "id \<Rightarrow> agent_auth" where
  "sample_auth i = \<lparr>au_id = i, au_shopId = ''s'', au_connectedPrinterIds = [''p''], au_sessionId = Some ''x''\<rparr>"

definition released_db :: db where
  "released_db = \<lparr>jobs = [sample_job ''a'' Otp_verified], jobEvents = [], outbox = [], paymentEvents = []\<rparr>"

lemma released_db_ok: "unique_ids released_db"
  by (simp add: released_db_def unique_ids_def)

lemma sample_printable: "printable_by (sample_auth i) (sample_job ''a'' Otp_verified)"
  by (simp add: printable_by_def sample_auth_def sample_job_def NOT_STAFF_HELD_def)

lemma single_claim:
  assumes "printable_by au x" "j_id x = k"
  shows "\<exists>j d' effs. claimJob au k now (d\<lparr>jobs := [x]\<rparr>) = (Inr j, d', effs)"
proof -
  let ?d1 = "d\<lparr>jobs := [locked au now x]\<rparr>"
  have l: "claim_lock au k now (d\<lparr>jobs := [x]\<rparr>) = (1, ?d1)"
    using assms by (simp add: claim_lock_eq count_where_def)
  have u: "unique_ids ?d1" by (simp add: unique_ids_def)
  have "j_status x = Otp_verified" using assms(1) by (simp add: printable_by_def)
  then have "target k (started_request au now) ?d1 = Some (locked au now x)"
    using assms(2) by (simp add: target_def locked_def)
  then show ?thesis
    by (simp add: claimJob_def l claim_start_def applyTransition_spec [OF u started_well_formed])
qed

lemma sample_claim: "\<exists>j d' effs. claimJob (sample_auth i) ''a'' 1000 released_db = (Inr j, d', effs)"
proof -
  have id: "j_id (sample_job ''a'' Otp_verified) = ''a''" by (simp add: sample_job_def)
  show ?thesis
    using single_claim [OF sample_printable id, of i 1000 released_db] by (simp add: released_db_def)
qed

theorem claim_exclusive_witness:
  "\<exists>j d' effs. claimJob (sample_auth ''g'') ''a'' 1000 released_db = (Inr j, d', effs) \<and> j_status j = Printing
    \<and> claimJob (sample_auth ''h'') ''a'' 1001 d' = (Inl (Conflict ''Job already claimed or not printable''), d', [])"
proof -
  obtain j d' effs where c: "claimJob (sample_auth ''g'') ''a'' 1000 released_db = (Inr j, d', effs)"
    using sample_claim by blast
  from claim_exclusive [OF released_db_ok c, of "sample_auth ''h''" 1001] c show ?thesis by blast
qed

subsection \<open>The lease\<close>

lemma fail_each_keeps:
  assumes "unique_ids d" "\<And>x. x \<in> set js \<Longrightarrow> j_id x = j_id j \<Longrightarrow> reason x = None" "j \<in> set (jobs d)"
    "fail_each reason now js d = (n, d', effs)"
  shows "j \<in> set (jobs d') \<and> unique_ids d'"
  using assms
proof (induction js arbitrary: d n d' effs)
  case Nil
  then show ?case by simp
next
  case (Cons x xs)
  show ?case
  proof (cases "reason x")
    case None
    with Cons.IH [OF Cons.prems(1)] Cons.prems show ?thesis by simp
  next
    case (Some r)
    then have ne: "j_id x \<noteq> j_id j" using Cons.prems(2) [of x] by auto
    obtain res d1 e1 where m: "markPrintFailedAgentGone x system r now d = (res, d1, e1)"
      by (cases "markPrintFailedAgentGone x system r now d")
    have wf: "well_formed (failed_request x system r now)"
      by (cases "j_claimedByAgentId x") (simp_all add: well_formed_def failed_request_def)
    have "j \<in> set (jobs d1) \<and> unique_ids d1"
    proof (cases "target (j_id x) (failed_request x system r now) d")
      case None
      then have "d1 = d"
        using m by (simp add: markPrintFailedAgentGone_def applyTransition_spec [OF Cons.prems(1) wf] split: option.splits)
      with Cons.prems(1,3) show ?thesis by simp
    next
      case (Some x0)
      have "j_id x0 = j_id x" using target_SomeD [OF Some] by simp
      moreover have "d1 = d \<or> (\<exists>to. d1 = commit (j_id x) (failed_request x system r now) to x0 d)"
        using m Some by (simp add: markPrintFailedAgentGone_def applyTransition_spec [OF Cons.prems(1) wf] split: option.splits)
          auto
      moreover have "j \<in> set (jobs (commit (j_id x) (failed_request x system r now) to x0 d))" for to
        using Cons.prems(3) ne by (auto simp: commit_def set_update_where image_iff)
      ultimately show ?thesis
        using Cons.prems(1,3) unique_ids_commit [OF Cons.prems(1)] by metis
    qed
    with Cons.IH [of d1] Cons.prems(2,4) Some m show ?thesis by (auto split: prod.splits)
  qed
qed

lemma fail_eachI:
  "unique_ids d \<Longrightarrow> (\<And>x. x \<in> set js \<Longrightarrow> j_id x = j_id j \<Longrightarrow> reason x = None) \<Longrightarrow> j \<in> set (jobs d)
    \<Longrightarrow> j \<in> set (jobs (fst (snd (fail_each reason now js d))))"
  using fail_each_keeps [of d js j reason now] by (metis prod.collapse)

text \<open>What a healthy print is: held by the running process of a heartbeating agent, within the time limits.\<close>

definition healthy_print :: "job \<Rightarrow> agent_row option \<Rightarrow> millis \<Rightarrow> bool" where
  "healthy_print j agent now = (agentHoldsLease agent now (PRINT_LEASE_TIMEOUT_SECONDS * 1000) \<and> \<not> session_differs j agent
    \<and> (case j_spoolAcceptedAt j of
        None \<Rightarrow> now - j_updatedAt j < PRINT_CLAIM_TIMEOUT_SECONDS * 1000
      | Some t \<Rightarrow> now - t < PRINT_SPOOL_TIMEOUT_SECONDS * 1000))"

lemma healthy_not_lost: "healthy_print j agent now \<Longrightarrow> printLostReason j agent now Sweep = None"
  by (auto simp: healthy_print_def printLostReason_def Let_def split: option.splits)

text \<open>
  The lease sweep never touches a healthy print: a printing job whose agent has sent a heartbeat in
  the last 90 s, whose process is the one that claimed it, and which is within the claim limit (120 s, not
  yet spooled) or the confirmation limit (15 minutes after the spooler accepted it) is, after a sweep over
  any number of prints, exactly as it was; and conversely a job that no live agent holds for 90 s, or that
  is past its limit, has a reason to fail.
\<close>

theorem sweep_spares_healthy:
  assumes "unique_ids d" "j \<in> set (jobs d)" "healthy_print j (agent_of j agents) now"
  shows "j \<in> set (jobs (fst (snd (failOrphanedPrints agents now d))))
    \<and> (\<forall>x. \<not> healthy_print x (agent_of x agents) now \<and> now - j_updatedAt x \<ge> PRINT_LEASE_TIMEOUT_SECONDS * 1000
        \<and> (j_spoolAcceptedAt x \<noteq> None \<longrightarrow> \<not> session_differs x (agent_of x agents))
      \<longrightarrow> printLostReason x (agent_of x agents) now Sweep \<noteq> None)"
proof
  show "j \<in> set (jobs (fst (snd (failOrphanedPrints agents now d))))"
    unfolding failOrphanedPrints_def
  proof (rule fail_eachI [OF assms(1) _ assms(2)])
    fix x assume "x \<in> set (take 200 (filter (orphan_candidate now) (jobs d)))" "j_id x = j_id j"
    then have "x = j"
      using assms(1,2) distinct_key_eq [of j_id "jobs d" x j] by (auto simp: unique_ids_def dest: in_set_takeD)
    then show "printLostReason x (agent_of x agents) now Sweep = None"
      using healthy_not_lost [OF assms(3)] by simp
  qed
  show "\<forall>x. \<not> healthy_print x (agent_of x agents) now \<and> now - j_updatedAt x \<ge> PRINT_LEASE_TIMEOUT_SECONDS * 1000
      \<and> (j_spoolAcceptedAt x \<noteq> None \<longrightarrow> \<not> session_differs x (agent_of x agents))
    \<longrightarrow> printLostReason x (agent_of x agents) now Sweep \<noteq> None"
    by (auto simp: healthy_print_def printLostReason_def Let_def split: option.splits)
qed

definition printing_job :: job where
  "printing_job = (sample_job ''a'' Printing)\<lparr>j_claimedByAgentId := Some ''ag'', j_claimedBySessionId := Some ''x'',
    j_updatedAt := 1000\<rparr>"

lemma printing_job_simps [simp]:
  "j_id printing_job = ''a''" "j_status printing_job = Printing" "j_claimedByAgentId printing_job = Some ''ag''"
  "j_claimedBySessionId printing_job = Some ''x''" "j_updatedAt printing_job = 1000" "j_spoolAcceptedAt printing_job = None"
  "j_shopId printing_job = ''s''"
  by (simp_all add: printing_job_def sample_job_def)

theorem sweep_spares_healthy_witness:
  "printing_job \<in> set (jobs (fst (snd (failOrphanedPrints [sample_agent\<lparr>ag_lastHeartbeatAt := Some 100000\<rparr>] 110000
    \<lparr>jobs = [printing_job], jobEvents = [], outbox = [], paymentEvents = []\<rparr>))))"
proof -
  have u: "unique_ids \<lparr>jobs = [printing_job], jobEvents = [], outbox = [], paymentEvents = []\<rparr>" by (simp add: unique_ids_def)
  have h: "healthy_print printing_job (agent_of printing_job [sample_agent\<lparr>ag_lastHeartbeatAt := Some 100000\<rparr>]) 110000"
    by (simp add: healthy_print_def agent_of_def find_agent_def sample_agent_def agentHoldsLease_def session_differs_def
        PRINT_LEASE_TIMEOUT_SECONDS_def PRINT_CLAIM_TIMEOUT_SECONDS_def)
  show ?thesis
    using sweep_spares_healthy [OF u _ h] by simp
qed

subsection \<open>Late reports\<close>

text \<open>The row a report reads: the job in printing, held by the computer and the process that report.\<close>

definition held_row :: "agent_auth \<Rightarrow> id \<Rightarrow> job list \<Rightarrow> job option" where
  "held_row au k seen = find (\<lambda>j. j_id j = k \<and> j_shopId j = au_shopId au \<and> j_claimedByAgentId j = Some (au_id au)
    \<and> \<not> otherSessionHolds j (au_sessionId au) \<and> j_status j = Printing) seen"

definition printing_row :: "id \<Rightarrow> db \<Rightarrow> job option" where
  "printing_row k d = find (\<lambda>x. j_id x = k \<and> j_status x = Printing) (jobs d)"

definition reported_reason :: "string option \<Rightarrow> string" where
  "reported_reason raw = (case raw of None \<Rightarrow> ''unknown'' | Some r \<Rightarrow> take 200 r)"

definition printer_actor :: "agent_auth \<Rightarrow> actor" where
  "printer_actor au = \<lparr>actorType = A_agent, actorId = Some (au_id au)\<rparr>"

lemma find_narrow:
  assumes "distinct (map key rows)" "\<And>x. q x \<Longrightarrow> p x" "\<And>x. p x \<Longrightarrow> key x = k"
  shows "find q rows = (case find p rows of None \<Rightarrow> None | Some x \<Rightarrow> if q x then Some x else None)"
  using assms
proof (induction rows)
  case (Cons x rows)
  show ?case
  proof (cases "p x")
    case True
    then have "find q rows = None" if "\<not> q x"
      using Cons.prems by (auto simp: find_None_iff rev_image_eqI)
    then show ?thesis using True by simp
  next
    case False
    then have "\<not> q x" using Cons.prems(2) by blast
    then show ?thesis using False Cons by simp
  qed
qed simp

lemma find_checked:
  assumes "distinct (map key rows)" "\<And>x. p x \<Longrightarrow> key x = k"
  shows "(case find p rows of None \<Rightarrow> False | Some x \<Rightarrow> c \<and> q x) \<longleftrightarrow> c \<and> (\<exists>x \<in> set rows. p x \<and> q x)"
  using assms
proof (induction rows)
  case (Cons x rows)
  have "\<not> p y" if "p x" "y \<in> set rows" for y
    using that Cons.prems by (auto simp: rev_image_eqI)
  then show ?case using Cons by auto
qed simp

text \<open>A transition without a guard, from printing, is decided by the row the write meets.\<close>

lemma unguarded_applies:
  assumes "unique_ids d" "well_formed r" "t_guard r = []" "t_from r = Printing" "TRANSITIONS Printing (t_event r) = Some to"
  shows "applyTransition k r d = Inr (case printing_row k d of None \<Rightarrow> (None, d)
    | Some x \<Rightarrow> (Some (rewritten r to x), commit k r to x d))"
  using assms applyTransition_spec [OF assms(1,2), of k] by (simp add: target_def printing_row_def)

lemma failed_applies:
  assumes "unique_ids d"
  shows "applyTransition k (agent_failed_request au reason now) d = Inr (case printing_row k d of None \<Rightarrow> (None, d)
    | Some x \<Rightarrow> (Some (rewritten (agent_failed_request au reason now) Otp_verified x),
        commit k (agent_failed_request au reason now) Otp_verified x d))"
  by (rule unguarded_applies [OF assms]) (simp_all add: well_formed_def agent_failed_request_def)

definition confirmed_status :: "job \<Rightarrow> job_status" where
  "confirmed_status j = (if truthy (js_binding (j_specs j)) then Finishing else Ready_for_pickup)"

lemma confirm_applies:
  assumes "unique_ids d"
  shows "applyTransition k (confirm_request j act m now) d = Inr (case printing_row k d of None \<Rightarrow> (None, d)
    | Some x \<Rightarrow> (Some (rewritten (confirm_request j act m now) (confirmed_status j) x),
        commit k (confirm_request j act m now) (confirmed_status j) x d))"
  by (rule unguarded_applies [OF assms])
    (auto simp: well_formed_def confirm_request_def confirmed_status_def split: option.splits)

lemma failPrint_exact:
  assumes "unique_ids d" "distinct (map j_id seen)"
  shows "held_row au k seen = None \<Longrightarrow> \<exists>e. failPrint au k reason now seen d = (Inl e, d, [])"
    "held_row au k seen = Some j \<Longrightarrow> printing_row k d = None \<Longrightarrow> failPrint au k reason now seen d = (Inl (Conflict ''changed''), d, [])"
    "held_row au k seen = Some j \<Longrightarrow> printing_row k d = Some x
      \<Longrightarrow> fst (snd (failPrint au k reason now seen d)) = commit k (agent_failed_request au (reported_reason reason) now) Otp_verified x d"
proof -
  let ?p = "\<lambda>j. j_id j = k \<and> j_shopId j = au_shopId au \<and> j_claimedByAgentId j = Some (au_id au)"
  have h: "held_row au k seen = (case find ?p seen of None \<Rightarrow> None
      | Some x \<Rightarrow> if \<not> otherSessionHolds x (au_sessionId au) \<and> j_status x = Printing then Some x else None)"
    unfolding held_row_def by (subst find_narrow [OF assms(2), of _ ?p k]) (auto split: option.splits dest: find_SomeD)
  show "held_row au k seen = None \<Longrightarrow> \<exists>e. failPrint au k reason now seen d = (Inl e, d, [])"
    by (auto simp: failPrint_def h split: option.splits if_splits)
  show "failPrint au k reason now seen d = (Inl (Conflict ''changed''), d, [])" if "held_row au k seen = Some j" "printing_row k d = None"
  proof -
    have f: "find ?p seen = Some j" "\<not> otherSessionHolds j (au_sessionId au)" "j_status j = Printing" "j_id j = k"
      using that(1) by (auto simp: h split: option.splits if_splits dest: find_SomeD)
    then show ?thesis using that(2) by (simp add: failPrint_def Let_def failed_applies [OF assms(1)])
  qed
  show "fst (snd (failPrint au k reason now seen d)) = commit k (agent_failed_request au (reported_reason reason) now) Otp_verified x d"
    if "held_row au k seen = Some j" "printing_row k d = Some x"
  proof -
    have f: "find ?p seen = Some j" "\<not> otherSessionHolds j (au_sessionId au)" "j_status j = Printing" "j_id j = k"
      using that(1) by (auto simp: h split: option.splits if_splits dest: find_SomeD)
    then show ?thesis using that(2)
      by (simp add: failPrint_def Let_def failed_applies [OF assms(1)] reported_reason_def split: option.splits)
  qed
qed

lemma completePrint_exact:
  assumes "unique_ids d" "distinct (map j_id seen)"
  shows "held_row au k seen = None \<Longrightarrow> \<exists>r. completePrint sim au k out now seen d = (r, d, []) \<and> (r = Inr Already_confirmed \<or> (\<exists>e. r = Inl e))"
    "held_row au k seen = Some j \<Longrightarrow> fst (snd (completePrint sim au k Spool_accepted now seen d)) = recordSpoolAccepted k now d"
    "held_row au k seen = Some j \<Longrightarrow> fst (snd (completePrint False au k Simulator_complete now seen d)) = d"
    "held_row au k seen = Some j \<Longrightarrow> printing_row k d = None \<Longrightarrow> completePrint True au k Simulator_complete now seen d = (Inl (Conflict ''changed''), d, [])"
    "held_row au k seen = Some j \<Longrightarrow> printing_row k d = Some x \<Longrightarrow> fst (snd (completePrint True au k Simulator_complete now seen d))
      = commit k (confirm_request j (printer_actor au) Simulator now) (confirmed_status j) x d"
proof -
  let ?p = "\<lambda>j. j_id j = k \<and> j_shopId j = au_shopId au"
  have h: "held_row au k seen = (case find ?p seen of None \<Rightarrow> None
      | Some x \<Rightarrow> if j_claimedByAgentId x = Some (au_id au) \<and> \<not> otherSessionHolds x (au_sessionId au) \<and> j_status x = Printing
          then Some x else None)"
    unfolding held_row_def by (subst find_narrow [OF assms(2), of _ ?p k]) (auto split: option.splits dest: find_SomeD)
  show "held_row au k seen = None \<Longrightarrow> \<exists>r. completePrint sim au k out now seen d = (r, d, []) \<and> (r = Inr Already_confirmed \<or> (\<exists>e. r = Inl e))"
    by (auto simp: completePrint_def h split: option.splits if_splits)
  assume "held_row au k seen = Some j"
  then have f: "find ?p seen = Some j" "j_claimedByAgentId j = Some (au_id au)" "\<not> otherSessionHolds j (au_sessionId au)"
      "j_status j = Printing" "j_id j = k"
    by (auto simp: h split: option.splits if_splits dest: find_SomeD)
  then show "fst (snd (completePrint sim au k Spool_accepted now seen d)) = recordSpoolAccepted k now d"
    "fst (snd (completePrint False au k Simulator_complete now seen d)) = d"
    by (simp_all add: completePrint_def)
  show "printing_row k d = None \<Longrightarrow> completePrint True au k Simulator_complete now seen d = (Inl (Conflict ''changed''), d, [])"
    "printing_row k d = Some x \<Longrightarrow> fst (snd (completePrint True au k Simulator_complete now seen d))
      = commit k (confirm_request j (printer_actor au) Simulator now) (confirmed_status j) x d"
    using f by (simp_all add: completePrint_def confirmSuccessfulPrint_def Let_def confirm_applies [OF assms(1)] printer_actor_def)
qed

lemma recordSpoolAccepted_none:
  assumes "printing_row k d = None"
  shows "recordSpoolAccepted k now d = d"
proof -
  have "update_where (\<lambda>j. j_id j = k \<and> j_status j = Printing \<and> j_spoolAcceptedAt j = None) f (jobs d) = jobs d" for f
    using assms by (intro update_where_none) (auto simp: printing_row_def find_None_iff)
  then show ?thesis by (simp add: recordSpoolAccepted_def)
qed

lemma failed_not_printing:
  assumes "unique_ids d" "markPrintFailedAgentGone y act why t d = (Inr (Some u), d1, effs)" "j_id y = k"
  shows "printing_row k d1 = None" "unique_ids d1"
proof -
  have wf: "well_formed (failed_request y act why t)"
    by (cases "j_claimedByAgentId y") (simp_all add: well_formed_def failed_request_def)
  have "applyTransition k (failed_request y act why t) d = Inr (Some u, d1)"
    using assms(2,3) by (auto simp: markPrintFailedAgentGone_def split: sum.splits option.splits prod.splits)
  from assms(1) wf this obtain to x where "TRANSITIONS Printing PRINT_FAILED = Some to" "target k (failed_request y act why t) d = Some x"
      "d1 = commit k (failed_request y act why t) to x d"
    by (rule applyTransition_won) (simp add: failed_request_def)
  moreover from this have "j_id x = k" using target_SomeD by blast
  ultimately show "printing_row k d1 = None" "unique_ids d1"
    using unique_ids_commit [OF assms(1)] by (auto simp: printing_row_def find_None_iff commit_def set_update_where)
qed

lemma claimed_printing_row:
  assumes "unique_ids d" "claimJob au k now d = (Inr j, d', effs)"
  shows "printing_row k d' = Some j" "unique_ids d'"
proof -
  obtain j0 where j0: "j_id j0 = k" "j = rewritten (started_request au now) Printing (locked au now j0)"
    and only: "\<And>x. x \<in> set (jobs d') \<Longrightarrow> j_id x = k \<Longrightarrow> x = j" and m: "j \<in> set (jobs d')" and u: "unique_ids d'"
    by (rule claimJob_won [OF assms]) blast
  have "j_id j = k \<and> j_status j = Printing" using j0 by (simp add: locked_def)
  with m have "printing_row k d' \<noteq> None" by (auto simp: printing_row_def find_None_iff)
  then obtain x where x: "printing_row k d' = Some x" by blast
  then have "x \<in> set (jobs d')" "j_id x = k" by (auto simp: printing_row_def dest: find_SomeD)
  then show "printing_row k d' = Some j" using x only by blast
  show "unique_ids d'" by (rule u)
qed

lemma report_outcome:
  assumes u: "unique_ids s" and seen: "distinct (map j_id seen)"
  shows "(case held_row au k seen of
        None \<Rightarrow> (\<exists>e. failPrint au k reason now seen s = (Inl e, s, []))
          \<and> (\<exists>r. completePrint sim au k out now seen s = (r, s, []) \<and> (r = Inr Already_confirmed \<or> (\<exists>e. r = Inl e)))
      | Some j \<Rightarrow> (case printing_row k s of
          None \<Rightarrow> failPrint au k reason now seen s = (Inl (Conflict ''changed''), s, [])
            \<and> fst (snd (completePrint sim au k out now seen s)) = s
        | Some x \<Rightarrow> fst (snd (failPrint au k reason now seen s)) = commit k (agent_failed_request au (reported_reason reason) now) Otp_verified x s
            \<and> fst (snd (completePrint sim au k out now seen s)) = (case out of
                Spool_accepted \<Rightarrow> recordSpoolAccepted k now s
              | Simulator_complete \<Rightarrow> if sim then commit k (confirm_request j (printer_actor au) Simulator now) (confirmed_status j) x s else s)))"
proof (cases "held_row au k seen")
  case None
  then show ?thesis using failPrint_exact(1) [OF u seen] completePrint_exact(1) [OF u seen] by simp
next
  case (Some j)
  note f = failPrint_exact(2,3) [OF u seen Some]
  note c = completePrint_exact(2-5) [OF u seen Some]
  show ?thesis
    using f c recordSpoolAccepted_none [of k s] Some
    by (cases "printing_row k s"; cases out; cases sim) simp_all
qed

lemma may_download_iff:
  assumes "unique_ids d"
  shows "may_download au k converted d \<longleftrightarrow> converted \<and> list_ex (\<lambda>j. j_id j = k \<and> j_shopId j = au_shopId au
        \<and> j_claimedByAgentId j = Some (au_id au) \<and> \<not> otherSessionHolds j (au_sessionId au)
        \<and> j_status j \<in> {Otp_verified, Printing}) (jobs d)"
proof -
  have d: "distinct (map j_id (jobs d))" using assms(1) by (simp add: unique_ids_def)
  show ?thesis
    unfolding may_download_def by (subst find_checked [OF d, of _ k]) (auto simp: list_ex_iff)
qed

text \<open>
  C9. What a computer's report of a print can change. A report of completion or failure reads the job,
  then writes. When the row it reads is not in printing under this computer and (both process ids known) this
  process, the report is refused, or answered as already confirmed, and changes nothing. When it is, the write
  is decided by the row it meets: if the job has left printing since, nothing changes and a failure is refused,
  in particular whenever the lease sweep or staff failed the print after the read; if the job is in printing,
  the report is carried out on it, and no claim is looked at any more, so a print that another computer has
  claimed after the read is taken from that computer. A document is handed out exactly for a released or
  printing job held by this computer and process.
\<close>

theorem late_reports:
  assumes "unique_ids d" "distinct (map j_id seen)"
  shows "(case held_row au k seen of
        None \<Rightarrow> (\<exists>e. failPrint au k reason now seen d = (Inl e, d, []))
          \<and> (\<exists>r. completePrint sim au k out now seen d = (r, d, []) \<and> (r = Inr Already_confirmed \<or> (\<exists>e. r = Inl e)))
      | Some j \<Rightarrow> (case printing_row k d of
          None \<Rightarrow> failPrint au k reason now seen d = (Inl (Conflict ''changed''), d, [])
            \<and> fst (snd (completePrint sim au k out now seen d)) = d
        | Some x \<Rightarrow> fst (snd (failPrint au k reason now seen d)) = commit k (agent_failed_request au (reported_reason reason) now) Otp_verified x d
            \<and> fst (snd (completePrint sim au k out now seen d)) = (case out of
                Spool_accepted \<Rightarrow> recordSpoolAccepted k now d
              | Simulator_complete \<Rightarrow> if sim then commit k (confirm_request j (printer_actor au) Simulator now) (confirmed_status j) x d else d)))
    \<and> (\<forall>y act why t u d1 effs. j_id y = k \<and> markPrintFailedAgentGone y act why t d = (Inr (Some u), d1, effs)
        \<longrightarrow> (\<exists>e. failPrint au k reason now seen d1 = (Inl e, d1, [])) \<and> fst (snd (completePrint sim au k out now seen d1)) = d1)
    \<and> (\<forall>other t x d1 effs. held_row au k seen \<noteq> None \<and> claimJob other k t d = (Inr x, d1, effs)
        \<longrightarrow> fst (snd (failPrint au k reason now seen d1)) = commit k (agent_failed_request au (reported_reason reason) now) Otp_verified x d1)
    \<and> (may_download au k converted d \<longleftrightarrow> converted \<and> list_ex (\<lambda>j. j_id j = k \<and> j_shopId j = au_shopId au
        \<and> j_claimedByAgentId j = Some (au_id au) \<and> \<not> otherSessionHolds j (au_sessionId au)
        \<and> j_status j \<in> {Otp_verified, Printing}) (jobs d))"
proof -
  have failed: "(\<exists>e. failPrint au k reason now seen d1 = (Inl e, d1, [])) \<and> fst (snd (completePrint sim au k out now seen d1)) = d1"
    if "j_id y = k \<and> markPrintFailedAgentGone y act why t d = (Inr (Some u), d1, effs)" for y act why t u d1 effs
    using report_outcome [OF _ assms(2), where s = d1 and au = au and k = k and reason = reason and now = now and sim = sim and out = out] failed_not_printing [OF assms(1), of y act why t u d1 effs k] that
    by (cases "held_row au k seen") auto
  have taken: "fst (snd (failPrint au k reason now seen d1)) = commit k (agent_failed_request au (reported_reason reason) now) Otp_verified x d1"
    if "held_row au k seen \<noteq> None \<and> claimJob other k t d = (Inr x, d1, effs)" for other t x d1 effs
    using report_outcome [OF _ assms(2), where s = d1 and au = au and k = k and reason = reason and now = now and sim = sim and out = out] claimed_printing_row [OF assms(1), of other k t x d1 effs] that by auto
  show ?thesis
    by (intro conjI allI impI)
      (rule report_outcome [OF assms] failed [THEN conjunct1] failed [THEN conjunct2] taken may_download_iff [OF assms(1)], assumption?)+
qed

definition reading :: "job list \<Rightarrow> db" where
  "reading js = \<lparr>jobs = js, jobEvents = [], outbox = [], paymentEvents = []\<rparr>"

lemma reading_one [simp]: "unique_ids (reading [j])" "jobs (reading [j]) = [j]"
  by (simp_all add: reading_def unique_ids_def)

theorem late_reports_witness:
  "(\<exists>e. failPrint (sample_auth ''other'') ''a'' None 5000 [printing_job] (reading [printing_job]) = (Inl e, reading [printing_job], []))
    \<and> failPrint (sample_auth ''ag'') ''a'' None 5000 [printing_job] (reading [printing_job\<lparr>j_status := Otp_verified\<rparr>])
      = (Inl (Conflict ''changed''), reading [printing_job\<lparr>j_status := Otp_verified\<rparr>], [])
    \<and> fst (snd (completePrint True (sample_auth ''ag'') ''a'' Simulator_complete 5000 [printing_job] (reading [printing_job])))
      = commit ''a'' (confirm_request printing_job (printer_actor (sample_auth ''ag'')) Simulator 5000) (confirmed_status printing_job)
          printing_job (reading [printing_job])
    \<and> fst (snd (failPrint (sample_auth ''ag'') ''a'' None 5000 [printing_job] (reading [printing_job\<lparr>j_claimedByAgentId := Some ''other''\<rparr>])))
      = commit ''a'' (agent_failed_request (sample_auth ''ag'') ''unknown'' 5000) Otp_verified (printing_job\<lparr>j_claimedByAgentId := Some ''other''\<rparr>)
          (reading [printing_job\<lparr>j_claimedByAgentId := Some ''other''\<rparr>])
    \<and> may_download (sample_auth ''ag'') ''a'' True (reading [printing_job])
    \<and> \<not> may_download (sample_auth ''other'') ''a'' True (reading [printing_job])"
proof -
  have d: "distinct (map j_id [printing_job])" by simp
  have held: "held_row (sample_auth ''ag'') ''a'' [printing_job] = Some printing_job"
      "held_row (sample_auth ''other'') ''a'' [printing_job] = None"
    by (simp_all add: held_row_def sample_auth_def otherSessionHolds_def)
  have row: "printing_row ''a'' (reading [printing_job]) = Some printing_job"
      "printing_row ''a'' (reading [printing_job\<lparr>j_status := Otp_verified\<rparr>]) = None"
      "printing_row ''a'' (reading [printing_job\<lparr>j_claimedByAgentId := Some ''other''\<rparr>]) = Some (printing_job\<lparr>j_claimedByAgentId := Some ''other''\<rparr>)"
    by (simp_all add: printing_row_def)
  have down: "list_ex (\<lambda>j. j_id j = ''a'' \<and> j_shopId j = au_shopId (sample_auth i) \<and> j_claimedByAgentId j = Some (au_id (sample_auth i))
      \<and> \<not> otherSessionHolds j (au_sessionId (sample_auth i)) \<and> j_status j \<in> {Otp_verified, Printing}) (jobs (reading [printing_job]))
      \<longleftrightarrow> i = ''ag''" for i
    by (auto simp: sample_auth_def otherSessionHolds_def)
  note all = late_reports [OF _ d, where k = "''a''" and reason = None and now = 5000 and sim = True and out = Simulator_complete and converted = True]
  show ?thesis
    using all [OF reading_one(1) [of printing_job], of "sample_auth ''other''"] all [OF reading_one(1) [of printing_job], of "sample_auth ''ag''"]
      all [OF reading_one(1) [of "printing_job\<lparr>j_status := Otp_verified\<rparr>"], of "sample_auth ''ag''"]
      all [OF reading_one(1) [of "printing_job\<lparr>j_claimedByAgentId := Some ''other''\<rparr>"], of "sample_auth ''ag''"]
    unfolding held row down by (elim conjE) (simp add: reported_reason_def)
qed

subsection \<open>The spool acknowledgement of an earlier attempt\<close>

text \<open>The acknowledgements of a table of jobs: no operation of a retry and a new claim changes them.\<close>

definition acks :: "db \<Rightarrow> (id \<times> millis option) list" where
  "acks d = map (\<lambda>j. (j_id j, j_spoolAcceptedAt j)) (jobs d)"

lemma acks_unique: "acks d' = acks d \<Longrightarrow> unique_ids d \<Longrightarrow> unique_ids d'"
  by (metis (no_types, lifting) acks_def unique_ids_def fst_conv list.map_comp list.map_cong comp_apply)

lemma acks_row:
  assumes "acks d' = acks d" "unique_ids d" "x \<in> set (jobs d')" "j \<in> set (jobs d)" "j_id x = j_id j"
  shows "j_spoolAcceptedAt x = j_spoolAcceptedAt j"
proof -
  have "(j_id x, j_spoolAcceptedAt x) \<in> set (acks d')" using assms(3) by (simp add: acks_def)
  then obtain y where "y \<in> set (jobs d)" "j_id x = j_id y" "j_spoolAcceptedAt x = j_spoolAcceptedAt y"
    unfolding assms(1) by (auto simp: acks_def)
  then show ?thesis using assms(2,4,5) distinct_key_eq [of j_id "jobs d" y j] by (simp add: unique_ids_def)
qed

lemma acks_update: "(\<And>x. j_id (f x) = j_id x \<and> j_spoolAcceptedAt (f x) = j_spoolAcceptedAt x)
    \<Longrightarrow> acks (d\<lparr>jobs := update_where p f (jobs d)\<rparr>) = acks d"
  unfolding acks_def by (simp add: map_update_where)

lemma failed_row [row_simps]:
  "j_claimedByAgentId (rewritten (failed_request y act why t) to x) = None"
  "j_spoolAcceptedAt (rewritten (failed_request y act why t) to x) = j_spoolAcceptedAt x"
  "j_printError (rewritten (failed_request y act why t) to x) = Some why"
  by (simp_all add: rewritten_def failed_request_def stamp_def)

lemma failed_request_ok [simp]:
  "well_formed (failed_request y act why t)" "t_from (failed_request y act why t) = Printing"
  "t_event (failed_request y act why t) = PRINT_FAILED"
  by (cases "j_claimedByAgentId y") (simp_all add: well_formed_def failed_request_def)

lemma acks_commit:
  assumes "unique_ids d" "target k r d = Some x" "j_spoolAcceptedAt (rewritten r to x) = j_spoolAcceptedAt x"
  shows "acks (commit k r to x d) = acks d"
proof -
  have x: "x \<in> set (jobs d)" "j_id x = k" using target_SomeD [OF assms(2)] by simp_all
  have "y = x" if "y \<in> set (jobs d)" "j_id y = k" for y
    using that x assms(1) distinct_key_eq [of j_id "jobs d" y x] by (simp add: unique_ids_def)
  then show ?thesis
    using assms(3) x(2) by (auto simp: acks_def commit_def update_where_def)
qed

lemma acks_markPrintFailed:
  assumes "unique_ids d" "markPrintFailedAgentGone y act why t d = (res, d', effs)"
  shows "acks d' = acks d"
  using assms(2) acks_commit [OF assms(1)]
  by (auto simp: markPrintFailedAgentGone_def applyTransition_spec [OF assms(1)] failed_row split: option.splits)

lemma acks_retry_write: "acks (retry_write k p now d) = acks d"
  unfolding retry_write_def by (rule acks_update) simp

lemma acks_dispatch: "acks (fst (dispatchJob now j pre agents d)) = acks d"
  unfolding dispatchJob_def Let_def by (auto intro!: acks_update)

lemma acks_retryPrint:
  assumes "unique_ids d" "retryPrint k staffId requested now v d = (res, d', effs)"
  shows "acks d' = acks d"
proof -
  have rel: "acks d1 = acks d" if "releaseOrphanedPrint j staffId (v_agents v) now d = (res, d1, effs)" for j res d1 effs
    using that acks_markPrintFailed [OF assms(1)]
    by (auto simp: releaseOrphanedPrint_def split: if_splits sum.splits option.splits prod.splits)
  have disp: "acks d3 = acks d1" if "dispatchJob now u None (v_agents v) (retry_write i p now d1) = (d3, effs)" for u i p d1 d3 effs
    using that acks_dispatch [of now u None "v_agents v" "retry_write i p now d1"] acks_retry_write [of i p now d1] by simp
  show ?thesis
    using assms(2) by (auto simp: retryPrint_def Let_def split: option.splits sum.splits prod.splits if_splits dest!: rel disp)
qed

lemma claim_keeps_ack:
  assumes "unique_ids d" "claimJob au k now d = (Inr j, d', effs)" "j0 \<in> set (jobs d)" "j_id j0 = k"
  shows "j_spoolAcceptedAt j = j_spoolAcceptedAt j0" "j_id j = k" "j_updatedAt j = now" "j_status j = Printing"
    "j_claimedByAgentId j = Some (au_id au)"
proof -
  obtain x where x: "x \<in> set (jobs d)" "j_id x = k" and j: "j = rewritten (started_request au now) Printing (locked au now x)"
    by (rule claimJob_won [OF assms(1,2)]) blast
  have "x = j0" using distinct_key_eq [of j_id "jobs d" x j0] assms(1,3,4) x by (simp add: unique_ids_def)
  with x j show "j_spoolAcceptedAt j = j_spoolAcceptedAt j0" "j_id j = k" "j_updatedAt j = now" "j_status j = Printing"
    "j_claimedByAgentId j = Some (au_id au)"
    by (simp_all add: row_simps locked_def)
qed

text \<open>A candidate of the sweep that has a reason is failed by it, whatever else is on the list.\<close>

lemma fail_each_store: "fst (snd (fail_each reason now (j # js) d)) = fst (snd (fail_each reason now js
    (case reason j of None \<Rightarrow> d | Some r \<Rightarrow> fst (snd (markPrintFailedAgentGone j system r now d)))))"
  by (simp split: option.split prod.split)

lemma fail_each_append: "fst (snd (fail_each reason now (xs @ ys) d)) = fst (snd (fail_each reason now ys (fst (snd (fail_each reason now xs d)))))"
  by (induction xs arbitrary: d) (simp, simp only: append_Cons fail_each_store)

lemma fail_each_fails:
  assumes "unique_ids d" "distinct (map j_id js)" "j \<in> set js" "j \<in> set (jobs d)" "j_status j = Printing"
    "reason j = Some why" "why \<noteq> AGENT_RESTARTED"
  shows "rewritten (failed_request j system why now) Otp_verified j \<in> set (jobs (fst (snd (fail_each reason now js d))))
    \<and> unique_ids (fst (snd (fail_each reason now js d)))"
proof -
  obtain xs ys where js: "js = xs @ j # ys" using assms(3) by (auto dest: split_list)
  have other: "j_id x \<noteq> j_id j" if "x \<in> set xs \<or> x \<in> set ys" for x
    using assms(2) that by (auto simp: js rev_image_eqI)
  obtain n1 d1 e1 where r1: "fail_each reason now xs d = (n1, d1, e1)" by (cases "fail_each reason now xs d")
  have d1: "j \<in> set (jobs d1)" "unique_ids d1"
    using fail_each_keeps [OF assms(1) _ assms(4) r1] other by blast+
  let ?u = "rewritten (failed_request j system why now) Otp_verified j"
  have "target (j_id j) (failed_request j system why now) d1 = Some j"
  proof -
    have only: "x = j" if "x \<in> set (jobs d1)" "j_id x = j_id j" for x
      using that d1 distinct_key_eq [of j_id "jobs d1" x j] by (simp add: unique_ids_def)
    have g: "guard_holds (t_guard (failed_request j system why now)) j"
      using assms(7) by (simp add: failed_request_def split: option.split)
    then have "target (j_id j) (failed_request j system why now) d1 \<noteq> None"
      using d1(1) assms(5) by (auto simp: target_def find_None_iff)
    then show ?thesis using only target_SomeD by blast
  qed
  then have m: "fst (snd (markPrintFailedAgentGone j system why now d1)) = commit (j_id j) (failed_request j system why now) Otp_verified j d1"
    by (simp add: markPrintFailedAgentGone_def applyTransition_spec [OF d1(2)])
  let ?d2 = "commit (j_id j) (failed_request j system why now) Otp_verified j d1"
  have d2: "?u \<in> set (jobs ?d2)" "unique_ids ?d2"
    using d1(1) unique_ids_commit [OF d1(2) refl] by (auto simp only:) (auto simp: commit_def set_update_where)
  obtain n3 d3 e3 where r3: "fail_each reason now ys ?d2 = (n3, d3, e3)" by (cases "fail_each reason now ys ?d2")
  have "?u \<in> set (jobs d3) \<and> unique_ids d3"
    by (rule fail_each_keeps [OF d2(2) _ d2(1) r3]) (use other in auto)
  moreover have "fst (snd (fail_each reason now js d)) = d3"
    unfolding js fail_each_append fail_each_store by (simp add: r1 r3 m assms(6))
  ultimately show ?thesis by simp
qed

lemma acknowledged_stays:
  assumes "\<And>x. x \<in> set (jobs d) \<Longrightarrow> j_id x = k \<Longrightarrow> j_spoolAcceptedAt x \<noteq> None"
  shows "recordSpoolAccepted k later d = d"
proof -
  have "update_where (\<lambda>j. j_id j = k \<and> j_status j = Printing \<and> j_spoolAcceptedAt j = None) f (jobs d) = jobs d" for f
    using assms by (intro update_where_none) auto
  then show ?thesis by (simp add: recordSpoolAccepted_def)
qed

text \<open>
  C10. The acknowledgement of an earlier attempt condemns the next one. \<open>spoolAcceptedAt\<close> survives the
  failed print, the retry (\<open>retryPrint\<close>) and the new claim (\<open>claimJob\<close>), and a new acknowledgement
  does not replace it. So when a job whose row carries an acknowledgement of time t0 is retried and claimed
  again, a sweep (of at most 200 candidates) that runs 15 minutes or more after t0 and more than 90 s after the
  new claim fails it with a spool timeout and leaves it to a staff decision, even though the computer that
  prints it is sending heartbeats, and whenever the spooler acknowledged the new attempt: judged by that
  acknowledgement, less than 15 minutes old, the same print would be spared.
\<close>

theorem stale_spool_acknowledgement:
  assumes "unique_ids d" "j0 \<in> set (jobs d)" "j_id j0 = k" "j_spoolAcceptedAt j0 = Some t0"
    "retryPrint k staffId requested now0 v d = (Inr r, d1, effs1)"
    "claimJob au k now d1 = (Inr j, d2, effs2)"
    "failOrphanedPrints agents t (recordSpoolAccepted k later d2) = (n, d3, effs3)"
    "agentHoldsLease (agent_of j agents) t (PRINT_LEASE_TIMEOUT_SECONDS * 1000)"
    "now + PRINT_LEASE_TIMEOUT_SECONDS * 1000 < t" "t0 + PRINT_SPOOL_TIMEOUT_SECONDS * 1000 \<le> t"
    "length (filter (orphan_candidate t) (jobs d2)) \<le> 200"
  shows "recordSpoolAccepted k later d2 = d2
    \<and> (\<exists>u \<in> set (jobs d3). j_id u = k \<and> j_status u = Otp_verified \<and> j_claimedByAgentId u = None
        \<and> j_printError u = Some SPOOL_TIMEOUT \<and> j_spoolAcceptedAt u = Some t0)
    \<and> claimJob au' k t' d3 = (Inl (Conflict ''Job already claimed or not printable''), d3, [])
    \<and> (t < later + PRINT_SPOOL_TIMEOUT_SECONDS * 1000
      \<longrightarrow> printLostReason (j\<lparr>j_spoolAcceptedAt := Some later\<rparr>) (agent_of j agents) t Sweep = None)"
proof -
  have a1: "acks d1 = acks d" by (rule acks_retryPrint [OF assms(1,5)])
  have u1: "unique_ids d1" by (rule acks_unique [OF a1 assms(1)])
  obtain x where x: "x \<in> set (jobs d1)" "j_id x = k"
    and only: "\<And>y. y \<in> set (jobs d2) \<Longrightarrow> j_id y = k \<Longrightarrow> y = j" and m: "j \<in> set (jobs d2)" and u2: "unique_ids d2"
    by (rule claimJob_won [OF u1 assms(6)]) blast
  note c = claim_keeps_ack [OF u1 assms(6) x]
  have ack: "j_spoolAcceptedAt j = Some t0" using acks_row [OF a1 assms(1) x(1) assms(2)] assms(3,4) x(2) c(1) by simp
  have same: "recordSpoolAccepted k later d2 = d2" by (rule acknowledged_stays) (use only ack in auto)
  let ?js = "filter (orphan_candidate t) (jobs d2)" and ?reason = "\<lambda>j. printLostReason j (agent_of j agents) t Sweep"
  have why: "?reason j = Some SPOOL_TIMEOUT"
    using assms(8,10) by (simp add: printLostReason_def Let_def ack)
  have cand: "j \<in> set ?js"
    using m c(3,4) assms(9) by (simp add: orphan_candidate_def PRINT_LEASE_TIMEOUT_SECONDS_def PRINT_CLAIM_TIMEOUT_SECONDS_def)
  have dist: "distinct (map j_id ?js)" using u2 by (simp add: unique_ids_def distinct_map_filter)
  have d3: "d3 = fst (snd (fail_each ?reason t ?js d2))"
    using assms(7,11) by (simp add: same failOrphanedPrints_def)
  let ?u = "rewritten (failed_request j system SPOOL_TIMEOUT t) Otp_verified j"
  have u3: "?u \<in> set (jobs d3)" "unique_ids d3"
    using fail_each_fails [where reason = ?reason, OF u2 dist cand m c(4) why] by (simp_all add: d3 SPOOL_TIMEOUT_def AGENT_RESTARTED_def)
  have held: "\<not> NOT_STAFF_HELD ?u"
    by (simp add: NOT_STAFF_HELD_def row_simps STAFF_DECISION_PRINT_ERRORS_def)
  have "claimJob au' k t' d3 = (Inl (Conflict ''Job already claimed or not printable''), d3, [])"
  proof (rule claim_refused)
    fix y assume "y \<in> set (jobs d3)" "j_id y = k"
    then have "y = ?u" using u3 c(2) distinct_key_eq [of j_id "jobs d3" y ?u] by (simp add: unique_ids_def)
    then show "\<not> printable_by au' y" using held by (simp add: printable_by_def)
  qed
  moreover have "\<exists>u \<in> set (jobs d3). j_id u = k \<and> j_status u = Otp_verified \<and> j_claimedByAgentId u = None
        \<and> j_printError u = Some SPOOL_TIMEOUT \<and> j_spoolAcceptedAt u = Some t0"
    by (rule bexI [OF _ u3(1)]) (simp add: row_simps c(2) ack)
  moreover have "printLostReason (j\<lparr>j_spoolAcceptedAt := Some later\<rparr>) (agent_of j agents) t Sweep = None"
    if "t < later + PRINT_SPOOL_TIMEOUT_SECONDS * 1000"
    using that assms(8) by (simp add: printLostReason_def Let_def)
  ultimately show ?thesis using same by blast
qed

definition timed_out_job :: job where
  "timed_out_job = (sample_job ''a'' Otp_verified)\<lparr>j_spoolAcceptedAt := Some 1000, j_printError := Some SPOOL_TIMEOUT\<rparr>"

definition retry_view :: shop_view where
  "retry_view = \<lparr>v_shop = sample_shop, v_printers = [sample_printer ''p''], v_agents = [sample_agent], v_jobs = [timed_out_job]\<rparr>"

definition after_retry :: db where
  "after_retry = fst (snd (retryPrint ''a'' ''st'' None 1000000 retry_view (reading [timed_out_job])))"

definition after_claim :: db where
  "after_claim = fst (snd (claimJob (sample_auth ''ag'') ''a'' 1001000 after_retry))"

definition accepted :: "'a result \<Rightarrow> bool" where
  "accepted r = (case r of Inr _ \<Rightarrow> True | Inl _ \<Rightarrow> False)"

lemma acceptedE: "accepted (fst y) \<Longrightarrow> \<exists>r. y = (Inr r, fst (snd y), snd (snd y))"
  by (cases "fst y") (simp_all add: accepted_def prod_eq_iff)

lemma retry_accepted: "accepted (fst (retryPrint ''a'' ''st'' None 1000000 retry_view (reading [timed_out_job])))"
  by code_simp

lemma claim_accepted: "accepted (fst (claimJob (sample_auth ''ag'') ''a'' 1001000 after_retry))"
  by code_simp

definition alive_agent :: agent_row where
  "alive_agent = sample_agent\<lparr>ag_lastHeartbeatAt := Some 1100000\<rparr>"

theorem stale_spool_acknowledgement_witness:
  "(\<exists>u \<in> set (jobs (fst (snd (failOrphanedPrints [alive_agent] 1100000 (recordSpoolAccepted ''a'' 1050000 after_claim))))).
      j_id u = ''a'' \<and> j_status u = Otp_verified \<and> j_claimedByAgentId u = None
      \<and> j_printError u = Some SPOOL_TIMEOUT \<and> j_spoolAcceptedAt u = Some 1000)
    \<and> recordSpoolAccepted ''a'' 1050000 after_claim = after_claim"
proof -
  let ?d = "reading [timed_out_job]"
  obtain r e1 where r: "retryPrint ''a'' ''st'' None 1000000 retry_view ?d = (Inr r, after_retry, e1)"
    using acceptedE [OF retry_accepted] unfolding after_retry_def by blast
  obtain j e2 where c: "claimJob (sample_auth ''ag'') ''a'' 1001000 after_retry = (Inr j, after_claim, e2)"
    using acceptedE [OF claim_accepted] unfolding after_claim_def by blast
  obtain n d3 e3 where s: "failOrphanedPrints [alive_agent] 1100000 (recordSpoolAccepted ''a'' 1050000 after_claim) = (n, d3, e3)"
    by (cases "failOrphanedPrints [alive_agent] 1100000 (recordSpoolAccepted ''a'' 1050000 after_claim)")
  have job: "timed_out_job \<in> set (jobs ?d)" "j_id timed_out_job = ''a''" "j_spoolAcceptedAt timed_out_job = Some 1000"
    by (simp_all add: timed_out_job_def sample_job_def)
  have u: "unique_ids after_retry" by (rule acks_unique [OF acks_retryPrint [OF _ r]]) simp_all
  obtain x where x: "x \<in> set (jobs after_retry)" "j_id x = ''a''" by (rule claimJob_won [OF u c]) blast
  have "agentHoldsLease (agent_of j [alive_agent]) 1100000 (PRINT_LEASE_TIMEOUT_SECONDS * 1000)"
    using claim_keeps_ack(5) [OF u c x]
    by (simp add: agent_of_def find_agent_def alive_agent_def sample_agent_def sample_auth_def agentHoldsLease_def PRINT_LEASE_TIMEOUT_SECONDS_def)
  moreover have "(1001000 :: int) + PRINT_LEASE_TIMEOUT_SECONDS * 1000 < 1100000" "(1000 :: int) + PRINT_SPOOL_TIMEOUT_SECONDS * 1000 \<le> 1100000"
    by (simp_all add: PRINT_LEASE_TIMEOUT_SECONDS_def PRINT_SPOOL_TIMEOUT_SECONDS_def)
  moreover have "length (filter (orphan_candidate 1100000) (jobs after_claim)) \<le> 200" by code_simp
  ultimately show ?thesis
    unfolding s fst_conv snd_conv using stale_spool_acknowledgement [OF reading_one(1) job r c s] by blast
qed

end
