(* ===== verification/Transition_Audit.thy ===== *)
theory Transition_Audit
  imports Transitions
begin

text \<open>
  What follows from the contract of \<open>applyTransition\<close>: of competing transitions of one job the first
  that can be carried out wins and the others lose (the claim-once interface, interpreted on the
  transitions), and the audit rows of a job are a path of the transition table that ends in the status of its row.
\<close>

subsection \<open>Competing transitions\<close>

definition try_transition :: "id \<Rightarrow> job_status \<Rightarrow> transition_request \<Rightarrow> db \<Rightarrow> db option" where
  "try_transition k from r d = (case applyTransition k (r\<lparr>t_from := from\<rparr>) d of
      Inl _ \<Rightarrow> None
    | Inr (None, _) \<Rightarrow> None
    | Inr (Some _, d') \<Rightarrow> Some d')"

definition stands_at :: "id \<Rightarrow> job_status \<Rightarrow> db \<Rightarrow> bool" where
  "stands_at k st d = (\<exists>j \<in> set (jobs d). j_id j = k \<and> j_status j = st)"

lemma well_formed_from [simp]: "well_formed (r\<lparr>t_from := from\<rparr>) = well_formed r"
  by (simp add: well_formed_def)

lemma try_transitionE:
  assumes "try_transition k from r d = Some d'" "unique_ids d" "well_formed r"
  obtains to j where "TRANSITIONS from (t_event r) = Some to" "j \<in> set (jobs d)" "j_id j = k"
    "j_status j = from" "d' = commit k (r\<lparr>t_from := from\<rparr>) to j d"
proof -
  obtain j' where won: "applyTransition k (r\<lparr>t_from := from\<rparr>) d = Inr (Some j', d')"
    using assms(1) by (auto simp: try_transition_def split: sum.splits prod.splits option.splits)
  have wf: "well_formed (r\<lparr>t_from := from\<rparr>)" using assms(3) by simp
  show thesis
    by (rule applyTransition_won [OF assms(2) wf won]) (auto intro!: that dest: target_SomeD)
qed

lemma not_stands_after_commit:
  assumes "j_id j = k" "to \<noteq> st"
  shows "\<not> stands_at k st (commit k r to j d)"
  using assms by (auto simp: stands_at_def commit_def set_update_where)

interpretation job_transition: claim_once "try_transition k st" "stands_at k st" well_formed unique_ids for k st
proof
  fix c s s'
  assume c: "well_formed c" and s: "unique_ids s" and w: "try_transition k st c s = Some s'"
  show "stands_at k st s"
    using try_transitionE [OF w s c] by (auto simp: stands_at_def)
  show "\<not> stands_at k st s'"
    using try_transitionE [OF w s c] not_stands_after_commit no_self_loop by metis
  show "unique_ids s'"
    using try_transitionE [OF w s c] unique_ids_commit [OF s] by metis
qed

subsection \<open>The audit trail\<close>

definition all_events :: "job_event list" where
  "all_events = [PAYMENT_CONFIRMED, CASH_SELECTED, ARRIVED, QUEUE_SKIPPED, COUNTER_RELEASE, FRONT_REACHED,
    OTP_VERIFIED, PRINT_STARTED, PRINT_COMPLETED, FINISHING_REQUIRED, FINISHING_COMPLETED, PRINT_FAILED,
    CASH_RETURNED, COUNTER_PAYMENT_RETURNED, HANDED_OVER, CANCEL]"

lemma all_events_complete: "ev \<in> set all_events"
  by (cases ev) (simp_all add: all_events_def)

definition edge :: "job_status \<Rightarrow> job_status \<Rightarrow> bool" where
  "edge s t = list_ex (\<lambda>ev. TRANSITIONS s ev = Some t) all_events"

lemma edge_iff: "edge s t \<longleftrightarrow> (\<exists>ev. TRANSITIONS s ev = Some t)"
  using all_events_complete by (auto simp: edge_def list_ex_iff)

definition trail :: "id \<Rightarrow> db \<Rightarrow> job_event_row list" where
  "trail k d = filter (\<lambda>e. e_jobId e = k) (jobEvents d)"

fun chain :: "job_status \<Rightarrow> job_event_row list \<Rightarrow> job_status \<Rightarrow> bool" where
  "chain s [] t = (s = t)"
| "chain s (e # es) t = (e_fromStatus e = s \<and> edge s (e_toStatus e) \<and> chain (e_toStatus e) es t)"

lemma chain_snoc:
  "chain s es t \<Longrightarrow> e_fromStatus e = t \<Longrightarrow> edge t (e_toStatus e) \<Longrightarrow> chain s (es @ [e]) (e_toStatus e)"
  by (induction s es t rule: chain.induct) auto

lemma chain_path: "chain s es t \<Longrightarrow> \<exists>evs. length evs = length es \<and> sm_path s evs t"
proof (induction s es t rule: chain.induct)
  case (1 s t)
  then show ?case by (auto intro: sm_path_nil)
next
  case (2 s e es t)
  then obtain ev evs where "TRANSITIONS s ev = Some (e_toStatus e)" "length evs = length es"
    "sm_path (e_toStatus e) evs t"
    by (auto simp: edge_iff)
  then show ?case by (intro exI [of _ "ev # evs"]) (auto intro: sm_path_cons)
qed

definition audited :: "db \<Rightarrow> bool" where
  "audited d = (unique_ids d \<and> (\<forall>j \<in> set (jobs d). chain Pending_payment (trail (j_id j) d) (j_status j))
    \<and> length (outbox d) = length (jobEvents d))"

lemma trail_commit:
  "trail i (commit k r to j d) = trail i d @ (if i = k then [mk_event k (t_from r) to (audit_label r) (t_actor r) (t_now r)] else [])"
  by (simp add: trail_def commit_def mk_event_def)

lemma audited_commit:
  assumes "audited d" "j \<in> set (jobs d)" "j_id j = k" "j_status j = t_from r"
    "TRANSITIONS (t_from r) (t_event r) = Some to"
  shows "audited (commit k r to j d)"
proof -
  let ?e = "mk_event k (t_from r) to (audit_label r) (t_actor r) (t_now r)"
  have e: "edge (t_from r) to" using assms(5) by (auto simp: edge_iff)
  have "chain Pending_payment (trail (j_id x) (commit k r to j d)) (j_status x)"
    if x: "x \<in> set (jobs (commit k r to j d))" for x
  proof (cases "j_id x = k")
    case True
    with x have "x = rewritten r to j"
      using assms(3) by (auto simp: commit_def set_update_where)
    moreover have "chain Pending_payment (trail k d @ [?e]) (e_toStatus ?e)"
      using assms e by (intro chain_snoc) (auto simp: audited_def mk_event_def)
    ultimately show ?thesis using assms(3) by (simp add: trail_commit mk_event_def)
  next
    case False
    with x have "x \<in> set (jobs d)"
      using assms(3) by (auto simp: commit_def set_update_where)
    with assms(1) False show ?thesis by (simp add: trail_commit audited_def)
  qed
  moreover have "unique_ids (commit k r to j d)"
    using assms(1,3) by (simp add: audited_def unique_ids_commit)
  ultimately show ?thesis using assms(1) by (simp add: audited_def commit_def)
qed

lemma audited_applyTransition:
  assumes "audited d" "well_formed r" "applyTransition k r d = Inr (res, d')"
  shows "audited d'"
proof -
  have u: "unique_ids d" using assms(1) by (simp add: audited_def)
  show ?thesis
  proof (cases res)
    case None
    with applyTransition_lost [OF u assms(2)] assms(1,3) show ?thesis by metis
  next
    case (Some j')
    with assms(3) have "applyTransition k r d = Inr (Some j', d')" by simp
    then show ?thesis
    proof (rule applyTransition_won [OF u assms(2)])
      fix to j
      assume "TRANSITIONS (t_from r) (t_event r) = Some to" "target k r d = Some j" "d' = commit k r to j d"
      with target_SomeD [of k r d j] show "audited d'"
        by (auto intro: audited_commit [OF assms(1)])
    qed
  qed
qed

text \<open>Any number of transitions, of any jobs, in any order; a transition that fails leaves the store.\<close>

fun apply_all :: "(id \<times> transition_request) list \<Rightarrow> db \<Rightarrow> db" where
  "apply_all [] d = d"
| "apply_all ((k, r) # rest) d = apply_all rest (case applyTransition k r d of Inl _ \<Rightarrow> d | Inr (_, d') \<Rightarrow> d')"

lemma audited_apply_all:
  "audited d \<Longrightarrow> (\<And>k r. (k, r) \<in> set rs \<Longrightarrow> well_formed r) \<Longrightarrow> audited (apply_all rs d)"
proof (induction rs d rule: apply_all.induct)
  case (2 k r rest d)
  have "audited (case applyTransition k r d of Inl _ \<Rightarrow> d | Inr (_, d') \<Rightarrow> d')"
    using audited_applyTransition [of d r k] 2 by (auto split: sum.splits prod.splits)
  with 2 show ?case by (simp only: apply_all.simps) (metis list.set_intros(2))
qed simp

subsection \<open>Properties\<close>

text \<open>
  C2. The single-statement path and the transaction path of \<open>applyTransition\<close> agree: whenever the
  columns and the guard of a request fit the statement and the request is one Prisma accepts, executing
  the SQL returns the same row, writes the same job row and appends the same audit and outbox rows as
  the transaction; so every call meets its contract, whichever path it takes.
\<close>

theorem fast_path_equals_transaction:
  assumes "unique_ids d" "well_formed r" "TRANSITIONS (t_from r) (t_event r) = Some to"
  shows "(\<forall>sets conds. fastPathSql (t_extra r) (t_guard r) = Some (sets, conds) \<longrightarrow>
      run_fast k (t_from r) to (audit_label r) (t_actor r) sets conds (t_now r) d
        = run_tx k (t_from r) to (audit_label r) (t_actor r) (t_extra r) (t_guard r) (t_now r) d)
    \<and> applyTransition k r d = Inr (case target k r d of
        None \<Rightarrow> (None, d)
      | Some j \<Rightarrow> (Some (rewritten r to j), commit k r to j d))"
  using assms run_fast_eq_run_tx applyTransition_spec [OF assms(1,2)]
  by (auto simp: unique_ids_def well_formed_def)

definition sample_transition :: transition_request where
  "sample_transition = \<lparr>t_from = Queued, t_event = QUEUE_SKIPPED, t_actor = \<lparr>actorType = A_system, actorId = None\<rparr>,
    t_extra = [(C_queuedAt, VNull), (C_absentAt, VTs 70), (C_checkInCount, VInc 1)], t_audit = Some ''ABSENT_TIMEOUT'',
    t_guard = [(C_revealDeadlineAt, G_ops [Op_lte 70])], t_now = 70\<rparr>"

definition sample_db :: db where
  "sample_db = \<lparr>jobs = [(sample_job ''a'' Queued)\<lparr>j_queuedAt := Some 1, j_revealDeadlineAt := Some 60\<rparr>,
    sample_job ''b'' Otp_verified], jobEvents = [], outbox = [], paymentEvents = []\<rparr>"

lemma sample_transition_ok: "unique_ids sample_db" "well_formed sample_transition"
  by (simp_all add: unique_ids_def sample_db_def sample_job_def well_formed_def sample_transition_def)

theorem fast_path_equals_transaction_witness:
  "applyTransition ''a'' sample_transition sample_db = Inr (case target ''a'' sample_transition sample_db of
        None \<Rightarrow> (None, sample_db)
      | Some j \<Rightarrow> (Some (rewritten sample_transition Awaiting_arrival j),
          commit ''a'' sample_transition Awaiting_arrival j sample_db))
    \<and> target ''a'' sample_transition sample_db \<noteq> None
    \<and> fastPathSql (t_extra sample_transition) (t_guard sample_transition) \<noteq> None"
proof -
  have to: "TRANSITIONS (t_from sample_transition) (t_event sample_transition) = Some Awaiting_arrival"
    by (simp add: sample_transition_def)
  have f: "fastPathSql (t_extra sample_transition) (t_guard sample_transition) \<noteq> None"
    by (simp add: sample_transition_def fastPathSql_def setClause_def column_clauses_def GUARD_TS_COLUMNS_def)
  have t: "target ''a'' sample_transition sample_db \<noteq> None"
    by (simp add: target_def sample_transition_def sample_db_def sample_job_def lte_at_def)
  show ?thesis
    using fast_path_equals_transaction [OF sample_transition_ok to, of "''a''"] f t by simp
qed

text \<open>A request can be carried out on the job at its status: the table has the edge, the guard accepts the row.\<close>

definition applicable :: "id \<Rightarrow> job_status \<Rightarrow> db \<Rightarrow> transition_request \<Rightarrow> bool" where
  "applicable k st d c = (TRANSITIONS st (t_event c) \<noteq> None
    \<and> list_ex (\<lambda>j. j_id j = k \<and> j_status j = st \<and> guard_holds (t_guard c) j) (jobs d))"

lemma target_from:
  assumes "unique_ids d" "j \<in> set (jobs d)" "j_id j = k"
  shows "target k (c\<lparr>t_from := st\<rparr>) d = (if j_status j = st \<and> guard_holds (t_guard c) j then Some j else None)"
proof -
  have only: "x = j" if "x \<in> set (jobs d)" "j_id x = k" for x
    using that assms distinct_key_eq [of j_id "jobs d" x j] by (simp add: unique_ids_def)
  show ?thesis
  proof (cases "target k (c\<lparr>t_from := st\<rparr>) d")
    case None
    then show ?thesis using assms(2,3) by (auto simp: target_def find_None_iff)
  next
    case (Some x)
    then have "x \<in> set (jobs d)" "j_id x = k" "j_status x = st" "guard_holds (t_guard c) x"
      using target_SomeD [OF Some] by simp_all
    then show ?thesis using Some only [of x] by simp
  qed
qed

lemma try_transition_exact:
  assumes "unique_ids d" "well_formed c" "j \<in> set (jobs d)" "j_id j = k"
  shows "try_transition k st c d = (case TRANSITIONS st (t_event c) of
      Some to \<Rightarrow> if j_status j = st \<and> guard_holds (t_guard c) j then Some (commit k (c\<lparr>t_from := st\<rparr>) to j d) else None
    | None \<Rightarrow> None)"
proof (cases "TRANSITIONS st (t_event c)")
  case None
  then show ?thesis by (simp add: try_transition_def applyTransition_def transition_def)
next
  case (Some to)
  let ?c = "c\<lparr>t_from := st\<rparr>"
  have wf: "well_formed ?c" using assms(2) by simp
  have "TRANSITIONS (t_from ?c) (t_event ?c) = Some to" using Some by simp
  then have e: "applyTransition k ?c d = Inr (case target k ?c d of
      None \<Rightarrow> (None, d) | Some x \<Rightarrow> (Some (rewritten ?c to x), commit k ?c to x d))"
    by (simp only: applyTransition_spec [OF assms(1) wf] option.case)
  show ?thesis
    by (cases "j_status j = st \<and> guard_holds (t_guard c) j")
      (simp_all add: try_transition_def e target_from [OF assms(1,3,4)] Some)
qed

lemma applicable_iff:
  assumes "unique_ids d" "j \<in> set (jobs d)" "j_id j = k"
  shows "applicable k st d c \<longleftrightarrow> TRANSITIONS st (t_event c) \<noteq> None \<and> j_status j = st \<and> guard_holds (t_guard c) j"
proof -
  have "(\<exists>x \<in> set (jobs d). j_id x = k \<and> P x) \<longleftrightarrow> P j" for P
    using assms distinct_key_eq [of j_id "jobs d" _ j] unfolding unique_ids_def by metis
  then show ?thesis by (simp add: applicable_def list_ex_iff)
qed

lemma try_transition_applies:
  assumes "unique_ids d" "well_formed c" "j \<in> set (jobs d)" "j_id j = k"
  shows "try_transition k st c d =
    (if applicable k st d c then Some (commit k (c\<lparr>t_from := st\<rparr>) (the (TRANSITIONS st (t_event c))) j d) else None)"
  using try_transition_exact [OF assms] applicable_iff [OF assms(1,3,4)] by (auto split: option.splits)

lemma race_first:
  assumes "unique_ids d" "list_all well_formed cs" "j \<in> set (jobs d)" "j_id j = k"
  shows "race (try_transition k st) cs d = (case find (applicable k st d) cs of
      None \<Rightarrow> ([], d)
    | Some c \<Rightarrow> ([c], commit k (c\<lparr>t_from := st\<rparr>) (the (TRANSITIONS st (t_event c))) j d))"
  using assms(2)
proof (induction cs)
  case (Cons c cs)
  note attempt = try_transition_applies [OF assms(1) _ assms(3,4), of c st]
  show ?case
  proof (cases "applicable k st d c")
    case True
    let ?d' = "commit k (c\<lparr>t_from := st\<rparr>) (the (TRANSITIONS st (t_event c))) j d"
    have won: "try_transition k st c d = Some ?d'" using attempt True Cons.prems by simp
    have "race (try_transition k st) cs ?d' = ([], ?d')"
      using job_transition.won_takes [OF _ assms(1) won] job_transition.won_keeps [OF _ assms(1) won] Cons.prems
      by (intro job_transition.race_taken) simp_all
    with won True show ?thesis by simp
  next
    case False
    then show ?thesis using attempt Cons by simp
  qed
qed simp

text \<open>
  C3. Optimistic concurrency: of any number of transitions of one job that all expect the same
  status, whatever they write and in whatever order they reach the database, the first one that can be
  carried out (the job stands at that status, the table has the edge, the guard accepts the row) wins, the
  store is the one its commit leaves, and all the others, those before it and those after it, change nothing;
  nobody wins only when none of them could be carried out. So among requests without a guard, for events
  the table allows, exactly the first wins when the job stands at the status, and none when it does not.
\<close>

theorem competing_transitions:
  assumes "unique_ids d" "list_all well_formed cs" "j \<in> set (jobs d)" "j_id j = k"
  shows "race (try_transition k st) cs d = (case find (applicable k st d) cs of
        None \<Rightarrow> ([], d)
      | Some c \<Rightarrow> ([c], commit k (c\<lparr>t_from := st\<rparr>) (the (TRANSITIONS st (t_event c))) j d))
    \<and> (list_ex (applicable k st d) cs \<longleftrightarrow> length (fst (race (try_transition k st) cs d)) = 1)
    \<and> (list_all (\<lambda>c. t_guard c = [] \<and> TRANSITIONS st (t_event c) \<noteq> None) cs \<longrightarrow>
        fst (race (try_transition k st) cs d) = (if j_status j = st then take 1 cs else []))"
proof -
  note r = race_first [OF assms, of st]
  have "list_ex (applicable k st d) cs \<longleftrightarrow> find (applicable k st d) cs \<noteq> None"
    by (auto simp: list_ex_iff find_None_iff)
  moreover have "find (applicable k st d) cs = (if j_status j = st then case cs of [] \<Rightarrow> None | c # _ \<Rightarrow> Some c else None)"
    if plain: "list_all (\<lambda>c. t_guard c = [] \<and> TRANSITIONS st (t_event c) \<noteq> None) cs"
  proof -
    have "applicable k st d c \<longleftrightarrow> j_status j = st" if "c \<in> set cs" for c
      using plain that by (auto simp: applicable_iff [OF assms(1,3,4)] list_all_iff guard_holds_def)
    then show ?thesis by (cases cs) (auto simp: find_None_iff)
  qed
  ultimately show ?thesis using r by (cases cs) (auto split: option.splits)
qed

theorem competing_transitions_witness:
  "fst (race (try_transition ''a'' Queued) [sample_transition, sample_transition] sample_db) = [sample_transition]
    \<and> fst (race (try_transition ''b'' Queued) [sample_transition, sample_transition] sample_db) = []
    \<and> fst (race (try_transition ''a'' Queued) [sample_transition\<lparr>t_guard := []\<rparr>, sample_transition] sample_db)
      = [sample_transition\<lparr>t_guard := []\<rparr>]"
proof -
  define a where "a = (sample_job ''a'' Queued)\<lparr>j_queuedAt := Some 1, j_revealDeadlineAt := Some 60\<rparr>"
  define b where "b = sample_job ''b'' Otp_verified"
  have row: "a \<in> set (jobs sample_db)" "j_id a = ''a''" "b \<in> set (jobs sample_db)" "j_id b = ''b''"
    by (simp_all add: a_def b_def sample_db_def sample_job_def)
  let ?free = "sample_transition\<lparr>t_guard := []\<rparr>"
  have ok: "list_all well_formed [sample_transition, sample_transition]" "list_all well_formed [?free, sample_transition]"
    using sample_transition_ok(2) by (simp_all add: well_formed_def sample_transition_def)
  have app: "applicable ''a'' Queued sample_db sample_transition" "applicable ''a'' Queued sample_db ?free"
      "\<not> applicable ''b'' Queued sample_db sample_transition"
    by (simp_all add: applicable_def sample_transition_def sample_db_def sample_job_def lte_at_def guard_holds_def)
  show ?thesis
    using competing_transitions [OF sample_transition_ok(1) ok(1) row(1,2), of Queued]
      competing_transitions [OF sample_transition_ok(1) ok(1) row(3,4), of Queued]
      competing_transitions [OF sample_transition_ok(1) ok(2) row(1,2), of Queued] app
    by simp
qed

text \<open>
  C4. The audit trail is complete: starting from a store whose jobs are audited, after any sequence of
  transitions (won, lost or refused) the audit rows of every job, read in order, are a path of the
  transition table that starts at payment pending and ends in the status its row has, and there is one
  outbox row for every audit row.
\<close>

theorem audit_trail_complete:
  assumes "audited d" "\<And>k r. (k, r) \<in> set rs \<Longrightarrow> well_formed r" "j \<in> set (jobs (apply_all rs d))"
  shows "chain Pending_payment (trail (j_id j) (apply_all rs d)) (j_status j)
    \<and> (\<exists>evs. length evs = length (trail (j_id j) (apply_all rs d)) \<and> sm_path Pending_payment evs (j_status j))
    \<and> length (outbox (apply_all rs d)) = length (jobEvents (apply_all rs d))"
  using audited_apply_all [OF assms(1,2)] assms(3) chain_path by (auto simp: audited_def)

definition sample_payment :: transition_request where
  "sample_payment = sample_transition\<lparr>t_from := Pending_payment, t_event := PAYMENT_CONFIRMED, t_guard := [],
    t_audit := None\<rparr>"

lemma sample_job_id: "j_id (sample_job k st) = k"
  by (simp add: sample_job_def)

theorem audit_trail_complete_witness:
  "\<exists>j \<in> set (jobs (apply_all [(''a'', sample_payment)] (sample_db\<lparr>jobs := [sample_job ''a'' Pending_payment]\<rparr>))).
    j_status j = Awaiting_arrival \<and>
    chain Pending_payment (trail (j_id j) (apply_all [(''a'', sample_payment)]
      (sample_db\<lparr>jobs := [sample_job ''a'' Pending_payment]\<rparr>))) (j_status j)"
proof -
  let ?j = "sample_job ''a'' Pending_payment"
  let ?d = "sample_db\<lparr>jobs := [?j]\<rparr>"
  let ?rs = "[(''a'', sample_payment)]"
  have a: "audited ?d"
    by (simp add: audited_def unique_ids_def trail_def sample_db_def sample_job_def)
  have ok: "well_formed sample_payment"
    by (simp add: sample_payment_def well_formed_def sample_transition_def)
  then have wf: "well_formed r" if "(k, r) \<in> set ?rs" for k r
    using that by simp
  have "target ''a'' sample_payment ?d = Some ?j" "t_from sample_payment = Pending_payment"
    "t_event sample_payment = PAYMENT_CONFIRMED"
    by (simp_all add: target_def sample_payment_def sample_transition_def sample_job_def)
  then have "apply_all ?rs ?d = commit ''a'' sample_payment Awaiting_arrival ?j ?d"
    using a ok by (simp add: applyTransition_spec audited_def)
  then have m: "rewritten sample_payment Awaiting_arrival ?j \<in> set (jobs (apply_all ?rs ?d))"
    by (simp add: commit_def sample_job_id)
  show ?thesis
    by (rule bexI [OF _ m]) (simp only: rewritten_simps audit_trail_complete [OF a wf m, unfolded rewritten_simps])
qed

end
