(* ===== verification/Check_In_Laws.thy ===== *)
theory Check_In_Laws
  imports Check_In Transition_Audit
begin

text \<open>
  The properties of the arrival and absence handlers: what a successful check-in requires, where it puts
  the student, when the reveal timer may act, and that a sweep leaves no overdue student in the line.
\<close>

lemma rank_reachable:
  assumes "snd (rankFromSnapshot printers agents js specs n ex) = Some r"
  shows "\<exists>p \<in> set printers. pt_id p = rec_printerId r \<and> pt_status p = P_online
    \<and> can_produce (toProfile p) specs \<and> (\<exists>a \<in> set agents. pt_id p \<in> set (ag_connectedPrinterIds a))"
proof -
  let ?ps = "map toProfile (filter (\<lambda>p. pt_id p \<in> set (concat (map ag_connectedPrinterIds agents))) printers)"
  have s: "snd (rankPrinters ?ps specs n (map lite (filter (\<lambda>j. Some (j_id j) \<noteq> ex) js))) = Some r"
    using assms by (simp add: rankFromSnapshot_def Let_def)
  from rank_recommended_min [OF s]
  obtain q where "q \<in> set ?ps" "printerMatchesSpecs q specs"
      "r = recommend specs n (map lite (filter (\<lambda>j. Some (j_id j) \<noteq> ex) js)) q"
    unfolding rank_eligible_set by blast
  then show ?thesis
    by (auto simp: matches_can_produce recommend_def Let_def toProfile_def)
qed

lemma check_in_guardsD:
  assumes "check_in_guards v arrival now j = Inr p"
  shows "payment_ready j" "- 10000 \<le> now - ap_measuredAt arrival" "now - ap_measuredAt arrival \<le> 90000"
    "\<exists>lat lng. sh_latitude (v_shop v) = Some lat \<and> sh_longitude (v_shop v) = Some lng
      \<and> distanceMeters \<lparr>latitude = latitude arrival, longitude = longitude arrival\<rparr> \<lparr>latitude = lat, longitude = lng\<rparr>
        \<le> of_int (sh_checkInRadiusM (v_shop v))"
    "ap_accuracyM arrival \<le> of_int (min 100 (sh_checkInRadiusM (v_shop v)))"
    "j_mode j = Scheduled \<and> j_scheduledTime j = Some t \<longrightarrow> t - leadMs \<le> now"
    "\<exists>r. snd (recommendPrinter v (j_specs j) (j_pagesPerCopy j) (Some (j_id j))) = Some r \<and> rec_printerId r = p"
  using assms
  by (auto simp: check_in_guards_def Let_def MAX_LOCATION_AGE_MS_def MAX_LOCATION_ACCURACY_M_def isWithinRadius_def
      split: if_splits option.splits)

lemma checkInJob_guards:
  assumes "unique_ids d" "find (\<lambda>j. j_id j = jobId \<and> j_studentId j = studentId) (v_jobs v) = Some j"
    "j_status j \<noteq> Queued" "checkInJob jobId studentId arrival now v d = (Inr (u, m), d', effs)"
  obtains p where "check_in_guards v arrival now j = Inr p"
  using assms(2-4) by (cases "check_in_guards v arrival now j") (auto simp: checkInJob_def)

lemma checkInJob_won:
  assumes "unique_ids d" "find (\<lambda>j. j_id j = jobId \<and> j_studentId j = studentId) (v_jobs v) = Some j"
    "j_status j \<noteq> Queued" "checkInJob jobId studentId arrival now v d = (Inr (u, m), d', effs)"
    "\<not> stands_at jobId Queued d"
  obtains p j0 where "check_in_guards v arrival now j = Inr p" "target jobId (arrived_request j studentId p now) d = Some j0"
    "u = rewritten (arrived_request j studentId p now) Queued j0"
    "d' = (commit jobId (arrived_request j studentId p now) Queued j0 d)\<lparr>jobs := fst (snd (post_check_in v now u
      (jobs (commit jobId (arrived_request j studentId p now) Queued j0 d))))\<rparr>"
proof -
  obtain p where p: "check_in_guards v arrival now j = Inr p"
    by (rule checkInJob_guards [OF assms(1-4)])
  have "target jobId (arrived_request j studentId p now) d \<noteq> None"
    using assms(4,5) find_jobD
    by (fastforce simp: checkInJob_cases [OF assms(1-3) p] stands_at_def split: option.splits if_splits)
  then obtain j0 where j0: "target jobId (arrived_request j studentId p now) d = Some j0" by blast
  show thesis
    using assms(4) by (intro that [OF p j0])
      (auto simp: checkInJob_cases [OF assms(1-3) p] j0 Let_def split: prod.splits)
qed

text \<open>
  C7. A student joins the live line only with proof of presence: whenever a check-in of an order that
  is not yet queued answers with success, the order was prepared for payment, the location reading was at
  most 90 s old and not more than 10 s in the future, its accuracy was within the shop's radius and 100 m,
  the measured position was within the radius of the shop's counter, the arrival window of a scheduled
  order was open, and some online printer of the shop that can produce the order was connected to an
  online agent.
\<close>

theorem check_in_requirements:
  assumes "unique_ids d" "find (\<lambda>j. j_id j = jobId \<and> j_studentId j = studentId) (v_jobs v) = Some j"
    "j_status j \<noteq> Queued" "checkInJob jobId studentId arrival now v d = (Inr (u, m), d', effs)"
  shows "payment_ready j
    \<and> - 10000 \<le> now - ap_measuredAt arrival \<and> now - ap_measuredAt arrival \<le> 90000
    \<and> ap_accuracyM arrival \<le> of_int (min 100 (sh_checkInRadiusM (v_shop v)))
    \<and> (\<exists>lat lng. sh_latitude (v_shop v) = Some lat \<and> sh_longitude (v_shop v) = Some lng
        \<and> distanceMeters \<lparr>latitude = latitude arrival, longitude = longitude arrival\<rparr> \<lparr>latitude = lat, longitude = lng\<rparr>
          \<le> of_int (sh_checkInRadiusM (v_shop v)))
    \<and> (\<forall>t. j_mode j = Scheduled \<and> j_scheduledTime j = Some t \<longrightarrow> t - leadMs \<le> now)
    \<and> (\<exists>p \<in> set (v_printers v). pt_shopId p = sh_id (v_shop v) \<and> pt_status p = P_online \<and> can_produce (toProfile p) (j_specs j)
        \<and> (\<exists>a \<in> set (v_agents v). ag_status a = Ag_online \<and> pt_id p \<in> set (ag_connectedPrinterIds a)))"
proof -
  obtain p where p: "check_in_guards v arrival now j = Inr p"
    by (rule checkInJob_guards [OF assms])
  obtain r where "snd (recommendPrinter v (j_specs j) (j_pagesPerCopy j) (Some (j_id j))) = Some r"
    using check_in_guardsD(7) [OF p] by blast
  from rank_reachable [OF this [unfolded recommendPrinter_def]]
  have "\<exists>p \<in> set (v_printers v). pt_shopId p = sh_id (v_shop v) \<and> pt_status p = P_online \<and> can_produce (toProfile p) (j_specs j)
      \<and> (\<exists>a \<in> set (v_agents v). ag_status a = Ag_online \<and> pt_id p \<in> set (ag_connectedPrinterIds a))"
    by (auto simp: shop_printers_def online_agents_def)
  with check_in_guardsD [OF p] show ?thesis by blast
qed

text \<open>A shop, a student at its counter, and an order waiting to be checked in.\<close>

definition sample_view :: "job list \<Rightarrow> shop_view" where
  "sample_view js = \<lparr>v_shop = sample_shop, v_printers = [sample_printer ''p''], v_agents = [sample_agent], v_jobs = js\<rparr>"

definition sample_arrival :: arrival_proof where
  "sample_arrival = \<lparr>latitude = 12, longitude = 77, ap_accuracyM = 20, ap_measuredAt = 1000\<rparr>"

definition prepared_job :: job where
  "prepared_job = sample_job ''a'' Awaiting_arrival"

lemma prepared_job_simps [simp]:
  "j_id prepared_job = ''a''" "j_studentId prepared_job = ''u''" "j_status prepared_job = Awaiting_arrival"
  "j_shopId prepared_job = ''s''" "j_mode prepared_job = Instant" "j_specs prepared_job = sample_specs"
  "j_pagesPerCopy prepared_job = 3" "payment_ready prepared_job" "j_createdAt prepared_job = 0"
  by (simp_all add: prepared_job_def sample_job_def payment_ready_def)

lemma sample_rank:
  "snd (recommendPrinter (sample_view js) sample_specs 3 ex) \<noteq> None"
  by (simp add: recommendPrinter_def rankFromSnapshot_def Let_def rank_none_iff sample_view_def shop_printers_def
      online_agents_def sample_shop_def sample_printer_def sample_agent_def toProfile_def printerMatchesSpecs_def
      sample_specs_def)

lemma sample_guards: "\<exists>p. check_in_guards (sample_view js) sample_arrival 2000 prepared_job = Inr p"
proof -
  obtain r where "snd (recommendPrinter (sample_view js) sample_specs 3 (Some ''a'')) = Some r"
    using sample_rank by blast
  then have "check_in_guards (sample_view js) sample_arrival 2000 prepared_job = Inr (rec_printerId r)"
    by (simp add: check_in_guards_def Let_def sample_arrival_def MAX_LOCATION_AGE_MS_def
        MAX_LOCATION_ACCURACY_M_def isWithinRadius_def distanceMeters_def radians_def, simp add: sample_view_def sample_shop_def)
  then show ?thesis by blast
qed

definition prepared_db :: db where
  "prepared_db = \<lparr>jobs = [waiting_job ''b'' 5, prepared_job], jobEvents = [], outbox = [], paymentEvents = []\<rparr>"

lemma prepared_db_ok: "unique_ids prepared_db" "\<not> stands_at ''a'' Queued prepared_db"
  by (simp_all add: prepared_db_def unique_ids_def stands_at_def)

lemma sample_check_in:
  "\<exists>u m d' effs. checkInJob ''a'' ''u'' sample_arrival 2000 (sample_view (jobs prepared_db)) prepared_db = (Inr (u, m), d', effs)"
proof -
  obtain p where p: "check_in_guards (sample_view (jobs prepared_db)) sample_arrival 2000 prepared_job = Inr p"
    using sample_guards by blast
  have f: "find (\<lambda>j. j_id j = ''a'' \<and> j_studentId j = ''u'') (v_jobs (sample_view (jobs prepared_db))) = Some prepared_job"
    by (simp add: sample_view_def prepared_db_def)
  have "j_status prepared_job \<noteq> Queued" by simp
  from checkInJob_cases [OF prepared_db_ok(1) f this p] show ?thesis
    by (simp add: target_def prepared_db_def Let_def split: prod.splits)
qed

theorem check_in_requirements_witness:
  "payment_ready prepared_job \<and> ap_accuracyM sample_arrival \<le> of_int (min 100 (sh_checkInRadiusM sample_shop))"
proof -
  obtain u m d' effs where c: "checkInJob ''a'' ''u'' sample_arrival 2000 (sample_view (jobs prepared_db)) prepared_db
      = (Inr (u, m), d', effs)"
    using sample_check_in by blast
  have f: "find (\<lambda>j. j_id j = ''a'' \<and> j_studentId j = ''u'') (v_jobs (sample_view (jobs prepared_db))) = Some prepared_job"
    by (simp add: sample_view_def prepared_db_def)
  have "j_status prepared_job \<noteq> Queued" by simp
  from check_in_requirements [OF prepared_db_ok(1) f this c] show ?thesis
    by (simp add: sample_view_def)
qed

lemma jobs_commit: "jobs (commit k r to j d) = update_where (\<lambda>x. j_id x = k) (\<lambda>_. rewritten r to j) (jobs d)"
  by (simp add: commit_def)

text \<open>
  A check-in joins at the back: when it wins (nobody had queued the order in between) and the clock
  is past every other check-in of the line, the line afterwards, whatever the reveal pass that follows
  does, is the old line followed by this order; the order starts with a fresh check-in time and count and
  is assigned the recommended printer.
\<close>

theorem check_in_joins_at_the_back:
  assumes "unique_ids d" "find (\<lambda>j. j_id j = jobId \<and> j_studentId j = studentId) (v_jobs v) = Some j"
    "j_status j \<noteq> Queued" "checkInJob jobId studentId arrival now v d = (Inr (u, m), d', effs)"
    "\<not> stands_at jobId Queued d"
    "\<And>x. x \<in> set (jobs d) \<Longrightarrow> j_id x = jobId \<Longrightarrow> j_shopId x = sh_id (v_shop v)"
    "\<And>x. x \<in> set (jobs d) \<Longrightarrow> in_line (sh_id (v_shop v)) x \<Longrightarrow> \<exists>t. j_queuedAt x = Some t \<and> t < now"
  shows "map j_id (ACTIVE_QUEUE_JOBS (sh_id (v_shop v)) (jobs d'))
      = map j_id (ACTIVE_QUEUE_JOBS (sh_id (v_shop v)) (jobs d)) @ [jobId]
    \<and> j_id u = jobId \<and> j_status u = Queued \<and> j_queuedAt u = Some now \<and> j_revealedAt u = None
    \<and> (\<exists>j0 \<in> set (jobs d). j_id j0 = jobId \<and> j_checkInCount u = j_checkInCount j0 + 1)
    \<and> (\<exists>r. snd (recommendPrinter v (j_specs j) (j_pagesPerCopy j) (Some jobId)) = Some r
        \<and> j_assignedPrinterId u = Some (rec_printerId r))"
proof -
  let ?s = "sh_id (v_shop v)"
  obtain p j0 where p: "check_in_guards v arrival now j = Inr p"
    and j0: "target jobId (arrived_request j studentId p now) d = Some j0"
    and u: "u = rewritten (arrived_request j studentId p now) Queued j0"
    and d': "d' = (commit jobId (arrived_request j studentId p now) Queued j0 d)\<lparr>jobs := fst (snd (post_check_in v now u
      (jobs (commit jobId (arrived_request j studentId p now) Queued j0 d))))\<rparr>"
    by (rule checkInJob_won [OF assms(1-5)])
  let ?d1 = "commit jobId (arrived_request j studentId p now) Queued j0 d"
  from target_SomeD [OF j0] have m: "j0 \<in> set (jobs d)" "j_id j0 = jobId" "j_status j0 = j_status j" by simp_all
  have id: "j_id j = jobId" using assms(2) by (auto dest: find_SomeD)
  have shop: "j_shopId j0 = ?s" using assms(6) m by blast
  have line: "ACTIVE_QUEUE_JOBS ?s (jobs ?d1) = ACTIVE_QUEUE_JOBS ?s (jobs d) @ [u]"
    unfolding jobs_commit u [symmetric] m(2) [symmetric]
  proof (rule line_after_arrival)
    show "distinct (map j_id (jobs d))" using assms(1) by (simp add: unique_ids_def)
    show "j0 \<in> set (jobs d)" by (rule m)
    show "\<not> in_line ?s j0"
      using check_in_guards_status [OF p] m(3) by (auto simp: in_line_def ACTIVE_QUEUE_STATUSES_def)
    show "in_line ?s u" using shop by (simp add: in_line_def u ACTIVE_QUEUE_STATUSES_def)
    show "j_id u = j_id j0" by (simp add: u)
    show "line_key x < line_key u" if x: "x \<in> set (jobs d)" "in_line ?s x" for x
      using assms(7) [OF x] by (auto simp: line_key_def u row_simps)
  qed
  have "distinct (map j_id (jobs ?d1))"
    using unique_ids_commit [OF assms(1) m(2)] by (simp add: unique_ids_def)
  from synced_line [OF synced_post_check_in [OF this, of v now u]] line
  have "map j_id (ACTIVE_QUEUE_JOBS ?s (jobs d')) = map j_id (ACTIVE_QUEUE_JOBS ?s (jobs d)) @ [jobId]"
    using m(2) by (simp add: d' u)
  moreover obtain r where "snd (recommendPrinter v (j_specs j) (j_pagesPerCopy j) (Some jobId)) = Some r" "rec_printerId r = p"
    using check_in_guardsD(7) [OF p] id by blast
  ultimately show ?thesis
    using m by (auto simp: u row_simps)
qed

theorem check_in_joins_at_the_back_witness:
  "\<exists>u m d' effs. checkInJob ''a'' ''u'' sample_arrival 2000 (sample_view (jobs prepared_db)) prepared_db = (Inr (u, m), d', effs)
    \<and> map j_id (ACTIVE_QUEUE_JOBS ''s'' (jobs d')) = [''b'', ''a'']"
proof -
  obtain u m d' effs where c: "checkInJob ''a'' ''u'' sample_arrival 2000 (sample_view (jobs prepared_db)) prepared_db
      = (Inr (u, m), d', effs)"
    using sample_check_in by blast
  have f: "find (\<lambda>j. j_id j = ''a'' \<and> j_studentId j = ''u'') (v_jobs (sample_view (jobs prepared_db))) = Some prepared_job"
    by (simp add: sample_view_def prepared_db_def)
  have s: "sh_id (v_shop (sample_view (jobs prepared_db))) = ''s''" by (simp add: sample_view_def sample_shop_def)
  have st: "j_status prepared_job \<noteq> Queued" by simp
  have a: "j_shopId x = sh_id (v_shop (sample_view (jobs prepared_db)))" if "x \<in> set (jobs prepared_db)" "j_id x = ''a''" for x
    unfolding s using that by (auto simp: prepared_db_def)
  have b: "\<exists>t. j_queuedAt x = Some t \<and> t < 2000"
    if "x \<in> set (jobs prepared_db)" "in_line (sh_id (v_shop (sample_view (jobs prepared_db)))) x" for x
    using that by (auto simp: prepared_db_def s in_line_def ACTIVE_QUEUE_STATUSES_def)
  have l: "map j_id (ACTIVE_QUEUE_JOBS ''s'' (jobs prepared_db)) = [''b'']"
    by (simp add: ACTIVE_QUEUE_JOBS_def prepared_db_def) (simp add: in_line_def ACTIVE_QUEUE_STATUSES_def)
  from check_in_joins_at_the_back [OF prepared_db_ok(1) f st c prepared_db_ok(2) a b] c show ?thesis
    by (auto simp: s l)
qed

subsection \<open>The reveal timer\<close>

lemma markAbsent_eq:
  assumes "unique_ids d" "well_formed (absent_request j act reason g now)" "j_status j = Queued \<or> j_status j = Notified"
  shows "markAbsent j act reason g now v d = (case target (j_id j) (absent_request j act reason g now) d of
      None \<Rightarrow> (Inr None, d, [])
    | Some j0 \<Rightarrow> (let u = rewritten (absent_request j act reason g now) Awaiting_arrival j0;
          d1 = commit (j_id j) (absent_request j act reason g now) Awaiting_arrival j0 d
        in (Inr (Some u), d1\<lparr>jobs := fst (emitQueueUpdate v now (jobs d1))\<rparr>,
            [Publish (Ch_student (j_studentId j)) ''job:update'' (j_id j),
             Notify (j_studentId j) (K_absent (j_id j) (j_checkInCount j))] @ snd (emitQueueUpdate v now (jobs d1)))))"
  using assms applyTransition_spec [OF assms(1,2), of "j_id j"]
  by (auto simp: markAbsent_def Let_def split: option.splits prod.splits)

definition overdue_row :: "millis \<Rightarrow> job \<Rightarrow> bool" where
  "overdue_row now j = ((j_status j = Queued \<or> j_status j = Notified) \<and> j_revealedAt j \<noteq> None
    \<and> (case j_revealDeadlineAt j of None \<Rightarrow> False | Some t \<Rightarrow> t \<le> now))"

lemma read_deadline: "lte_at (read_col C_revealDeadlineAt j) now \<longleftrightarrow> (case j_revealDeadlineAt j of None \<Rightarrow> False | Some t \<Rightarrow> t \<le> now)"
  by (cases "j_revealDeadlineAt j") (simp_all add: lte_at_def)

lemma guard_expire: "guard_holds (expire_guard now) j \<longleftrightarrow> j_revealedAt j \<noteq> None
    \<and> (case j_revealDeadlineAt j of None \<Rightarrow> False | Some t \<Rightarrow> t \<le> now)"
  by (cases "j_revealedAt j"; cases "j_revealDeadlineAt j") (simp_all add: expire_guard_def lte_at_def)

lemma expireReveal_eq:
  assumes "unique_ids d"
  shows "expireReveal jobId now v d = (case find_job jobId (v_jobs v) of
      None \<Rightarrow> (Inr False, d, [])
    | Some j \<Rightarrow> if \<not> overdue_row now j then (Inr False, d, [])
        else (case target jobId (absent_request j system R_grace_expired (expire_guard now) now) d of
          None \<Rightarrow> (Inr False, d, [])
        | Some j0 \<Rightarrow> (let d1 = commit jobId (absent_request j system R_grace_expired (expire_guard now) now) Awaiting_arrival j0 d
            in (Inr True, d1\<lparr>jobs := fst (emitQueueUpdate v now (jobs d1))\<rparr>,
              [Publish (Ch_student (j_studentId j)) ''job:update'' jobId,
               Notify (j_studentId j) (K_absent jobId (j_checkInCount j))] @ snd (emitQueueUpdate v now (jobs d1))))))"
proof (cases "find_job jobId (v_jobs v)")
  case None
  then show ?thesis by (simp add: expireReveal_def)
next
  case (Some j)
  then have id: "j_id j = jobId" by (auto dest: find_jobD)
  show ?thesis
  proof (cases "overdue_row now j")
    case False
    then show ?thesis
      by (auto simp: expireReveal_def Some overdue_row_def split: option.splits)
  next
    case True
    then have st: "j_status j = Queued \<or> j_status j = Notified" by (simp add: overdue_row_def)
    show ?thesis
      using True markAbsent_eq [OF assms requests_well_formed(3) st, of system R_grace_expired now now v] id
      by (auto simp: expireReveal_def Some overdue_row_def Let_def split: option.splits)
  qed
qed

text \<open>
  The absent timer is neither early nor stale: it marks the student absent exactly when the row it
  read was revealed and overdue and the row it meets at commit, still in the same status, is revealed and
  overdue too. So once staff disarmed the timer, released the order, or the deadline was renewed, it
  answers False and changes nothing; and when it wins, the order is back to awaiting arrival, off the
  line, with its code hidden, still holding the same code and payment.
\<close>

theorem absent_timer_exact:
  assumes "unique_ids d" "find_job jobId (v_jobs v) = Some j"
  shows "(fst (expireReveal jobId now v d) = Inr True
      \<longleftrightarrow> overdue_row now j \<and> (\<exists>j0 \<in> set (jobs d). j_id j0 = jobId \<and> j_status j0 = j_status j \<and> overdue_row now j0))
    \<and> (fst (expireReveal jobId now v d) \<noteq> Inr True \<longrightarrow> expireReveal jobId now v d = (Inr False, d, []))
    \<and> (fst (expireReveal jobId now v d) = Inr True \<longrightarrow>
        (\<exists>j0 \<in> set (jobs d). \<exists>j1 \<in> set (jobs (fst (snd (expireReveal jobId now v d)))).
          j_id j0 = jobId \<and> j_id j1 = jobId \<and> j_status j1 = Awaiting_arrival \<and> j_absentAt j1 = Some now
          \<and> \<not> isCounterCodeAvailable (j_status j1) (j_revealedAt j1)
          \<and> j_releaseCodeDigest j1 = j_releaseCodeDigest j0 \<and> j_paymentStatus j1 = j_paymentStatus j0))"
proof -
  let ?r = "absent_request j system R_grace_expired (expire_guard now) now"
  have tgt: "target jobId ?r d \<noteq> None
      \<longleftrightarrow> (\<exists>j0 \<in> set (jobs d). j_id j0 = jobId \<and> j_status j0 = j_status j \<and> guard_holds (expire_guard now) j0)"
    by (auto simp: target_def find_None_iff)
  have od: "overdue_row now j0 \<longleftrightarrow> guard_holds (expire_guard now) j0"
    if "overdue_row now j" "j_status j0 = j_status j" for j0
    using that by (auto simp: overdue_row_def guard_expire)
  show ?thesis
  proof (cases "overdue_row now j \<and> target jobId ?r d \<noteq> None")
    case False
    then have "expireReveal jobId now v d = (Inr False, d, [])"
      by (auto simp: expireReveal_eq [OF assms(1)] assms(2))
    moreover have "\<not> (overdue_row now j \<and> (\<exists>j0 \<in> set (jobs d). j_id j0 = jobId \<and> j_status j0 = j_status j \<and> overdue_row now j0))"
      using False tgt od by metis
    ultimately show ?thesis by simp
  next
    case True
    then obtain j0 where j0: "target jobId ?r d = Some j0" and o: "overdue_row now j" by blast
    let ?u = "rewritten ?r Awaiting_arrival j0"
    let ?d1 = "commit jobId ?r Awaiting_arrival j0 d"
    from target_SomeD [OF j0] have m: "j0 \<in> set (jobs d)" "j_id j0 = jobId" "j_status j0 = j_status j"
      "guard_holds (expire_guard now) j0" by simp_all
    have e: "fst (expireReveal jobId now v d) = Inr True"
      "jobs (fst (snd (expireReveal jobId now v d))) = fst (emitQueueUpdate v now (jobs ?d1))"
      using o by (simp_all add: expireReveal_eq [OF assms(1)] assms(2) j0 Let_def)
    have u: "?u \<in> set (jobs ?d1)"
      using m(1,2) by (auto simp: jobs_commit set_update_where)
    have "distinct (map j_id (jobs ?d1))"
      using unique_ids_commit [OF assms(1) m(2)] by (simp add: unique_ids_def)
    from synced_row [OF synced_emit [OF this, of v now] u]
    have "?u \<in> set (fst (emitQueueUpdate v now (jobs ?d1)))"
      by (auto simp: in_line_def ACTIVE_QUEUE_STATUSES_def)
    with m od [OF o] o e show ?thesis
      by (intro conjI impI iffI bexI [of _ j0] bexI [of _ ?u]) (auto simp: row_simps isCounterCodeAvailable_def)
  qed
qed

definition revealed_job :: job where
  "revealed_job = (waiting_job ''b'' 5)\<lparr>j_revealedAt := Some 10, j_revealDeadlineAt := Some 70\<rparr>"

theorem absent_timer_exact_witness:
  "fst (expireReveal ''b'' 70 (sample_view [revealed_job]) \<lparr>jobs = [revealed_job], jobEvents = [], outbox = [], paymentEvents = []\<rparr>) = Inr True
    \<and> expireReveal ''b'' 70 (sample_view [revealed_job])
        \<lparr>jobs = [revealed_job\<lparr>j_revealDeadlineAt := None\<rparr>], jobEvents = [], outbox = [], paymentEvents = []\<rparr>
      = (Inr False, \<lparr>jobs = [revealed_job\<lparr>j_revealDeadlineAt := None\<rparr>], jobEvents = [], outbox = [], paymentEvents = []\<rparr>, [])"
proof -
  have row: "j_id revealed_job = ''b''" "overdue_row 70 revealed_job" "\<not> overdue_row 70 (revealed_job\<lparr>j_revealDeadlineAt := None\<rparr>)"
    by (simp_all add: revealed_job_def overdue_row_def waiting_job_def sample_job_def)
  then have f: "find_job ''b'' (v_jobs (sample_view [revealed_job])) = Some revealed_job"
    by (simp add: find_job_def sample_view_def)
  have u: "unique_ids \<lparr>jobs = [x], jobEvents = [], outbox = [], paymentEvents = []\<rparr>" for x
    by (simp add: unique_ids_def)
  show ?thesis
    using absent_timer_exact [OF u f, of 70 revealed_job] row
      absent_timer_exact [OF u f, of 70 "revealed_job\<lparr>j_revealDeadlineAt := None\<rparr>"] by simp
qed

subsection \<open>The sweep\<close>

definition overdue_ids :: "millis \<Rightarrow> job list \<Rightarrow> id set" where
  "overdue_ids now js = j_id ` {j \<in> set js. overdue_row now j}"

lemma synced_overdue: "synced s now g js js' \<Longrightarrow> 0 < g \<Longrightarrow> overdue_ids now js' \<subseteq> overdue_ids now js"
  by (auto simp: overdue_ids_def overdue_row_def dest!: synced_row_back)

lemma expire_step:
  assumes "unique_ids d" "jobs d = v_jobs v" "0 < sh_revealGraceSeconds (v_shop v)"
    "expireReveal k now v d = (res, d1, effs)"
  shows "unique_ids d1 \<and> map j_id (jobs d1) = map j_id (jobs d) \<and> overdue_ids now (jobs d1) \<subseteq> overdue_ids now (jobs d) - {k}"
proof (cases "find_job k (v_jobs v)")
  case None
  then have "d1 = d" using assms(4) by (simp add: expireReveal_def)
  moreover have "k \<notin> overdue_ids now (jobs d)"
    using None assms(2) by (auto simp: overdue_ids_def find_job_def find_None_iff)
  ultimately show ?thesis using assms(1) by simp
next
  case (Some j)
  let ?r = "absent_request j system R_grace_expired (expire_guard now) now"
  have j: "j \<in> set (jobs d)" "j_id j = k" using find_jobD [OF Some] assms(2) by auto
  show ?thesis
  proof (cases "overdue_row now j")
    case False
    then have "d1 = d" using assms(4) by (simp add: expireReveal_eq [OF assms(1)] Some)
    moreover have "k \<notin> overdue_ids now (jobs d)"
      using False j assms(1) distinct_key_eq [of j_id "jobs d"] by (auto simp: overdue_ids_def unique_ids_def)
    ultimately show ?thesis using assms(1) by simp
  next
    case True
    then have "target k ?r d = Some j"
      using j assms(1) True find_eq_Some_distinct [of j_id "jobs d" j]
      by (auto simp: target_def find_Some_iff guard_expire overdue_row_def unique_ids_def)
    then have d1: "d1 = (commit k ?r Awaiting_arrival j d)\<lparr>jobs := fst (emitQueueUpdate v now (jobs (commit k ?r Awaiting_arrival j d)))\<rparr>"
      using assms(4) True by (simp add: expireReveal_eq [OF assms(1)] Some Let_def)
    have u: "unique_ids (commit k ?r Awaiting_arrival j d)" using unique_ids_commit [OF assms(1) j(2)] .
    then have sy: "synced (sh_id (v_shop v)) now (sh_revealGraceSeconds (v_shop v))
        (jobs (commit k ?r Awaiting_arrival j d)) (jobs d1)"
      using synced_emit by (simp add: d1 unique_ids_def)
    have "overdue_ids now (jobs (commit k ?r Awaiting_arrival j d)) \<subseteq> overdue_ids now (jobs d) - {k}"
      by (auto simp: overdue_ids_def jobs_commit set_update_where overdue_row_def)
    with synced_overdue [OF sy assms(3)] synced_ids [OF sy] u commit_ids [OF j(2)] show ?thesis
      by (auto simp: unique_ids_def)
  qed
qed

text \<open>Every job belongs to a known shop, and every shop gives its students some time.\<close>

definition graced :: "shop_row list \<Rightarrow> bool" where
  "graced shops = list_all (\<lambda>s. 0 < sh_revealGraceSeconds s) shops"

definition sheltered :: "shop_row list \<Rightarrow> job list \<Rightarrow> bool" where
  "sheltered shops js = list_all (\<lambda>j. list_ex (\<lambda>s. sh_id s = j_shopId j) shops) js"

lemma view_ofD:
  "view_of shops ps ags d s = Some v \<Longrightarrow> v_jobs v = jobs d \<and> v_shop v \<in> set shops \<and> sh_id (v_shop v) = s"
  by (auto simp: view_of_def dest: find_SomeD)

lemma synced_sheltered: "synced s now g js js' \<Longrightarrow> sheltered shops js' = sheltered shops js"
  by (auto simp: synced_def sheltered_def list_all_iff)

lemma expire_sheltered:
  assumes "unique_ids d" "jobs d = v_jobs v" "expireReveal k now v d = (res, d1, effs)" "sheltered shops (jobs d)"
  shows "sheltered shops (jobs d1)"
proof (cases "d1 = d")
  case False
  then obtain j j0 where t: "target k (absent_request j system R_grace_expired (expire_guard now) now) d = Some j0"
    and d1: "d1 = (let e = commit k (absent_request j system R_grace_expired (expire_guard now) now) Awaiting_arrival j0 d
      in e\<lparr>jobs := fst (emitQueueUpdate v now (jobs e))\<rparr>)"
    using assms(3) by (auto simp: expireReveal_eq [OF assms(1)] Let_def split: option.splits if_splits)
  let ?e = "commit k (absent_request j system R_grace_expired (expire_guard now) now) Awaiting_arrival j0 d"
  from target_SomeD [OF t] have j0: "j0 \<in> set (jobs d)" "j_id j0 = k" by simp_all
  have "sheltered shops (jobs ?e)"
    using assms(4) j0 by (auto simp: sheltered_def list_all_iff jobs_commit set_update_where)
  moreover have "distinct (map j_id (jobs ?e))"
    using unique_ids_commit [OF assms(1) j0(2)] by (simp add: unique_ids_def)
  ultimately show ?thesis
    using synced_sheltered [OF synced_emit] by (simp add: d1 Let_def)
qed (use assms(4) in simp)

lemma expire_loop_clears:
  assumes "graced shops" "unique_ids d" "sheltered shops (jobs d)" "expire_loop shops ps ags now ks d = (n, d', effs)"
  shows "unique_ids d' \<and> sheltered shops (jobs d') \<and> overdue_ids now (jobs d') \<subseteq> overdue_ids now (jobs d) - set ks"
  using assms(2-4)
proof (induction ks arbitrary: d n d' effs)
  case Nil
  then show ?case by simp
next
  case (Cons k ks)
  show ?case
  proof (cases "find_job k (jobs d)")
    case None
    then have "k \<notin> overdue_ids now (jobs d)"
      by (auto simp: overdue_ids_def find_job_def find_None_iff)
    with Cons.IH [of d] Cons.prems None show ?thesis by auto
  next
    case (Some j)
    then have "j \<in> set (jobs d)" by (simp add: find_jobD)
    with Cons.prems(2) have "find (\<lambda>s. sh_id s = j_shopId j) shops \<noteq> None"
      by (auto simp: find_None_iff sheltered_def list_all_iff list_ex_iff)
    then obtain v where vw: "view_of shops ps ags d (j_shopId j) = Some v" by (auto simp: view_of_def)
    then have v: "v_jobs v = jobs d" "v_shop v \<in> set shops" using view_ofD by auto
    obtain r d1 e1 where e: "expireReveal k now v d = (r, d1, e1)" by (cases "expireReveal k now v d")
    have g: "0 < sh_revealGraceSeconds (v_shop v)" using v(2) assms(1) by (auto simp: graced_def list_all_iff)
    from expire_step [OF Cons.prems(1) v(1) [symmetric] g e] expire_sheltered [OF Cons.prems(1) v(1) [symmetric] e Cons.prems(2)]
      Cons.IH [of d1] Cons.prems(3) show ?thesis
      by (auto simp: Some vw e split: prod.splits)
  qed
qed

lemma synced_sync:
  assumes "distinct (map j_id js)"
  shows "synced s now g js (fst (snd (syncShopQueue s (Some (c, g)) ps now js0 js)))"
  using reconcile_jobs [OF assms, of s c g ps now js0] synced_refl synced_settled
  by (auto simp: syncShopQueue_def split: prod.splits)

lemma sync_loop_clears:
  assumes "graced shops" "unique_ids d" "sync_loop shops ps ags now ss d = (d', effs)"
  shows "overdue_ids now (jobs d') \<subseteq> overdue_ids now (jobs d)"
  using assms(2,3)
proof (induction ss arbitrary: d d' effs)
  case Nil
  then show ?case by simp
next
  case (Cons s ss)
  show ?case
  proof (cases "view_of shops ps ags d s")
    case None
    with Cons show ?thesis by simp
  next
    case (Some v)
    let ?g = "sh_revealGraceSeconds (v_shop v)"
    have g: "0 < ?g" and id: "sh_id (v_shop v) = s"
      using view_ofD [OF Some] assms(1) by (auto simp: graced_def list_all_iff)
    obtain n js e1 where y: "syncShopQueue s (queue_settings (v_shop v)) (shop_printers v) now (jobs d) (jobs d) = (n, js, e1)"
      by (cases "syncShopQueue s (queue_settings (v_shop v)) (shop_printers v) now (jobs d) (jobs d)")
    have s1: "synced s now ?g (jobs d) js"
      using synced_sync [of "jobs d" s now ?g "sh_counterCapacity (v_shop v)" "shop_printers v" "jobs d"] Cons.prems(1) y
      by (simp add: unique_ids_def queue_settings_def)
    define js' where "js' = fst (if n > 0 then emitQueueUpdate v now js else (js, []))"
    have dj: "distinct (map j_id js)" using synced_ids [OF s1] Cons.prems(1) by (simp add: unique_ids_def)
    have s2: "synced s now ?g js js'"
      using synced_emit [OF dj, of v now] id synced_refl by (simp add: js'_def)
    have "unique_ids (d\<lparr>jobs := js'\<rparr>)" using synced_ids [OF s2] dj by (simp add: unique_ids_def)
    moreover obtain e2 where "sync_loop shops ps ags now ss (d\<lparr>jobs := js'\<rparr>) = (d', e2)"
      using Cons.prems(2) by (auto simp: Some y js'_def Let_def split: prod.splits if_splits)
    ultimately have "overdue_ids now (jobs d') \<subseteq> overdue_ids now js'" using Cons.IH by fastforce
    with synced_overdue [OF s1 g] synced_overdue [OF s2 g] show ?thesis by blast
  qed
qed

lemma set_take_all: "length xs \<le> n \<Longrightarrow> take n xs = xs"
  by simp

text \<open>
  The sweep is the durable backstop of the reveal timers: with at most a hundred students past their
  deadline, known shops and a positive grace, after one sweep no revealed student of any line is overdue,
  although the sweep itself reveals the next students on the way.
\<close>

theorem sweep_clears_overdue:
  assumes "unique_ids d" "graced shops" "sheltered shops (jobs d)"
    "count_where (\<lambda>j. (j_status j = Queued \<or> j_status j = Notified)
      \<and> (case j_revealDeadlineAt j of None \<Rightarrow> False | Some t \<Rightarrow> t \<le> now)) (jobs d) \<le> 100"
  shows "\<not> list_ex (overdue_row now) (jobs (fst (snd (sweepExpiredReveals shops printers agents now d))))"
proof -
  let ?late = "\<lambda>j. (j_status j = Queued \<or> j_status j = Notified)
    \<and> (case j_revealDeadlineAt j of None \<Rightarrow> False | Some t \<Rightarrow> t \<le> now)"
  obtain n d1 e1 where l: "expire_loop shops printers agents now (overdue now (jobs d)) d = (n, d1, e1)"
    by (cases "expire_loop shops printers agents now (overdue now (jobs d)) d")
  have "overdue now (jobs d) = map j_id (sort_key (\<lambda>j. the (j_revealDeadlineAt j)) (filter ?late (jobs d)))"
    unfolding overdue_def using assms(4) by (intro set_take_all) (simp add: count_where_def)
  then have "set (overdue now (jobs d)) = j_id ` {j \<in> set (jobs d). ?late j}" by simp
  then have "overdue_ids now (jobs d) \<subseteq> set (overdue now (jobs d))"
    by (auto simp: overdue_ids_def overdue_row_def)
  with expire_loop_clears [OF assms(2,1,3) l] have u: "unique_ids d1" "overdue_ids now (jobs d1) = {}" by auto
  obtain d2 e2 where y: "sync_loop shops printers agents now (take 100 (remdups (map j_shopId (filter (\<lambda>j.
      (j_status j = Queued \<or> j_status j = Notified) \<and> j_revealedAt j = None) (jobs d1))))) d1 = (d2, e2)"
    by force
  have "fst (snd (sweepExpiredReveals shops printers agents now d)) = d2"
    by (simp add: sweepExpiredReveals_def l y)
  with sync_loop_clears [OF assms(2) u(1) y] u(2) show ?thesis
    by (auto simp: overdue_ids_def list_ex_iff)
qed

theorem sweep_clears_overdue_witness:
  "overdue_row 70 revealed_job \<and> \<not> list_ex (overdue_row 70) (jobs (fst (snd (sweepExpiredReveals [sample_shop]
    [sample_printer ''p''] [sample_agent] 70 \<lparr>jobs = [revealed_job, waiting_job ''c'' 6], jobEvents = [], outbox = [], paymentEvents = []\<rparr>))))"
proof -
  let ?d = "\<lparr>jobs = [revealed_job, waiting_job ''c'' 6], jobEvents = [], outbox = [], paymentEvents = []\<rparr>"
  have a: "unique_ids ?d" "graced [sample_shop]" "sheltered [sample_shop] (jobs ?d)" "overdue_row 70 revealed_job"
    by (simp_all add: unique_ids_def graced_def sheltered_def sample_shop_def revealed_job_def waiting_job_def sample_job_def overdue_row_def)
  have "count_where (\<lambda>j. (j_status j = Queued \<or> j_status j = Notified)
      \<and> (case j_revealDeadlineAt j of None \<Rightarrow> False | Some t \<Rightarrow> t \<le> 70)) (jobs ?d) \<le> 100"
    by (simp add: count_where_def)
  from sweep_clears_overdue [OF a(1-3) this] a(4) show ?thesis by blast
qed

subsection \<open>The counter code\<close>

text \<open>
  The counter code never leaks: in the line that is published, an order whose code the student may
  fetch is in the revealed band, so arriving and waiting students, absent students and orders not checked
  in never see theirs.
\<close>

theorem code_only_in_revealed_band:
  assumes "distinct (map j_id js)" "e \<in> set (sq_entries (loadShopQueue shopId settings printers js))"
    "isCounterCodeAvailable (j_status (qe_job e)) (j_revealedAt (qe_job e))"
  shows "qe_band e = Revealed \<and> in_line shopId (qe_job e)"
proof -
  let ?q = "ACTIVE_QUEUE_JOBS shopId js"
  let ?c = "case settings of None \<Rightarrow> 5 | Some (c, _) \<Rightarrow> c"
  have e: "qe_job e \<in> set ?q" "qe_band e = the (assignBands (map band_of_job ?q) ?c (j_id (qe_job e)))"
    using assms(2) set_build_entries by (fastforce simp: loadShopQueue_def buildShopQueue_def Let_def)+
  then obtain i where i: "i < length ?q" "?q ! i = qe_job e" by (metis in_set_conv_nth)
  have l: "in_line shopId (qe_job e)" using e(1) by simp
  then have "j_revealedAt (qe_job e) \<noteq> None"
    using assms(3) by (auto simp: in_line_def isCounterCodeAvailable_def ACTIVE_QUEUE_STATUSES_def)
  then show ?thesis
    using band_at_index [OF distinct_line [OF assms(1)] i(1)] l i(2) e(2) by (simp add: rank_band_def)
qed

theorem code_only_in_revealed_band_witness:
  "\<exists>e \<in> set (sq_entries (loadShopQueue ''s'' (Some (1, 60)) [] [revealed_job])).
    isCounterCodeAvailable (j_status (qe_job e)) (j_revealedAt (qe_job e)) \<and> qe_band e = Revealed"
proof -
  let ?q = "loadShopQueue ''s'' (Some (1, 60)) [] [revealed_job]"
  have "in_line ''s'' revealed_job" "isCounterCodeAvailable (j_status revealed_job) (j_revealedAt revealed_job)"
    by (simp_all add: in_line_def revealed_job_def waiting_job_def sample_job_def ACTIVE_QUEUE_STATUSES_def
        isCounterCodeAvailable_def)
  moreover from this have "map qe_job (sq_entries ?q) = [revealed_job]"
    by (simp add: loadShopQueue_def buildShopQueue_def Let_def ACTIVE_QUEUE_JOBS_def)
  then obtain e where "e \<in> set (sq_entries ?q)" "qe_job e = revealed_job" by (metis in_set_conv_nth length_map nth_map length_Cons list.size(3) nth_Cons_0 zero_less_Suc)
  ultimately show ?thesis
    using code_only_in_revealed_band [of "[revealed_job]" e "''s''" "Some (1, 60)" "[]"] by (intro bexI [of _ e]) simp_all
qed

end
