(* ===== verification/Release_Laws.thy ===== *)
theory Release_Laws
  imports Release Check_In_Laws
begin

text \<open>
  What a release at the counter guarantees: who may be released, what is recorded about the payment, and
  that a release that does not complete changes nothing but the running absent timer.
\<close>

lemma release_request_wf [simp]: "well_formed (release_request j p s payment w now)"
  by (simp add: well_formed_def release_request_def payment_columns_def split: option.splits prod.splits)

lemma release_request_simps [simp]:
  "t_from (release_request j p s payment w now) = j_status j"
  "t_guard (release_request j p s payment w now) = []"
  "t_now (release_request j p s payment w now) = now"
  "t_actor (release_request j p s payment w now) = \<lparr>actorType = A_shop, actorId = Some s\<rparr>"
  "audit_label (release_request j p s payment False now) = ''COUNTER_QUEUE_OVERRIDE_RELEASE''"
  by (simp_all add: release_request_def audit_label_def)

lemma release_event_target:
  "TRANSITIONS (j_status j) (t_event (release_request j p s payment w now)) = Some to \<Longrightarrow> to = Otp_verified"
  by (cases "j_status j") (auto simp: release_request_def split: if_splits)

definition payment_due :: "job \<Rightarrow> bool" where
  "payment_due j = (is_counter_due j \<or> is_legacy_cash_due j)"

lemma payment_ready_due: "payment_ready j \<Longrightarrow> \<not> payment_due j \<Longrightarrow> j_paymentStatus j = Paid"
  by (auto simp: payment_ready_def payment_due_def is_counter_due_def is_legacy_cash_due_def)

text \<open>The row a release writes.\<close>

lemma release_row [row_simps]:
  "j_assignedPrinterId (rewritten (release_request j p s payment w now) to x) = Some p"
  "j_claimedByAgentId (rewritten (release_request j p s payment w now) to x) = None"
  "payment_due j \<Longrightarrow> payment = Some (m, ref) \<Longrightarrow> j_paymentStatus (rewritten (release_request j p s payment w now) to x) = Paid
    \<and> j_counterPaymentAmountPaise (rewritten (release_request j p s payment w now) to x) = Some (j_totalPaise j)
    \<and> j_counterPaymentConfirmedById (rewritten (release_request j p s payment w now) to x) = Some s
    \<and> j_counterPaymentMethod (rewritten (release_request j p s payment w now) to x) = Some m"
  "\<not> payment_due j \<Longrightarrow> j_paymentStatus (rewritten (release_request j p s payment w now) to x) = j_paymentStatus x"
  by (auto simp: rewritten_def release_request_def stamp_def payment_columns_def payment_due_def split: option.splits)

lemma choose_printer_eligible:
  assumes "choose_printer shop manual j eligible recommended = Inr (Some p)"
    "recommended = (case eligible of [] \<Rightarrow> None | r # _ \<Rightarrow> Some r)"
  shows "\<exists>e \<in> set eligible. rec_printerId e = p"
  using assms
  by (auto simp: choose_printer_def Let_def list_ex_iff split: if_splits list.splits)

lemma newest_in: "(case sort_key f xs of [] \<Rightarrow> None | x # _ \<Rightarrow> Some x) = Some y \<Longrightarrow> y \<in> set xs"
  by (metis (no_types) hd_in_set list.case_eq_if option.distinct(1) option.inject set_sort)

lemma lookup_release_in:
  assumes "lookup_release digestOf verifyHash shopId otp js = Some j"
  shows "j \<in> set js" "j_shopId j = shopId" "payment_ready j" "j_status j \<in> set COUNTER_CODE_LOOKUP_STATUSES"
    "j_releaseCodeDigest j = Some (digestOf shopId otp) \<or> j_otpHash j \<noteq> None \<and> verifyHash (the (j_otpHash j)) otp"
proof -
  let ?P = "\<lambda>j. j_shopId j = shopId \<and> j_releaseCodeDigest j = Some (digestOf shopId otp) \<and> payment_ready j
      \<and> j_status j \<in> set COUNTER_CODE_LOOKUP_STATUSES"
  have code: "j \<in> set js \<and> ?P j" if c: "lookup_by_code shopId (digestOf shopId otp) js = Some j"
    using newest_in [OF c [unfolded lookup_by_code_def]] by simp
  have legacy: "j \<in> set js \<and> j_shopId j = shopId \<and> j_status j = Notified \<and> j_paymentStatus j = Paid
      \<and> j_otpHash j \<noteq> None \<and> verifyHash (the (j_otpHash j)) otp"
    if "lookup_legacy verifyHash shopId otp js = Some j"
    using that by (auto simp: lookup_legacy_def dest!: find_SomeD)
  from assms show "j \<in> set js" "j_shopId j = shopId" "payment_ready j" "j_status j \<in> set COUNTER_CODE_LOOKUP_STATUSES"
    "j_releaseCodeDigest j = Some (digestOf shopId otp) \<or> j_otpHash j \<noteq> None \<and> verifyHash (the (j_otpHash j)) otp"
    using code legacy
    by (auto simp: lookup_release_def payment_ready_def COUNTER_CODE_LOOKUP_STATUSES_def split: option.splits)
qed


text \<open>What a completed release went through.\<close>

lemma release_won:
  assumes "unique_ids d" "releaseByOtp digestOf verifyHash otp staffId manual override payment now v d = (Inr r, d', effs)"
    "rr_ok r"
  obtains j p j0 w where "lookup_release digestOf verifyHash (sh_id (v_shop v)) otp (v_jobs v) = Some j"
    "j_status j \<notin> {Otp_verified, Printing, Finishing, Ready_for_pickup}"
    "w = isNormalCounterRelease (j_status j) (lm_band (liveMetricsFromQueue (view_queue v) (j_id j)))" "w \<or> override"
    "choose_printer (v_shop v) manual j (fst (recommendPrinter v (j_specs j) (j_pagesPerCopy j) (Some (j_id j))))
      (snd (recommendPrinter v (j_specs j) (j_pagesPerCopy j) (Some (j_id j)))) = Inr (Some p)"
    "payment_due j \<longrightarrow> payment \<noteq> None"
    "target (j_id j) (release_request j p staffId payment w now) d = Some j0"
    "rr_job r = Some (rewritten (release_request j p staffId payment w now) Otp_verified j0)"
    "d' = fst (dispatchJob now (rewritten (release_request j p staffId payment w now) Otp_verified j0) (Some (online_agents v))
      (v_agents v) (commit (j_id j) (release_request j p staffId payment w now) Otp_verified j0 d))"
    "TRANSITIONS (j_status j) (t_event (release_request j p staffId payment w now)) = Some Otp_verified"
proof -
  obtain j where j: "lookup_release digestOf verifyHash (sh_id (v_shop v)) otp (v_jobs v) = Some j"
    using assms(2) by (cases "lookup_release digestOf verifyHash (sh_id (v_shop v)) otp (v_jobs v)")
      (auto simp: releaseByOtp_def Let_def)
  define w where "w = isNormalCounterRelease (j_status j) (lm_band (liveMetricsFromQueue (view_queue v) (j_id j)))"
  define ec where "ec = recommendPrinter v (j_specs j) (j_pagesPerCopy j) (Some (j_id j))"
  obtain el rc where ec': "ec = (el, rc)" by (cases ec)
  note R = assms(2)[unfolded releaseByOtp_def Let_def j option.case w_def [symmetric] ec_def [symmetric] ec' prod.case]
  have st: "j_status j \<notin> {Otp_verified, Printing, Finishing, Ready_for_pickup}" and wo: "w \<or> override"
    using R assms(3) by (auto simp: no_result_def split: if_splits prod.splits)
  obtain p where p: "choose_printer (v_shop v) manual j el rc = Inr (Some p)"
    using R assms(3) by (cases "choose_printer (v_shop v) manual j el rc")
      (auto simp: no_result_def split: if_splits prod.splits option.splits)
  have due: "payment_due j \<longrightarrow> payment \<noteq> None"
    using R assms(3) p by (auto simp: no_result_def payment_due_def split: if_splits prod.splits)
  let ?r = "release_request j p staffId payment w now"
  obtain a where a: "applyTransition (j_id j) ?r d = a" by simp
  have "\<exists>u d1. a = Inr (Some u, d1) \<and> rr_job r = Some u
      \<and> d' = fst (dispatchJob now u (Some (online_agents v)) (v_agents v) d1)"
    using R assms(3) p a by (auto simp: no_result_def split: if_splits prod.splits sum.splits option.splits)
  then obtain u d1 where u: "applyTransition (j_id j) ?r d = Inr (Some u, d1)" "rr_job r = Some u"
      "d' = fst (dispatchJob now u (Some (online_agents v)) (v_agents v) d1)"
    using a by blast
  from applyTransition_won [OF assms(1) release_request_wf u(1)]
  obtain to j0 where "TRANSITIONS (t_from ?r) (t_event ?r) = Some to" "target (j_id j) ?r d = Some j0"
      "u = rewritten ?r to j0" "d1 = commit (j_id j) ?r to j0 d" by blast
  moreover have "to = Otp_verified" using release_event_target calculation(1) by simp
  ultimately show thesis
    using that [OF j st w_def wo] p due u(2,3) by (simp add: ec_def [symmetric] ec')
qed


lemma dispatch_events [simp]: "jobEvents (fst (dispatchJob now u pre agents d)) = jobEvents d"
  by (simp add: dispatchJob_def Let_def)

lemma eligible_reachable:
  assumes "e \<in> set (fst (recommendPrinter v specs n ex))"
  shows "\<exists>q \<in> set (v_printers v). pt_id q = rec_printerId e \<and> pt_shopId q = sh_id (v_shop v) \<and> pt_status q = P_online
    \<and> can_produce (toProfile q) specs \<and> (\<exists>a \<in> set (v_agents v). ag_status a = Ag_online \<and> pt_id q \<in> set (ag_connectedPrinterIds a))"
proof -
  from assms [unfolded recommendPrinter_def rankFromSnapshot_def Let_def rank_eligible_set]
  show ?thesis
    by (auto simp: matches_can_produce recommend_def Let_def toProfile_def shop_printers_def online_agents_def)
qed

lemma recommended_first:
  "snd (recommendPrinter v specs n ex) = (case fst (recommendPrinter v specs n ex) of [] \<Rightarrow> None | r # _ \<Rightarrow> Some r)"
  by (simp add: recommendPrinter_def rankFromSnapshot_def rankPrinters_def Let_def del: hd_case_Some)

text \<open>
  C11. A release at the counter is authorised, paid and traced: when it completes (and nobody changed the
  payment of the order since it was read), the order belongs to the shop and the code entered is its code,
  the row is in otp_verified and paid; if the payment was still due, staff confirmed it in this call and the
  amount recorded is the server's own total under the staff member's id; the printer assigned is an online
  printer of the shop, connected to an online agent, that can produce the order; and an order outside the
  revealed band is released only when staff chose to override the queue, which the audit row says.
\<close>

theorem counter_release_authorised:
  assumes "unique_ids d" "releaseByOtp digestOf verifyHash otp staffId manual override payment now v d = (Inr r, d', effs)"
    "rr_ok r"
    "\<forall>x \<in> set (jobs d). \<forall>j \<in> set (v_jobs v). j_id x = j_id j \<and> j_status x = j_status j \<longrightarrow> j_paymentStatus x = j_paymentStatus j"
  shows "\<exists>j u q w. j \<in> set (v_jobs v) \<and> j_shopId j = sh_id (v_shop v)
    \<and> (j_releaseCodeDigest j = Some (digestOf (j_shopId j) otp) \<or> j_otpHash j \<noteq> None \<and> verifyHash (the (j_otpHash j)) otp)
    \<and> rr_job r = Some u \<and> j_id u = j_id j \<and> j_status u = Otp_verified \<and> j_paymentStatus u = Paid
    \<and> (payment_due j \<longrightarrow> payment \<noteq> None \<and> j_counterPaymentAmountPaise u = Some (j_totalPaise j)
        \<and> j_counterPaymentConfirmedById u = Some staffId)
    \<and> q \<in> set (v_printers v) \<and> j_assignedPrinterId u = Some (pt_id q) \<and> pt_shopId q = sh_id (v_shop v)
    \<and> pt_status q = P_online \<and> can_produce (toProfile q) (j_specs j)
    \<and> (\<exists>a \<in> set (v_agents v). ag_status a = Ag_online \<and> pt_id q \<in> set (ag_connectedPrinterIds a))
    \<and> w = isNormalCounterRelease (j_status j) (lm_band (liveMetricsFromQueue (view_queue v) (j_id j)))
    \<and> (w \<or> override \<and> e_event (last (jobEvents d')) = ''COUNTER_QUEUE_OVERRIDE_RELEASE'')
    \<and> e_actor (last (jobEvents d')) = \<lparr>actorType = A_shop, actorId = Some staffId\<rparr>"
proof -
  obtain j p j0 w where W: "lookup_release digestOf verifyHash (sh_id (v_shop v)) otp (v_jobs v) = Some j"
    "w = isNormalCounterRelease (j_status j) (lm_band (liveMetricsFromQueue (view_queue v) (j_id j)))" "w \<or> override"
    "choose_printer (v_shop v) manual j (fst (recommendPrinter v (j_specs j) (j_pagesPerCopy j) (Some (j_id j))))
      (snd (recommendPrinter v (j_specs j) (j_pagesPerCopy j) (Some (j_id j)))) = Inr (Some p)"
    "payment_due j \<longrightarrow> payment \<noteq> None"
    "target (j_id j) (release_request j p staffId payment w now) d = Some j0"
    "rr_job r = Some (rewritten (release_request j p staffId payment w now) Otp_verified j0)"
    "d' = fst (dispatchJob now (rewritten (release_request j p staffId payment w now) Otp_verified j0) (Some (online_agents v))
      (v_agents v) (commit (j_id j) (release_request j p staffId payment w now) Otp_verified j0 d))"
    using release_won [OF assms(1-3)] by metis
  note L = lookup_release_in [OF W(1)]
  let ?r = "release_request j p staffId payment w now"
  let ?u = "rewritten ?r Otp_verified j0"
  have j0: "j0 \<in> set (jobs d)" "j_id j0 = j_id j" "j_status j0 = j_status j"
    using target_SomeD [OF W(6)] by simp_all
  obtain e where e: "e \<in> set (fst (recommendPrinter v (j_specs j) (j_pagesPerCopy j) (Some (j_id j))))" "rec_printerId e = p"
    using choose_printer_eligible [OF W(4) recommended_first] by blast
  have paid: "j_paymentStatus ?u = Paid"
  proof (cases "payment_due j")
    case True
    with W(5) obtain m ref where "payment = Some (m, ref)" by auto
    with True show ?thesis by (simp add: row_simps)
  next
    case False
    with payment_ready_due L(3) assms(4) j0 L(1) show ?thesis by (auto simp: row_simps)
  qed
  have amount: "payment_due j \<longrightarrow> payment \<noteq> None \<and> j_counterPaymentAmountPaise ?u = Some (j_totalPaise j)
      \<and> j_counterPaymentConfirmedById ?u = Some staffId"
    using W(5) by (auto simp: row_simps)
  have audit: "w \<or> override \<and> e_event (last (jobEvents d')) = ''COUNTER_QUEUE_OVERRIDE_RELEASE''"
      "e_actor (last (jobEvents d')) = \<lparr>actorType = A_shop, actorId = Some staffId\<rparr>"
    using W(3) by (cases w; simp add: W(8) commit_def mk_event_def)+
  obtain q where q: "q \<in> set (v_printers v)" "pt_id q = p" "pt_shopId q = sh_id (v_shop v)" "pt_status q = P_online"
      "can_produce (toProfile q) (j_specs j)" "\<exists>a \<in> set (v_agents v). ag_status a = Ag_online \<and> pt_id q \<in> set (ag_connectedPrinterIds a)"
    using eligible_reachable [OF e(1)] e(2) by metis
  have code: "j_releaseCodeDigest j = Some (digestOf (j_shopId j) otp) \<or> j_otpHash j \<noteq> None \<and> verifyHash (the (j_otpHash j)) otp"
    using L(5) by (simp add: L(2))
  have u: "j_id ?u = j_id j" "j_status ?u = Otp_verified" "j_assignedPrinterId ?u = Some (pt_id q)"
    by (simp_all add: j0 q(2) row_simps)
  show ?thesis
    by (intro exI [of _ j] exI [of _ ?u] exI [of _ q] exI [of _ w] conjI)
      (fact L(1) L(2) code W(7) u paid amount q audit W(2))+
qed


text \<open>An order paid in cash at the counter by a student who never checked in.\<close>

definition counter_job :: job where
  "counter_job = prepared_job\<lparr>j_releaseCodeDigest := Some ''s123456'', j_paymentProvider := Some ''pay_at_shop'',
    j_paymentStatus := Counter_due\<rparr>"

definition counter_release :: "release_result result \<times> db \<times> effect list" where
  "counter_release = releaseByOtp (\<lambda>s otp. s @ otp) (\<lambda>_ _. False) ''123456'' ''staff'' None True (Some (M_cash, None)) 2000
    (sample_view [counter_job]) \<lparr>jobs = [counter_job], jobEvents = [], outbox = [], paymentEvents = []\<rparr>"

lemma counter_release_ok: "case counter_release of (Inr r, _) \<Rightarrow> rr_ok r | _ \<Rightarrow> False"
  by code_simp

theorem counter_release_authorised_witness:
  "case counter_release of (Inr r, d', _) \<Rightarrow> (case rr_job r of Some u \<Rightarrow> j_status u = Otp_verified \<and> j_paymentStatus u = Paid | None \<Rightarrow> False) | _ \<Rightarrow> False"
proof -
  obtain r d' effs where c: "counter_release = (Inr r, d', effs)" "rr_ok r"
    using counter_release_ok by (auto split: sum.splits prod.splits)
  have u: "unique_ids \<lparr>jobs = [counter_job], jobEvents = [], outbox = [], paymentEvents = []\<rparr>" by (simp add: unique_ids_def)
  show ?thesis
    using counter_release_authorised [OF u c(1) [unfolded counter_release_def] c(2)]
    by (auto simp: c(1) sample_view_def)
qed


text \<open>The rows a release in progress may touch, and how.\<close>

definition disarmed :: "millis \<Rightarrow> job \<Rightarrow> job \<Rightarrow> bool" where
  "disarmed now x y = (y = x \<or> (j_status x = Queued \<or> j_status x = Notified)
    \<and> y = x\<lparr>j_revealDeadlineAt := None, j_updatedAt := now\<rparr>)"

lemma disarm_rows:
  "list_all2 (disarmed now) (jobs d) (jobs (fst (disarmAbsentTimer now j shopId d)))"
  "jobEvents (fst (disarmAbsentTimer now j shopId d)) = jobEvents d"
  "outbox (fst (disarmAbsentTimer now j shopId d)) = outbox d"
  "paymentEvents (fst (disarmAbsentTimer now j shopId d)) = paymentEvents d"
  by (auto simp: disarmAbsentTimer_def Let_def disarmed_def list_all2_conv_all_nth update_where_def)

lemma release_incomplete:
  assumes "unique_ids d" "releaseByOtp digestOf verifyHash otp staffId manual override payment now v d = (res, d', effs)"
    "\<not> (case res of Inr r \<Rightarrow> rr_ok r | _ \<Rightarrow> False)"
  shows "d' = d \<or> (\<exists>j. d' = fst (disarmAbsentTimer now j (sh_id (v_shop v)) d))"
proof (cases "lookup_release digestOf verifyHash (sh_id (v_shop v)) otp (v_jobs v)")
  case None
  then show ?thesis using assms(2) by (simp add: releaseByOtp_def)
next
  case (Some j)
  define w where "w = isNormalCounterRelease (j_status j) (lm_band (liveMetricsFromQueue (view_queue v) (j_id j)))"
  obtain el rc where ec: "recommendPrinter v (j_specs j) (j_pagesPerCopy j) (Some (j_id j)) = (el, rc)" by fastforce
  note R = assms(2)[unfolded releaseByOtp_def Let_def Some option.case w_def [symmetric] ec prod.case]
  let ?a = "\<lambda>p. applyTransition (j_id j) (release_request j p staffId payment w now) d"
  obtain dd de where dis: "disarmAbsentTimer now j (sh_id (v_shop v)) d = (dd, de)" by fastforce
  have "d' = d \<or> d' = dd"
  proof (cases "choose_printer (v_shop v) manual j el rc")
    case (Inl e)
    with R dis show ?thesis by (auto split: if_splits)
  next
    case (Inr po)
    show ?thesis
    proof (cases po)
      case None
      with Inr R dis show ?thesis by (auto split: if_splits)
    next
      case (Some p)
      note ch = Inr [unfolded Some]
      show ?thesis
      proof (cases "?a p")
        case (Inl e)
        with ch R dis show ?thesis by (auto split: if_splits)
      next
        case (Inr ud)
        then obtain uo d1 where a: "?a p = Inr (uo, d1)" by (cases ud) simp
        show ?thesis
        proof (cases uo)
          case None
          with a applyTransition_lost [OF assms(1) release_request_wf] have "d1 = d" by blast
          with None a ch R dis show ?thesis by (auto split: if_splits option.splits)
        next
          case (Some u)
          with a ch R dis assms(3) show ?thesis by (auto split: if_splits prod.splits)
        qed
      qed
    qed
  qed
  with dis show ?thesis by (metis fst_conv)
qed

text \<open>
  A release that does not complete changes no order: whatever refusal or question it answers with (code
  unknown, queue override, printer choice or payment confirmation wanted, a lost race), no status, payment
  or assignment changes and nothing is recorded in the audit log, the outbox or the payment events; the only
  write is that a waiting student's absent timer is disarmed.
\<close>

theorem incomplete_release_disarms_only:
  assumes "unique_ids d" "releaseByOtp digestOf verifyHash otp staffId manual override payment now v d = (res, d', effs)"
    "\<not> (case res of Inr r \<Rightarrow> rr_ok r | _ \<Rightarrow> False)"
  shows "list_all2 (disarmed now) (jobs d) (jobs d') \<and> jobEvents d' = jobEvents d \<and> outbox d' = outbox d
    \<and> paymentEvents d' = paymentEvents d"
proof -
  have "list_all2 (disarmed now) (jobs d) (jobs d)" by (simp add: disarmed_def list.rel_refl)
  with release_incomplete [OF assms] show ?thesis by (auto simp: disarm_rows)
qed

theorem incomplete_release_disarms_only_witness:
  "case releaseByOtp (\<lambda>s otp. s @ otp) (\<lambda>_ _. False) ''123456'' ''staff'' None True None 2000
      (sample_view [counter_job]) \<lparr>jobs = [counter_job], jobEvents = [], outbox = [], paymentEvents = []\<rparr> of
     (Inr r, d', _) \<Rightarrow> rr_requiresPaymentConfirmation r \<and> list_all2 (disarmed 2000) [counter_job] (jobs d') | _ \<Rightarrow> False"
proof -
  let ?d = "\<lparr>jobs = [counter_job], jobEvents = [], outbox = [], paymentEvents = []\<rparr>"
  let ?call = "releaseByOtp (\<lambda>s otp. s @ otp) (\<lambda>_ _. False) ''123456'' ''staff'' None True None 2000 (sample_view [counter_job]) ?d"
  have q: "case fst ?call of Inr r \<Rightarrow> \<not> rr_ok r \<and> rr_requiresPaymentConfirmation r | _ \<Rightarrow> False"
    by code_simp
  obtain r d' effs where c: "?call = (Inr r, d', effs)" "\<not> rr_ok r" "rr_requiresPaymentConfirmation r"
    using q by (cases ?call) (auto split: sum.splits)
  have u: "unique_ids ?d" by (simp add: unique_ids_def)
  show ?thesis
    using incomplete_release_disarms_only [OF u c(1)] c by simp
qed

end
