(* ===== verification/Assignment_Laws.thy ===== *)
theory Assignment_Laws
  imports Assignment
begin

text \<open>What choosing a printer guarantees, and how the order form's capability check relates to it.\<close>

lemma rank_mset:
  "mset (fst (rankPrinters ps specs n queued)) = mset (map (recommend specs n queued) (filter (\<lambda>p. printerMatchesSpecs p specs) ps))"
  by (simp add: rankPrinters_def Let_def)

lemma rank_sorted: "sorted (map (\<lambda>r. (rec_wait r, rec_queueLength r)) (fst (rankPrinters ps specs n queued)))"
  by (simp add: rankPrinters_def Let_def)

text \<open>
  C12. The printer assigned is the best one that can do the work: the eligible list holds exactly one entry
  for every online printer whose paper, colour and finishing fit the order, in ascending order of waiting
  time and then of queue length; a recommendation exists exactly when some printer is eligible, and then
  nothing eligible is strictly better; its waiting time is the least whole number of minutes in which the
  printer gets through its queue and the new order; and the order form never refuses (as impossible for the
  shop) what some printer of the shop could be assigned.
\<close>

theorem assignment_best:
  assumes "p \<in> set ps" "printerMatchesSpecs p specs"
  shows "\<exists>r. snd (rankPrinters ps specs n queued) = Some r
    \<and> r \<in> recommend specs n queued ` {q \<in> set ps. pr_status q = P_online \<and> can_produce q specs}
    \<and> (rec_wait r, rec_queueLength r) \<le> (rec_wait (recommend specs n queued p), rec_queueLength (recommend specs n queued p))
    \<and> mset (fst (rankPrinters ps specs n queued))
        = mset (map (recommend specs n queued) (filter (\<lambda>p. printerMatchesSpecs p specs) ps))
    \<and> sorted (map (\<lambda>r. (rec_wait r, rec_queueLength r)) (fst (rankPrinters ps specs n queued)))
    \<and> rec_wait (recommend specs n queued p) = \<lceil>of_int ((\<Sum>j\<leftarrow>filter (\<lambda>j. ql_assignedPrinterId j = Some (pr_id p)) queued.
        ql_pages j * ql_copies j) + n * copies specs) / of_int (max (avgPagesPerMinute p) 1) :: real\<rceil>
    \<and> unsupportedSpecs ps specs = []"
proof -
  have e: "recommend specs n queued p \<in> set (fst (rankPrinters ps specs n queued))"
    using assms by (auto simp: rank_eligible_set)
  obtain r where r: "snd (rankPrinters ps specs n queued) = Some r"
    using assms rank_none_iff [of ps specs n queued] by fastforce
  note m = rank_recommended_min [OF r]
  have "r \<in> recommend specs n queued ` {q \<in> set ps. pr_status q = P_online \<and> can_produce q specs}"
    using m by (auto simp: rank_eligible_set matches_can_produce)
  moreover have "unsupportedSpecs ps specs = []"
    using assms by (auto simp: unsupported_nil_iff matches_can_produce)
  moreover have "rec_wait (recommend specs n queued p) = \<lceil>of_int ((\<Sum>j\<leftarrow>filter (\<lambda>j. ql_assignedPrinterId j = Some (pr_id p)) queued.
      ql_pages j * ql_copies j) + n * copies specs) / of_int (max (avgPagesPerMinute p) 1) :: real\<rceil>"
    by (simp add: recommend_def Let_def fold_sum_list ceil_div_ceiling)
  ultimately show ?thesis
    using r m e rank_mset rank_sorted by blast
qed

theorem assignment_best_witness:
  "\<exists>r. snd (rankPrinters [toProfile (sample_printer ''p'')] sample_specs 3 []) = Some r"
  using assignment_best [of "toProfile (sample_printer ''p'')" "[toProfile (sample_printer ''p'')]" sample_specs 3 "[]"]
  by (auto simp: printerMatchesSpecs_def toProfile_def sample_printer_def sample_specs_def)

end
