(* ===== verification/Fee_Store.thy ===== *)
theory Fee_Store
  imports Transitions Shop_Types
begin

text \<open>
  The tables of the platform fee (apps/api/prisma/schema.prisma: ShopCommissionEntry,
  ShopCommissionStatement, ShopCommissionStatementLine, ShopFeePayment, ShopFeeAllocation, ShopFeeNotice,
  ShopFeeEvent) and modules/fees/feeConfig.ts. What a shop owes is a ledger of immutable entries; once a
  week the entries without a statement are frozen into one; a payment is allocated to statements. The ids
  of new rows, random in the code, are arguments of the operations. The provider and the two periods of
  the environment are the record \<open>fee_env\<close>.
\<close>

datatype entry_type = Print_commission | Refund_credit | Manual_credit | Statement_settlement

datatype statement_status = St_draft | St_frozen | St_notice_sent | St_debit_pending | St_settled | St_failed | St_paused

datatype fee_status = Fp_created | Fp_attempted | Fp_failed | Fp_paid | Fp_expired

record entry_row =
  en_id :: id
  en_shopId :: id
  en_jobId :: "id option"
  en_type :: entry_type
  en_amountPaise :: paise
  en_shopFundedDiscountPaise :: paise
  en_feePaymentId :: "id option"
  en_createdAt :: millis

record statement_row =
  st_id :: id
  st_shopId :: id
  st_periodStart :: millis
  st_periodEnd :: millis
  st_grossCommissionPaise :: paise
  st_creditPaise :: paise
  st_amountDuePaise :: paise
  st_status :: statement_status
  st_frozenAt :: "millis option"
  st_dueAt :: "millis option"
  st_paidPaise :: paise
  st_settledAt :: "millis option"

record line_row =
  ln_statementId :: id
  ln_entryId :: id
  ln_amountPaise :: paise

record fee_payment_row =
  fp_id :: id
  fp_shopId :: id
  fp_provider :: string
  fp_providerOrderId :: id
  fp_amountPaise :: paise
  fp_currency :: string
  fp_status :: fee_status
  fp_providerPaymentId :: "id option"
  fp_requestedById :: "id option"
  fp_expiresAt :: millis
  fp_paidAt :: "millis option"
  fp_failedAt :: "millis option"
  fp_failureReason :: "string option"
  fp_unallocatedPaise :: paise
  fp_lastCheckedAt :: "millis option"
  fp_createdAt :: millis

record allocation_row =
  al_paymentId :: id
  al_statementId :: id
  al_amountPaise :: paise

record fee_event_row =
  fe_shopId :: id
  fe_kind :: string
  fe_subject :: id

record notice_row =
  nt_shopId :: id
  nt_statementId :: "id option"
  nt_kind :: string
  nt_dedupeKey :: string

record fee_db =
  f_shops :: "shop_row list"
  f_entries :: "entry_row list"
  f_statements :: "statement_row list"
  f_lines :: "line_row list"
  f_payments :: "fee_payment_row list"
  f_allocations :: "allocation_row list"
  f_events :: "fee_event_row list"
  f_notices :: "notice_row list"

subsection \<open>feeConfig.ts\<close>

record fee_env =
  provider_name :: "string option"
  FEE_PAYMENT_TERMS_DAYS :: int
  FEE_OVERDUE_BLOCK_AFTER_DAYS :: int

definition DAY_MS :: millis where "DAY_MS = 86400000"
definition FEE_ORDER_TTL_MS :: millis where "FEE_ORDER_TTL_MS = 60 * 60000"
definition FEE_RECONCILE_AFTER_MS :: millis where "FEE_RECONCILE_AFTER_MS = 15 * 60000"
definition FEE_RECONCILE_MAX_AGE_MS :: millis where "FEE_RECONCILE_MAX_AGE_MS = 48 * 60 * 60000"
definition FEE_DUE_SOON_MS :: millis where "FEE_DUE_SOON_MS = 2 * DAY_MS"

definition UNPAID_STATEMENT_STATUSES :: "statement_status list" where
  "UNPAID_STATEMENT_STATUSES = [St_frozen, St_notice_sent, St_debit_pending, St_failed, St_paused]"

definition feePaymentsEnabled :: "fee_env \<Rightarrow> bool" where
  "feePaymentsEnabled env = (provider_name env \<noteq> None)"

definition dueAtFor :: "fee_env \<Rightarrow> millis \<Rightarrow> millis" where
  "dueAtFor env frozenAt = frozenAt + FEE_PAYMENT_TERMS_DAYS env * DAY_MS"

definition blockAtFor :: "fee_env \<Rightarrow> millis \<Rightarrow> millis" where
  "blockAtFor env dueAt = dueAt + FEE_OVERDUE_BLOCK_AFTER_DAYS env * DAY_MS"

text \<open>\<open>Math.ceil(terms * 4 / 7)\<close> of an integer.\<close>

definition reminderAtFor :: "fee_env \<Rightarrow> millis \<Rightarrow> millis" where
  "reminderAtFor env dueAt = dueAt - (- ((- (FEE_PAYMENT_TERMS_DAYS env * 4)) div 7)) * DAY_MS"

definition finalWarningAtFor :: "millis \<Rightarrow> millis" where
  "finalWarningAtFor dueAt = dueAt - DAY_MS"

definition statementReadyAtFor :: "fee_env \<Rightarrow> millis \<Rightarrow> millis" where
  "statementReadyAtFor env dueAt = dueAt - FEE_PAYMENT_TERMS_DAYS env * DAY_MS"

text \<open>The bounds that the environment's schema imposes.\<close>

definition env_ok :: "fee_env \<Rightarrow> bool" where
  "env_ok env = (1 \<le> FEE_PAYMENT_TERMS_DAYS env \<and> FEE_PAYMENT_TERMS_DAYS env \<le> 30
    \<and> 0 \<le> FEE_OVERDUE_BLOCK_AFTER_DAYS env \<and> FEE_OVERDUE_BLOCK_AFTER_DAYS env \<le> 30)"

subsection \<open>Queries\<close>

text \<open>\<open>aggregate({where, _sum})\<close>; no row gives null, which the callers replace by 0.\<close>

definition sum_where :: "('r \<Rightarrow> bool) \<Rightarrow> ('r \<Rightarrow> int) \<Rightarrow> 'r list \<Rightarrow> int" where
  "sum_where p f rows = sum_list (map f (filter p rows))"

lemma sum_where_if: "sum_where p f rows = sum_list (map (\<lambda>r. if p r then f r else 0) rows)"
  by (induction rows) (simp_all add: sum_where_def)

lemma sum_where_append [simp]: "sum_where p f (xs @ ys) = sum_where p f xs + sum_where p f ys"
  by (simp add: sum_where_def)

lemma sum_where_single [simp]: "sum_where p f [x] = (if p x then f x else 0)"
  by (simp add: sum_where_def)

lemma sum_where_Nil [simp]: "sum_where p f [] = 0"
  by (simp add: sum_where_def)

lemma sum_where_Cons [simp]: "sum_where p f (x # xs) = (if p x then f x else 0) + sum_where p f xs"
  by (simp add: sum_where_def)

lemma sum_where_cong:
  "(\<And>x. x \<in> set xs \<Longrightarrow> p x = q x) \<Longrightarrow> (\<And>x. x \<in> set xs \<Longrightarrow> p x \<Longrightarrow> f x = g x) \<Longrightarrow> sum_where p f xs = sum_where q g xs"
  by (induction xs) auto

lemma sum_where_nonneg: "(\<And>x. x \<in> set xs \<Longrightarrow> p x \<Longrightarrow> 0 \<le> f x) \<Longrightarrow> 0 \<le> sum_where p f xs"
  by (induction xs) auto

lemma sum_where_update_key:
  assumes "distinct (map key rows)" "r \<in> set rows"
  shows "sum_where p f (update_where (\<lambda>x. key x = key r) u rows)
    = sum_where p f rows + ((if p (u r) then f (u r) else 0) - (if p r then f r else 0))"
  unfolding sum_where_if by (rule sum_list_update_key [OF assms])

lemma sum_where_split: "sum_where p f xs = sum_where (\<lambda>x. p x \<and> q x) f xs + sum_where (\<lambda>x. p x \<and> \<not> q x) f xs"
  by (induction xs) auto

end
