(* ===== verification/Fee_Account.thy ===== *)
theory Fee_Account
  imports Fee_Store
begin

text \<open>
  modules/fees/account.ts: what a shop owes, and the use of an earlier overpayment for a new statement.
\<close>

datatype fee_state = Fs_paid_up | Fs_due | Fs_overdue | Fs_blocked
datatype view_status = Vs_paid | Vs_unpaid | Vs_overdue
datatype fee_banner = B_due_soon | B_overdue | B_blocked

record statement_view =
  sv_id :: id
  sv_periodStart :: millis
  sv_periodEnd :: millis
  sv_ordersCount :: int
  sv_amountPaise :: paise
  sv_paidPaise :: paise
  sv_outstandingPaise :: paise
  sv_dueAt :: "millis option"
  sv_frozenAt :: "millis option"
  sv_settledAt :: "millis option"
  sv_status :: view_status

record fee_account =
  fa_totalDuePaise :: paise
  fa_statementsDuePaise :: paise
  fa_accruedPaise :: paise
  fa_nextDueAt :: "millis option"
  fa_state :: fee_state
  fa_banner :: "fee_banner option"
  fa_blockedAt :: "millis option"
  fa_statements :: "statement_view list"

subsection \<open>The queries\<close>

definition is_unpaid :: "id \<Rightarrow> statement_row \<Rightarrow> bool" where
  "is_unpaid shopId s = (st_shopId s = shopId \<and> st_status s \<in> set UNPAID_STATEMENT_STATUSES \<and> st_amountDuePaise s > 0)"

definition unpaid_statements :: "id \<Rightarrow> fee_db \<Rightarrow> statement_row list" where
  "unpaid_statements shopId fd = sort_key (\<lambda>s. (st_periodEnd s, st_id s)) (filter (is_unpaid shopId) (f_statements fd))"

definition settled_statements :: "id \<Rightarrow> fee_db \<Rightarrow> statement_row list" where
  "settled_statements shopId fd = take 12 (sort_key (\<lambda>s. - st_periodEnd s)
    (filter (\<lambda>s. st_shopId s = shopId \<and> st_status s = St_settled \<and> st_amountDuePaise s > 0) (f_statements fd)))"

definition has_line :: "fee_db \<Rightarrow> entry_row \<Rightarrow> bool" where
  "has_line fd e = (en_id e \<in> ln_entryId ` set (f_lines fd))"

definition is_accrued :: "id \<Rightarrow> fee_db \<Rightarrow> entry_row \<Rightarrow> bool" where
  "is_accrued shopId fd e = (en_shopId e = shopId \<and> en_type e \<in> {Print_commission, Refund_credit, Manual_credit}
    \<and> \<not> has_line fd e)"

definition accrued_sum :: "id \<Rightarrow> fee_db \<Rightarrow> paise" where
  "accrued_sum shopId fd = sum_where (is_accrued shopId fd) en_amountPaise (f_entries fd)"

definition is_paid :: "id \<Rightarrow> fee_payment_row \<Rightarrow> bool" where
  "is_paid shopId p = (fp_shopId p = shopId \<and> fp_status p = Fp_paid)"

definition prepaid_sum :: "id \<Rightarrow> fee_db \<Rightarrow> paise" where
  "prepaid_sum shopId fd = sum_where (is_paid shopId) fp_unallocatedPaise (f_payments fd)"

text \<open>The number of orders of a statement: its lines that point to a print commission.\<close>

definition orders_count :: "fee_db \<Rightarrow> id \<Rightarrow> int" where
  "orders_count fd statementId = int (count_where (\<lambda>l. ln_statementId l = statementId
    \<and> list_ex (\<lambda>e. en_id e = ln_entryId l \<and> en_type e = Print_commission) (f_entries fd)) (f_lines fd))"

definition outstanding :: "statement_row \<Rightarrow> paise" where
  "outstanding s = max 0 (st_amountDuePaise s - st_paidPaise s)"

definition view :: "fee_db \<Rightarrow> millis \<Rightarrow> statement_row \<Rightarrow> statement_view" where
  "view fd now s =
    (let outstandingPaise = outstanding s;
         isPaid = (outstandingPaise = 0);
         overdue = (\<not> isPaid \<and> (case st_dueAt s of None \<Rightarrow> False | Some t \<Rightarrow> t \<le> now))
     in \<lparr>sv_id = st_id s, sv_periodStart = st_periodStart s, sv_periodEnd = st_periodEnd s,
         sv_ordersCount = orders_count fd (st_id s), sv_amountPaise = st_amountDuePaise s, sv_paidPaise = st_paidPaise s,
         sv_outstandingPaise = outstandingPaise, sv_dueAt = st_dueAt s, sv_frozenAt = st_frozenAt s,
         sv_settledAt = st_settledAt s, sv_status = (if isPaid then Vs_paid else if overdue then Vs_overdue else Vs_unpaid)\<rparr>)"

definition min_of :: "millis list \<Rightarrow> millis option" where
  "min_of ts = (case ts of [] \<Rightarrow> None | t # ts' \<Rightarrow> Some (fold min ts' t))"

definition find_shop :: "id \<Rightarrow> fee_db \<Rightarrow> shop_row option" where
  "find_shop shopId fd = find (\<lambda>s. sh_id s = shopId) (f_shops fd)"

definition computeFeeAccount :: "id \<Rightarrow> millis \<Rightarrow> fee_db \<Rightarrow> fee_account" where
  "computeFeeAccount shopId now fd =
    (let statements = unpaid_statements shopId fd @ settled_statements shopId fd;
         views = sort_key (\<lambda>w. - sv_periodEnd w) (map (view fd now) statements);
         statementsDuePaise = fold (\<lambda>w sum. sum + sv_outstandingPaise w) views 0;
         accruedPaise = max 0 (accrued_sum shopId fd - prepaid_sum shopId fd);
         totalDuePaise = statementsDuePaise + accruedPaise;
         dueDates = map (\<lambda>w. the (sv_dueAt w)) (filter (\<lambda>w. sv_outstandingPaise w > 0 \<and> sv_dueAt w \<noteq> None) views);
         nextDueAt = min_of dueDates;
         overdue = list_ex (\<lambda>w. sv_status w = Vs_overdue) views;
         blockedAt = (case find_shop shopId fd of None \<Rightarrow> None | Some s \<Rightarrow> sh_feeBlockedAt s);
         state = (if blockedAt \<noteq> None then Fs_blocked else if overdue then Fs_overdue
           else if totalDuePaise > 0 then Fs_due else Fs_paid_up);
         dueSoon = (statementsDuePaise > 0 \<and> (case nextDueAt of None \<Rightarrow> False | Some t \<Rightarrow> t - now \<le> FEE_DUE_SOON_MS));
         banner = (if state = Fs_blocked then Some B_blocked else if state = Fs_overdue then Some B_overdue
           else if dueSoon then Some B_due_soon else None)
     in \<lparr>fa_totalDuePaise = totalDuePaise, fa_statementsDuePaise = statementsDuePaise, fa_accruedPaise = accruedPaise,
         fa_nextDueAt = nextDueAt, fa_state = state, fa_banner = banner, fa_blockedAt = blockedAt, fa_statements = views\<rparr>)"

subsection \<open>Using an overpayment\<close>

text \<open>The loop over the payments with something left, oldest first; its result is what was applied.\<close>

fun prepaid_loop :: "id \<Rightarrow> paise \<Rightarrow> paise \<Rightarrow> fee_payment_row list \<Rightarrow> fee_db \<Rightarrow> paise \<times> fee_db" where
  "prepaid_loop statementId remaining applied [] fd = (applied, fd)"
| "prepaid_loop statementId remaining applied (p # ps) fd =
    (if remaining \<le> 0 then (applied, fd)
     else let amount = min remaining (fp_unallocatedPaise p);
              fd1 = fd\<lparr>f_payments := update_where (\<lambda>x. fp_id x = fp_id p)
                (\<lambda>x. x\<lparr>fp_unallocatedPaise := fp_unallocatedPaise x - amount\<rparr>) (f_payments fd)\<rparr>;
              fd2 = fd1\<lparr>f_allocations := f_allocations fd1 @ [\<lparr>al_paymentId = fp_id p, al_statementId = statementId, al_amountPaise = amount\<rparr>]\<rparr>
          in prepaid_loop statementId (remaining - amount) (applied + amount) ps fd2)"

text \<open>A null \<open>paidAt\<close> sorts last, as in PostgreSQL.\<close>

definition paid_key :: "fee_payment_row \<Rightarrow> (bool \<times> millis) \<times> id" where
  "paid_key p = ((fp_paidAt p = None, case fp_paidAt p of None \<Rightarrow> 0 | Some t \<Rightarrow> t), fp_id p)"

definition applyPrepaidToStatement :: "id \<Rightarrow> id \<Rightarrow> paise \<Rightarrow> fee_db \<Rightarrow> paise \<times> fee_db" where
  "applyPrepaidToStatement shopId statementId amountDuePaise fd =
    (if amountDuePaise \<le> 0 then (0, fd)
     else prepaid_loop statementId amountDuePaise 0
       (sort_key paid_key (filter (\<lambda>p. is_paid shopId p \<and> fp_unallocatedPaise p > 0) (f_payments fd))) fd)"

end
