(* ===== verification/Js_Text.thy ===== *)
theory Js_Text
  imports Prelude
begin

text \<open>
  The string functions of JavaScript that the modelled code uses, on the characters 0 to 255: \<open>trim\<close>,
  \<open>split\<close> with a one-character separator, decimal digits, \<open>Number\<close> of a string of digits and the printing
  of a number. A number is an integer; the code compares only numbers below \<open>MAX_SAFE_INTEGER\<close>, and the
  rounding of a larger one is monotone, so no comparison of the code sees it.
\<close>

definition code_of :: "char \<Rightarrow> int" where
  "code_of c = of_char c"

definition is_digit :: "char \<Rightarrow> bool" where
  "is_digit c = (48 \<le> code_of c \<and> code_of c \<le> 57)"

text \<open>White space: tab, line feed, vertical tab, form feed, carriage return, space, no-break space.\<close>

definition is_space :: "char \<Rightarrow> bool" where
  "is_space c = ((9 \<le> code_of c \<and> code_of c \<le> 13) \<or> code_of c = 32 \<or> code_of c = 160)"

definition trim :: "string \<Rightarrow> string" where
  "trim s = rev (dropWhile is_space (rev (dropWhile is_space s)))"

fun split_on :: "char \<Rightarrow> string \<Rightarrow> string list" where
  "split_on d [] = [[]]"
| "split_on d (c # cs) = (if c = d then [] # split_on d cs
    else case split_on d cs of [] \<Rightarrow> [[c]] | w # ws \<Rightarrow> (c # w) # ws)"

fun join_with :: "char \<Rightarrow> string list \<Rightarrow> string" where
  "join_with d [] = []"
| "join_with d [w] = w"
| "join_with d (w # ws) = w @ d # join_with d ws"

text \<open>\<open>Number\<close> of a string of digits.\<close>

definition to_number :: "string \<Rightarrow> int" where
  "to_number s = fold (\<lambda>c a. a * 10 + (code_of c - 48)) s 0"

definition digit_char :: "nat \<Rightarrow> char" where
  "digit_char d = char_of (48 + d)"

function show_nat :: "nat \<Rightarrow> string" where
  "show_nat n = (if n < 10 then [digit_char n] else show_nat (n div 10) @ [digit_char (n mod 10)])"
  by auto
termination by (relation "measure id") auto

declare show_nat.simps [simp del]

definition show_int :: "int \<Rightarrow> string" where
  "show_int i = (if i < 0 then CHR ''-'' # show_nat (nat (- i)) else show_nat (nat i))"

text \<open>
  \<open>toUpperCase\<close>: the letters of ASCII and Latin-1; sharp s becomes two letters. The capitals of the micro sign and
  of y with diaeresis lie outside the 256 characters and are left as they are.
\<close>

definition upper_char :: "char \<Rightarrow> string" where
  "upper_char c = (let n = code_of c in
    if (97 \<le> n \<and> n \<le> 122) \<or> (224 \<le> n \<and> n \<le> 254 \<and> n \<noteq> 247) then [char_of (nat (n - 32))]
    else if n = 223 then ''SS'' else [c])"

text \<open>\<open>toLowerCase\<close>.\<close>

definition lower_char :: "char \<Rightarrow> char" where
  "lower_char c = (let n = code_of c in
    if (65 \<le> n \<and> n \<le> 90) \<or> (192 \<le> n \<and> n \<le> 222 \<and> n \<noteq> 215) then char_of (nat (n + 32)) else c)"

definition lower_case :: "string \<Rightarrow> string" where
  "lower_case s = map lower_char s"

definition to_upper :: "string \<Rightarrow> string" where
  "to_upper s = concat (map upper_char s)"

subsection \<open>Facts\<close>

lemma digit_char_facts:
  assumes "d < 10"
  shows "is_digit (digit_char d)" "code_of (digit_char d) - 48 = int d"
proof -
  have "of_char (digit_char d) = (48 + d) mod 256"
    by (simp add: digit_char_def)
  then have "of_char (digit_char d) = 48 + d" using assms by simp
  then have "code_of (digit_char d) = 48 + int d"
    unfolding code_of_def by (metis of_nat_add of_nat_numeral of_nat_of_char)
  then show "is_digit (digit_char d)" "code_of (digit_char d) - 48 = int d"
    using assms by (simp_all add: is_digit_def)
qed

lemma to_number_snoc: "to_number (s @ [c]) = to_number s * 10 + (code_of c - 48)"
  by (simp add: to_number_def)

lemma show_nat_facts: "to_number (show_nat n) = int n" "list_all is_digit (show_nat n)" "show_nat n \<noteq> []"
proof (induction n rule: show_nat.induct)
  case (1 n)
  {
    case 1
    show ?case
    proof (cases "n < 10")
      case True
      then show ?thesis by (subst show_nat.simps) (simp add: to_number_def digit_char_facts)
    next
      case False
      have "to_number (show_nat n) = int (n div 10) * 10 + int (n mod 10)"
        by (subst show_nat.simps) (simp add: False to_number_snoc digit_char_facts "1.IH"(1) [OF False])
      also have "\<dots> = int (n div 10 * 10 + n mod 10)" by (simp only: of_nat_add of_nat_mult of_nat_numeral)
      finally show ?thesis by simp
    qed
  next
    case 2
    show ?case by (subst show_nat.simps) (auto simp: digit_char_facts "1.IH"(2))
  next
    case 3
    show ?case by (subst show_nat.simps) simp
  }
qed

lemma show_int_facts:
  assumes "0 \<le> i"
  shows "to_number (show_int i) = i" "list_all is_digit (show_int i)" "show_int i \<noteq> []"
  using assms show_nat_facts [of "nat i"] by (simp_all add: show_int_def)

lemma digit_not: "is_digit c \<Longrightarrow> \<not> is_space c" "is_digit c \<Longrightarrow> c \<noteq> CHR '',''" "is_digit c \<Longrightarrow> c \<noteq> CHR ''-''"
  by (auto simp: is_digit_def is_space_def code_of_def)

lemma trim_none: "s = [] \<or> \<not> is_space (hd s) \<and> \<not> is_space (last s) \<Longrightarrow> trim s = s"
proof (cases s)
  case (Cons c cs)
  assume "s = [] \<or> \<not> is_space (hd s) \<and> \<not> is_space (last s)"
  then have "\<not> is_space c" "\<not> is_space (last s)" using Cons by simp_all
  then have "dropWhile is_space s = s" "dropWhile is_space (rev s) = rev s"
    using Cons by (simp, metis dropWhile_eq_self_iff hd_rev)
  then show ?thesis by (simp add: trim_def)
qed (simp add: trim_def)

lemma split_on_none: "d \<notin> set s \<Longrightarrow> split_on d s = [s]"
  by (induction s) auto

lemma split_on_append: "d \<notin> set w \<Longrightarrow> split_on d (w @ d # s) = w # split_on d s"
  by (induction w) auto

lemma split_join: "ws \<noteq> [] \<Longrightarrow> \<forall>w \<in> set ws. d \<notin> set w \<Longrightarrow> split_on d (join_with d ws) = ws"
  by (induction d ws rule: join_with.induct) (auto simp: split_on_none split_on_append)

lemma split_on_not_Nil [simp]: "split_on d s \<noteq> []"
  by (induction s) (auto split: list.splits)

end
