(* ===== verification/Js_Value.thy ===== *)
theory Js_Value
  imports Js_Text
begin

text \<open>
  JSON values as the code receives them: a number is an integer or something that is not one (\<open>JFrac\<close>); an
  object is an association list, a later duplicate key wins as in \<open>JSON.parse\<close>. A field that is absent is
  None, one that is null is \<open>Some JNull\<close>.
\<close>

datatype json = JNull | JBool bool | JInt int | JFrac | JStr string | JArr "json list" | JObj "(string \<times> json) list"

definition MAX_SAFE_INTEGER :: int where "MAX_SAFE_INTEGER = 9007199254740991"

definition field :: "string \<Rightarrow> (string \<times> json) list option \<Rightarrow> json option" where
  "field k ob = (case ob of None \<Rightarrow> None | Some kvs \<Rightarrow> map_of (rev kvs) k)"

definition as_string :: "json option \<Rightarrow> string option" where
  "as_string v = (case v of Some (JStr s) \<Rightarrow> Some s | _ \<Rightarrow> None)"

definition is_alnum :: "char \<Rightarrow> bool" where
  "is_alnum c = (let n = of_char c :: nat in (48 \<le> n \<and> n \<le> 57) \<or> (65 \<le> n \<and> n \<le> 90) \<or> (97 \<le> n \<and> n \<le> 122))"

text \<open>\<open>Number.isSafeInteger(v) && v >= 0\<close>, with the number.\<close>

definition safe_nonneg :: "json option \<Rightarrow> int option" where
  "safe_nonneg v = (case v of Some (JInt n) \<Rightarrow> if 0 \<le> n \<and> n \<le> MAX_SAFE_INTEGER then Some n else None | _ \<Rightarrow> None)"

lemma field_append [simp]: "field k (Some (xs @ ys)) = (case field k (Some ys) of None \<Rightarrow> field k (Some xs) | Some v \<Rightarrow> Some v)"
  by (cases "map_of (rev ys) k") (simp_all add: field_def map_add_def)

lemma field_Nil [simp]: "field k (Some []) = None"
  by (simp add: field_def)

lemma field_one: "field k (Some [(k', v)]) = (if k = k' then Some v else None)"
  by (simp add: field_def)

lemma as_string_simps [simp]: "as_string (Some (JStr s)) = Some s" "as_string None = None"
  by (simp_all add: as_string_def)

end
