(* ===== verification/Commission.thy ===== *)
theory Commission
  imports Fee_Account Js_Value
begin

text \<open>
  modules/commission: the commission of a confirmed print (service.ts), the amounts of a statement
  (statements.ts), the weekly freeze (statementService.ts), and the refund credit of a support-confirmed
  counter refund (modules/admin/routes.ts).
\<close>

subsection \<open>service.ts\<close>

definition POST_PRINT_STATUSES :: "job_status list" where
  "POST_PRINT_STATUSES = [Finishing, Ready_for_pickup, Completed]"

record commission_snapshot =
  cs_commissionPaise :: paise
  cs_shopFundedDiscountPaise :: paise

definition deriveCommissionSnapshot :: "paise \<Rightarrow> paise \<Rightarrow> commission_snapshot result" where
  "deriveCommissionSnapshot totalPaise shopBasePaise =
    (if totalPaise < 0 \<or> shopBasePaise < 0 then Inl (Thrown ''RangeError'')
     else let net = totalPaise - shopBasePaise in
       Inr (if net \<ge> 0 then \<lparr>cs_commissionPaise = net, cs_shopFundedDiscountPaise = 0\<rparr>
         else \<lparr>cs_commissionPaise = 0, cs_shopFundedDiscountPaise = - net\<rparr>))"

definition commission_payable :: "job \<Rightarrow> bool" where
  "commission_payable j = (j_paymentProvider j = Some ''pay_at_shop'' \<and> j_paymentStatus j = Paid
    \<and> j_counterPaymentConfirmedAt j \<noteq> None \<and> j_printConfirmedAt j \<noteq> None \<and> j_status j \<in> set POST_PRINT_STATUSES)"

definition commission_entry :: "id \<Rightarrow> millis \<Rightarrow> job \<Rightarrow> commission_snapshot \<Rightarrow> entry_row" where
  "commission_entry newId now j snapshot = \<lparr>en_id = newId, en_shopId = j_shopId j, en_jobId = Some (j_id j),
    en_type = Print_commission, en_amountPaise = cs_commissionPaise snapshot,
    en_shopFundedDiscountPaise = cs_shopFundedDiscountPaise snapshot, en_feePaymentId = None, en_createdAt = now\<rparr>"

definition has_entry :: "id \<Rightarrow> entry_type \<Rightarrow> fee_db \<Rightarrow> bool" where
  "has_entry jobId t fd = list_ex (\<lambda>e. en_jobId e = Some jobId \<and> en_type e = t) (f_entries fd)"

text \<open>The upsert on the unique pair of job and type.\<close>

definition post_entry :: "id \<Rightarrow> millis \<Rightarrow> job \<Rightarrow> commission_snapshot \<Rightarrow> fee_db \<Rightarrow> fee_db" where
  "post_entry newId now j snapshot fd = (if has_entry (j_id j) Print_commission fd then fd
    else fd\<lparr>f_entries := f_entries fd @ [commission_entry newId now j snapshot]\<rparr>)"

definition postVerifiedPrintCommission :: "id \<Rightarrow> id \<Rightarrow> millis \<Rightarrow> job list \<Rightarrow> fee_db \<Rightarrow> unit result \<times> fee_db" where
  "postVerifiedPrintCommission jobId newId now js fd = (case find (\<lambda>j. j_id j = jobId) js of
      None \<Rightarrow> (Inr (), fd)
    | Some j \<Rightarrow> if \<not> commission_payable j then (Inr (), fd)
      else (case deriveCommissionSnapshot (j_totalPaise j) (j_shopBasePaise j) of
          Inl e \<Rightarrow> (Inl e, fd)
        | Inr snapshot \<Rightarrow> (Inr (), post_entry newId now j snapshot fd)))"

text \<open>The repair: the payable jobs without a commission entry, at most 200, each posted.\<close>

fun post_each :: "(id \<Rightarrow> id) \<Rightarrow> millis \<Rightarrow> job list \<Rightarrow> job list \<Rightarrow> fee_db \<Rightarrow> fee_db" where
  "post_each newId now js [] fd = fd"
| "post_each newId now js (j # rest) fd =
    post_each newId now js rest (snd (postVerifiedPrintCommission (j_id j) (newId (j_id j)) now js fd))"

definition reconcileVerifiedPrintCommissions :: "(id \<Rightarrow> id) \<Rightarrow> millis \<Rightarrow> job list \<Rightarrow> fee_db \<Rightarrow> fee_db" where
  "reconcileVerifiedPrintCommissions newId now js fd =
    post_each newId now js (take 200 (filter (\<lambda>j. commission_payable j \<and> \<not> has_entry (j_id j) Print_commission fd) js)) fd"

definition getOpenCommissionBalance :: "id \<Rightarrow> fee_db \<Rightarrow> paise" where
  "getOpenCommissionBalance shopId fd = sum_where (\<lambda>e. en_shopId e = shopId
    \<and> en_type e \<in> {Print_commission, Refund_credit, Manual_credit, Statement_settlement}) en_amountPaise (f_entries fd)"

record commission_overview =
  co_amountDuePaise :: paise
  co_accountCreditPaise :: paise
  co_entries :: "entry_row list"

definition getCommissionOverview :: "id \<Rightarrow> fee_db \<Rightarrow> commission_overview" where
  "getCommissionOverview shopId fd =
    (let balance = getOpenCommissionBalance shopId fd in
     \<lparr>co_amountDuePaise = max 0 balance, co_accountCreditPaise = max 0 (- balance),
      co_entries = take 50 (sort_key (\<lambda>e. - en_createdAt e) (filter (\<lambda>e. en_shopId e = shopId) (f_entries fd)))\<rparr>)"

subsection \<open>statements.ts\<close>

record statement_amounts =
  sa_grossCommissionPaise :: paise
  sa_creditPaise :: paise
  sa_amountDuePaise :: paise

fun amounts_loop :: "paise \<Rightarrow> paise \<Rightarrow> paise list \<Rightarrow> (paise \<times> paise) result" where
  "amounts_loop gross credit [] = Inr (gross, credit)"
| "amounts_loop gross credit (a # as) =
    (let gross' = (if a \<ge> 0 then gross + a else gross); credit' = (if a \<ge> 0 then credit else credit + - a) in
     if gross' > MAX_SAFE_INTEGER \<or> credit' > MAX_SAFE_INTEGER then Inl (Thrown ''RangeError'')
     else amounts_loop gross' credit' as)"

definition deriveStatementAmounts :: "paise list \<Rightarrow> statement_amounts result" where
  "deriveStatementAmounts entries = (case amounts_loop 0 0 entries of
      Inl e \<Rightarrow> Inl e
    | Inr (gross, credit) \<Rightarrow> Inr \<lparr>sa_grossCommissionPaise = gross, sa_creditPaise = credit, sa_amountDuePaise = max 0 (gross - credit)\<rparr>)"

definition hasUnappliedCredit :: "statement_amounts \<Rightarrow> bool" where
  "hasUnappliedCredit amounts = (sa_creditPaise amounts > sa_grossCommissionPaise amounts)"

subsection \<open>statementService.ts\<close>

definition freezable :: "id \<Rightarrow> millis \<Rightarrow> fee_db \<Rightarrow> entry_row \<Rightarrow> bool" where
  "freezable shopId periodEnd fd e = (is_accrued shopId fd e \<and> en_createdAt e < periodEnd)"

definition entries_to_freeze :: "id \<Rightarrow> millis \<Rightarrow> fee_db \<Rightarrow> entry_row list" where
  "entries_to_freeze shopId periodEnd fd =
    sort_key (\<lambda>e. (en_createdAt e, en_id e)) (filter (freezable shopId periodEnd fd) (f_entries fd))"

definition new_statement :: "fee_env \<Rightarrow> id \<Rightarrow> id \<Rightarrow> millis \<Rightarrow> millis \<Rightarrow> statement_amounts \<Rightarrow> millis \<Rightarrow> statement_row" where
  "new_statement env newId shopId start finish amounts now =
    \<lparr>st_id = newId, st_shopId = shopId, st_periodStart = start, st_periodEnd = finish,
     st_grossCommissionPaise = sa_grossCommissionPaise amounts, st_creditPaise = sa_creditPaise amounts,
     st_amountDuePaise = sa_amountDuePaise amounts,
     st_status = (if sa_amountDuePaise amounts = 0 then St_settled else St_frozen), st_frozenAt = Some now,
     st_dueAt = (if sa_amountDuePaise amounts > 0 \<and> feePaymentsEnabled env then Some (dueAtFor env now) else None),
     st_paidPaise = 0, st_settledAt = (if sa_amountDuePaise amounts = 0 then Some now else None)\<rparr>"

definition create_statement :: "fee_env \<Rightarrow> id \<Rightarrow> id \<Rightarrow> millis \<Rightarrow> millis \<Rightarrow> statement_amounts \<Rightarrow> entry_row list \<Rightarrow> millis \<Rightarrow> fee_db \<Rightarrow> fee_db" where
  "create_statement env newId shopId start finish amounts entries now fd =
    fd\<lparr>f_statements := f_statements fd @ [new_statement env newId shopId start finish amounts now],
       f_lines := f_lines fd @ map (\<lambda>e. \<lparr>ln_statementId = newId, ln_entryId = en_id e, ln_amountPaise = en_amountPaise e\<rparr>) entries\<rparr>"

definition record_prepaid :: "id \<Rightarrow> paise \<Rightarrow> paise \<Rightarrow> millis \<Rightarrow> fee_db \<Rightarrow> fee_db" where
  "record_prepaid statementId prepaid amountDuePaise now fd =
    fd\<lparr>f_statements := update_where (\<lambda>s. st_id s = statementId)
      (\<lambda>s. if prepaid \<ge> amountDuePaise then s\<lparr>st_paidPaise := prepaid, st_status := St_settled, st_settledAt := Some now\<rparr>
        else s\<lparr>st_paidPaise := prepaid\<rparr>) (f_statements fd)\<rparr>"

definition freezeWeeklyCommissionStatement :: "fee_env \<Rightarrow> id \<Rightarrow> id \<Rightarrow> millis \<Rightarrow> millis \<Rightarrow> millis \<Rightarrow> fee_db
    \<Rightarrow> id option result \<times> fee_db" where
  "freezeWeeklyCommissionStatement env newId shopId start finish now fd =
    (if finish \<le> start then (Inl (Thrown ''RangeError''), fd)
     else case find (\<lambda>s. st_shopId s = shopId \<and> st_periodStart s = start \<and> st_periodEnd s = finish) (f_statements fd) of
       Some existing \<Rightarrow> (Inr (Some (st_id existing)), fd)
     | None \<Rightarrow>
       (let entries = entries_to_freeze shopId finish fd in
        if entries = [] then (Inr None, fd)
        else case deriveStatementAmounts (map en_amountPaise entries) of
          Inl e \<Rightarrow> (Inl e, fd)
        | Inr amounts \<Rightarrow>
          if hasUnappliedCredit amounts then (Inr None, fd)
          else let fd1 = create_statement env newId shopId start finish amounts entries now fd;
                   (prepaid, fd2) = applyPrepaidToStatement shopId newId (sa_amountDuePaise amounts) fd1
               in (Inr (Some newId),
                 if prepaid = 0 then fd2 else record_prepaid newId prepaid (sa_amountDuePaise amounts) now fd2)))"

text \<open>
  The last completed week, Monday to Sunday in India (UTC+5:30): the day number since 1 January 1970, a
  Thursday, gives the weekday.
\<close>

definition IST_OFFSET_MS :: millis where "IST_OFFSET_MS = 330 * 60000"

definition lastCompletedWeeklyPeriodInIndia :: "millis \<Rightarrow> millis \<times> millis" where
  "lastCompletedWeeklyPeriodInIndia now =
    (let day = (now + IST_OFFSET_MS) div DAY_MS;
         utcDay = (day + 4) mod 7;
         daysSinceMonday = (utcDay + 6) mod 7;
         currentMondayUtc = (day - daysSinceMonday) * DAY_MS - IST_OFFSET_MS
     in (currentMondayUtc - 7 * DAY_MS, currentMondayUtc))"

fun freeze_each :: "fee_env \<Rightarrow> (id \<Rightarrow> id) \<Rightarrow> millis \<Rightarrow> millis \<Rightarrow> millis \<Rightarrow> shop_row list \<Rightarrow> fee_db \<Rightarrow> nat result \<times> fee_db" where
  "freeze_each env newId start finish now [] fd = (Inr 0, fd)"
| "freeze_each env newId start finish now (s # ss) fd =
    (case freezeWeeklyCommissionStatement env (newId (sh_id s)) (sh_id s) start finish now fd of
       (Inl e, fd1) \<Rightarrow> (Inl e, fd1)
     | (Inr r, fd1) \<Rightarrow> (case freeze_each env newId start finish now ss fd1 of
         (Inl e, fd2) \<Rightarrow> (Inl e, fd2)
       | (Inr n, fd2) \<Rightarrow> (Inr (if r \<noteq> None then Suc n else n), fd2)))"

definition freezeCompletedWeeklyStatements :: "fee_env \<Rightarrow> (id \<Rightarrow> id) \<Rightarrow> millis \<Rightarrow> fee_db \<Rightarrow> nat result \<times> fee_db" where
  "freezeCompletedWeeklyStatements env newId now fd =
    (case lastCompletedWeeklyPeriodInIndia now of (start, finish) \<Rightarrow>
      freeze_each env newId start finish now (take 500 (f_shops fd)) fd)"

subsection \<open>The refund credit\<close>

definition refund_row :: "millis \<Rightarrow> job \<Rightarrow> job" where
  "refund_row now j = j\<lparr>j_paymentStatus := Refunded, j_refundConfirmedAt := Some now,
    j_refundAmountPaise := Some (case j_counterPaymentAmountPaise j of None \<Rightarrow> j_totalPaise j | Some a \<Rightarrow> a), j_updatedAt := now\<rparr>"

text \<open>
  POST /admin/jobs/:id/confirm-counter-refund, one transaction: a unique key that is violated rolls it
  back. The administrator's audit row is not modelled.
\<close>

definition confirmCounterRefund :: "id \<Rightarrow> bool \<Rightarrow> id \<Rightarrow> millis \<Rightarrow> db \<Rightarrow> fee_db \<Rightarrow> unit result \<times> db \<times> fee_db" where
  "confirmCounterRefund jobId studentConfirmed newId now d fd =
    (if \<not> studentConfirmed then (Inl (BadRequest ''confirmation is required''), d, fd)
     else case find (\<lambda>j. j_id j = jobId) (jobs d) of
       None \<Rightarrow> (Inl NotFound, d, fd)
     | Some j \<Rightarrow>
       if j_paymentProvider j \<noteq> Some ''pay_at_shop'' \<or> j_paymentStatus j \<noteq> Paid \<or> j_counterPaymentConfirmedAt j = None
       then (Inl (Conflict ''not a staff-confirmed order''), d, fd)
       else if j_printConfirmedAt j = None \<or> j_status j \<notin> {Finishing, Ready_for_pickup, Completed}
       then (Inl (Conflict ''not printed''), d, fd)
       else if j_refundConfirmedAt j \<noteq> None then (Inl (Conflict ''already recorded''), d, fd)
       else case find (\<lambda>e. en_jobId e = Some jobId \<and> en_type e = Print_commission) (f_entries fd) of
         None \<Rightarrow> (Inl (Conflict ''commission entry is missing''), d, fd)
       | Some commission \<Rightarrow>
         if has_entry jobId Refund_credit fd
           \<or> list_ex (\<lambda>e. pe_providerEventId e = ''counter_refund_'' @ jobId) (paymentEvents d)
         then (Inl (Thrown ''P2002''), d, fd)
         else (Inr (),
           d\<lparr>jobs := update_where (\<lambda>x. j_id x = jobId) (refund_row now) (jobs d),
             paymentEvents := paymentEvents d @ [\<lparr>pe_providerEventId = ''counter_refund_'' @ jobId, pe_provider = ''pay_at_shop'',
               pe_jobId = Some jobId,
               pe_amountPaise = Some (case j_counterPaymentAmountPaise j of None \<Rightarrow> j_totalPaise j | Some a \<Rightarrow> a)\<rparr>]\<rparr>,
           fd\<lparr>f_entries := f_entries fd @ [\<lparr>en_id = newId, en_shopId = j_shopId j, en_jobId = Some jobId,
             en_type = Refund_credit, en_amountPaise = - en_amountPaise commission, en_shopFundedDiscountPaise = 0,
             en_feePaymentId = None, en_createdAt = now\<rparr>]\<rparr>))"

end
