(* ===== verification/Fee_Enforcement.thy ===== *)
theory Fee_Enforcement
  imports Commission
begin

text \<open>
  modules/fees/enforcement.ts and modules/fees/notices.ts: blocking a shop that does not pay, the
  milestones of a statement, the notices with their dedupe key, and the hourly maintenance. The delivery
  of a notice by email and push, and the texts, are not modelled.
\<close>

datatype block_change = No_change | Blocked id paise millis | Unblocked

definition dated_unpaid :: "id \<Rightarrow> fee_db \<Rightarrow> statement_row list" where
  "dated_unpaid shopId fd = sort_key (\<lambda>s. (the (st_dueAt s), st_id s))
    (filter (\<lambda>s. is_unpaid shopId s \<and> st_dueAt s \<noteq> None) (f_statements fd))"

definition is_overdue :: "fee_env \<Rightarrow> millis \<Rightarrow> statement_row \<Rightarrow> bool" where
  "is_overdue env now s = (case st_dueAt s of None \<Rightarrow> False
    | Some t \<Rightarrow> st_amountDuePaise s > st_paidPaise s \<and> blockAtFor env t \<le> now)"

definition set_shop :: "id \<Rightarrow> (shop_row \<Rightarrow> shop_row) \<Rightarrow> fee_db \<Rightarrow> fee_db" where
  "set_shop shopId f fd = fd\<lparr>f_shops := update_where (\<lambda>s. sh_id s = shopId) f (f_shops fd)\<rparr>"

definition add_event :: "id \<Rightarrow> string \<Rightarrow> id \<Rightarrow> fee_db \<Rightarrow> fee_db" where
  "add_event shopId kind subject fd = fd\<lparr>f_events := f_events fd @ [\<lparr>fe_shopId = shopId, fe_kind = kind, fe_subject = subject\<rparr>]\<rparr>"

definition override_active :: "millis \<Rightarrow> shop_row \<Rightarrow> bool" where
  "override_active now s = (case sh_feeBlockOverrideUntil s of None \<Rightarrow> False | Some t \<Rightarrow> t > now)"

definition evaluateShopFeeBlockTx :: "fee_env \<Rightarrow> id \<Rightarrow> millis \<Rightarrow> fee_db \<Rightarrow> block_change \<times> fee_db" where
  "evaluateShopFeeBlockTx env shopId now fd = (case find_shop shopId fd of
      None \<Rightarrow> (No_change, fd)
    | Some shop \<Rightarrow>
      (let unpaid = (if feePaymentsEnabled env then dated_unpaid shopId fd else []);
           overdue = find (is_overdue env now) unpaid;
           overrideActive = override_active now shop
       in case overdue of
         Some s \<Rightarrow>
           if \<not> overrideActive \<and> sh_feeBlockedAt shop = None
           then (Blocked (st_id s) (st_amountDuePaise s - st_paidPaise s) (the (st_dueAt s)),
             add_event shopId ''blocked'' (st_id s)
               (set_shop shopId (\<lambda>x. x\<lparr>sh_feeBlockedAt := Some now, sh_feeBlockReason := Some (st_id s)\<rparr>) fd))
           else if overrideActive \<and> sh_feeBlockedAt shop \<noteq> None
           then (Unblocked, add_event shopId ''unblocked'' ''override''
             (set_shop shopId (\<lambda>x. x\<lparr>sh_feeBlockedAt := None, sh_feeBlockReason := None\<rparr>) fd))
           else (No_change, fd)
       | None \<Rightarrow>
           if sh_feeBlockedAt shop \<noteq> None
           then (Unblocked, add_event shopId ''unblocked'' (if overrideActive then ''override'' else ''settled'')
             (set_shop shopId (\<lambda>x. x\<lparr>sh_feeBlockedAt := None, sh_feeBlockReason := None\<rparr>) fd))
           else (No_change, fd)))"

subsection \<open>Notices\<close>

text \<open>
  The insert of a notice whose dedupe key exists fails with P2002 and is a plain False. The events are the
  socket nudge and the delivery.
\<close>

definition emitFeeNotice :: "id \<Rightarrow> id option \<Rightarrow> string \<Rightarrow> string \<Rightarrow> fee_db \<Rightarrow> bool \<times> fee_db \<times> effect list" where
  "emitFeeNotice shopId statementId kind dedupeKey fd =
    (if list_ex (\<lambda>n. nt_dedupeKey n = dedupeKey) (f_notices fd) then (False, fd, [])
     else (True, fd\<lparr>f_notices := f_notices fd @ [\<lparr>nt_shopId = shopId, nt_statementId = statementId, nt_kind = kind, nt_dedupeKey = dedupeKey\<rparr>]\<rparr>,
       [Publish (Ch_shop shopId) ''fee:update'' dedupeKey, Background ''fee-notice'' dedupeKey]))"

definition blocked_key :: "id \<Rightarrow> string" where
  "blocked_key statementId = ''stmt-'' @ statementId @ ''-blocked''"

definition afterBlockChange :: "id \<Rightarrow> block_change \<Rightarrow> fee_db \<Rightarrow> fee_db \<times> effect list" where
  "afterBlockChange shopId change fd = (case change of
      No_change \<Rightarrow> (fd, [])
    | Blocked statementId _ _ \<Rightarrow>
        (case emitFeeNotice shopId (Some statementId) ''blocked'' (blocked_key statementId) fd of (_, fd1, effs) \<Rightarrow>
          (fd1, Background ''invalidate-public-caches'' shopId # Publish (Ch_shop shopId) ''fee:update'' shopId # effs))
    | Unblocked \<Rightarrow> (fd, [Background ''invalidate-public-caches'' shopId, Publish (Ch_shop shopId) ''fee:update'' shopId,
        Background ''notify-shop-reopened'' shopId]))"

definition evaluateShopFeeBlock :: "fee_env \<Rightarrow> id \<Rightarrow> millis \<Rightarrow> fee_db \<Rightarrow> block_change \<times> fee_db \<times> effect list" where
  "evaluateShopFeeBlock env shopId now fd =
    (case evaluateShopFeeBlockTx env shopId now fd of (change, fd1) \<Rightarrow>
      (case afterBlockChange shopId change fd1 of (fd2, effs) \<Rightarrow> (change, fd2, effs)))"

datatype milestone = Ms_statement_ready | Ms_reminder | Ms_final_warning

definition milestoneFor :: "fee_env \<Rightarrow> millis \<Rightarrow> millis \<Rightarrow> milestone option" where
  "milestoneFor env dueAt now =
    (if now \<ge> blockAtFor env dueAt \<or> now \<ge> dueAt then None
     else if now \<ge> finalWarningAtFor dueAt then Some Ms_final_warning
     else if now \<ge> reminderAtFor env dueAt then Some Ms_reminder
     else if now \<ge> statementReadyAtFor env dueAt then Some Ms_statement_ready
     else None)"

primrec milestone_kind :: "milestone \<Rightarrow> string" where
  "milestone_kind Ms_statement_ready = ''statement_ready''"
| "milestone_kind Ms_reminder = ''reminder''"
| "milestone_kind Ms_final_warning = ''final_warning''"

primrec milestone_key :: "milestone \<Rightarrow> string" where
  "milestone_key Ms_statement_ready = ''ready''"
| "milestone_key Ms_reminder = ''reminder''"
| "milestone_key Ms_final_warning = ''final-warning''"

definition notice_key_for :: "statement_row \<Rightarrow> milestone \<Rightarrow> string" where
  "notice_key_for s m = ''stmt-'' @ st_id s @ ''-'' @ milestone_key m"

subsection \<open>The hourly maintenance\<close>

record maintenance_result =
  mr_adopted :: nat
  mr_noticesSent :: nat
  mr_blocked :: nat
  mr_unblocked :: nat

definition needs_adoption :: "statement_row \<Rightarrow> bool" where
  "needs_adoption s = (st_status s \<in> set UNPAID_STATEMENT_STATUSES \<and> st_amountDuePaise s > 0 \<and> st_dueAt s = None)"

definition adopt_statements :: "fee_env \<Rightarrow> millis \<Rightarrow> fee_db \<Rightarrow> nat \<times> fee_db" where
  "adopt_statements env now fd = (if \<not> feePaymentsEnabled env then (0, fd)
    else (count_where needs_adoption (f_statements fd),
      fd\<lparr>f_statements := update_where needs_adoption (\<lambda>s. s\<lparr>st_dueAt := Some (dueAtFor env now)\<rparr>) (f_statements fd)\<rparr>))"

definition fee_shops :: "fee_db \<Rightarrow> id list" where
  "fee_shops fd = take 1000 (map sh_id (filter (\<lambda>s. sh_feeBlockedAt s \<noteq> None
    \<or> list_ex (is_unpaid (sh_id s)) (f_statements fd)) (f_shops fd)))"

fun evaluate_each :: "fee_env \<Rightarrow> millis \<Rightarrow> id list \<Rightarrow> fee_db \<Rightarrow> nat \<times> nat \<times> fee_db \<times> effect list" where
  "evaluate_each env now [] fd = (0, 0, fd, [])"
| "evaluate_each env now (s # ss) fd =
    (case evaluateShopFeeBlock env s now fd of (change, fd1, effs1) \<Rightarrow>
      (case evaluate_each env now ss fd1 of (b, u, fd2, effs2) \<Rightarrow>
        ((case change of Blocked _ _ _ \<Rightarrow> Suc b | _ \<Rightarrow> b), (case change of Unblocked \<Rightarrow> Suc u | _ \<Rightarrow> u), fd2, effs1 @ effs2)))"

definition notifiable :: "statement_row \<Rightarrow> bool" where
  "notifiable s = (st_status s \<in> set UNPAID_STATEMENT_STATUSES \<and> st_amountDuePaise s > 0 \<and> st_dueAt s \<noteq> None)"

fun notify_each :: "fee_env \<Rightarrow> millis \<Rightarrow> statement_row list \<Rightarrow> fee_db \<Rightarrow> nat \<times> fee_db \<times> effect list" where
  "notify_each env now [] fd = (0, fd, [])"
| "notify_each env now (s # ss) fd =
    (if st_dueAt s = None \<or> st_amountDuePaise s \<le> st_paidPaise s then notify_each env now ss fd
     else case milestoneFor env (the (st_dueAt s)) now of
       None \<Rightarrow> notify_each env now ss fd
     | Some m \<Rightarrow> (case emitFeeNotice (st_shopId s) (Some (st_id s)) (milestone_kind m) (notice_key_for s m) fd of (sent, fd1, effs1) \<Rightarrow>
         (case notify_each env now ss fd1 of (n, fd2, effs2) \<Rightarrow> ((if sent then Suc n else n), fd2, effs1 @ effs2))))"

definition runFeeMaintenance :: "fee_env \<Rightarrow> millis \<Rightarrow> fee_db \<Rightarrow> maintenance_result \<times> fee_db \<times> effect list" where
  "runFeeMaintenance env now fd =
    (case adopt_statements env now fd of (adopted, fd1) \<Rightarrow>
      (case evaluate_each env now (fee_shops fd1) fd1 of (b, u, fd2, effs) \<Rightarrow>
        (case (if feePaymentsEnabled env then notify_each env now (take 2000 (filter notifiable (f_statements fd2))) fd2
               else (0, fd2, [])) of (n, fd3, effs') \<Rightarrow>
          (\<lparr>mr_adopted = adopted, mr_noticesSent = n, mr_blocked = b, mr_unblocked = u\<rparr>, fd3, effs @ effs'))))"

subsection \<open>The support override\<close>

text \<open>POST /admin/shops/:id/fees/lift-block; \<open>auditId\<close> is the id of the administrator's audit row.\<close>

definition liftBlock :: "id \<Rightarrow> int \<Rightarrow> id \<Rightarrow> millis \<Rightarrow> fee_db \<Rightarrow> millis result \<times> fee_db \<times> effect list" where
  "liftBlock shopId days auditId now fd = (case find_shop shopId fd of
      None \<Rightarrow> (Inl NotFound, fd, [])
    | Some shop \<Rightarrow>
      if sh_feeBlockedAt shop = None then (Inl (Conflict ''This shop is not blocked''), fd, [])
      else (let until = now + days * DAY_MS;
                fd1 = add_event shopId ''block_lifted_by_admin'' auditId (set_shop shopId
                  (\<lambda>x. x\<lparr>sh_feeBlockedAt := None, sh_feeBlockReason := None, sh_feeBlockOverrideUntil := Some until\<rparr>) fd);
                (fd2, effs1) = afterBlockChange shopId Unblocked fd1;
                (_, fd3, effs2) = emitFeeNotice shopId None ''unblocked'' (''lift-'' @ auditId) fd2
            in (Inr until, fd3, effs1 @ effs2)))"

end
