(* ===== verification/Fee_Payments.thy ===== *)
theory Fee_Payments
  imports Fee_Enforcement
begin

text \<open>
  modules/fees/payments.ts: the checkout order for the amount due, the one
  settlement of a captured payment, and the reconcile with the provider. The provider is a
  parameter: \<open>fetchOrderPayments\<close> (None when it throws), \<open>capture\<close> (whether a capture succeeds) and the
  check of the checkout signature.
\<close>

definition OPEN_STATUSES :: "fee_status list" where
  "OPEN_STATUSES = [Fp_created, Fp_attempted, Fp_failed]"

text \<open>\<open>Threw_duplicate\<close> is not an outcome of the code but its exception: the unique column \<open>providerPaymentId\<close> (P2002).\<close>

datatype settle_outcome = Settled | Already_paid | Unknown_order | Mismatch | Conflicting | Threw_duplicate

record settle_input =
  si_providerOrderId :: id
  si_providerPaymentId :: id
  si_amountPaise :: paise
  si_currency :: string

subsection \<open>settleFeePayment\<close>

fun allocate_loop :: "id \<Rightarrow> millis \<Rightarrow> paise \<Rightarrow> statement_row list \<Rightarrow> fee_db \<Rightarrow> paise \<times> fee_db" where
  "allocate_loop paymentId now remaining [] fd = (remaining, fd)"
| "allocate_loop paymentId now remaining (s # ss) fd =
    (if remaining \<le> 0 then (remaining, fd)
     else let left_over = st_amountDuePaise s - st_paidPaise s in
       if left_over \<le> 0 then allocate_loop paymentId now remaining ss fd
       else let amount = min left_over remaining;
                fullyPaid = (amount = left_over);
                fd1 = fd\<lparr>f_statements := update_where (\<lambda>x. st_id x = st_id s)
                  (\<lambda>x. if fullyPaid then x\<lparr>st_paidPaise := st_paidPaise x + amount, st_status := St_settled, st_settledAt := Some now\<rparr>
                    else x\<lparr>st_paidPaise := st_paidPaise x + amount\<rparr>) (f_statements fd)\<rparr>;
                fd2 = fd1\<lparr>f_allocations := f_allocations fd1 @ [\<lparr>al_paymentId = paymentId, al_statementId = st_id s, al_amountPaise = amount\<rparr>]\<rparr>
            in allocate_loop paymentId now (remaining - amount) ss fd2)"

definition settlement_entry :: "id \<Rightarrow> millis \<Rightarrow> fee_payment_row \<Rightarrow> entry_row" where
  "settlement_entry newId now p = \<lparr>en_id = newId, en_shopId = fp_shopId p, en_jobId = None, en_type = Statement_settlement,
    en_amountPaise = - fp_amountPaise p, en_shopFundedDiscountPaise = 0, en_feePaymentId = Some (fp_id p), en_createdAt = now\<rparr>"

definition mark_paid :: "id \<Rightarrow> millis \<Rightarrow> paise \<Rightarrow> fee_payment_row \<Rightarrow> fee_payment_row" where
  "mark_paid providerPaymentId now remaining x = x\<lparr>fp_status := Fp_paid, fp_providerPaymentId := Some providerPaymentId,
    fp_paidAt := Some now, fp_unallocatedPaise := remaining, fp_failureReason := None\<rparr>"

text \<open>The transaction, from the locked row: allocate, post the one ledger entry, mark the payment paid.\<close>

definition post_settlement :: "id \<Rightarrow> id \<Rightarrow> millis \<Rightarrow> fee_payment_row \<Rightarrow> fee_db \<Rightarrow> fee_db" where
  "post_settlement newId providerPaymentId now p fd =
    (let (remaining, fd1) = allocate_loop (fp_id p) now (fp_amountPaise p) (unpaid_statements (fp_shopId p) fd) fd;
         fd2 = fd1\<lparr>f_entries := f_entries fd1 @ [settlement_entry newId now p]\<rparr>;
         fd3 = fd2\<lparr>f_payments := update_where (\<lambda>x. fp_id x = fp_id p) (mark_paid providerPaymentId now remaining) (f_payments fd2)\<rparr>
     in add_event (fp_shopId p) ''payment_settled'' (fp_id p) fd3)"

definition payment_notice_key :: "id \<Rightarrow> string" where
  "payment_notice_key paymentId = ''payment-'' @ paymentId"

definition settleFeePayment :: "fee_env \<Rightarrow> id \<Rightarrow> settle_input \<Rightarrow> millis \<Rightarrow> fee_db \<Rightarrow> settle_outcome \<times> fee_db \<times> effect list" where
  "settleFeePayment env newId input now fd =
    (case find (\<lambda>p. fp_providerOrderId p = si_providerOrderId input) (f_payments fd) of
       None \<Rightarrow> (Unknown_order, fd, [])
     | Some p \<Rightarrow>
       if fp_status p = Fp_paid
       then ((if fp_providerPaymentId p = Some (si_providerPaymentId input) then Already_paid else Conflicting), fd, [])
       else if si_amountPaise input \<noteq> fp_amountPaise p \<or> si_currency input \<noteq> fp_currency p
       then (Mismatch, add_event (fp_shopId p) ''payment_mismatch'' (fp_id p) fd, [])
       else if list_ex (\<lambda>x. fp_providerPaymentId x = Some (si_providerPaymentId input) \<and> fp_id x \<noteq> fp_id p) (f_payments fd)
       then (Threw_duplicate, fd, [])
       else (case evaluateShopFeeBlockTx env (fp_shopId p) now (post_settlement newId (si_providerPaymentId input) now p fd) of
         (change, fd2) \<Rightarrow> (case afterBlockChange (fp_shopId p) change fd2 of (fd3, effs) \<Rightarrow>
           (case emitFeeNotice (fp_shopId p) None ''payment_received'' (payment_notice_key (fp_id p)) fd3 of (_, fd4, effs') \<Rightarrow>
             (Settled, fd4, Publish (Ch_shop (fp_shopId p)) ''fee:update'' (fp_id p) # effs @ effs')))))"

definition markFeeAttemptFailed :: "id \<Rightarrow> string \<Rightarrow> millis \<Rightarrow> fee_db \<Rightarrow> bool \<times> fee_db" where
  "markFeeAttemptFailed providerOrderId reason now fd =
    (let hit = (\<lambda>p. fp_providerOrderId p = providerOrderId \<and> (fp_status p = Fp_created \<or> fp_status p = Fp_attempted)) in
     (count_where hit (f_payments fd) > 0,
      fd\<lparr>f_payments := update_where hit (\<lambda>p. p\<lparr>fp_status := Fp_failed, fp_failedAt := Some now,
        fp_failureReason := Some (take 120 reason)\<rparr>) (f_payments fd)\<rparr>))"

definition markAttempted :: "id \<Rightarrow> fee_db \<Rightarrow> fee_db" where
  "markAttempted paymentId fd = fd\<lparr>f_payments := update_where (\<lambda>p. fp_id p = paymentId \<and> fp_status p = Fp_created)
    (\<lambda>p. p\<lparr>fp_status := Fp_attempted\<rparr>) (f_payments fd)\<rparr>"

subsection \<open>Reconcile\<close>

datatype provider_status = Ps_captured | Ps_authorized | Ps_failed | Ps_other

record provider_payment =
  pp_id :: id
  pp_orderId :: id
  pp_amountPaise :: paise
  pp_currency :: string
  pp_status :: provider_status

datatype fee_order_status = Fo_paid | Fo_pending | Fo_failed

record provider =
  fetchOrderPayments :: "id \<Rightarrow> provider_payment list option"
  capturePayment :: "id \<Rightarrow> bool"
  verifyCheckoutSignature :: "id \<Rightarrow> id \<Rightarrow> string \<Rightarrow> bool"

text \<open>The loop over the payments the provider reports; None is an exception.\<close>

fun reconcile_loop :: "fee_env \<Rightarrow> provider \<Rightarrow> (id \<Rightarrow> id) \<Rightarrow> fee_payment_row \<Rightarrow> millis \<Rightarrow> provider_payment list \<Rightarrow> fee_db
    \<Rightarrow> bool option \<times> fee_db \<times> effect list" where
  "reconcile_loop env prov newId order now [] fd = (Some False, fd, [])"
| "reconcile_loop env prov newId order now (q # qs) fd =
    (if pp_orderId q \<noteq> fp_providerOrderId order then reconcile_loop env prov newId order now qs fd
     else let toCapture = (pp_status q = Ps_authorized \<and> pp_amountPaise q = fp_amountPaise order \<and> pp_currency q = fp_currency order) in
       if toCapture \<and> \<not> capturePayment prov (pp_id q) then (None, fd, [])
       else if \<not> (pp_status q = Ps_captured \<or> toCapture) then reconcile_loop env prov newId order now qs fd
       else (case settleFeePayment env (newId (pp_id q)) \<lparr>si_providerOrderId = fp_providerOrderId order, si_providerPaymentId = pp_id q,
               si_amountPaise = pp_amountPaise q, si_currency = pp_currency q\<rparr> now fd of (outcome, fd1, effs) \<Rightarrow>
         if outcome = Threw_duplicate then (None, fd1, effs)
         else if outcome = Settled \<or> outcome = Already_paid then (Some True, fd1, effs)
         else (case reconcile_loop env prov newId order now qs fd1 of (r, fd2, effs') \<Rightarrow> (r, fd2, effs @ effs'))))"

definition reconcileFeeOrder :: "fee_env \<Rightarrow> provider \<Rightarrow> (id \<Rightarrow> id) \<Rightarrow> fee_payment_row \<Rightarrow> millis \<Rightarrow> fee_db
    \<Rightarrow> fee_order_status option \<times> fee_db \<times> effect list" where
  "reconcileFeeOrder env prov newId order now fd =
    (if fp_status order = Fp_paid then (Some Fo_paid, fd, [])
     else if provider_name env \<noteq> Some (fp_provider order) then (Some Fo_pending, fd, [])
     else (case fetchOrderPayments prov (fp_providerOrderId order) of
       None \<Rightarrow> (None, fd, [])
     | Some payments \<Rightarrow>
       (let fd1 = fd\<lparr>f_payments := update_where (\<lambda>p. fp_id p = fp_id order) (\<lambda>p. p\<lparr>fp_lastCheckedAt := Some now\<rparr>) (f_payments fd)\<rparr> in
        case reconcile_loop env prov newId order now payments fd1 of
          (None, fd2, effs) \<Rightarrow> (None, fd2, effs)
        | (Some True, fd2, effs) \<Rightarrow> (Some Fo_paid, fd2, effs)
        | (Some False, fd2, effs) \<Rightarrow>
          if list_ex (\<lambda>q. pp_status q = Ps_failed) payments
            \<and> \<not> list_ex (\<lambda>q. pp_status q = Ps_captured \<or> pp_status q = Ps_authorized) payments
          then (Some Fo_failed, snd (markFeeAttemptFailed (fp_providerOrderId order) ''payment_failed'' now fd2), effs)
          else (Some Fo_pending, fd2, effs))))"

text \<open>Reconciling a list of orders; an exception is caught per order. The count is of those paid.\<close>

fun reconcile_each :: "fee_env \<Rightarrow> provider \<Rightarrow> (id \<Rightarrow> id) \<Rightarrow> fee_payment_row list \<Rightarrow> millis \<Rightarrow> fee_db \<Rightarrow> nat \<times> fee_db \<times> effect list" where
  "reconcile_each env prov newId [] now fd = (0, fd, [])"
| "reconcile_each env prov newId (p # ps) now fd =
    (case reconcileFeeOrder env prov newId p now fd of (r, fd1, effs1) \<Rightarrow>
      (case reconcile_each env prov newId ps now fd1 of (n, fd2, effs2) \<Rightarrow>
        ((if r = Some Fo_paid then Suc n else n), fd2, effs1 @ effs2)))"

definition expire_orders_before :: "millis \<Rightarrow> fee_db \<Rightarrow> fee_db" where
  "expire_orders_before now fd = fd\<lparr>f_payments := update_where (\<lambda>p. fp_status p \<in> set OPEN_STATUSES \<and> fp_expiresAt p < now)
    (\<lambda>p. p\<lparr>fp_status := Fp_expired\<rparr>) (f_payments fd)\<rparr>"

definition is_stuck :: "millis \<Rightarrow> fee_payment_row \<Rightarrow> bool" where
  "is_stuck now p = (fp_status p \<noteq> Fp_paid \<and> fp_createdAt p < now - FEE_RECONCILE_AFTER_MS
    \<and> fp_createdAt p > now - FEE_RECONCILE_MAX_AGE_MS
    \<and> (case fp_lastCheckedAt p of None \<Rightarrow> True | Some t \<Rightarrow> t < now - FEE_RECONCILE_AFTER_MS))"

definition reconcileStuckFeeOrders :: "fee_env \<Rightarrow> provider \<Rightarrow> (id \<Rightarrow> id) \<Rightarrow> millis \<Rightarrow> fee_db \<Rightarrow> nat \<times> fee_db \<times> effect list" where
  "reconcileStuckFeeOrders env prov newId now fd =
    (if provider_name env = None then (0, fd, [])
     else (case reconcile_each env prov newId (take 50 (sort_key fp_createdAt (filter (is_stuck now) (f_payments fd)))) now fd of
       (n, fd1, effs) \<Rightarrow> (n, expire_orders_before now fd1, effs)))"

subsection \<open>createFeeOrder\<close>

definition is_open :: "id \<Rightarrow> fee_payment_row \<Rightarrow> bool" where
  "is_open shopId p = (fp_shopId p = shopId \<and> fp_status p \<in> set OPEN_STATUSES)"

definition new_payment :: "id \<Rightarrow> id \<Rightarrow> string \<Rightarrow> id \<Rightarrow> paise \<Rightarrow> id \<Rightarrow> millis \<Rightarrow> fee_payment_row" where
  "new_payment newId shopId provider orderId amountPaise requestedById now = \<lparr>fp_id = newId, fp_shopId = shopId, fp_provider = provider,
    fp_providerOrderId = orderId, fp_amountPaise = amountPaise, fp_currency = ''INR'', fp_status = Fp_created,
    fp_providerPaymentId = None, fp_requestedById = Some requestedById, fp_expiresAt = now + FEE_ORDER_TTL_MS, fp_paidAt = None,
    fp_failedAt = None, fp_failureReason = None, fp_unallocatedPaise = 0, fp_lastCheckedAt = None, fp_createdAt = now\<rparr>"

text \<open>The transaction of \<open>createFeeOrder\<close>; \<open>orderId\<close> is what the provider answers to the new order.\<close>

definition order_tx :: "string \<Rightarrow> id \<Rightarrow> id \<Rightarrow> id \<Rightarrow> id \<Rightarrow> millis \<Rightarrow> fee_db \<Rightarrow> (bool \<times> fee_payment_row) result \<times> fee_db" where
  "order_tx provider newId orderId shopId requestedById now fd =
    (let amountPaise = fa_totalDuePaise (computeFeeAccount shopId now fd) in
     if amountPaise \<le> 0 then (Inl (Conflict ''There is nothing to pay right now''), fd)
     else case find (\<lambda>p. fp_amountPaise p = amountPaise \<and> fp_expiresAt p > now)
         (sort_key (\<lambda>p. - fp_createdAt p) (filter (is_open shopId) (f_payments fd))) of
       Some reusable \<Rightarrow> (Inr (True, reusable), fd)
     | None \<Rightarrow>
       (let p = new_payment newId shopId provider orderId amountPaise requestedById now;
            fd1 = fd\<lparr>f_payments := update_where (is_open shopId) (\<lambda>x. x\<lparr>fp_status := Fp_expired\<rparr>) (f_payments fd) @ [p]\<rparr>
        in (Inr (False, p), add_event shopId ''order_created'' newId fd1)))"

definition createFeeOrder :: "fee_env \<Rightarrow> provider \<Rightarrow> (id \<Rightarrow> id) \<Rightarrow> id \<Rightarrow> id \<Rightarrow> id \<Rightarrow> id \<Rightarrow> millis \<Rightarrow> fee_db
    \<Rightarrow> (bool \<times> fee_payment_row) result \<times> fee_db \<times> effect list" where
  "createFeeOrder env prov newEntry newId orderId shopId requestedById now fd = (case provider_name env of
      None \<Rightarrow> (Inl (Conflict ''Fee payments are not enabled yet''), fd, [])
    | Some name \<Rightarrow>
      (case reconcile_each env prov newEntry (filter (\<lambda>p. is_open shopId p \<and> fp_createdAt p < now - 60000) (f_payments fd)) now fd of
        (_, fd1, effs) \<Rightarrow> (case order_tx name newId orderId shopId requestedById now fd1 of (r, fd2) \<Rightarrow> (r, fd2, effs))))"

subsection \<open>The checkout callback and the mock\<close>

definition verifyFeeCheckout :: "fee_env \<Rightarrow> provider \<Rightarrow> (id \<Rightarrow> id) \<Rightarrow> id \<Rightarrow> id \<Rightarrow> id \<Rightarrow> string \<Rightarrow> millis \<Rightarrow> fee_db
    \<Rightarrow> fee_order_status result \<times> fee_db \<times> effect list" where
  "verifyFeeCheckout env prov newId shopId orderId paymentId signature now fd =
    (if provider_name env = None then (Inl (Conflict ''Fee payments are not enabled yet''), fd, [])
     else case find (\<lambda>p. fp_providerOrderId p = orderId \<and> fp_shopId p = shopId) (f_payments fd) of
       None \<Rightarrow> (Inl NotFound, fd, [])
     | Some order \<Rightarrow>
       if \<not> verifyCheckoutSignature prov orderId paymentId signature then (Inl (BadRequest ''signature''), fd, [])
       else (let fd1 = markAttempted (fp_id order) fd;
                 fresh = (case find (\<lambda>p. fp_id p = fp_id order) (f_payments fd1) of None \<Rightarrow> order | Some p \<Rightarrow> p)
             in case reconcileFeeOrder env prov newId fresh now fd1 of
               (None, fd2, effs) \<Rightarrow> (Inl (Thrown ''provider''), fd2, effs)
             | (Some st, fd2, effs) \<Rightarrow> (Inr st, fd2, effs)))"

definition mockPayFeeOrder :: "fee_env \<Rightarrow> id \<Rightarrow> id \<Rightarrow> id \<Rightarrow> id \<Rightarrow> millis \<Rightarrow> fee_db \<Rightarrow> settle_outcome result \<times> fee_db \<times> effect list" where
  "mockPayFeeOrder env newEntry mockPaymentId shopId paymentId now fd =
    (if provider_name env \<noteq> Some ''mock'' then (Inl NotFound, fd, [])
     else case find (\<lambda>p. fp_id p = paymentId \<and> fp_shopId p = shopId) (f_payments fd) of
       None \<Rightarrow> (Inl NotFound, fd, [])
     | Some order \<Rightarrow>
       if fp_status order = Fp_paid then (Inr Already_paid, fd, [])
       else (case settleFeePayment env newEntry \<lparr>si_providerOrderId = fp_providerOrderId order, si_providerPaymentId = mockPaymentId,
           si_amountPaise = fp_amountPaise order, si_currency = fp_currency order\<rparr> now fd of (out, fd1, effs) \<Rightarrow>
             ((if out = Threw_duplicate then Inl (Thrown ''P2002'') else Inr out), fd1, effs)))"

end
