(* ===== verification/Fee_Webhook.thy ===== *)
theory Fee_Webhook
  imports Fee_Payments Js_Value
begin

text \<open>
  modules/fees/webhook.ts: a signature-verified event of the provider, as the JSON value it is. The
  values are those of the theory \<open>Js_Value\<close>.
\<close>

definition asObject :: "json option \<Rightarrow> (string \<times> json) list option" where
  "asObject v = (case v of Some (JObj kvs) \<Rightarrow> Some kvs | _ \<Rightarrow> None)"

text \<open>\<open>/^order_[A-Za-z0-9]+$/\<close> and \<open>/^pay_[A-Za-z0-9]+$/\<close>.\<close>

definition matches_prefix :: "string \<Rightarrow> string \<Rightarrow> bool" where
  "matches_prefix p s = (take (length p) s = p \<and> drop (length p) s \<noteq> [] \<and> list_all is_alnum (drop (length p) s))"

record payment_entity =
  pen_id :: id
  pen_orderId :: id
  pen_amountPaise :: paise
  pen_currency :: string
  pen_status :: "string option"
  pen_notes :: "(string \<times> json) list option"

definition parsePayment :: "json option \<Rightarrow> payment_entity option" where
  "parsePayment entity = (case asObject entity of
      None \<Rightarrow> None
    | Some p \<Rightarrow>
      (case (as_string (field ''id'' (Some p)), as_string (field ''order_id'' (Some p)), field ''amount'' (Some p),
          as_string (field ''currency'' (Some p))) of
        (Some i, Some o', Some (JInt a), Some c) \<Rightarrow>
          if matches_prefix ''pay_'' i \<and> matches_prefix ''order_'' o' \<and> \<bar>a\<bar> \<le> MAX_SAFE_INTEGER \<and> a > 0
          then Some \<lparr>pen_id = i, pen_orderId = o', pen_amountPaise = a, pen_currency = c,
            pen_status = as_string (field ''status'' (Some p)), pen_notes = asObject (field ''notes'' (Some p))\<rparr>
          else None
      | _ \<Rightarrow> None))"

definition notesContradict :: "(string \<times> json) list option \<Rightarrow> id \<Rightarrow> bool" where
  "notesContradict notes feePaymentId = (case notes of None \<Rightarrow> False
    | Some kvs \<Rightarrow> if kvs = [] then False
      else field ''kind'' notes \<noteq> Some (JStr ''shop_fee'') \<or> field ''feePaymentId'' notes \<noteq> Some (JStr feePaymentId))"

datatype webhook_outcome = Wo_settle settle_outcome | Wo_failed_marked | Wo_ignored

text \<open>What the event asks for, up to the first effect of the handler.\<close>

datatype webhook_action = Wa_not_handled | Wa_ignored | Wa_failed id | Wa_settle settle_input

definition webhook_action_of :: "json \<Rightarrow> fee_payment_row list \<Rightarrow> webhook_action" where
  "webhook_action_of payload orders =
    (let body = asObject (Some payload); event = as_string (field ''event'' body) in
     if event \<noteq> Some ''payment.captured'' \<and> event \<noteq> Some ''order.paid'' \<and> event \<noteq> Some ''payment.failed'' then Wa_not_handled
     else let inner = asObject (field ''payload'' body) in
       case parsePayment (field ''entity'' (asObject (field ''payment'' inner))) of
         None \<Rightarrow> Wa_not_handled
       | Some payment \<Rightarrow>
         (case find (\<lambda>p. fp_providerOrderId p = pen_orderId payment) orders of
           None \<Rightarrow> Wa_not_handled
         | Some order \<Rightarrow>
           (let entity = asObject (field ''entity'' (asObject (field ''order'' inner)));
                orderNotes = (if event = Some ''order.paid'' then asObject (field ''notes'' entity) else None)
            in if event = Some ''order.paid'' \<and> (entity = None \<or> field ''id'' entity \<noteq> Some (JStr (pen_orderId payment)))
              then Wa_ignored
            else if notesContradict (pen_notes payment) (fp_id order) \<or> notesContradict orderNotes (fp_id order) then Wa_ignored
            else if event = Some ''payment.failed'' then Wa_failed (pen_orderId payment)
            else if pen_status payment \<noteq> None \<and> pen_status payment \<noteq> Some ''captured'' then Wa_ignored
            else Wa_settle \<lparr>si_providerOrderId = pen_orderId payment, si_providerPaymentId = pen_id payment,
                si_amountPaise = pen_amountPaise payment, si_currency = pen_currency payment\<rparr>)))"

text \<open>None: not handled. The outcome \<open>Threw_duplicate\<close> is the exception that makes the provider deliver again.\<close>

definition handleFeeWebhook :: "fee_env \<Rightarrow> id \<Rightarrow> json \<Rightarrow> millis \<Rightarrow> fee_db \<Rightarrow> webhook_outcome option \<times> fee_db \<times> effect list" where
  "handleFeeWebhook env newEntry payload now fd = (case webhook_action_of payload (f_payments fd) of
      Wa_not_handled \<Rightarrow> (None, fd, [])
    | Wa_ignored \<Rightarrow> (Some Wo_ignored, fd, [])
    | Wa_failed orderId \<Rightarrow> (case markFeeAttemptFailed orderId ''payment_failed'' now fd of (marked, fd1) \<Rightarrow>
        (Some (if marked then Wo_failed_marked else Wo_ignored), fd1, []))
    | Wa_settle input \<Rightarrow> (case settleFeePayment env newEntry input now fd of (out, fd1, effs) \<Rightarrow> (Some (Wo_settle out), fd1, effs)))"

end
