(* ===== verification/Fee_Laws.thy ===== *)
theory Fee_Laws
  imports Fee_Webhook
begin

text \<open>
  What the fee ledger guarantees. The invariant \<open>ledger_ok\<close> says that ids are unique, that every
  statement is either open with something left to pay or settled and paid in full, that nothing is
  allocated twice, and that the books balance: for every shop the sum of all entries of the ledger is what
  is not yet on a statement, plus what is unpaid on statements, minus what was paid in advance.
\<close>

subsection \<open>The invariant\<close>

definition owed_on_statements :: "id \<Rightarrow> fee_db \<Rightarrow> paise" where
  "owed_on_statements shopId fd = sum_where (\<lambda>s. st_shopId s = shopId) (\<lambda>s. st_amountDuePaise s - st_paidPaise s) (f_statements fd)"

definition ledger_balance :: "id \<Rightarrow> fee_db \<Rightarrow> paise" where
  "ledger_balance shopId fd = sum_where (\<lambda>e. en_shopId e = shopId) en_amountPaise (f_entries fd)"

definition books_balance :: "fee_db \<Rightarrow> bool" where
  "books_balance fd = (\<forall>shopId. ledger_balance shopId fd = accrued_sum shopId fd + owed_on_statements shopId fd - prepaid_sum shopId fd)"

definition statement_ok :: "statement_row \<Rightarrow> bool" where
  "statement_ok s = (0 \<le> st_paidPaise s
    \<and> (if st_status s = St_settled then st_paidPaise s = st_amountDuePaise s
       else st_status s \<in> set UNPAID_STATEMENT_STATUSES \<and> st_paidPaise s < st_amountDuePaise s))"

lemma statement_okD:
  assumes "statement_ok s"
  shows "0 \<le> st_paidPaise s" "st_paidPaise s \<le> st_amountDuePaise s" "st_status s = St_settled \<longleftrightarrow> st_paidPaise s = st_amountDuePaise s"
  using assms by (auto simp: statement_ok_def split: if_splits)

lemma statement_ok_due [simp]: "statement_ok (s\<lparr>st_dueAt := t\<rparr>) = statement_ok s"
  by (simp add: statement_ok_def)

definition payment_ok :: "fee_payment_row \<Rightarrow> bool" where
  "payment_ok p = (0 < fp_amountPaise p \<and> 0 \<le> fp_unallocatedPaise p \<and> (fp_status p \<noteq> Fp_paid \<longrightarrow> fp_unallocatedPaise p = 0))"

definition ids_ok :: "fee_db \<Rightarrow> bool" where
  "ids_ok fd = (distinct (map en_id (f_entries fd)) \<and> distinct (map st_id (f_statements fd))
    \<and> distinct (map fp_id (f_payments fd)) \<and> distinct (map fp_providerOrderId (f_payments fd))
    \<and> ln_entryId ` set (f_lines fd) \<subseteq> en_id ` set (f_entries fd))"

definition ledger_ok :: "fee_db \<Rightarrow> bool" where
  "ledger_ok fd = (ids_ok fd \<and> (\<forall>s \<in> set (f_statements fd). statement_ok s) \<and> (\<forall>p \<in> set (f_payments fd). payment_ok p)
    \<and> books_balance fd)"

lemma ledger_okD:
  assumes "ledger_ok fd"
  shows "ids_ok fd" "\<And>s. s \<in> set (f_statements fd) \<Longrightarrow> statement_ok s" "\<And>p. p \<in> set (f_payments fd) \<Longrightarrow> payment_ok p"
    "ledger_balance k fd = accrued_sum k fd + owed_on_statements k fd - prepaid_sum k fd"
  using assms by (simp_all add: ledger_ok_def books_balance_def)

lemma entry_types: "en_type e \<in> {Print_commission, Refund_credit, Manual_credit, Statement_settlement}"
  by (cases "en_type e") simp_all

lemma open_balance_is_ledger: "getOpenCommissionBalance shopId fd = ledger_balance shopId fd"
  using entry_types by (auto simp: getOpenCommissionBalance_def ledger_balance_def intro!: sum_where_cong)

text \<open>The tables the money depends on; a change of the others (shops, events, notices, allocations) keeps the invariant.\<close>

lemma ledger_frame:
  assumes "f_entries fd' = f_entries fd" "f_statements fd' = f_statements fd" "f_lines fd' = f_lines fd" "f_payments fd' = f_payments fd"
  shows "ledger_ok fd' = ledger_ok fd" "accrued_sum k fd' = accrued_sum k fd" "prepaid_sum k fd' = prepaid_sum k fd"
    "owed_on_statements k fd' = owed_on_statements k fd" "ledger_balance k fd' = ledger_balance k fd"
proof -
  have h: "is_accrued k fd' = is_accrued k fd" for k
    using assms by (auto simp: is_accrued_def has_line_def)
  show "ledger_ok fd' = ledger_ok fd" "accrued_sum k fd' = accrued_sum k fd" "prepaid_sum k fd' = prepaid_sum k fd"
    "owed_on_statements k fd' = owed_on_statements k fd" "ledger_balance k fd' = ledger_balance k fd"
    using assms h
    by (simp_all add: ledger_ok_def ids_ok_def books_balance_def accrued_sum_def prepaid_sum_def owed_on_statements_def ledger_balance_def)
qed

lemma money_tables [simp]:
  "f_entries (set_shop k f fd) = f_entries fd" "f_statements (set_shop k f fd) = f_statements fd"
  "f_lines (set_shop k f fd) = f_lines fd" "f_payments (set_shop k f fd) = f_payments fd"
  "f_entries (add_event k a b fd) = f_entries fd" "f_statements (add_event k a b fd) = f_statements fd"
  "f_lines (add_event k a b fd) = f_lines fd" "f_payments (add_event k a b fd) = f_payments fd"
  "f_shops (add_event k a b fd) = f_shops fd"
  by (simp_all add: set_shop_def add_event_def)

lemma emit_tables:
  assumes "emitFeeNotice k st kind key fd = (b, fd', effs)"
  shows "f_entries fd' = f_entries fd" "f_statements fd' = f_statements fd" "f_lines fd' = f_lines fd" "f_payments fd' = f_payments fd"
    "f_shops fd' = f_shops fd"
  using assms by (auto simp: emitFeeNotice_def split: if_splits)

lemma after_tables:
  assumes "afterBlockChange k c fd = (fd', effs)"
  shows "f_entries fd' = f_entries fd" "f_statements fd' = f_statements fd" "f_lines fd' = f_lines fd" "f_payments fd' = f_payments fd"
    "f_shops fd' = f_shops fd"
  using assms by (auto simp: afterBlockChange_def dest: emit_tables split: block_change.splits prod.splits)

lemma evaluate_tables:
  assumes "evaluateShopFeeBlockTx env k now fd = (c, fd')"
  shows "f_entries fd' = f_entries fd" "f_statements fd' = f_statements fd" "f_lines fd' = f_lines fd" "f_payments fd' = f_payments fd"
  using assms by (auto simp: evaluateShopFeeBlockTx_def Let_def split: option.splits if_splits)


subsection \<open>Allocation\<close>

definition owe :: "statement_row \<Rightarrow> paise" where
  "owe s = st_amountDuePaise s - st_paidPaise s"

definition paid_up :: "millis \<Rightarrow> paise \<Rightarrow> statement_row \<Rightarrow> statement_row" where
  "paid_up now amount s = (if amount = owe s then s\<lparr>st_paidPaise := st_paidPaise s + amount, st_status := St_settled, st_settledAt := Some now\<rparr>
    else s\<lparr>st_paidPaise := st_paidPaise s + amount\<rparr>)"

lemma paid_up_simps [simp]:
  "st_id (paid_up now amount s) = st_id s" "st_shopId (paid_up now amount s) = st_shopId s"
  "st_amountDuePaise (paid_up now amount s) = st_amountDuePaise s" "st_paidPaise (paid_up now amount s) = st_paidPaise s + amount"
  "st_periodEnd (paid_up now amount s) = st_periodEnd s" "st_dueAt (paid_up now amount s) = st_dueAt s"
  "owe (paid_up now amount s) = owe s - amount"
  by (simp_all add: paid_up_def owe_def)

lemma paid_up_ok: "statement_ok s \<Longrightarrow> 0 \<le> amount \<Longrightarrow> amount \<le> owe s \<Longrightarrow> 0 < owe s \<Longrightarrow> statement_ok (paid_up now amount s)"
  by (auto simp: statement_ok_def paid_up_def owe_def split: if_splits)

definition pay_one :: "id \<Rightarrow> millis \<Rightarrow> paise \<Rightarrow> statement_row \<Rightarrow> fee_db \<Rightarrow> fee_db" where
  "pay_one paymentId now amount s fd = fd\<lparr>f_statements := update_where (\<lambda>x. st_id x = st_id s)
      (\<lambda>x. if amount = owe s then x\<lparr>st_paidPaise := st_paidPaise x + amount, st_status := St_settled, st_settledAt := Some now\<rparr>
        else x\<lparr>st_paidPaise := st_paidPaise x + amount\<rparr>) (f_statements fd),
    f_allocations := f_allocations fd @ [\<lparr>al_paymentId = paymentId, al_statementId = st_id s, al_amountPaise = amount\<rparr>]\<rparr>"

lemma allocate_Cons:
  "0 < remaining \<Longrightarrow> 0 < owe s \<Longrightarrow> allocate_loop pid now remaining (s # ss) fd
    = (let amount = min (owe s) remaining in allocate_loop pid now (remaining - amount) ss (pay_one pid now amount s fd))"
  by (simp add: pay_one_def owe_def Let_def)

lemma pay_one_simps [simp]:
  "f_entries (pay_one pid now amount s fd) = f_entries fd" "f_lines (pay_one pid now amount s fd) = f_lines fd"
  "f_payments (pay_one pid now amount s fd) = f_payments fd" "f_shops (pay_one pid now amount s fd) = f_shops fd"
  "f_events (pay_one pid now amount s fd) = f_events fd" "f_notices (pay_one pid now amount s fd) = f_notices fd"
  "map st_id (f_statements (pay_one pid now amount s fd)) = map st_id (f_statements fd)"
  by (simp_all add: pay_one_def map_update_where)

lemma pay_one_set:
  assumes "distinct (map st_id (f_statements fd))" "s \<in> set (f_statements fd)"
  shows "set (f_statements (pay_one pid now amount s fd)) = insert (paid_up now amount s) (set (f_statements fd) - {s})"
proof -
  have "(if st_id x = st_id s then y else x) = (if x = s then y else x)" if "x \<in> set (f_statements fd)" for x y
    using distinct_key_eq [OF assms(1) that assms(2)] by auto
  then show ?thesis
    using assms(2) by (auto simp: pay_one_def set_update_where paid_up_def)
qed

lemma pay_one_owed:
  assumes "distinct (map st_id (f_statements fd))" "s \<in> set (f_statements fd)"
  shows "owed_on_statements k (pay_one pid now amount s fd) = owed_on_statements k fd - (if st_shopId s = k then amount else 0)"
  unfolding owed_on_statements_def pay_one_def
  using sum_where_update_key [OF assms, of "\<lambda>s. st_shopId s = k" "\<lambda>s. st_amountDuePaise s - st_paidPaise s"]
  by simp

text \<open>What the loop preserves, and what is left.\<close>

lemma allocate_invariants:
  assumes "distinct (map st_id (f_statements fd))" "distinct (map st_id ss)" "set ss \<subseteq> set (f_statements fd)"
    "\<forall>s \<in> set (f_statements fd). statement_ok s" "\<forall>s \<in> set ss. st_shopId s = k \<and> 0 < owe s" "0 \<le> remaining"
    "allocate_loop pid now remaining ss fd = (rest, fd')"
  shows "f_entries fd' = f_entries fd \<and> f_lines fd' = f_lines fd \<and> f_payments fd' = f_payments fd \<and> f_shops fd' = f_shops fd
    \<and> f_events fd' = f_events fd \<and> f_notices fd' = f_notices fd
    \<and> map st_id (f_statements fd') = map st_id (f_statements fd)
    \<and> (\<forall>s \<in> set (f_statements fd'). statement_ok s) \<and> 0 \<le> rest
    \<and> rest = max 0 (remaining - (\<Sum>s\<leftarrow>ss. owe s))
    \<and> (\<forall>k'. owed_on_statements k' fd' = owed_on_statements k' fd - (if k' = k then remaining - rest else 0))"
  using assms
proof (induction ss arbitrary: remaining fd)
  case Nil
  then show ?case by simp
next
  case (Cons s ss)
  have nonneg: "0 \<le> (\<Sum>s\<leftarrow>ss. owe s)"
    using Cons.prems(5) by (intro sum_list_nonneg_map) (auto intro: less_imp_le)
  show ?case
  proof (cases "remaining = 0")
    case True
    have "max 0 (- owe s - (\<Sum>s\<leftarrow>ss. owe s)) = 0" using nonneg Cons.prems(5) by simp
    with True Cons.prems show ?thesis by auto
  next
    case False
    define amount where "amount = min (owe s) remaining"
    let ?fd = "pay_one pid now amount s fd"
    have s: "s \<in> set (f_statements fd)" "st_shopId s = k" "0 < owe s" and st: "st_id s \<notin> st_id ` set ss"
      using Cons.prems by auto
    have a: "0 \<le> amount" "amount \<le> owe s" "amount \<le> remaining"
      using s(3) Cons.prems(6) by (auto simp: amount_def)
    have sub: "set ss \<subseteq> set (f_statements ?fd)"
      using Cons.prems(3) st by (auto simp: pay_one_set [OF Cons.prems(1) s(1)])
    have ok: "\<forall>s \<in> set (f_statements ?fd). statement_ok s"
      using Cons.prems(4) paid_up_ok [OF _ a(1,2) s(3)] s(1) by (auto simp: pay_one_set [OF Cons.prems(1) s(1)])
    have run: "allocate_loop pid now (remaining - amount) ss ?fd = (rest, fd')"
      using Cons.prems(7) allocate_Cons [OF _ s(3)] False Cons.prems(6) by (simp add: amount_def Let_def)
    from Cons.IH [OF _ _ sub ok _ _ run] Cons.prems(1,2,5) a(3)
    have IH: "f_entries fd' = f_entries ?fd \<and> f_lines fd' = f_lines ?fd \<and> f_payments fd' = f_payments ?fd \<and> f_shops fd' = f_shops ?fd
        \<and> f_events fd' = f_events ?fd \<and> f_notices fd' = f_notices ?fd
        \<and> map st_id (f_statements fd') = map st_id (f_statements ?fd)
        \<and> (\<forall>s \<in> set (f_statements fd'). statement_ok s) \<and> 0 \<le> rest
        \<and> rest = max 0 (remaining - amount - (\<Sum>s\<leftarrow>ss. owe s))
        \<and> (\<forall>k'. owed_on_statements k' fd' = owed_on_statements k' ?fd - (if k' = k then remaining - amount - rest else 0))"
      by simp
    have "max 0 (remaining - amount - (\<Sum>s\<leftarrow>ss. owe s)) = max 0 (remaining - (\<Sum>s\<leftarrow>s # ss. owe s))"
      using nonneg a s(3) by (auto simp: amount_def)
    with IH s(2) show ?thesis by (simp add: pay_one_owed [OF Cons.prems(1) s(1)])
  qed
qed


text \<open>Which statement gets what: the oldest first, each as much as it owes or as is left.\<close>

definition share :: "paise \<Rightarrow> statement_row list \<Rightarrow> nat \<Rightarrow> paise" where
  "share remaining ss i = min (owe (ss ! i)) (max 0 (remaining - (\<Sum>s\<leftarrow>take i ss. owe s)))"

lemma allocate_untouched:
  assumes "distinct (map st_id (f_statements fd))" "set ss \<subseteq> set (f_statements fd)" "\<forall>s \<in> set ss. 0 < owe s" "distinct (map st_id ss)"
    "0 \<le> remaining" "allocate_loop pid now remaining ss fd = (rest, fd')" "x \<in> set (f_statements fd)" "x \<notin> set ss"
  shows "x \<in> set (f_statements fd')"
  using assms
proof (induction ss arbitrary: remaining fd)
  case (Cons s ss)
  show ?case
  proof (cases "remaining = 0")
    case False
    define amount where "amount = min (owe s) remaining"
    let ?fd = "pay_one pid now amount s fd"
    have s: "s \<in> set (f_statements fd)" "0 < owe s" and st: "st_id s \<notin> st_id ` set ss"
      using Cons.prems by auto
    have sets: "set (f_statements ?fd) = insert (paid_up now amount s) (set (f_statements fd) - {s})"
      by (rule pay_one_set [OF Cons.prems(1) s(1)])
    have "x \<notin> set ss" "x \<in> set (f_statements ?fd)" "set ss \<subseteq> set (f_statements ?fd)"
      using Cons.prems(2,7,8) st sets by auto
    moreover have "allocate_loop pid now (remaining - amount) ss ?fd = (rest, fd')"
      using Cons.prems(6) allocate_Cons [OF _ s(2)] False Cons.prems(5) by (simp add: amount_def Let_def)
    ultimately show ?thesis
      using Cons.IH [of ?fd "remaining - amount"] Cons.prems(1,3,4) by (simp add: amount_def)
  qed (use Cons.prems in auto)
qed auto

lemma allocate_shares:
  assumes "distinct (map st_id (f_statements fd))" "set ss \<subseteq> set (f_statements fd)" "\<forall>s \<in> set ss. 0 < owe s" "distinct (map st_id ss)"
    "0 \<le> remaining" "allocate_loop pid now remaining ss fd = (rest, fd')" "i < length ss"
  shows "\<exists>s' \<in> set (f_statements fd'). st_id s' = st_id (ss ! i) \<and> st_amountDuePaise s' = st_amountDuePaise (ss ! i)
    \<and> st_paidPaise s' = st_paidPaise (ss ! i) + share remaining ss i"
  using assms
proof (induction ss arbitrary: remaining fd i)
  case (Cons s ss)
  have nonneg: "0 \<le> (\<Sum>s\<leftarrow>take i (s # ss). owe s)" for i
    using Cons.prems(3) by (intro sum_list_nonneg_map less_imp_le) (blast dest: in_set_takeD)
  show ?case
  proof (cases "remaining = 0")
    case True
    then have "fd' = fd" using Cons.prems(6) by simp
    moreover have "share remaining (s # ss) i = 0"
      using nonneg [of i] Cons.prems(3,7) True nth_mem [OF Cons.prems(7)] by (force simp: share_def)
    ultimately show ?thesis using Cons.prems(2,7) nth_mem [OF Cons.prems(7)] by (intro bexI [of _ "(s # ss) ! i"]) auto
  next
    case False
    define amount where "amount = min (owe s) remaining"
    let ?fd = "pay_one pid now amount s fd"
    have s: "s \<in> set (f_statements fd)" "0 < owe s" and st: "st_id s \<notin> st_id ` set ss"
      using Cons.prems by auto
    have sets: "set (f_statements ?fd) = insert (paid_up now amount s) (set (f_statements fd) - {s})"
      by (rule pay_one_set [OF Cons.prems(1) s(1)])
    have sub: "set ss \<subseteq> set (f_statements ?fd)"
      using Cons.prems(2) st sets by auto
    have run: "allocate_loop pid now (remaining - amount) ss ?fd = (rest, fd')"
      using Cons.prems(6) allocate_Cons [OF _ s(2)] False Cons.prems(5) by (simp add: amount_def Let_def)
    have d: "distinct (map st_id (f_statements ?fd))" using Cons.prems(1) by simp
    show ?thesis
    proof (cases i)
      case 0
      have "paid_up now amount s \<notin> set ss" using st by (metis image_eqI paid_up_simps(1))
      with allocate_untouched [OF d sub _ _ _ run, of "paid_up now amount s"] Cons.prems(3,4) sets
      have "paid_up now amount s \<in> set (f_statements fd')" by (simp add: amount_def)
      with 0 Cons.prems(5) show ?thesis
        by (intro bexI [of _ "paid_up now amount s"]) (auto simp: share_def amount_def)
    next
      case (Suc i')
      have "0 \<le> (\<Sum>s\<leftarrow>take i' ss. owe s)"
        using Cons.prems(3) by (intro sum_list_nonneg_map less_imp_le) (auto dest: in_set_takeD)
      then have "max 0 (remaining - (owe s + (\<Sum>s\<leftarrow>take i' ss. owe s))) = max 0 (remaining - amount - (\<Sum>s\<leftarrow>take i' ss. owe s))"
        by (auto simp: amount_def)
      then have "share remaining (s # ss) i = share (remaining - amount) ss i'"
        by (simp add: share_def Suc)
      moreover have "\<exists>s' \<in> set (f_statements fd'). st_id s' = st_id (ss ! i') \<and> st_amountDuePaise s' = st_amountDuePaise (ss ! i')
          \<and> st_paidPaise s' = st_paidPaise (ss ! i') + share (remaining - amount) ss i'"
        using Cons.IH [OF d sub _ _ _ run, of i'] Cons.prems(3,4,7) Suc by (simp add: amount_def)
      ultimately show ?thesis using Suc by simp
    qed
  qed
qed simp


subsection \<open>Settlement\<close>

lemma unpaid_facts:
  assumes "ledger_ok fd"
  shows "distinct (map st_id (unpaid_statements k fd))" "set (unpaid_statements k fd) \<subseteq> set (f_statements fd)"
    "\<forall>s \<in> set (unpaid_statements k fd). st_shopId s = k \<and> 0 < owe s"
    "(\<Sum>s\<leftarrow>unpaid_statements k fd. owe s) = owed_on_statements k fd"
proof -
  have "inj_on st_id (set (f_statements fd))" "distinct (f_statements fd)"
    using ledger_okD(1) [OF assms] by (auto simp: ids_ok_def distinct_map)
  then show "distinct (map st_id (unpaid_statements k fd))"
    by (auto simp: unpaid_statements_def distinct_map inj_on_def)
  show "set (unpaid_statements k fd) \<subseteq> set (f_statements fd)" by (auto simp: unpaid_statements_def)
  have unpaid: "is_unpaid k s \<longleftrightarrow> st_shopId s = k \<and> 0 < owe s" if "s \<in> set (f_statements fd)" for s
    using ledger_okD(2) [OF assms that]
    by (auto simp: is_unpaid_def statement_ok_def owe_def UNPAID_STATEMENT_STATUSES_def split: if_splits)
  then show "\<forall>s \<in> set (unpaid_statements k fd). st_shopId s = k \<and> 0 < owe s"
    by (auto simp: unpaid_statements_def)
  have zero: "owe s = 0" if "s \<in> set (f_statements fd)" "\<not> 0 < owe s" for s
    using ledger_okD(2) [OF assms that(1)] that(2) by (auto simp: statement_ok_def owe_def split: if_splits)
  have "(\<Sum>s\<leftarrow>unpaid_statements k fd. owe s) = sum_list (map owe (filter (is_unpaid k) (f_statements fd)))"
    by (simp add: unpaid_statements_def sum_list_sort_key)
  also have "\<dots> = sum_where (\<lambda>s. st_shopId s = k \<and> 0 < owe s) owe (f_statements fd)"
    unfolding sum_where_def [symmetric] using unpaid by (intro sum_where_cong) auto
  also have "\<dots> = sum_where (\<lambda>s. st_shopId s = k) owe (f_statements fd)"
    unfolding sum_where_if using zero by (intro arg_cong [of _ _ sum_list] map_cong) auto
  finally show "(\<Sum>s\<leftarrow>unpaid_statements k fd. owe s) = owed_on_statements k fd"
    by (simp add: owed_on_statements_def owe_def [abs_def])
qed

definition settled_rest :: "fee_payment_row \<Rightarrow> fee_db \<Rightarrow> paise" where
  "settled_rest p fd = max 0 (fp_amountPaise p - owed_on_statements (fp_shopId p) fd)"

lemma mark_paid_simps [simp]:
  "fp_id (mark_paid q now r p) = fp_id p" "fp_shopId (mark_paid q now r p) = fp_shopId p"
  "fp_providerOrderId (mark_paid q now r p) = fp_providerOrderId p" "fp_amountPaise (mark_paid q now r p) = fp_amountPaise p"
  "fp_status (mark_paid q now r p) = Fp_paid" "fp_unallocatedPaise (mark_paid q now r p) = r"
  "fp_providerPaymentId (mark_paid q now r p) = Some q"
  by (simp_all add: mark_paid_def)

lemma post_settlement_spec:
  assumes "ledger_ok fd" "p \<in> set (f_payments fd)"
  shows "f_entries (post_settlement newId q now p fd) = f_entries fd @ [settlement_entry newId now p]"
    "f_statements (post_settlement newId q now p fd)
      = f_statements (snd (allocate_loop (fp_id p) now (fp_amountPaise p) (unpaid_statements (fp_shopId p) fd) fd))"
    "f_lines (post_settlement newId q now p fd) = f_lines fd"
    "f_payments (post_settlement newId q now p fd) = update_where (\<lambda>x. fp_id x = fp_id p) (mark_paid q now (settled_rest p fd)) (f_payments fd)"
    "f_shops (post_settlement newId q now p fd) = f_shops fd"
    "map st_id (f_statements (post_settlement newId q now p fd)) = map st_id (f_statements fd)"
    "\<forall>s \<in> set (f_statements (post_settlement newId q now p fd)). statement_ok s"
    "owed_on_statements k (post_settlement newId q now p fd)
      = owed_on_statements k fd - (if k = fp_shopId p then fp_amountPaise p - settled_rest p fd else 0)"
proof -
  note u = unpaid_facts [OF assms(1), of "fp_shopId p"]
  have "0 \<le> fp_amountPaise p" using ledger_okD(3) [OF assms] by (simp add: payment_ok_def)
  obtain rest fd1 where run: "allocate_loop (fp_id p) now (fp_amountPaise p) (unpaid_statements (fp_shopId p) fd) fd = (rest, fd1)"
    by fastforce
  have d: "distinct (map st_id (f_statements fd))" "\<forall>s \<in> set (f_statements fd). statement_ok s"
    using ledger_okD(1,2) [OF assms(1)] by (auto simp: ids_ok_def)
  have u3: "\<forall>s \<in> set (unpaid_statements (fp_shopId p) fd). st_shopId s = fp_shopId p \<and> 0 < owe s" by (rule u(3))
  note inv = allocate_invariants [OF d(1) u(1,2) d(2) u3 \<open>0 \<le> fp_amountPaise p\<close> run]
  have rest: "rest = settled_rest p fd" using inv u(4) by (simp add: settled_rest_def)
  have tables: "f_statements (post_settlement newId q now p fd) = f_statements fd1"
    by (simp add: post_settlement_def run)
  show "f_entries (post_settlement newId q now p fd) = f_entries fd @ [settlement_entry newId now p]"
    "f_statements (post_settlement newId q now p fd)
      = f_statements (snd (allocate_loop (fp_id p) now (fp_amountPaise p) (unpaid_statements (fp_shopId p) fd) fd))"
    "f_lines (post_settlement newId q now p fd) = f_lines fd"
    "f_payments (post_settlement newId q now p fd) = update_where (\<lambda>x. fp_id x = fp_id p) (mark_paid q now (settled_rest p fd)) (f_payments fd)"
    "f_shops (post_settlement newId q now p fd) = f_shops fd"
    "map st_id (f_statements (post_settlement newId q now p fd)) = map st_id (f_statements fd)"
    "\<forall>s \<in> set (f_statements (post_settlement newId q now p fd)). statement_ok s"
    using inv rest by (simp_all add: post_settlement_def run)
  show "owed_on_statements k (post_settlement newId q now p fd)
      = owed_on_statements k fd - (if k = fp_shopId p then fp_amountPaise p - settled_rest p fd else 0)"
    using inv rest by (simp add: owed_on_statements_def tables)
qed

lemma settled_books:
  assumes "ledger_ok fd" "p \<in> set (f_payments fd)" "fp_status p \<noteq> Fp_paid"
  shows "ledger_balance k (post_settlement newId q now p fd) = ledger_balance k fd - (if k = fp_shopId p then fp_amountPaise p else 0)"
    "accrued_sum k (post_settlement newId q now p fd) = accrued_sum k fd"
    "prepaid_sum k (post_settlement newId q now p fd) = prepaid_sum k fd + (if k = fp_shopId p then settled_rest p fd else 0)"
    "owed_on_statements k (post_settlement newId q now p fd)
      = owed_on_statements k fd - (if k = fp_shopId p then fp_amountPaise p - settled_rest p fd else 0)"
proof -
  let ?fd = "post_settlement newId q now p fd"
  note S = post_settlement_spec [OF assms(1,2), where newId = newId and q = q and now = now]
  show "ledger_balance k ?fd = ledger_balance k fd - (if k = fp_shopId p then fp_amountPaise p else 0)"
    by (simp add: ledger_balance_def S(1) settlement_entry_def)
  have "is_accrued k ?fd = is_accrued k fd" by (auto simp: is_accrued_def has_line_def S(3))
  then show "accrued_sum k ?fd = accrued_sum k fd"
    by (simp add: accrued_sum_def S(1)) (simp add: is_accrued_def settlement_entry_def)
  have "distinct (map fp_id (f_payments fd))" using ledger_okD(1) [OF assms(1)] by (simp add: ids_ok_def)
  from sum_where_update_key [OF this assms(2), of "is_paid k" fp_unallocatedPaise]
  show "prepaid_sum k ?fd = prepaid_sum k fd + (if k = fp_shopId p then settled_rest p fd else 0)"
    using assms(3) by (auto simp: prepaid_sum_def S(4) is_paid_def)
  show "owed_on_statements k ?fd = owed_on_statements k fd - (if k = fp_shopId p then fp_amountPaise p - settled_rest p fd else 0)"
    by (rule S(8))
qed

lemma settlement_keeps_ledger:
  assumes "ledger_ok fd" "p \<in> set (f_payments fd)" "fp_status p \<noteq> Fp_paid" "newId \<notin> en_id ` set (f_entries fd)"
  shows "ledger_ok (post_settlement newId q now p fd)"
proof -
  let ?fd = "post_settlement newId q now p fd"
  note S = post_settlement_spec [OF assms(1,2), where newId = newId and q = q and now = now]
  have "ids_ok ?fd"
    using ledger_okD(1) [OF assms(1)] assms(4)
    by (auto simp: ids_ok_def S(1,3,4,6) map_update_where settlement_entry_def)
  moreover have "\<forall>x \<in> set (f_payments ?fd). payment_ok x"
    using ledger_okD(3) [OF assms(1)] assms(2) unfolding S(4) set_update_where
    by (auto simp: payment_ok_def settled_rest_def)
  ultimately show ?thesis
    using S(7) settled_books [OF assms(1-3), of _ newId q now] ledger_okD(4) [OF assms(1)]
    by (simp add: ledger_ok_def books_balance_def)
qed


subsection \<open>The amount asked\<close>

lemma view_simps [simp]: "sv_outstandingPaise (view fd now s) = outstanding s" "sv_dueAt (view fd now s) = st_dueAt s"
  by (simp_all add: view_def Let_def)

lemma account_statements_due:
  assumes "ledger_ok fd"
  shows "fa_statementsDuePaise (computeFeeAccount k now fd) = owed_on_statements k fd"
proof -
  have o: "outstanding s = owe s" if "s \<in> set (unpaid_statements k fd)" for s
    using unpaid_facts(3) [OF assms, of k] that by (auto simp: outstanding_def owe_def)
  have z: "outstanding s = 0" if "s \<in> set (settled_statements k fd)" for s
  proof -
    from that have s: "s \<in> set (f_statements fd)" "st_status s = St_settled"
      by (auto simp: settled_statements_def dest!: in_set_takeD)
    with ledger_okD(2) [OF assms] show ?thesis by (simp add: statement_ok_def outstanding_def)
  qed
  have "sum_list (map outstanding (unpaid_statements k fd)) = (\<Sum>s\<leftarrow>unpaid_statements k fd. owe s)"
    "sum_list (map outstanding (settled_statements k fd)) = 0"
    using o z by (simp_all cong: map_cong add: sum_list_0)
  then show ?thesis
    by (simp add: computeFeeAccount_def Let_def fold_sum_list sum_list_sort_key comp_def unpaid_facts(4) [OF assms])
qed

lemma account_total:
  assumes "ledger_ok fd"
  shows "fa_totalDuePaise (computeFeeAccount k now fd) = max (owed_on_statements k fd) (ledger_balance k fd)"
proof -
  have "fa_totalDuePaise (computeFeeAccount k now fd) = fa_statementsDuePaise (computeFeeAccount k now fd)
      + max 0 (accrued_sum k fd - prepaid_sum k fd)"
    by (simp add: computeFeeAccount_def Let_def)
  then show ?thesis
    using account_statements_due [OF assms] ledger_okD(4) [OF assms, of k] by (simp add: max_def)
qed

lemma owed_nonneg: "ledger_ok fd \<Longrightarrow> 0 \<le> owed_on_statements k fd"
  unfolding owed_on_statements_def
  by (rule sum_where_nonneg) (auto dest!: ledger_okD(2) simp: statement_ok_def split: if_splits)

text \<open>
  C16. The owner is asked for exactly what the ledger says. On an account whose books balance, the amount
  due is the shop's ledger balance (all commissions and credits minus all payments), or, when credits and
  advance payments exceed the current accrual, exactly what is still unpaid on its statements; the part
  shown for statements is what is unpaid on them; and a shop that is not blocked is paid up exactly when
  nothing is unpaid and the balance is not positive.
\<close>

theorem amount_asked_is_ledger_balance:
  assumes "ledger_ok fd"
  shows "fa_totalDuePaise (computeFeeAccount k now fd) = max (owed_on_statements k fd) (getOpenCommissionBalance k fd)
    \<and> fa_statementsDuePaise (computeFeeAccount k now fd) = owed_on_statements k fd
    \<and> 0 \<le> fa_totalDuePaise (computeFeeAccount k now fd)
    \<and> (fa_totalDuePaise (computeFeeAccount k now fd) = 0 \<longleftrightarrow> owed_on_statements k fd = 0 \<and> getOpenCommissionBalance k fd \<le> 0)"
  using account_total [OF assms, of k now] account_statements_due [OF assms, of k now] owed_nonneg [OF assms, of k]
  by (auto simp: open_balance_is_ledger)


subsection \<open>Freezing a week\<close>

definition draw :: "id \<Rightarrow> paise \<Rightarrow> fee_payment_row \<Rightarrow> fee_db \<Rightarrow> fee_db" where
  "draw statementId amount p fd = fd\<lparr>f_payments := update_where (\<lambda>x. fp_id x = fp_id p)
      (\<lambda>x. x\<lparr>fp_unallocatedPaise := fp_unallocatedPaise x - amount\<rparr>) (f_payments fd),
    f_allocations := f_allocations fd @ [\<lparr>al_paymentId = fp_id p, al_statementId = statementId, al_amountPaise = amount\<rparr>]\<rparr>"

lemma prepaid_Cons:
  "0 < remaining \<Longrightarrow> prepaid_loop sid remaining applied (p # ps) fd
    = (let amount = min remaining (fp_unallocatedPaise p) in prepaid_loop sid (remaining - amount) (applied + amount) ps (draw sid amount p fd))"
  by (simp add: draw_def Let_def)

lemma draw_simps [simp]:
  "f_entries (draw sid a p fd) = f_entries fd" "f_lines (draw sid a p fd) = f_lines fd" "f_shops (draw sid a p fd) = f_shops fd"
  "f_statements (draw sid a p fd) = f_statements fd"
  "map fp_id (f_payments (draw sid a p fd)) = map fp_id (f_payments fd)"
  "map fp_providerOrderId (f_payments (draw sid a p fd)) = map fp_providerOrderId (f_payments fd)"
  by (simp_all add: draw_def map_update_where)

lemma draw_set:
  assumes "distinct (map fp_id (f_payments fd))" "p \<in> set (f_payments fd)"
  shows "set (f_payments (draw sid a p fd))
    = insert (p\<lparr>fp_unallocatedPaise := fp_unallocatedPaise p - a\<rparr>) (set (f_payments fd) - {p})"
proof -
  have "(if fp_id x = fp_id p then y else x) = (if x = p then y else x)" if "x \<in> set (f_payments fd)" for x y
    using distinct_key_eq [OF assms(1) that assms(2)] by auto
  then show ?thesis using assms(2) by (auto simp: draw_def set_update_where)
qed

lemma prepaid_invariants:
  assumes "distinct (map fp_id (f_payments fd))" "distinct (map fp_id ps)" "set ps \<subseteq> set (f_payments fd)"
    "\<forall>p \<in> set (f_payments fd). payment_ok p" "\<forall>p \<in> set ps. is_paid k p \<and> 0 < fp_unallocatedPaise p" "0 \<le> remaining"
    "prepaid_loop sid remaining applied ps fd = (applied', fd')"
  shows "f_entries fd' = f_entries fd \<and> f_lines fd' = f_lines fd \<and> f_shops fd' = f_shops fd \<and> f_statements fd' = f_statements fd
    \<and> map fp_id (f_payments fd') = map fp_id (f_payments fd)
    \<and> map fp_providerOrderId (f_payments fd') = map fp_providerOrderId (f_payments fd)
    \<and> (\<forall>p \<in> set (f_payments fd'). payment_ok p)
    \<and> applied \<le> applied' \<and> applied' - applied \<le> remaining
    \<and> (\<forall>k'. prepaid_sum k' fd' = prepaid_sum k' fd - (if k' = k then applied' - applied else 0))"
  using assms
proof (induction ps arbitrary: remaining applied fd)
  case (Cons p ps)
  show ?case
  proof (cases "remaining = 0")
    case False
    define a where "a = min remaining (fp_unallocatedPaise p)"
    let ?fd = "draw sid a p fd"
    have p: "p \<in> set (f_payments fd)" "is_paid k p" "0 < fp_unallocatedPaise p" and np: "fp_id p \<notin> fp_id ` set ps"
      using Cons.prems by auto
    have a: "0 \<le> a" "a \<le> remaining" "a \<le> fp_unallocatedPaise p" using p(3) Cons.prems(6) by (auto simp: a_def)
    note sets = draw_set [OF Cons.prems(1) p(1), of sid a]
    have sub: "set ps \<subseteq> set (f_payments ?fd)" using Cons.prems(3) np sets by auto
    have ok: "\<forall>p \<in> set (f_payments ?fd). payment_ok p"
      using Cons.prems(4) p a sets by (auto simp: payment_ok_def is_paid_def)
    have sum: "prepaid_sum k' ?fd = prepaid_sum k' fd - (if k' = k then a else 0)" for k'
      using sum_where_update_key [OF Cons.prems(1) p(1), of "is_paid k'" fp_unallocatedPaise] p(2)
      by (auto simp: prepaid_sum_def draw_def is_paid_def)
    have run: "prepaid_loop sid (remaining - a) (applied + a) ps ?fd = (applied', fd')"
      using Cons.prems(7) prepaid_Cons [of remaining] False Cons.prems(6) by (simp add: a_def Let_def)
    from Cons.IH [OF _ _ sub ok _ _ run] Cons.prems(1,2,5) a sum
    show ?thesis by auto
  qed (use Cons.prems in auto)
qed auto

lemma prepaid_spec:
  assumes "distinct (map fp_id (f_payments fd))" "\<forall>p \<in> set (f_payments fd). payment_ok p" "0 \<le> due"
    "applyPrepaidToStatement k sid due fd = (applied, fd')"
  shows "f_entries fd' = f_entries fd \<and> f_lines fd' = f_lines fd \<and> f_shops fd' = f_shops fd \<and> f_statements fd' = f_statements fd
    \<and> map fp_id (f_payments fd') = map fp_id (f_payments fd)
    \<and> map fp_providerOrderId (f_payments fd') = map fp_providerOrderId (f_payments fd)
    \<and> (\<forall>p \<in> set (f_payments fd'). payment_ok p)
    \<and> 0 \<le> applied \<and> applied \<le> due \<and> (\<forall>k'. prepaid_sum k' fd' = prepaid_sum k' fd - (if k' = k then applied else 0))"
proof (cases "due = 0")
  case True
  with assms show ?thesis by (simp add: applyPrepaidToStatement_def)
next
  case False
  let ?ps = "sort_key paid_key (filter (\<lambda>p. is_paid k p \<and> fp_unallocatedPaise p > 0) (f_payments fd))"
  have "inj_on fp_id (set (f_payments fd))" "distinct (f_payments fd)" using assms(1) by (auto simp: distinct_map)
  then have d: "distinct (map fp_id ?ps)" by (auto simp: distinct_map inj_on_def)
  have sub: "set ?ps \<subseteq> set (f_payments fd)" by auto
  have pd: "\<forall>p \<in> set ?ps. is_paid k p \<and> 0 < fp_unallocatedPaise p" by auto
  have run: "prepaid_loop sid due 0 ?ps fd = (applied, fd')"
    using assms(3,4) False by (simp add: applyPrepaidToStatement_def)
  from prepaid_invariants [OF assms(1) d sub assms(2) pd assms(3) run] show ?thesis by auto
qed

text \<open>Gross minus credit is the sum of the entries.\<close>

lemma amounts_loop_sum:
  "amounts_loop g c as = Inr (g', c') \<Longrightarrow> g' - c' = g - c + sum_list as"
  by (induction g c as rule: amounts_loop.induct) (auto simp: Let_def split: if_splits)

lemma statement_due:
  assumes "deriveStatementAmounts as = Inr m" "\<not> hasUnappliedCredit m"
  shows "sa_amountDuePaise m = sum_list as" "0 \<le> sa_amountDuePaise m"
  using assms amounts_loop_sum [of 0 0 as]
  by (auto simp: deriveStatementAmounts_def hasUnappliedCredit_def split: sum.splits)


lemma frozen_accrued:
  assumes "ids_ok fd" "f_lines fd' = f_lines fd @ map (\<lambda>e. \<lparr>ln_statementId = sid, ln_entryId = en_id e, ln_amountPaise = en_amountPaise e\<rparr>)
      (entries_to_freeze k finish fd)" "e \<in> set (f_entries fd)"
  shows "is_accrued k' fd' e \<longleftrightarrow> is_accrued k' fd e \<and> \<not> freezable k finish fd e"
proof -
  have "en_id e \<in> en_id ` set (entries_to_freeze k finish fd) \<longleftrightarrow> freezable k finish fd e"
    using assms(1,3) distinct_key_eq [of en_id "f_entries fd"] by (auto simp: entries_to_freeze_def ids_ok_def)
  moreover have "ln_entryId ` set (f_lines fd') = ln_entryId ` set (f_lines fd) \<union> en_id ` set (entries_to_freeze k finish fd)"
    by (simp add: assms(2) image_Un image_image)
  ultimately show ?thesis by (auto simp: is_accrued_def has_line_def)
qed

lemma frozen_sum:
  assumes "ids_ok fd" "f_lines fd' = f_lines fd @ map (\<lambda>e. \<lparr>ln_statementId = sid, ln_entryId = en_id e, ln_amountPaise = en_amountPaise e\<rparr>)
      (entries_to_freeze k finish fd)" "f_entries fd' = f_entries fd"
  shows "accrued_sum k' fd' = accrued_sum k' fd - (if k' = k then sum_list (map en_amountPaise (entries_to_freeze k finish fd)) else 0)"
proof -
  have "accrued_sum k' fd' = sum_where (\<lambda>e. is_accrued k' fd e \<and> \<not> freezable k finish fd e) en_amountPaise (f_entries fd)"
    unfolding accrued_sum_def assms(3) by (intro sum_where_cong frozen_accrued [OF assms(1,2)]) auto
  moreover have "accrued_sum k' fd = sum_where (\<lambda>e. is_accrued k' fd e \<and> freezable k finish fd e) en_amountPaise (f_entries fd)
      + sum_where (\<lambda>e. is_accrued k' fd e \<and> \<not> freezable k finish fd e) en_amountPaise (f_entries fd)"
    unfolding accrued_sum_def by (rule sum_where_split)
  moreover have "sum_where (\<lambda>e. is_accrued k' fd e \<and> freezable k finish fd e) en_amountPaise (f_entries fd)
      = (if k' = k then sum_list (map en_amountPaise (entries_to_freeze k finish fd)) else 0)"
  proof (cases "k' = k")
    case True
    have "sum_where (\<lambda>e. is_accrued k fd e \<and> freezable k finish fd e) en_amountPaise (f_entries fd)
        = sum_where (freezable k finish fd) en_amountPaise (f_entries fd)"
      by (intro sum_where_cong) (auto simp: freezable_def)
    with True show ?thesis by (simp add: entries_to_freeze_def sum_list_sort_key sum_where_def)
  next
    case False
    then have "filter (\<lambda>e. is_accrued k' fd e \<and> freezable k finish fd e) (f_entries fd) = []"
      by (auto simp: filter_empty_conv freezable_def is_accrued_def)
    with False show ?thesis by (simp add: sum_where_def)
  qed
  ultimately show ?thesis by simp
qed

lemma update_fresh_last:
  "newId \<notin> st_id ` set ss \<Longrightarrow> st_id n = newId \<Longrightarrow> update_where (\<lambda>s. st_id s = newId) f (ss @ [n]) = ss @ [f n]"
proof -
  assume a: "newId \<notin> st_id ` set ss" "st_id n = newId"
  then have "update_where (\<lambda>s. st_id s = newId) f ss = ss" by (intro update_where_none) (metis image_eqI)
  with a(2) show ?thesis by (simp add: update_where_def)
qed

lemma freeze_keeps_ledger:
  assumes "ledger_ok fd" "newId \<notin> st_id ` set (f_statements fd)"
  shows "ledger_ok (snd (freezeWeeklyCommissionStatement env newId k start finish now fd))"
proof -
  let ?entries = "entries_to_freeze k finish fd"
  have main: "ledger_ok (if prepaid = 0 then fd2 else record_prepaid newId prepaid (sa_amountDuePaise m) now fd2)"
    if m: "deriveStatementAmounts (map en_amountPaise ?entries) = Inr m" "\<not> hasUnappliedCredit m"
      and pre: "applyPrepaidToStatement k newId (sa_amountDuePaise m) (create_statement env newId k start finish m ?entries now fd) = (prepaid, fd2)"
    for m prepaid fd2
  proof -
    let ?fd1 = "create_statement env newId k start finish m ?entries now fd"
    let ?n = "new_statement env newId k start finish m now"
    let ?fd3 = "if prepaid = 0 then fd2 else record_prepaid newId prepaid (sa_amountDuePaise m) now fd2"
    note due = statement_due [OF m]
    have fd1: "f_entries ?fd1 = f_entries fd" "f_payments ?fd1 = f_payments fd" "f_statements ?fd1 = f_statements fd @ [?n]"
      "f_lines ?fd1 = f_lines fd @ map (\<lambda>e. \<lparr>ln_statementId = newId, ln_entryId = en_id e, ln_amountPaise = en_amountPaise e\<rparr>) ?entries"
      by (simp_all add: create_statement_def)
    have "distinct (map fp_id (f_payments ?fd1))" "\<forall>p \<in> set (f_payments ?fd1). payment_ok p"
      using ledger_okD(1,3) [OF assms(1)] by (auto simp: ids_ok_def fd1)
    note P = prepaid_spec [OF this due(2) pre]
    define n where "n = (if prepaid = 0 then ?n else (if prepaid \<ge> sa_amountDuePaise m
        then ?n\<lparr>st_paidPaise := prepaid, st_status := St_settled, st_settledAt := Some now\<rparr> else ?n\<lparr>st_paidPaise := prepaid\<rparr>))"
    have nid: "st_id ?n = newId" by (simp add: new_statement_def)
    have st3: "f_statements ?fd3 = f_statements fd @ [n]"
      using P update_fresh_last [OF assms(2) nid] by (simp add: record_prepaid_def n_def fd1)
    have n: "st_id n = newId" "st_shopId n = k" "st_amountDuePaise n = sa_amountDuePaise m" "st_paidPaise n = prepaid" "statement_ok n"
      using P due(2) by (auto simp: n_def new_statement_def statement_ok_def UNPAID_STATEMENT_STATUSES_def)
    have t3: "f_entries ?fd3 = f_entries fd" "f_lines ?fd3 = f_lines ?fd1" "f_payments ?fd3 = f_payments fd2"
      using P fd1 by (simp_all add: record_prepaid_def)
    have maps: "map fp_id (f_payments ?fd3) = map fp_id (f_payments fd)"
        "map fp_providerOrderId (f_payments ?fd3) = map fp_providerOrderId (f_payments fd)"
      using P by (simp_all add: t3(3) fd1(2))
    have lines: "ln_entryId ` set (f_lines ?fd3) = ln_entryId ` set (f_lines fd) \<union> en_id ` set ?entries"
      by (simp add: t3(2) fd1(4) image_Un image_image)
    have "set ?entries \<subseteq> set (f_entries fd)" by (auto simp: entries_to_freeze_def)
    then have ids: "ids_ok ?fd3"
      using ledger_okD(1) [OF assms(1)] assms(2) n(1)
      unfolding ids_ok_def maps lines t3(1) st3 by auto
    have accrued: "accrued_sum k' ?fd3 = accrued_sum k' fd - (if k' = k then sa_amountDuePaise m else 0)" for k'
      using frozen_sum [OF ledger_okD(1) [OF assms(1)], of ?fd3 newId k finish] due(1) by (simp add: t3 fd1)
    have owed: "owed_on_statements k' ?fd3 = owed_on_statements k' fd + (if k' = k then sa_amountDuePaise m - prepaid else 0)" for k'
      by (simp add: owed_on_statements_def st3 n)
    have pp: "prepaid_sum k' ?fd3 = prepaid_sum k' fd - (if k' = k then prepaid else 0)" for k'
      using P by (simp add: prepaid_sum_def t3(3) fd1(2))
    have bal: "ledger_balance k' ?fd3 = ledger_balance k' fd" for k'
      by (simp add: ledger_balance_def t3)
    show ?thesis
      using ids ledger_okD(2,4) [OF assms(1)] P n(5) accrued owed pp bal
      by (auto simp: ledger_ok_def books_balance_def st3 t3)
  qed
  show ?thesis
    using assms(1) main
    by (auto simp: freezeWeeklyCommissionStatement_def Let_def split: option.splits sum.splits prod.splits if_splits)
qed

end
