(* ===== verification/Fee_Runs.thy ===== *)
theory Fee_Runs
  imports Fee_Laws
begin

text \<open>
  The life of the fee ledger as a step relation over its operations: commissions, refund credits, the weekly
  freeze, orders, settlements, reconciles, maintenance and the support override, in any order. Every step
  keeps the invariant of \<^verbatim>\<open>Fee_Laws\<close>.
\<close>

subsection \<open>Steps that touch one table\<close>

lemma add_entry_keeps:
  assumes "ledger_ok fd" "f_entries fd' = f_entries fd @ [e]" "f_statements fd' = f_statements fd" "f_lines fd' = f_lines fd"
    "f_payments fd' = f_payments fd" "en_id e \<notin> en_id ` set (f_entries fd)" "en_type e \<noteq> Statement_settlement"
  shows "ledger_ok fd'"
proof -
  have "en_id e \<notin> ln_entryId ` set (f_lines fd)"
    using ledger_okD(1) [OF assms(1)] assms(6) by (auto simp: ids_ok_def)
  moreover have "is_accrued k fd' = is_accrued k fd" for k
    using assms(4) by (auto simp: is_accrued_def has_line_def)
  ultimately have "accrued_sum k fd' = accrued_sum k fd + (if en_shopId e = k then en_amountPaise e else 0)" for k
    using assms(2,7) by (cases "en_type e") (simp_all add: accrued_sum_def is_accrued_def has_line_def)
  moreover have "ledger_balance k fd' = ledger_balance k fd + (if en_shopId e = k then en_amountPaise e else 0)" for k
    using assms(2) by (simp add: ledger_balance_def)
  ultimately show ?thesis
    using assms ledger_okD(4) [OF assms(1)]
    by (auto simp: ledger_ok_def ids_ok_def books_balance_def owed_on_statements_def prepaid_sum_def)
qed

definition same_money :: "fee_payment_row \<Rightarrow> fee_payment_row \<Rightarrow> bool" where
  "same_money p q = (fp_id q = fp_id p \<and> fp_shopId q = fp_shopId p \<and> fp_providerOrderId q = fp_providerOrderId p
    \<and> fp_amountPaise q = fp_amountPaise p \<and> fp_unallocatedPaise q = fp_unallocatedPaise p
    \<and> (fp_status q = Fp_paid \<longleftrightarrow> fp_status p = Fp_paid))"

lemma update_payments_keeps:
  assumes "\<And>p. p \<in> set (f_payments fd) \<Longrightarrow> h p \<Longrightarrow> same_money p (g p)" "f_payments fd' = update_where h g (f_payments fd)"
    "f_entries fd' = f_entries fd" "f_statements fd' = f_statements fd" "f_lines fd' = f_lines fd"
  shows "ledger_ok fd' = ledger_ok fd"
proof -
  let ?g = "\<lambda>p. if h p then g p else p"
  have s: "same_money p (?g p)" if "p \<in> set (f_payments fd)" for p
    using assms(1) [OF that] by (simp add: same_money_def)
  have p: "f_payments fd' = map ?g (f_payments fd)" using assms(2) by (simp add: update_where_def)
  have maps: "map fp_id (f_payments fd') = map fp_id (f_payments fd)"
      "map fp_providerOrderId (f_payments fd') = map fp_providerOrderId (f_payments fd)"
    using s by (simp_all add: p same_money_def)
  have "payment_ok (?g p) = payment_ok p" if "p \<in> set (f_payments fd)" for p
    using s [OF that] by (simp only: same_money_def payment_ok_def)
  then have ok: "(\<forall>p \<in> set (f_payments fd'). payment_ok p) = (\<forall>p \<in> set (f_payments fd). payment_ok p)"
    unfolding p set_map ball_simps(9) by (rule ball_cong [OF refl])
  have pre: "prepaid_sum k fd' = prepaid_sum k fd" for k
    unfolding prepaid_sum_def sum_where_if p map_map
    using s by (intro arg_cong [of _ _ sum_list] map_cong) (auto simp: same_money_def is_paid_def)
  have "is_accrued k fd' = is_accrued k fd" for k
    using assms(5) by (auto simp: is_accrued_def has_line_def)
  then show ?thesis
    using assms(3-5) pre
    by (simp add: ledger_ok_def ids_ok_def maps ok books_balance_def accrued_sum_def owed_on_statements_def ledger_balance_def)
qed

lemma open_not_paid: "fp_status p \<in> set OPEN_STATUSES \<Longrightarrow> fp_status p \<noteq> Fp_paid"
  by (auto simp: OPEN_STATUSES_def)

lemma expire_keeps: "ledger_ok (expire_orders_before now fd) = ledger_ok fd"
  by (rule update_payments_keeps) (auto simp: expire_orders_before_def same_money_def dest: open_not_paid)

lemma failed_keeps: "ledger_ok (snd (markFeeAttemptFailed oid reason now fd)) = ledger_ok fd"
  by (rule update_payments_keeps [where h = "\<lambda>p. fp_providerOrderId p = oid \<and> (fp_status p = Fp_created \<or> fp_status p = Fp_attempted)"])
    (auto simp: markFeeAttemptFailed_def same_money_def Let_def)

lemma attempted_keeps: "ledger_ok (markAttempted pid fd) = ledger_ok fd"
  by (rule update_payments_keeps) (auto simp: markAttempted_def same_money_def)

subsection \<open>Composite steps\<close>

lemma evaluate_keeps: "evaluateShopFeeBlockTx env k now fd = (c, fd') \<Longrightarrow> ledger_ok fd' = ledger_ok fd"
  by (rule ledger_frame(1)) (simp_all add: evaluate_tables)

lemma after_keeps: "afterBlockChange k c fd = (fd', effs) \<Longrightarrow> ledger_ok fd' = ledger_ok fd"
  by (rule ledger_frame(1)) (simp_all add: after_tables)

lemma emit_keeps: "emitFeeNotice k st kind key fd = (b, fd', effs) \<Longrightarrow> ledger_ok fd' = ledger_ok fd"
  by (rule ledger_frame(1)) (simp_all add: emit_tables)

lemma event_keeps: "ledger_ok (add_event k a b fd) = ledger_ok fd"
  by (rule ledger_frame(1)) simp_all

lemma shop_keeps: "ledger_ok (set_shop k f fd) = ledger_ok fd"
  by (rule ledger_frame(1)) simp_all

lemmas keeps = evaluate_keeps after_keeps emit_keeps event_keeps shop_keeps expire_keeps failed_keeps attempted_keeps

lemma settle_keeps:
  assumes "ledger_ok fd" "newId \<notin> en_id ` set (f_entries fd)" "settleFeePayment env newId input now fd = (out, fd', effs)"
  shows "ledger_ok fd'" "out \<noteq> Settled \<Longrightarrow> f_entries fd' = f_entries fd"
  using assms settlement_keeps_ledger [OF assms(1) _ _ assms(2)]
  by (auto simp: settleFeePayment_def keeps split: option.splits if_splits prod.splits dest!: find_SomeD)

lemma reconcile_loop_keeps:
  assumes "ledger_ok fd" "\<forall>q. newId q \<notin> en_id ` set (f_entries fd)" "reconcile_loop env prov newId order now qs fd = (r, fd', effs)"
  shows "ledger_ok fd'"
  using assms
proof (induction qs arbitrary: fd r fd' effs)
  case (Cons q qs)
  define input where "input = \<lparr>si_providerOrderId = fp_providerOrderId order, si_providerPaymentId = pp_id q,
    si_amountPaise = pp_amountPaise q, si_currency = pp_currency q\<rparr>"
  obtain out fd1 effs1 where s: "settleFeePayment env (newId (pp_id q)) input now fd = (out, fd1, effs1)"
    by (cases "settleFeePayment env (newId (pp_id q)) input now fd") auto
  note R = Cons.prems(3) [unfolded reconcile_loop.simps Let_def, folded input_def, unfolded s prod.case]
  note k = settle_keeps [OF Cons.prems(1) _ s]
  have fresh: "newId (pp_id q) \<notin> en_id ` set (f_entries fd)" using Cons.prems(2) by blast
  show ?case
  proof (cases "out = Settled \<or> out = Already_paid")
    case True
    with R Cons.prems(1) k(1) [OF fresh] Cons.IH [OF Cons.prems(1,2)] show ?thesis
      by (simp split: if_split_asm)
  next
    case False
    then have "ledger_ok fd1" "\<forall>q. newId q \<notin> en_id ` set (f_entries fd1)"
      using k [OF fresh] Cons.prems(2) by auto
    from Cons.IH [OF this] Cons.IH [OF Cons.prems(1,2)] R False Cons.prems(1) this(1) show ?thesis
      by (auto split: if_split_asm prod.split_asm)
  qed
qed simp

lemma checked_keeps:
  "ledger_ok (fd\<lparr>f_payments := update_where (\<lambda>p. fp_id p = i) (\<lambda>p. p\<lparr>fp_lastCheckedAt := Some now\<rparr>) (f_payments fd)\<rparr>) = ledger_ok fd"
  by (rule update_payments_keeps) (auto simp: same_money_def)

lemma reconcile_keeps:
  assumes "ledger_ok fd" "\<forall>q. newId q \<notin> en_id ` set (f_entries fd)" "reconcileFeeOrder env prov newId order now fd = (r, fd', effs)"
  shows "ledger_ok fd'"
proof -
  let ?fd = "fd\<lparr>f_payments := update_where (\<lambda>p. fp_id p = fp_id order) (\<lambda>p. p\<lparr>fp_lastCheckedAt := Some now\<rparr>) (f_payments fd)\<rparr>"
  have "ledger_ok fd2" if "reconcile_loop env prov newId order now qs ?fd = (r2, fd2, e2)" for qs r2 fd2 e2
    using reconcile_loop_keeps [OF _ _ that] assms(1,2) checked_keeps by simp
  with assms(1,3) show ?thesis
    by (auto simp: reconcileFeeOrder_def Let_def keeps split: if_splits option.splits prod.splits bool.splits)
qed

lemma order_keeps:
  assumes "ledger_ok fd" "newId \<notin> fp_id ` set (f_payments fd)" "orderId \<notin> fp_providerOrderId ` set (f_payments fd)"
    "order_tx name newId orderId shopId by' now fd = (r, fd')"
  shows "ledger_ok fd'"
proof -
  let ?fd1 = "fd\<lparr>f_payments := update_where (is_open shopId) (\<lambda>x. x\<lparr>fp_status := Fp_expired\<rparr>) (f_payments fd)\<rparr>"
  let ?n = "new_payment newId shopId name orderId (fa_totalDuePaise (computeFeeAccount shopId now fd)) by' now"
  have 1: "ledger_ok ?fd1"
    using update_payments_keeps [of fd "is_open shopId" "\<lambda>x. x\<lparr>fp_status := Fp_expired\<rparr>" ?fd1] assms(1)
    by (auto simp: same_money_def is_open_def dest: open_not_paid)
  have maps: "map fp_id (f_payments ?fd1) = map fp_id (f_payments fd)"
      "map fp_providerOrderId (f_payments ?fd1) = map fp_providerOrderId (f_payments fd)"
    by (simp_all add: map_update_where)
  then have "newId \<notin> fp_id ` set (f_payments ?fd1)" "orderId \<notin> fp_providerOrderId ` set (f_payments ?fd1)"
    using assms(2,3) by (metis list.set_map)+
  moreover have "prepaid_sum k (?fd1\<lparr>f_payments := f_payments ?fd1 @ [?n]\<rparr>) = prepaid_sum k ?fd1" for k
    by (simp add: prepaid_sum_def new_payment_def)
  moreover have "is_accrued k (?fd1\<lparr>f_payments := f_payments ?fd1 @ [?n]\<rparr>) = is_accrued k ?fd1" for k
    by (auto simp: is_accrued_def has_line_def)
  ultimately have "0 < fa_totalDuePaise (computeFeeAccount shopId now fd) \<Longrightarrow> ledger_ok (?fd1\<lparr>f_payments := f_payments ?fd1 @ [?n]\<rparr>)"
    using 1 by (auto simp: ledger_ok_def ids_ok_def books_balance_def accrued_sum_def owed_on_statements_def ledger_balance_def
        new_payment_def payment_ok_def)
  then show ?thesis
    using assms(1,4) by (auto simp: order_tx_def Let_def event_keeps split: if_splits option.splits)
qed


lemma post_keeps:
  assumes "ledger_ok fd" "newId \<notin> en_id ` set (f_entries fd)"
  shows "ledger_ok (snd (postVerifiedPrintCommission jobId newId now js fd))"
proof -
  have "ledger_ok (post_entry newId now j m fd)" for j m
    using assms(1) add_entry_keeps [OF assms(1), of "post_entry newId now j m fd" "commission_entry newId now j m"] assms(2)
    by (auto simp: post_entry_def commission_entry_def)
  then show ?thesis
    using assms(1) by (auto simp: postVerifiedPrintCommission_def split: option.splits sum.splits)
qed

lemma refund_keeps:
  assumes "ledger_ok fd" "newId \<notin> en_id ` set (f_entries fd)"
  shows "ledger_ok (snd (snd (confirmCounterRefund jobId confirmed newId now d fd)))"
proof -
  have "ledger_ok (fd\<lparr>f_entries := f_entries fd @ [e]\<rparr>)" if "en_id e = newId" "en_type e = Refund_credit" for e
    using add_entry_keeps [OF assms(1), of "fd\<lparr>f_entries := f_entries fd @ [e]\<rparr>" e] that assms(2) by simp
  with assms(1) show ?thesis
    by (auto simp: confirmCounterRefund_def split: option.splits)
qed

lemma adopt_keeps: "ledger_ok fd \<Longrightarrow> ledger_ok (snd (adopt_statements env now fd))"
proof -
  assume ok: "ledger_ok fd"
  let ?fd = "snd (adopt_statements env now fd)"
  let ?g = "\<lambda>s. if feePaymentsEnabled env \<and> needs_adoption s then s\<lparr>st_dueAt := Some (dueAtFor env now)\<rparr> else s"
  have s: "f_statements ?fd = map ?g (f_statements fd)"
    by (simp add: adopt_statements_def update_where_def)
  have t: "f_entries ?fd = f_entries fd" "f_lines ?fd = f_lines fd" "f_payments ?fd = f_payments fd"
    by (simp_all add: adopt_statements_def)
  have "map st_id (f_statements ?fd) = map st_id (f_statements fd)" by (simp add: s)
  moreover have "\<forall>x \<in> set (f_statements ?fd). statement_ok x"
    using ledger_okD(2) [OF ok] by (auto simp: s)
  moreover have "owed_on_statements k ?fd = owed_on_statements k fd" for k
    unfolding owed_on_statements_def sum_where_if s map_map by (intro arg_cong [of _ _ sum_list] map_cong) auto
  moreover have "is_accrued k ?fd = is_accrued k fd" for k by (auto simp: is_accrued_def has_line_def t)
  ultimately show ?thesis
    using ok by (simp add: ledger_ok_def ids_ok_def books_balance_def accrued_sum_def ledger_balance_def prepaid_sum_def t)
qed

lemma evaluate_each_keeps: "evaluate_each env now ss fd = (b, u, fd', effs) \<Longrightarrow> ledger_ok fd' = ledger_ok fd"
proof (induction ss arbitrary: fd b u fd' effs)
  case (Cons s ss)
  obtain c fd1 e1 where "evaluateShopFeeBlock env s now fd = (c, fd1, e1)" by (cases "evaluateShopFeeBlock env s now fd") auto
  moreover from this have "ledger_ok fd1 = ledger_ok fd"
    by (auto simp: evaluateShopFeeBlock_def keeps split: prod.splits)
  ultimately show ?case using Cons by (auto split: prod.splits)
qed simp

lemma notify_each_keeps: "notify_each env now ss fd = (n, fd', effs) \<Longrightarrow> ledger_ok fd' = ledger_ok fd"
proof (induction ss arbitrary: fd n fd' effs)
  case (Cons s ss)
  then show ?case by (auto simp: keeps split: if_splits option.splits prod.splits)
qed simp

lemma maintenance_keeps: "ledger_ok fd \<Longrightarrow> runFeeMaintenance env now fd = (r, fd', effs) \<Longrightarrow> ledger_ok fd'"
  using adopt_keeps [of fd env now]
  by (auto simp: runFeeMaintenance_def evaluate_each_keeps notify_each_keeps split: prod.splits if_splits)

lemma lift_keeps: "liftBlock k days a now fd = (r, fd', effs) \<Longrightarrow> ledger_ok fd' = ledger_ok fd"
  by (auto simp: liftBlock_def Let_def keeps split: option.splits if_splits prod.splits)

subsection \<open>The step relation\<close>

inductive fee_step :: "fee_env \<Rightarrow> fee_db \<Rightarrow> fee_db \<Rightarrow> bool" for env :: fee_env where
  S_post: "newId \<notin> en_id ` set (f_entries fd) \<Longrightarrow> fee_step env fd (snd (postVerifiedPrintCommission jobId newId now js fd))"
| S_refund: "newId \<notin> en_id ` set (f_entries fd) \<Longrightarrow> fee_step env fd (snd (snd (confirmCounterRefund jobId confirmed newId now d fd)))"
| S_freeze: "newId \<notin> st_id ` set (f_statements fd) \<Longrightarrow>
    fee_step env fd (snd (freezeWeeklyCommissionStatement env newId shopId start finish now fd))"
| S_order: "newId \<notin> fp_id ` set (f_payments fd) \<Longrightarrow> orderId \<notin> fp_providerOrderId ` set (f_payments fd) \<Longrightarrow>
    order_tx name newId orderId shopId requestedById now fd = (r, fd') \<Longrightarrow> fee_step env fd fd'"
| S_attempted: "fee_step env fd (markAttempted paymentId fd)"
| S_failed: "fee_step env fd (snd (markFeeAttemptFailed orderId reason now fd))"
| S_settle: "newId \<notin> en_id ` set (f_entries fd) \<Longrightarrow> settleFeePayment env newId input now fd = (out, fd', effs) \<Longrightarrow> fee_step env fd fd'"
| S_webhook: "newId \<notin> en_id ` set (f_entries fd) \<Longrightarrow> handleFeeWebhook env newId payload now fd = (out2, fd', effs) \<Longrightarrow> fee_step env fd fd'"
| S_reconcile: "\<forall>q. newEntry q \<notin> en_id ` set (f_entries fd) \<Longrightarrow>
    reconcileFeeOrder env prov newEntry order now fd = (st, fd', effs) \<Longrightarrow> fee_step env fd fd'"
| S_expire: "fee_step env fd (expire_orders_before now fd)"
| S_maintenance: "runFeeMaintenance env now fd = (m, fd', effs) \<Longrightarrow> fee_step env fd fd'"
| S_lift: "liftBlock shopId days auditId now fd = (l, fd', effs) \<Longrightarrow> fee_step env fd fd'"

inductive_cases fee_stepE: "fee_step env fd fd'"

definition empty_ledger :: "shop_row list \<Rightarrow> fee_db" where
  "empty_ledger shops = \<lparr>f_shops = shops, f_entries = [], f_statements = [], f_lines = [], f_payments = [], f_allocations = [],
    f_events = [], f_notices = []\<rparr>"

lemma empty_ledger_ok: "ledger_ok (empty_ledger shops)"
  by (simp add: ledger_ok_def ids_ok_def books_balance_def empty_ledger_def ledger_balance_def accrued_sum_def
      owed_on_statements_def prepaid_sum_def)

lemma webhook_keeps:
  assumes "ledger_ok fd" "newId \<notin> en_id ` set (f_entries fd)" "handleFeeWebhook env newId payload now fd = (out, fd', effs)"
  shows "ledger_ok fd'"
proof (cases "webhook_action_of payload (f_payments fd)")
  case (Wa_failed oid)
  have "fd' = snd (markFeeAttemptFailed oid ''payment_failed'' now fd)"
    using assms(3) by (simp add: handleFeeWebhook_def Wa_failed split_beta)
  with assms(1) failed_keeps show ?thesis by blast
next
  case (Wa_settle input)
  obtain o' fd1 effs1 where s: "settleFeePayment env newId input now fd = (o', fd1, effs1)"
    by (cases "settleFeePayment env newId input now fd") auto
  have "fd' = fd1" using assms(3) by (simp add: handleFeeWebhook_def Wa_settle s)
  with settle_keeps(1) [OF assms(1,2) s] show ?thesis by simp
qed (use assms in \<open>simp_all add: handleFeeWebhook_def\<close>)

lemma fee_step_keeps:
  assumes "fee_step env fd fd'" "ledger_ok fd"
  shows "ledger_ok fd'"
  using assms
proof cases
  case (S_post newId jobId now js)
  with assms(2) show ?thesis by (blast intro: post_keeps)
next
  case (S_refund newId jobId confirmed now d)
  with assms(2) show ?thesis by (blast intro: refund_keeps)
next
  case (S_freeze newId shopId start finish now)
  with assms(2) show ?thesis by (blast intro: freeze_keeps_ledger)
next
  case (S_order newId orderId name shopId requestedById now r)
  with assms(2) show ?thesis by (blast intro: order_keeps)
next
  case (S_settle newId input now out effs)
  with assms(2) show ?thesis by (blast intro: settle_keeps(1))
next
  case (S_webhook newId payload now out2 effs)
  with assms(2) show ?thesis by (blast intro: webhook_keeps)
next
  case (S_reconcile newEntry prov order now st effs)
  with assms(2) show ?thesis by (blast intro: reconcile_keeps)
next
  case (S_maintenance now m effs)
  with assms(2) show ?thesis by (blast intro: maintenance_keeps)
next
  case (S_lift shopId days auditId now l effs)
  with assms(2) show ?thesis by (simp only: lift_keeps)
qed (use assms(2) keeps in simp_all)

text \<open>
  C13. The books always balance. From an empty ledger, through any sequence of the fee operations (the ids of
  new rows being new), every shop's ledger balance is what is accrued and not yet on a statement, plus what is
  unpaid on its statements, minus what it paid in advance; every statement is either settled and paid exactly
  in full or open with something left to pay; and no payment that is not settled holds an advance.
\<close>

theorem books_always_balance:
  assumes "(fee_step env)\<^sup>*\<^sup>* (empty_ledger shops) fd"
  shows "getOpenCommissionBalance k fd = accrued_sum k fd + owed_on_statements k fd - prepaid_sum k fd
    \<and> (\<forall>s \<in> set (f_statements fd). 0 \<le> st_paidPaise s \<and> st_paidPaise s \<le> st_amountDuePaise s
        \<and> (st_status s = St_settled \<longleftrightarrow> st_paidPaise s = st_amountDuePaise s))
    \<and> (\<forall>p \<in> set (f_payments fd). 0 \<le> fp_unallocatedPaise p \<and> (fp_status p \<noteq> Fp_paid \<longrightarrow> fp_unallocatedPaise p = 0))"
proof -
  have "ledger_ok fd"
    using assms by (induction rule: rtranclp_induct) (auto intro: empty_ledger_ok fee_step_keeps)
  then show ?thesis
    using ledger_okD(3,4) [of fd] statement_okD [OF ledger_okD(2), of fd]
    by (auto simp: open_balance_is_ledger payment_ok_def)
qed


text \<open>A printed and paid order of the shop \<open>s\<close>, from which the shop owes the markup of 200 paise.\<close>

definition printed_order :: job where
  "printed_order = (sample_job ''a'' Completed)\<lparr>j_paymentStatus := Paid, j_counterPaymentConfirmedAt := Some 1, j_printConfirmedAt := Some 2\<rparr>"

definition posted_ledger :: "shop_row list \<Rightarrow> fee_db" where
  "posted_ledger shops = snd (postVerifiedPrintCommission ''a'' ''e'' 3 [printed_order] (empty_ledger shops))"

lemma posted_reachable: "(fee_step env)\<^sup>*\<^sup>* (empty_ledger shops) (posted_ledger shops)"
  unfolding posted_ledger_def by (intro r_into_rtranclp S_post) (simp add: empty_ledger_def)

theorem books_always_balance_witness:
  "getOpenCommissionBalance ''s'' (posted_ledger [sample_shop]) = accrued_sum ''s'' (posted_ledger [sample_shop])
    + owed_on_statements ''s'' (posted_ledger [sample_shop]) - prepaid_sum ''s'' (posted_ledger [sample_shop])"
  using books_always_balance [OF posted_reachable, where k = "''s''"] by blast

end
