(* ===== verification/Fee_Settlement.thy ===== *)
theory Fee_Settlement
  imports Fee_Runs
begin

text \<open>
  Paying the fee: one settlement per order, the oldest statement first, and what is asked is enough to reopen
  the shop; and the block itself.
\<close>

lemma commission_once: "write_once (\<lambda>(newId, now, j, m). post_entry newId now j m)"
  by unfold_locales (auto simp: post_entry_def has_entry_def commission_entry_def)

interpretation commission_upsert: write_once "\<lambda>(newId, now, j, m). post_entry newId now j m"
  by (rule commission_once)

subsection \<open>The outcome of a settlement\<close>

definition payable :: "fee_db \<Rightarrow> settle_input \<Rightarrow> fee_payment_row \<Rightarrow> bool" where
  "payable fd input p = (find (\<lambda>p. fp_providerOrderId p = si_providerOrderId input) (f_payments fd) = Some p \<and> fp_status p \<noteq> Fp_paid
    \<and> si_amountPaise input = fp_amountPaise p \<and> si_currency input = fp_currency p
    \<and> \<not> list_ex (\<lambda>x. fp_providerPaymentId x = Some (si_providerPaymentId input) \<and> fp_id x \<noteq> fp_id p) (f_payments fd))"

lemma settle_payable:
  assumes "payable fd input p" "settleFeePayment env newId input now fd = (out, fd', effs)"
  shows "out = Settled" "p \<in> set (f_payments fd)"
    "f_entries fd' = f_entries (post_settlement newId (si_providerPaymentId input) now p fd)"
    "f_statements fd' = f_statements (post_settlement newId (si_providerPaymentId input) now p fd)"
    "f_lines fd' = f_lines (post_settlement newId (si_providerPaymentId input) now p fd)"
    "f_payments fd' = f_payments (post_settlement newId (si_providerPaymentId input) now p fd)"
    "f_shops fd' = f_shops (snd (evaluateShopFeeBlockTx env (fp_shopId p) now (post_settlement newId (si_providerPaymentId input) now p fd)))"
proof -
  let ?fd1 = "post_settlement newId (si_providerPaymentId input) now p fd"
  obtain c fd2 where e: "evaluateShopFeeBlockTx env (fp_shopId p) now ?fd1 = (c, fd2)" by fastforce
  obtain fd3 e3 where a: "afterBlockChange (fp_shopId p) c fd2 = (fd3, e3)" by fastforce
  obtain b fd4 e4 where n: "emitFeeNotice (fp_shopId p) None ''payment_received'' (payment_notice_key (fp_id p)) fd3 = (b, fd4, e4)"
    by (cases "emitFeeNotice (fp_shopId p) None ''payment_received'' (payment_notice_key (fp_id p)) fd3") auto
  have r: "out = Settled" "fd' = fd4"
    using assms by (auto simp: settleFeePayment_def payable_def e a n)
  show "p \<in> set (f_payments fd)" using assms(1) by (auto simp: payable_def dest: find_SomeD)
  show "out = Settled" "f_entries fd' = f_entries ?fd1" "f_statements fd' = f_statements ?fd1" "f_lines fd' = f_lines ?fd1"
    "f_payments fd' = f_payments ?fd1" "f_shops fd' = f_shops (snd (evaluateShopFeeBlockTx env (fp_shopId p) now ?fd1))"
    by (simp_all add: r emit_tables [OF n] after_tables [OF a] evaluate_tables [OF e] e)
qed

lemma paid_afterwards:
  assumes "ledger_ok fd" "payable fd input p" "settleFeePayment env newId input now fd = (out, fd', effs)"
  shows "\<exists>q. find (\<lambda>p. fp_providerOrderId p = si_providerOrderId input) (f_payments fd') = Some q \<and> fp_status q = Fp_paid
    \<and> fp_providerPaymentId q = Some (si_providerPaymentId input) \<and> fp_amountPaise q = fp_amountPaise p"
proof -
  note S = settle_payable [OF assms(2,3)]
  note P = post_settlement_spec(4) [OF assms(1) S(2), of newId "si_providerPaymentId input" now]
  have "find (\<lambda>p. fp_providerOrderId p = si_providerOrderId input) (f_payments fd) = Some p"
    using assms(2) by (simp add: payable_def)
  then show ?thesis
    by (simp add: S(6) P find_update_where_key)
qed

text \<open>
  C14. A captured payment is posted exactly once, to the oldest statements first. When a payment of the
  order's amount and currency arrives for an order not yet paid, and no other order carries that payment: the outcome is settled, exactly one entry
  (minus the amount) is added to the ledger, the statement at place \<open>i\<close> of the open ones, oldest first, gets
  what the older ones leave of the amount, up to what it owes; and any later delivery for the same order,
  whatever its amount, currency or source, changes nothing and posts nothing: already paid for the same
  payment, a conflict for another one.
\<close>

theorem settled_once_oldest_first:
  assumes "ledger_ok fd" "newId \<notin> en_id ` set (f_entries fd)" "payable fd input p"
    "settleFeePayment env newId input now fd = (out, fd', effs)" "i < length (unpaid_statements (fp_shopId p) fd)"
    "si_providerOrderId again = si_providerOrderId input"
  shows "out = Settled \<and> f_entries fd' = f_entries fd @ [settlement_entry newId now p]
    \<and> (\<exists>s \<in> set (f_statements fd'). st_id s = st_id (unpaid_statements (fp_shopId p) fd ! i)
        \<and> st_paidPaise s = st_paidPaise (unpaid_statements (fp_shopId p) fd ! i)
          + min (owe (unpaid_statements (fp_shopId p) fd ! i))
              (max 0 (fp_amountPaise p - (\<Sum>s\<leftarrow>take i (unpaid_statements (fp_shopId p) fd). owe s))))
    \<and> settleFeePayment env newId' again later fd'
        = (if si_providerPaymentId again = si_providerPaymentId input then Already_paid else Conflicting, fd', [])"
proof -
  note S = settle_payable [OF assms(3,4)]
  note P = post_settlement_spec [OF assms(1) S(2), where newId = newId and q = "si_providerPaymentId input" and now = now]
  note u = unpaid_facts [OF assms(1), of "fp_shopId p"]
  have pos: "0 \<le> fp_amountPaise p" using ledger_okD(3) [OF assms(1) S(2)] by (simp add: payment_ok_def)
  have d: "distinct (map st_id (f_statements fd))" using ledger_okD(1) [OF assms(1)] by (simp add: ids_ok_def)
  obtain rest fd1 where run: "allocate_loop (fp_id p) now (fp_amountPaise p) (unpaid_statements (fp_shopId p) fd) fd = (rest, fd1)"
    by fastforce
  have ow: "\<forall>s \<in> set (unpaid_statements (fp_shopId p) fd). 0 < owe s" using u(3) by blast
  have st: "\<exists>s \<in> set (f_statements fd'). st_id s = st_id (unpaid_statements (fp_shopId p) fd ! i)
      \<and> st_paidPaise s = st_paidPaise (unpaid_statements (fp_shopId p) fd ! i) + share (fp_amountPaise p) (unpaid_statements (fp_shopId p) fd) i"
    using allocate_shares [OF d u(2) ow u(1) pos run assms(5)] by (auto simp: S(4) P(2) run)
  obtain q where q: "find (\<lambda>p. fp_providerOrderId p = si_providerOrderId again) (f_payments fd') = Some q" "fp_status q = Fp_paid"
      "fp_providerPaymentId q = Some (si_providerPaymentId input)"
    using paid_afterwards [OF assms(1,3,4)] assms(6) by auto
  then have "settleFeePayment env newId' again later fd'
      = (if si_providerPaymentId again = si_providerPaymentId input then Already_paid else Conflicting, fd', [])"
    by (auto simp: settleFeePayment_def)
  with st show ?thesis by (simp add: S(1,3) P(1) share_def)
qed

subsection \<open>Paying what is asked\<close>

lemma no_debt_no_statement:
  assumes "ledger_ok fd" "owed_on_statements k fd = 0"
  shows "filter (is_unpaid k) (f_statements fd) = []"
proof -
  have "unpaid_statements k fd = []"
  proof (rule ccontr)
    assume "unpaid_statements k fd \<noteq> []"
    then obtain s ss where s: "unpaid_statements k fd = s # ss" by (cases "unpaid_statements k fd") auto
    have o: "0 < owe s" "\<forall>x \<in> set ss. 0 < owe x" using unpaid_facts(3) [OF assms(1), of k] by (auto simp: s)
    have "0 \<le> (\<Sum>s\<leftarrow>ss. owe s)" using o(2) by (intro sum_list_nonneg_map) (auto intro: less_imp_le)
    with o(1)
    show False using unpaid_facts(4) [OF assms(1), of k] assms(2) by (simp add: s)
  qed
  then show ?thesis by (simp add: unpaid_statements_def)
qed

lemma evaluate_no_debt:
  assumes "filter (is_unpaid k) (f_statements fd) = []" "find_shop k fd = Some shop"
  shows "\<exists>shop'. find_shop k (snd (evaluateShopFeeBlockTx env k now fd)) = Some shop' \<and> sh_feeBlockedAt shop' = None"
proof -
  have "dated_unpaid k fd = []"
    using assms(1) by (simp add: dated_unpaid_def filter_empty_conv)
  moreover have "find_shop k (set_shop k f fd) = Some (f shop)" if "\<And>x. sh_id (f x) = sh_id x" for f
    using assms(2) that find_SomeD [of _ "f_shops fd" shop]
    by (auto simp: find_shop_def set_shop_def find_update_where_key)
  ultimately show ?thesis
    using assms(2) by (auto simp: evaluateShopFeeBlockTx_def Let_def find_shop_def)
qed

text \<open>
  C15. Paying exactly what is asked clears the account and reopens the shop at once: if the amount of the
  order is the total due on the account and the captured payment settles it, then immediately afterwards, at
  whatever time the account is looked at, nothing is due, no statement is open, no banner is shown and the
  shop is not blocked, whether it was blocked before or not.
\<close>

theorem paying_the_total_reopens:
  assumes "ledger_ok fd" "newId \<notin> en_id ` set (f_entries fd)" "payable fd input p" "find_shop (fp_shopId p) fd = Some shop"
    "fp_amountPaise p = fa_totalDuePaise (computeFeeAccount (fp_shopId p) now0 fd)"
    "settleFeePayment env newId input now fd = (out, fd', effs)"
  shows "out = Settled \<and> fa_totalDuePaise (computeFeeAccount (fp_shopId p) later fd') = 0
    \<and> fa_state (computeFeeAccount (fp_shopId p) later fd') = Fs_paid_up
    \<and> fa_banner (computeFeeAccount (fp_shopId p) later fd') = None
    \<and> unpaid_statements (fp_shopId p) fd' = []
    \<and> (\<exists>shop'. find_shop (fp_shopId p) fd' = Some shop' \<and> sh_feeBlockedAt shop' = None)"
proof -
  let ?k = "fp_shopId p" and ?fd1 = "post_settlement newId (si_providerPaymentId input) now p fd"
  note S = settle_payable [OF assms(3,6)]
  have np: "fp_status p \<noteq> Fp_paid" using assms(3) by (simp add: payable_def)
  note B = settled_books [OF assms(1) S(2) np, where newId = newId and q = "si_providerPaymentId input" and now = now and k = ?k]
  have ok1: "ledger_ok ?fd1" by (rule settlement_keeps_ledger [OF assms(1) S(2) np assms(2)])
  have ok: "ledger_ok fd'" using ok1 ledger_frame(1) [OF S(3,4,5,6)] by simp
  have amount: "fp_amountPaise p = max (owed_on_statements ?k fd) (ledger_balance ?k fd)"
    using assms(5) account_total [OF assms(1)] by simp
  have owed1: "owed_on_statements ?k ?fd1 = 0"
    using B(4) amount by (simp add: settled_rest_def)
  then have owed: "owed_on_statements ?k fd' = 0" using ledger_frame(4) [OF S(3,4,5,6)] by simp
  have "ledger_balance ?k fd' \<le> 0"
    using B(1) amount ledger_frame(5) [OF S(3,4,5,6)] by simp
  then have total: "fa_totalDuePaise (computeFeeAccount ?k t fd') = 0" for t
    using account_total [OF ok] owed by simp
  have none: "filter (is_unpaid ?k) (f_statements fd') = []" by (rule no_debt_no_statement [OF ok owed])
  have "find_shop ?k ?fd1 = Some shop"
    using assms(4) post_settlement_spec(5) [OF assms(1) S(2)] by (simp add: find_shop_def)
  from evaluate_no_debt [OF _ this] none
  obtain shop' where shop': "find_shop ?k fd' = Some shop'" "sh_feeBlockedAt shop' = None"
    by (auto simp: S(4,7) find_shop_def)
  have settled_view: "sv_status w \<noteq> Vs_overdue \<and> sv_outstandingPaise w = 0" if "w \<in> set (map (view fd' later) (settled_statements ?k fd'))" for w
  proof -
    from that obtain s where s: "w = view fd' later s" "s \<in> set (f_statements fd')" "st_status s = St_settled"
      by (auto simp: settled_statements_def dest!: in_set_takeD)
    then have "outstanding s = 0" using statement_okD(3) [OF ledger_okD(2) [OF ok s(2)]] by (simp add: outstanding_def)
    then show ?thesis by (simp add: s(1) view_def Let_def)
  qed
  have un: "unpaid_statements ?k fd' = []" using none by (simp add: unpaid_statements_def)
  have "fa_state (computeFeeAccount ?k later fd') = Fs_paid_up"
    using total [of later] shop' settled_view by (simp add: computeFeeAccount_def Let_def un list_ex_iff)
  moreover from this have "fa_banner (computeFeeAccount ?k later fd') = None"
    using account_statements_due [OF ok, of ?k later] owed by (simp add: computeFeeAccount_def Let_def)
  ultimately show ?thesis using S(1) total un shop' by simp
qed


subsection \<open>Blocking\<close>

definition must_block :: "fee_env \<Rightarrow> id \<Rightarrow> millis \<Rightarrow> fee_db \<Rightarrow> bool" where
  "must_block env k now fd = (feePaymentsEnabled env \<and> list_ex (\<lambda>s. is_unpaid k s \<and> is_overdue env now s) (f_statements fd))"

lemma find_shop_set:
  assumes "find_shop k fd = Some shop" "\<And>x. sh_id (f x) = sh_id x"
  shows "find_shop k (set_shop k f fd) = Some (f shop)"
  using assms find_SomeD [of _ "f_shops fd" shop] by (auto simp: find_shop_def set_shop_def find_update_where_key)

lemma find_overdue_iff:
  "find (is_overdue env now) (if feePaymentsEnabled env then dated_unpaid k fd else []) = None \<longleftrightarrow> \<not> must_block env k now fd"
  by (auto simp: must_block_def find_None_iff dated_unpaid_def list_ex_iff is_overdue_def split: option.splits)

text \<open>
  The block follows the debt. After an evaluation of a shop at time \<open>now\<close> it is blocked exactly when fee
  payments are enabled, no support override is active and some open statement is past its due date plus the
  period of grace; a shop that stays blocked keeps the time of its block; the evaluation changes neither
  statements, payments nor ledger; and a second evaluation at the same time decides nothing new.
\<close>

theorem block_follows_debt:
  assumes "find_shop k fd = Some shop" "evaluateShopFeeBlockTx env k now fd = (change, fd')"
  shows "(\<exists>shop'. find_shop k fd' = Some shop'
        \<and> (sh_feeBlockedAt shop' \<noteq> None \<longleftrightarrow> must_block env k now fd \<and> \<not> override_active now shop)
        \<and> (sh_feeBlockedAt shop \<noteq> None \<and> sh_feeBlockedAt shop' \<noteq> None \<longrightarrow> shop' = shop))
    \<and> f_statements fd' = f_statements fd \<and> f_payments fd' = f_payments fd \<and> f_entries fd' = f_entries fd
    \<and> evaluateShopFeeBlockTx env k now fd' = (No_change, fd')"
proof -
  define o' where "o' = find (is_overdue env now) (if feePaymentsEnabled env then dated_unpaid k fd else [])"
  have same: "dated_unpaid k fd' = dated_unpaid k fd" by (simp add: dated_unpaid_def evaluate_tables [OF assms(2)])
  have set_add: "find_shop k (add_event a b c x) = find_shop k x" for a b c x by (simp add: find_shop_def)
  note E = evaluateShopFeeBlockTx_def Let_def
  have step: "evaluateShopFeeBlockTx env k now fd = (change, fd') \<Longrightarrow> \<exists>shop'. find_shop k fd' = Some shop'
      \<and> override_active now shop' = override_active now shop
      \<and> (sh_feeBlockedAt shop' \<noteq> None \<longleftrightarrow> o' \<noteq> None \<and> \<not> override_active now shop)
      \<and> (sh_feeBlockedAt shop \<noteq> None \<and> sh_feeBlockedAt shop' \<noteq> None \<longrightarrow> shop' = shop)"
    unfolding E assms(1) option.case o'_def [symmetric]
    using assms(1)
    by (cases o') (auto simp: set_add find_shop_set override_active_def split: if_split_asm)
  from step [OF assms(2)] obtain shop' where s: "find_shop k fd' = Some shop'" "override_active now shop' = override_active now shop"
      "sh_feeBlockedAt shop' \<noteq> None \<longleftrightarrow> o' \<noteq> None \<and> \<not> override_active now shop"
      "sh_feeBlockedAt shop \<noteq> None \<and> sh_feeBlockedAt shop' \<noteq> None \<longrightarrow> shop' = shop"
    by (elim exE conjE) (rule that)
  have again: "evaluateShopFeeBlockTx env k now fd' = (No_change, fd')"
    unfolding E s(1) option.case same o'_def [symmetric]
    using s(2,3) by (cases o') auto
  have "o' \<noteq> None \<longleftrightarrow> must_block env k now fd"
    unfolding o'_def by (simp only: find_overdue_iff not_not)
  with s(1,3,4) again evaluate_tables [OF assms(2)] show ?thesis by simp
qed

subsection \<open>Notices\<close>

lemma notice_write_once: "write_once (\<lambda>(shopId, statementId, kind, key) fd. fst (snd (emitFeeNotice shopId statementId kind key fd)))"
  by unfold_locales (auto simp: emitFeeNotice_def)

interpretation fee_notice: write_once "\<lambda>(shopId, statementId, kind, key) fd. fst (snd (emitFeeNotice shopId statementId kind key fd))"
  by (rule notice_write_once)

definition notice_keys :: "fee_db \<Rightarrow> string set" where
  "notice_keys fd = nt_dedupeKey ` set (f_notices fd)"

lemma emit_keys:
  "emitFeeNotice k st kind key fd = (b, fd', effs) \<Longrightarrow> key \<in> notice_keys fd' \<and> notice_keys fd \<subseteq> notice_keys fd'
    \<and> (distinct (map nt_dedupeKey (f_notices fd)) \<longrightarrow> distinct (map nt_dedupeKey (f_notices fd')))"
  by (auto simp: emitFeeNotice_def notice_keys_def list_ex_iff split: if_splits)

lemma emit_known: "key \<in> notice_keys fd \<Longrightarrow> emitFeeNotice k st kind key fd = (False, fd, [])"
  by (auto simp: emitFeeNotice_def notice_keys_def list_ex_iff)

lemma notify_each_known:
  assumes "\<forall>s \<in> set ss. st_dueAt s \<noteq> None \<and> st_paidPaise s < st_amountDuePaise s
    \<longrightarrow> (case milestoneFor env (the (st_dueAt s)) now of None \<Rightarrow> True | Some m \<Rightarrow> notice_key_for s m \<in> notice_keys fd)"
  shows "notify_each env now ss fd = (0, fd, [])"
  using assms by (induction ss) (auto simp: emit_known split: option.splits)

lemma notify_each_keys:
  "notify_each env now ss fd = (n, fd', effs) \<Longrightarrow> notice_keys fd \<subseteq> notice_keys fd'
    \<and> (distinct (map nt_dedupeKey (f_notices fd)) \<longrightarrow> distinct (map nt_dedupeKey (f_notices fd')))
    \<and> (\<forall>s \<in> set ss. st_dueAt s \<noteq> None \<and> st_paidPaise s < st_amountDuePaise s
      \<longrightarrow> (case milestoneFor env (the (st_dueAt s)) now of None \<Rightarrow> True | Some m \<Rightarrow> notice_key_for s m \<in> notice_keys fd'))"
proof (induction ss arbitrary: fd n fd' effs)
  case (Cons s ss)
  show ?case
  proof (cases "st_dueAt s = None \<or> st_amountDuePaise s \<le> st_paidPaise s \<or> milestoneFor env (the (st_dueAt s)) now = None")
    case True
    then have "notify_each env now (s # ss) fd = notify_each env now ss fd" by auto
    with Cons.prems have "notify_each env now ss fd = (n, fd', effs)" by simp
    from Cons.IH [OF this] True show ?thesis by fastforce
  next
    case False
    then obtain m where m: "milestoneFor env (the (st_dueAt s)) now = Some m" by auto
    obtain b fd1 e1 where e: "emitFeeNotice (st_shopId s) (Some (st_id s)) (milestone_kind m) (notice_key_for s m) fd = (b, fd1, e1)"
      by (cases "emitFeeNotice (st_shopId s) (Some (st_id s)) (milestone_kind m) (notice_key_for s m) fd") auto
    obtain n2 e2 where r: "notify_each env now ss fd1 = (n2, fd', e2)"
      using Cons.prems False m e by (auto split: prod.splits)
    from Cons.IH [OF r] emit_keys [OF e] m show ?thesis by auto
  qed
qed simp

primrec milestone_rank :: "milestone \<Rightarrow> nat" where
  "milestone_rank Ms_statement_ready = 0"
| "milestone_rank Ms_reminder = 1"
| "milestone_rank Ms_final_warning = 2"

text \<open>
  A statement is announced at most once per milestone and never too late: with the terms of the
  environment in their bounds, a milestone exists exactly from the day the statement is billable until it is
  due, and the milestones follow one another as time passes; sending the notices of a list of statements
  records each of them, repeating the pass at the same time sends nothing and changes nothing, and no two
  recorded notices share a key.
\<close>

theorem notices_once:
  assumes "env_ok env" "distinct (map nt_dedupeKey (f_notices fd))" "notify_each env now ss fd = (n, fd', effs)"
  shows "notify_each env now ss fd' = (0, fd', []) \<and> distinct (map nt_dedupeKey (f_notices fd'))
    \<and> (milestoneFor env due now \<noteq> None \<longleftrightarrow> statementReadyAtFor env due \<le> now \<and> now < due)
    \<and> (\<forall>later m m'. now \<le> later \<and> milestoneFor env due now = Some m \<and> milestoneFor env due later = Some m'
        \<longrightarrow> milestone_rank m \<le> milestone_rank m')"
proof -
  note K = notify_each_keys [OF assms(3)]
  have "1 \<le> FEE_PAYMENT_TERMS_DAYS env" "0 \<le> FEE_OVERDUE_BLOCK_AFTER_DAYS env" using assms(1) by (simp_all add: env_ok_def)
  then have b: "due \<le> blockAtFor env due" "reminderAtFor env due \<le> finalWarningAtFor due"
      "statementReadyAtFor env due \<le> reminderAtFor env due" "finalWarningAtFor due < due"
    by (simp_all add: blockAtFor_def reminderAtFor_def finalWarningAtFor_def statementReadyAtFor_def DAY_MS_def)
  have "milestoneFor env due now \<noteq> None \<longleftrightarrow> statementReadyAtFor env due \<le> now \<and> now < due"
    using b by (auto simp: milestoneFor_def)
  moreover have "milestone_rank m \<le> milestone_rank m'"
    if "now \<le> later" "milestoneFor env due now = Some m" "milestoneFor env due later = Some m'" for later m m'
    using that b by (auto simp: milestoneFor_def split: if_splits)
  ultimately show ?thesis using notify_each_known K assms(2) by auto
qed

subsection \<open>An overdue account\<close>

text \<open>
  One statement of 200 paise, overdue, of a blocked shop, and the order with which its owner pays it.
\<close>

definition overdue_statement :: statement_row where
  "overdue_statement = \<lparr>st_id = ''st'', st_shopId = ''s'', st_periodStart = 0, st_periodEnd = 7, st_grossCommissionPaise = 200,
    st_creditPaise = 0, st_amountDuePaise = 200, st_status = St_frozen, st_frozenAt = Some 8, st_dueAt = Some 9, st_paidPaise = 0,
    st_settledAt = None\<rparr>"

definition open_order :: fee_payment_row where
  "open_order = \<lparr>fp_id = ''p'', fp_shopId = ''s'', fp_provider = ''mock'', fp_providerOrderId = ''order_x'', fp_amountPaise = 200,
    fp_currency = ''INR'', fp_status = Fp_created, fp_providerPaymentId = None, fp_requestedById = None, fp_expiresAt = 30,
    fp_paidAt = None, fp_failedAt = None, fp_failureReason = None, fp_unallocatedPaise = 0, fp_lastCheckedAt = None, fp_createdAt = 20\<rparr>"

definition overdue_db :: fee_db where
  "overdue_db = (posted_ledger [sample_shop\<lparr>sh_feeBlockedAt := Some 19\<rparr>])
    \<lparr>f_statements := [overdue_statement], f_lines := [\<lparr>ln_statementId = ''st'', ln_entryId = ''e'', ln_amountPaise = 200\<rparr>],
     f_payments := [open_order]\<rparr>"

definition sample_env :: fee_env where
  "sample_env = \<lparr>provider_name = Some ''mock'', FEE_PAYMENT_TERMS_DAYS = 7, FEE_OVERDUE_BLOCK_AFTER_DAYS = 0\<rparr>"

definition capture :: settle_input where
  "capture = \<lparr>si_providerOrderId = ''order_x'', si_providerPaymentId = ''pay_y'', si_amountPaise = 200, si_currency = ''INR''\<rparr>"

lemma overdue_db_ok: "ledger_ok overdue_db"
proof -
  have e: "f_entries overdue_db = f_entries (posted_ledger [sample_shop])"
    "f_entries (posted_ledger [sample_shop]) = [\<lparr>en_id = ''e'', en_shopId = ''s'', en_jobId = Some ''a'', en_type = Print_commission,
      en_amountPaise = 200, en_shopFundedDiscountPaise = 0, en_feePaymentId = None, en_createdAt = 3\<rparr>]"
    by code_simp+
  show ?thesis
    by (simp add: ledger_ok_def ids_ok_def books_balance_def ledger_balance_def accrued_sum_def owed_on_statements_def prepaid_sum_def
        e, simp add: overdue_db_def overdue_statement_def open_order_def is_accrued_def has_line_def payment_ok_def statement_ok_def
        UNPAID_STATEMENT_STATUSES_def is_paid_def)
qed

lemma overdue_facts:
  "''n'' \<notin> en_id ` set (f_entries overdue_db)" "payable overdue_db capture open_order"
  "find_shop (fp_shopId open_order) overdue_db = Some (sample_shop\<lparr>sh_feeBlockedAt := Some 19\<rparr>)"
  "fp_amountPaise open_order = fa_totalDuePaise (computeFeeAccount (fp_shopId open_order) 20 overdue_db)"
  "length (unpaid_statements (fp_shopId open_order) overdue_db) = 1"
  by code_simp+

lemma triple_parts: "x = (fst x, fst (snd x), snd (snd x))"
  by simp

theorem settled_once_oldest_first_witness:
  "fst (settleFeePayment sample_env ''n'' capture 21 overdue_db) = Settled"
  using settled_once_oldest_first [OF overdue_db_ok overdue_facts(1,2) triple_parts, where i = 0 and again = capture] overdue_facts(5)
  by simp

theorem paying_the_total_reopens_witness:
  "fa_totalDuePaise (computeFeeAccount (fp_shopId open_order) 99 (fst (snd (settleFeePayment sample_env ''n'' capture 21 overdue_db)))) = 0"
  using paying_the_total_reopens [OF overdue_db_ok overdue_facts(1,2,3,4) triple_parts] by blast

theorem block_follows_debt_witness:
  "f_statements (snd (evaluateShopFeeBlockTx sample_env (fp_shopId open_order) 21 overdue_db)) = f_statements overdue_db"
  using block_follows_debt [OF overdue_facts(3) surjective_pairing] by blast

theorem notices_once_witness:
  "notify_each sample_env 5 [overdue_statement] (fst (snd (notify_each sample_env 5 [overdue_statement] overdue_db)))
    = (0, fst (snd (notify_each sample_env 5 [overdue_statement] overdue_db)), [])"
proof -
  have "env_ok sample_env" "distinct (map nt_dedupeKey (f_notices overdue_db))" by code_simp+
  from notices_once [OF this triple_parts] show ?thesis by blast
qed

theorem amount_asked_is_ledger_balance_witness:
  "fa_totalDuePaise (computeFeeAccount ''s'' 20 overdue_db) = max (owed_on_statements ''s'' overdue_db) (getOpenCommissionBalance ''s'' overdue_db)"
  using amount_asked_is_ledger_balance [OF overdue_db_ok] by blast

end
