(* ===== verification/File_Retention.thy ===== *)
theory File_Retention
  imports Transitions Shop_Types
begin

text \<open>
  lib/fileRetention.ts and workers/conversion.ts: the conversion of an upload into a printable document and
  the deletion of its content. The object store holds keys; which of its calls fail, and what the document
  libraries make of a source, are parameters (the record \<open>libs\<close>). A delayed deletion job of the queue is the
  triple of its file, its deadline and its delay.
\<close>

datatype file_status = F_uploaded | F_converting | F_ready | F_failed | F_deleted

record file_source =
  fs_key :: string
  fs_mime :: string
  fs_name :: string

record file_row =
  fl_id :: id
  fl_studentId :: id
  fl_shopId :: id
  fl_originalName :: string
  fl_originalKey :: string
  fl_sources :: "file_source list option"
  fl_convertedKey :: "string option"
  fl_previewKey :: "string option"
  fl_mimeType :: string
  fl_pages :: "int option"
  fl_status :: file_status
  fl_error :: "string option"
  fl_deleteAfter :: "millis option"
  fl_deletionScheduledAt :: "millis option"
  fl_contentDeletedAt :: "millis option"
  fl_deletionAttempts :: int
  fl_lastDeletionError :: "string option"

record file_db =
  fd_files :: "file_row list"
  fd_objects :: "string list"

definition set_file :: "id \<Rightarrow> (file_row \<Rightarrow> file_row) \<Rightarrow> file_db \<Rightarrow> file_db" where
  "set_file fileId f fd = fd\<lparr>fd_files := update_where (\<lambda>x. fl_id x = fileId) f (fd_files fd)\<rparr>"

definition find_file :: "id \<Rightarrow> file_db \<Rightarrow> file_row option" where
  "find_file fileId fd = find (\<lambda>x. fl_id x = fileId) (fd_files fd)"

subsection \<open>fileRetention.ts\<close>

definition VERIFIED_PRINT_DELETE_DELAY_MS :: millis where "VERIFIED_PRINT_DELETE_DELAY_MS = 10 * 60000"
definition TERMINAL_JOB_DELETE_DELAY_MS :: millis where "TERMINAL_JOB_DELETE_DELAY_MS = 10 * 60000"

definition fileRetentionDeadline :: "int \<Rightarrow> millis \<Rightarrow> millis" where
  "fileRetentionDeadline unprintedRetentionMinutes now = now + unprintedRetentionMinutes * 60000"

definition verifiedPrintDeletionDeadline :: "millis \<Rightarrow> millis" where
  "verifiedPrintDeletionDeadline now = now + VERIFIED_PRINT_DELETE_DELAY_MS"

definition terminalJobDeletionDeadline :: "millis \<Rightarrow> millis" where
  "terminalJobDeletionDeadline now = now + TERMINAL_JOB_DELETE_DELAY_MS"

definition ACTIVE_FILE_JOB_STATUSES :: "job_status list" where
  "ACTIVE_FILE_JOB_STATUSES = [Pending_payment, Awaiting_arrival, Queued, Notified, Otp_verified, Printing, No_show, Requeued]"

definition needs_content :: "id \<Rightarrow> job \<Rightarrow> bool" where
  "needs_content fileId j = (j_fileId j = fileId \<and> j_status j \<in> set ACTIVE_FILE_JOB_STATUSES)"

definition fileHasActiveJobs :: "id \<Rightarrow> job list \<Rightarrow> bool" where
  "fileHasActiveJobs fileId js = (count_where (needs_content fileId) js > 0)"

definition isPrintedFileJob :: "job \<Rightarrow> bool" where
  "isPrintedFileJob j = (j_printConfirmedAt j \<noteq> None \<or> j_status j \<in> {Finishing, Ready_for_pickup, Completed})"

definition assertFileCanBackNewJobFrom :: "file_row \<Rightarrow> bool \<Rightarrow> unit result" where
  "assertFileCanBackNewJobFrom f alreadyPrinted =
    (if alreadyPrinted then Inl (Conflict ''already printed'')
     else if fl_deletionScheduledAt f \<noteq> None then Inl (Conflict ''about to be deleted'')
     else Inr ())"

definition assertFileCanBackNewJob :: "file_row \<Rightarrow> job list \<Rightarrow> unit result" where
  "assertFileCanBackNewJob f js =
    assertFileCanBackNewJobFrom f (count_where (\<lambda>j. j_fileId j = fl_id f \<and> isPrintedFileJob j) js > 0)"

type_synonym deletion_job = "id \<times> millis \<times> millis"

definition ensureFileDeletionJob :: "id \<Rightarrow> millis \<Rightarrow> millis \<Rightarrow> deletion_job" where
  "ensureFileDeletionJob fileId deadline now = (fileId, deadline, max 0 (deadline - now))"

definition later_deadline :: "id \<Rightarrow> millis \<Rightarrow> file_row \<Rightarrow> bool" where
  "later_deadline fileId deadline x = (fl_id x = fileId \<and> fl_status x \<noteq> F_deleted
    \<and> (case fl_deleteAfter x of None \<Rightarrow> True | Some t \<Rightarrow> t > deadline))"

definition scheduleEarlierDeletion :: "id \<Rightarrow> millis \<Rightarrow> millis \<Rightarrow> job list \<Rightarrow> file_db \<Rightarrow> file_db \<times> deletion_job list" where
  "scheduleEarlierDeletion fileId deadline now js fd =
    (if fileHasActiveJobs fileId js then (fd, [])
     else if count_where (later_deadline fileId deadline) (fd_files fd) = 0 then (fd, [])
     else (fd\<lparr>fd_files := update_where (later_deadline fileId deadline)
         (\<lambda>x. x\<lparr>fl_deleteAfter := Some deadline, fl_deletionScheduledAt := Some now, fl_lastDeletionError := None\<rparr>) (fd_files fd)\<rparr>,
       [ensureFileDeletionJob fileId deadline now]))"

definition scheduleFileDeletion :: "id \<Rightarrow> millis \<Rightarrow> job list \<Rightarrow> file_db \<Rightarrow> file_db \<times> deletion_job list" where
  "scheduleFileDeletion fileId now js fd = scheduleEarlierDeletion fileId (terminalJobDeletionDeadline now) now js fd"

definition scheduleVerifiedPrintFileDeletion :: "id \<Rightarrow> millis \<Rightarrow> job list \<Rightarrow> file_db \<Rightarrow> file_db \<times> deletion_job list" where
  "scheduleVerifiedPrintFileDeletion fileId now js fd = scheduleEarlierDeletion fileId (verifiedPrintDeletionDeadline now) now js fd"

subsection \<open>Deleting the content\<close>

definition keysForDeletion :: "file_row \<Rightarrow> string list" where
  "keysForDeletion f = remdups (filter (\<lambda>k. k \<noteq> [])
    ((case fl_sources f of Some ss \<Rightarrow> map fs_key ss | None \<Rightarrow> [fl_originalKey f])
     @ (case fl_convertedKey f of None \<Rightarrow> [] | Some k \<Rightarrow> [k]) @ (case fl_previewKey f of None \<Rightarrow> [] | Some k \<Rightarrow> [k])))"

text \<open>The deletes of the object store one after the other; \<open>fails\<close> are the keys whose delete throws.\<close>

fun delete_keys :: "(string \<Rightarrow> bool) \<Rightarrow> string list \<Rightarrow> string list \<Rightarrow> bool \<times> string list" where
  "delete_keys fails [] objects = (True, objects)"
| "delete_keys fails (k # ks) objects =
    (if fails k then (False, objects) else delete_keys fails ks (filter (\<lambda>x. x \<noteq> k) objects))"

datatype deletion_outcome = Deleted | Deferred | Not_due | Delete_failed

definition emptied :: "millis \<Rightarrow> file_row \<Rightarrow> file_row" where
  "emptied now x = x\<lparr>fl_status := F_deleted, fl_convertedKey := None, fl_previewKey := None,
    fl_originalKey := ''deleted/'' @ fl_id x, fl_originalName := ''Document deleted'', fl_sources := None,
    fl_contentDeletedAt := Some now, fl_deletionAttempts := fl_deletionAttempts x + 1, fl_lastDeletionError := None\<rparr>"

definition attempt_failed :: "string \<Rightarrow> file_row \<Rightarrow> file_row" where
  "attempt_failed reason x = x\<lparr>fl_deletionAttempts := fl_deletionAttempts x + 1, fl_lastDeletionError := Some reason\<rparr>"

definition deleteDueFile :: "(string \<Rightarrow> bool) \<Rightarrow> file_row \<Rightarrow> job list \<Rightarrow> millis \<Rightarrow> file_db \<Rightarrow> deletion_outcome \<times> file_db" where
  "deleteDueFile fails f js now fd =
    (if list_ex (needs_content (fl_id f)) js
     then (Deferred, set_file (fl_id f) (attempt_failed ''Deletion overdue while a recoverable print job remains active'') fd)
     else (case delete_keys fails (keysForDeletion f) (fd_objects fd) of
         (True, objects) \<Rightarrow> (Deleted, set_file (fl_id f) (emptied now) (fd\<lparr>fd_objects := objects\<rparr>))
       | (False, objects) \<Rightarrow> (Delete_failed, set_file (fl_id f) (attempt_failed ''Object deletion failed'') (fd\<lparr>fd_objects := objects\<rparr>))))"

definition is_due :: "millis \<Rightarrow> file_row \<Rightarrow> bool" where
  "is_due now f = (fl_status f \<noteq> F_deleted \<and> (case fl_deleteAfter f of None \<Rightarrow> False | Some t \<Rightarrow> t \<le> now))"

definition deleteExpiredFileById :: "(string \<Rightarrow> bool) \<Rightarrow> id \<Rightarrow> job list \<Rightarrow> millis \<Rightarrow> file_db \<Rightarrow> deletion_outcome \<times> file_db" where
  "deleteExpiredFileById fails fileId js now fd = (case find_file fileId fd of
      None \<Rightarrow> (Not_due, fd)
    | Some f \<Rightarrow> if \<not> is_due now f then (Not_due, fd) else deleteDueFile fails f js now fd)"

fun delete_each :: "(string \<Rightarrow> bool) \<Rightarrow> file_row list \<Rightarrow> job list \<Rightarrow> millis \<Rightarrow> file_db \<Rightarrow> file_db" where
  "delete_each fails [] js now fd = fd"
| "delete_each fails (f # fs) js now fd = delete_each fails fs js now (snd (deleteDueFile fails f js now fd))"

definition cleanupExpiredFiles :: "(string \<Rightarrow> bool) \<Rightarrow> job list \<Rightarrow> millis \<Rightarrow> file_db \<Rightarrow> file_db" where
  "cleanupExpiredFiles fails js now fd =
    delete_each fails (take 200 (sort_key (\<lambda>f. the (fl_deleteAfter f)) (filter (is_due now) (fd_files fd)))) js now fd"

subsection \<open>Repairing schedules\<close>

definition earliest :: "millis list \<Rightarrow> millis option" where
  "earliest ts = (case sort ts of [] \<Rightarrow> None | t # _ \<Rightarrow> Some t)"

definition confirmed_times :: "id \<Rightarrow> job list \<Rightarrow> millis list" where
  "confirmed_times fileId js = map (\<lambda>j. the (j_printConfirmedAt j)) (filter (\<lambda>j. j_fileId j = fileId \<and> j_printConfirmedAt j \<noteq> None) js)"

definition terminal_times :: "id \<Rightarrow> job list \<Rightarrow> millis list" where
  "terminal_times fileId js = map j_updatedAt (filter (\<lambda>j. j_fileId j = fileId \<and> j_status j \<in> {Cancelled, Expired}) js)"

definition needs_schedule :: "job list \<Rightarrow> file_row \<Rightarrow> bool" where
  "needs_schedule js f = (fl_status f \<noteq> F_deleted \<and> (confirmed_times (fl_id f) js \<noteq> [] \<or> terminal_times (fl_id f) js \<noteq> []))"

fun reschedule_each :: "file_row list \<Rightarrow> job list \<Rightarrow> millis \<Rightarrow> file_db \<Rightarrow> file_db \<times> deletion_job list" where
  "reschedule_each [] js now fd = (fd, [])"
| "reschedule_each (f # fs) js now fd =
    (case (case earliest (confirmed_times (fl_id f) js) of
        Some t \<Rightarrow> scheduleVerifiedPrintFileDeletion (fl_id f) t js fd
      | None \<Rightarrow> scheduleFileDeletion (fl_id f) (case earliest (terminal_times (fl_id f) js) of Some t \<Rightarrow> t | None \<Rightarrow> now) js fd) of
      (fd1, q1) \<Rightarrow> (case reschedule_each fs js now fd1 of (fd2, q2) \<Rightarrow>
        (fd2, q1 @ (case fl_deleteAfter f of None \<Rightarrow> [] | Some t \<Rightarrow> [ensureFileDeletionJob (fl_id f) t now]) @ q2)))"

definition reconcileFileDeletionSchedules :: "job list \<Rightarrow> millis \<Rightarrow> file_db \<Rightarrow> file_db \<times> deletion_job list" where
  "reconcileFileDeletionSchedules js now fd = reschedule_each (take 200 (filter (needs_schedule js) (fd_files fd))) js now fd"

end
