(* ===== verification/Conversion.thy ===== *)
theory Conversion
  imports File_Retention
begin

text \<open>
  workers/conversion.ts (conversion) and workers/conversionErrors.ts. The libraries are the record \<open>libs\<close>: what
  loading a PDF gives, whether an image can be read and what drawing it throws, how the office program ends, what
  loading and copying a converted source into a merged document and saving that throws, which calls of the object
  store and of the temporary directory fail. The layout of an image on its page is not modelled.
\<close>

datatype conversion_code = FILE_CORRUPT | FILE_ENCRYPTED | FILE_UNSUPPORTED | FILE_TOO_LARGE | TOO_MANY_PAGES
  | CONVERSION_TIMEOUT | CONVERSION_FAILED

primrec code_name :: "conversion_code \<Rightarrow> string" where
  "code_name FILE_CORRUPT = ''FILE_CORRUPT''"
| "code_name FILE_ENCRYPTED = ''FILE_ENCRYPTED''"
| "code_name FILE_UNSUPPORTED = ''FILE_UNSUPPORTED''"
| "code_name FILE_TOO_LARGE = ''FILE_TOO_LARGE''"
| "code_name TOO_MANY_PAGES = ''TOO_MANY_PAGES''"
| "code_name CONVERSION_TIMEOUT = ''CONVERSION_TIMEOUT''"
| "code_name CONVERSION_FAILED = ''CONVERSION_FAILED''"

definition CONVERSION_ERRORS :: "conversion_code list" where
  "CONVERSION_ERRORS = [FILE_CORRUPT, FILE_ENCRYPTED, FILE_UNSUPPORTED, FILE_TOO_LARGE, TOO_MANY_PAGES, CONVERSION_TIMEOUT, CONVERSION_FAILED]"

definition MAX_DOCUMENT_PAGES :: int where "MAX_DOCUMENT_PAGES = 500"

text \<open>What can be thrown during a conversion.\<close>

datatype raw_error = Conversion_error conversion_code | Encrypted_pdf | Killed | Other_error

definition isPermanent :: "conversion_code \<Rightarrow> bool" where
  "isPermanent code = (code \<noteq> CONVERSION_FAILED \<and> code \<noteq> CONVERSION_TIMEOUT)"

definition classifyConversionError :: "raw_error \<Rightarrow> conversion_code" where
  "classifyConversionError e = (case e of
      Conversion_error code \<Rightarrow> code
    | Encrypted_pdf \<Rightarrow> FILE_ENCRYPTED
    | Killed \<Rightarrow> CONVERSION_TIMEOUT
    | Other_error \<Rightarrow> CONVERSION_FAILED)"

definition publicFileError :: "string option \<Rightarrow> conversion_code option" where
  "publicFileError stored = (if \<not> truthy stored then None
    else case find (\<lambda>c. Some (code_name c) = stored) CONVERSION_ERRORS of Some c \<Rightarrow> Some c | None \<Rightarrow> Some CONVERSION_FAILED)"

subsection \<open>Sources\<close>

datatype loaded = Load_encrypted | Load_corrupt | Loaded int
datatype office = Office_missing | Office_timeout | Office_failed | Office_no_output | Office_pdf

record libs =
  get_fails :: "string \<Rightarrow> bool"
  load_pdf :: "string \<Rightarrow> loaded"
  save_fails :: "string \<Rightarrow> bool"
  image_fails :: "string \<Rightarrow> bool"
  draw_error :: "string \<Rightarrow> raw_error option"
  temp_fails :: "string \<Rightarrow> bool"
  soffice :: "string \<Rightarrow> office"
  office_pdf :: "string \<Rightarrow> loaded"
  copy_error :: "string \<Rightarrow> raw_error option"
  merge_error :: "raw_error option"
  put_fails :: bool

definition pdfToNormalized :: "loaded \<Rightarrow> bool \<Rightarrow> raw_error + int" where
  "pdfToNormalized l saveFails = (case l of
      Load_encrypted \<Rightarrow> Inl (Conversion_error FILE_ENCRYPTED)
    | Load_corrupt \<Rightarrow> Inl (Conversion_error FILE_CORRUPT)
    | Loaded pages \<Rightarrow> if pages > MAX_DOCUMENT_PAGES then Inl (Conversion_error TOO_MANY_PAGES)
        else if saveFails then Inl (Conversion_error FILE_CORRUPT) else Inr pages)"

definition imageToPdf :: "bool \<Rightarrow> raw_error option \<Rightarrow> raw_error + int" where
  "imageToPdf fails drawError = (if fails then Inl (Conversion_error FILE_CORRUPT)
    else case drawError of Some e \<Rightarrow> Inl e | None \<Rightarrow> Inr 1)"

definition docxToPdf :: "libs \<Rightarrow> string \<Rightarrow> raw_error + int" where
  "docxToPdf lib key = (if soffice lib key = Office_missing then Inl (Conversion_error FILE_UNSUPPORTED)
    else if temp_fails lib key then Inl Other_error
    else case soffice lib key of
      Office_missing \<Rightarrow> Inl (Conversion_error FILE_UNSUPPORTED)
    | Office_timeout \<Rightarrow> Inl (Conversion_error CONVERSION_TIMEOUT)
    | Office_failed \<Rightarrow> Inl (Conversion_error FILE_CORRUPT)
    | Office_no_output \<Rightarrow> Inl (Conversion_error FILE_CORRUPT)
    | Office_pdf \<Rightarrow> pdfToNormalized (office_pdf lib key) (save_fails lib key))"

definition sourceToPdf :: "libs \<Rightarrow> file_source \<Rightarrow> raw_error + int" where
  "sourceToPdf lib s = (if get_fails lib (fs_key s) then Inl Other_error
    else if fs_mime s = ''application/pdf'' then pdfToNormalized (load_pdf lib (fs_key s)) (save_fails lib (fs_key s))
    else if fs_mime s = ''image/jpeg'' \<or> fs_mime s = ''image/png'' then imageToPdf (image_fails lib (fs_key s)) (draw_error lib (fs_key s))
    else docxToPdf lib (fs_key s))"

text \<open>
  Merging several sources adds up their pages; the first failure, of a conversion, of the copy of its pages or of
  the final save, ends it.
\<close>

fun merge_sources :: "libs \<Rightarrow> file_source list \<Rightarrow> int \<Rightarrow> raw_error + int" where
  "merge_sources lib [] pages = (case merge_error lib of Some e \<Rightarrow> Inl e | None \<Rightarrow> Inr pages)"
| "merge_sources lib (s # ss) pages = (case sourceToPdf lib s of
      Inl e \<Rightarrow> Inl e
    | Inr n \<Rightarrow> (case copy_error lib (fs_key s) of
        Some e \<Rightarrow> Inl e
      | None \<Rightarrow> merge_sources lib ss (pages + n)))"

definition file_sources :: "file_row \<Rightarrow> file_source list" where
  "file_sources f = (case fl_sources f of Some ss \<Rightarrow> ss
    | None \<Rightarrow> [\<lparr>fs_key = fl_originalKey f, fs_mime = fl_mimeType f, fs_name = fl_originalName f\<rparr>])"

definition convert_sources :: "libs \<Rightarrow> file_source list \<Rightarrow> raw_error + int" where
  "convert_sources lib sources =
    (case (case sources of [s] \<Rightarrow> sourceToPdf lib s | _ \<Rightarrow> merge_sources lib sources 0) of
      Inl e \<Rightarrow> Inl e
    | Inr pages \<Rightarrow> if pages < 1 then Inl (Conversion_error FILE_CORRUPT)
        else if pages > MAX_DOCUMENT_PAGES then Inl (Conversion_error TOO_MANY_PAGES)
        else if put_fails lib then Inl Other_error else Inr pages)"

subsection \<open>convertFile\<close>

definition convert_start :: "id \<Rightarrow> file_db \<Rightarrow> file_row option \<times> file_db" where
  "convert_start fileId fd = (case find_file fileId fd of
      None \<Rightarrow> (None, fd)
    | Some f \<Rightarrow> if fl_status f = F_deleted then (None, fd)
        else (Some f, set_file fileId (\<lambda>x. x\<lparr>fl_status := F_converting\<rparr>) fd))"

text \<open>The end of a conversion, on the store as it is then; the Boolean says that the job is to be retried.\<close>

definition convert_finish :: "libs \<Rightarrow> string \<Rightarrow> file_row \<Rightarrow> file_db \<Rightarrow> bool \<times> file_db \<times> effect list" where
  "convert_finish lib convertedKey f fd = (case convert_sources lib (file_sources f) of
      Inr pages \<Rightarrow> (False, set_file (fl_id f) (\<lambda>x. x\<lparr>fl_convertedKey := Some convertedKey, fl_previewKey := Some convertedKey,
          fl_pages := Some pages, fl_status := F_ready, fl_error := None\<rparr>) (fd\<lparr>fd_objects := convertedKey # fd_objects fd\<rparr>),
        [Publish (Ch_student (fl_studentId f)) ''file:ready'' (fl_id f)])
    | Inl e \<Rightarrow> (let code = classifyConversionError e in
        (\<not> isPermanent code, set_file (fl_id f) (\<lambda>x. x\<lparr>fl_status := F_failed, fl_error := Some (code_name code)\<rparr>) fd,
         [Publish (Ch_student (fl_studentId f)) ''file:failed'' (fl_id f)])))"

definition convertFile :: "libs \<Rightarrow> string \<Rightarrow> id \<Rightarrow> file_db \<Rightarrow> bool \<times> file_db \<times> effect list" where
  "convertFile lib convertedKey fileId fd = (case convert_start fileId fd of
      (None, fd1) \<Rightarrow> (False, fd1, [])
    | (Some f, fd1) \<Rightarrow> convert_finish lib convertedKey f fd1)"

end
