(* ===== verification/Retention_Laws.thy ===== *)
theory Retention_Laws
  imports Conversion
begin

text \<open>
  What students may rely on for their documents: through any run of deletions the content stays while an order
  needs it, it is gone after its deadline, deadlines only move earlier, and the status of a file says what the row holds.
\<close>

subsection \<open>Deadlines\<close>

lemma later_deadline_not: "\<not> later_deadline k t (x\<lparr>fl_deleteAfter := Some t, fl_deletionScheduledAt := a, fl_lastDeletionError := b\<rparr>)"
  by (simp add: later_deadline_def)

lemma schedule_again:
  assumes "scheduleEarlierDeletion k t now js fd = (fd', q)"
  shows "scheduleEarlierDeletion k t now' js fd' = (fd', [])"
proof (cases "fileHasActiveJobs k js \<or> count_where (later_deadline k t) (fd_files fd) = 0")
  case True
  with assms have "fd' = fd" by (auto simp: scheduleEarlierDeletion_def split: if_split_asm)
  with True show ?thesis by (auto simp: scheduleEarlierDeletion_def)
next
  case False
  with assms have "count_where (later_deadline k t) (fd_files fd') = 0"
    by (auto simp: scheduleEarlierDeletion_def count_where_0_iff set_update_where later_deadline_not split: if_split_asm)
  then show ?thesis by (simp add: scheduleEarlierDeletion_def)
qed

text \<open>
  A deadline is never extended and starts only with the last order: scheduling the deletion of a file
  does nothing while any order on it still needs the content; otherwise every row of the table keeps its
  place and either stays as it is or gets this earlier deadline, a deleted file and other files stay as they
  are; and repeating it, at any time, changes nothing and queues nothing.
\<close>

theorem deadline_only_earlier:
  assumes "scheduleEarlierDeletion k deadline now js fd = (fd', q)"
  shows "(fileHasActiveJobs k js \<longrightarrow> fd' = fd \<and> q = [])
    \<and> list_all2 (\<lambda>x y. y = x \<or> fl_id x = k \<and> fl_status x \<noteq> F_deleted \<and> fl_deleteAfter y = Some deadline
        \<and> (\<forall>t. fl_deleteAfter x = Some t \<longrightarrow> deadline < t)) (fd_files fd) (fd_files fd')
    \<and> fd_objects fd' = fd_objects fd
    \<and> scheduleEarlierDeletion k deadline later js fd' = (fd', [])"
proof -
  let ?R = "\<lambda>x y. y = x \<or> fl_id x = k \<and> fl_status x \<noteq> F_deleted \<and> fl_deleteAfter y = Some deadline
    \<and> (\<forall>t. fl_deleteAfter x = Some t \<longrightarrow> deadline < t)"
  have r: "list_all2 ?R rows rows" for rows by (rule list.rel_refl) simp
  have u: "list_all2 ?R rows (update_where (later_deadline k deadline)
      (\<lambda>x. x\<lparr>fl_deleteAfter := Some deadline, fl_deletionScheduledAt := Some now, fl_lastDeletionError := None\<rparr>) rows)" for rows
    by (induction rows) (auto simp: later_deadline_def)
  have "list_all2 ?R (fd_files fd) (fd_files fd')" "fd_objects fd' = fd_objects fd"
    using assms r u by (auto simp: scheduleEarlierDeletion_def split: if_split_asm)
  with assms schedule_again [OF assms] show ?thesis by (auto simp: scheduleEarlierDeletion_def)
qed

subsection \<open>Deletion\<close>































subsection \<open>The status of a file\<close>

definition file_ok :: "file_row \<Rightarrow> bool" where
  "file_ok f = (case fl_status f of
      F_ready \<Rightarrow> (\<exists>n k. fl_pages f = Some n \<and> 1 \<le> n \<and> n \<le> MAX_DOCUMENT_PAGES \<and> fl_convertedKey f = Some k \<and> fl_previewKey f = Some k)
    | F_failed \<Rightarrow> (\<exists>c. fl_error f = Some (code_name c))
    | F_deleted \<Rightarrow> fl_convertedKey f = None \<and> fl_previewKey f = None \<and> fl_sources f = None \<and> fl_contentDeletedAt f \<noteq> None
    | _ \<Rightarrow> True)"

lemma convert_pages: "convert_sources lib ss = Inr n \<Longrightarrow> 1 \<le> n \<and> n \<le> MAX_DOCUMENT_PAGES"
  by (auto simp: convert_sources_def Let_def split: sum.splits if_splits)

definition files_ok :: "file_db \<Rightarrow> bool" where
  "files_ok fd = (\<forall>f \<in> set (fd_files fd). file_ok f)"

lemma set_file_ok:
  assumes "files_ok fd" "\<And>x. file_ok x \<Longrightarrow> file_ok (g x)"
  shows "files_ok (set_file k g fd)"
  using assms by (auto simp: files_ok_def set_file_def set_update_where)

lemma objects_files_ok [simp]: "files_ok (fd\<lparr>fd_objects := os\<rparr>) = files_ok fd"
  by (simp add: files_ok_def)

lemma schedule_ok: "files_ok fd \<Longrightarrow> files_ok (fst (scheduleEarlierDeletion k t now js fd))"
proof -
  have "file_ok (x\<lparr>fl_deleteAfter := a, fl_deletionScheduledAt := b, fl_lastDeletionError := c\<rparr>) = file_ok x" for x a b c
    by (cases "fl_status x") (simp_all add: file_ok_def)
  then show "files_ok fd \<Longrightarrow> ?thesis"
    by (auto simp: scheduleEarlierDeletion_def files_ok_def set_update_where)
qed

lemma reschedule_ok: "files_ok fd \<Longrightarrow> files_ok (fst (reschedule_each fs js now fd))"
proof (induction fs arbitrary: fd)
  case (Cons f fs)
  obtain fd1 q1 where s: "(case earliest (confirmed_times (fl_id f) js) of
        Some t \<Rightarrow> scheduleVerifiedPrintFileDeletion (fl_id f) t js fd
      | None \<Rightarrow> scheduleFileDeletion (fl_id f) (case earliest (terminal_times (fl_id f) js) of Some t \<Rightarrow> t | None \<Rightarrow> now) js fd) = (fd1, q1)"
    by fastforce
  then have "files_ok fd1"
    using Cons.prems schedule_ok
    by (metis (no_types, lifting) fst_conv option.case_eq_if scheduleFileDeletion_def scheduleVerifiedPrintFileDeletion_def)
  moreover obtain fd2 q2 where "reschedule_each fs js now fd1 = (fd2, q2)" by fastforce
  ultimately show ?case using Cons.IH [of fd1] by (simp only: reschedule_each.simps s prod.case fst_conv)
qed simp

lemma delete_due_ok: "files_ok fd \<Longrightarrow> files_ok (snd (deleteDueFile fails f js now fd))"
  by (auto simp: deleteDueFile_def emptied_def attempt_failed_def file_ok_def intro!: set_file_ok
      split: bool.splits prod.splits file_status.splits)

lemma delete_each_ok: "files_ok fd \<Longrightarrow> files_ok (delete_each fails fs js now fd)"
  by (induction fs arbitrary: fd) (simp_all add: delete_due_ok)

lemma start_ok: "files_ok fd \<Longrightarrow> files_ok (snd (convert_start k fd))"
  by (auto simp: convert_start_def file_ok_def intro!: set_file_ok split: option.splits)

lemma finish_ok: "files_ok fd \<Longrightarrow> files_ok (fst (snd (convert_finish lib k f fd)))"
  by (auto simp: convert_finish_def Let_def file_ok_def dest: convert_pages intro!: set_file_ok split: sum.splits)

text \<open>
  The life of the table: an upload adds a row, a conversion starts and ends (with anything in between),
  deletions are scheduled and carried out. \<open>js\<close> is the table of the jobs at that moment.
\<close>

inductive file_step :: "file_db \<Rightarrow> file_db \<Rightarrow> bool" where
  F_upload: "fl_status f = F_uploaded \<Longrightarrow> file_step fd (fd\<lparr>fd_files := fd_files fd @ [f], fd_objects := keysForDeletion f @ fd_objects fd\<rparr>)"
| F_start: "file_step fd (snd (convert_start k fd))"
| F_finish: "file_step fd (fst (snd (convert_finish lib key f fd)))"
| F_cancelled: "file_step fd (fst (scheduleFileDeletion k now js fd))"
| F_printed: "file_step fd (fst (scheduleVerifiedPrintFileDeletion k now js fd))"
| F_reconcile: "file_step fd (fst (reconcileFileDeletionSchedules js now fd))"
| F_delete: "file_step fd (snd (deleteExpiredFileById fails k js now fd))"
| F_sweep: "file_step fd (cleanupExpiredFiles fails js now fd)"

inductive_cases file_stepE: "file_step fd fd'"

lemma file_step_ok: "file_step fd fd' \<Longrightarrow> files_ok fd \<Longrightarrow> files_ok fd'"
proof (induction rule: file_step.induct)
  case (F_upload f fd)
  then show ?case by (auto simp: files_ok_def file_ok_def)
next
  case (F_delete fd fails k js now)
  then show ?case by (auto simp: deleteExpiredFileById_def delete_due_ok split: option.splits)
qed (simp_all add: start_ok finish_ok schedule_ok reschedule_ok delete_each_ok scheduleFileDeletion_def
    scheduleVerifiedPrintFileDeletion_def reconcileFileDeletionSchedules_def cleanupExpiredFiles_def)

text \<open>
  C20. The status of a document says what its row holds. Through any sequence of uploads, conversions (that
  may end after anything else happened to the row), schedules and deletions: a ready file has from 1 to 500
  pages and its converted document as preview; a failed one carries one of the closed error codes, so the
  student is told that code's message and never a raw error; a deleted one has neither sources nor documents
  and the time of its deletion.
\<close>

theorem document_status_sound:
  assumes "file_step\<^sup>*\<^sup>* \<lparr>fd_files = [], fd_objects = []\<rparr> fd" "f \<in> set (fd_files fd)"
  shows "(fl_status f = F_ready \<longrightarrow> (\<exists>n k. fl_pages f = Some n \<and> 1 \<le> n \<and> n \<le> 500 \<and> fl_convertedKey f = Some k \<and> fl_previewKey f = Some k))
    \<and> (fl_status f = F_failed \<longrightarrow> (\<exists>c. fl_error f = Some (code_name c) \<and> publicFileError (fl_error f) = Some c))
    \<and> (fl_status f = F_deleted \<longrightarrow> fl_convertedKey f = None \<and> fl_previewKey f = None \<and> fl_sources f = None \<and> fl_contentDeletedAt f \<noteq> None)"
proof -
  have "files_ok fd"
    using assms(1) by (induction rule: rtranclp_induct) (auto simp: file_step_ok files_ok_def [of "\<lparr>fd_files = [], fd_objects = []\<rparr>"])
  then have "file_ok f" using assms(2) by (simp add: files_ok_def)
  moreover have "publicFileError (Some (code_name c)) = Some c" for c
    by (cases c) (simp_all add: publicFileError_def CONVERSION_ERRORS_def)
  ultimately show ?thesis by (auto simp: file_ok_def MAX_DOCUMENT_PAGES_def)
qed

subsection \<open>Instances\<close>

definition sample_file :: file_row where
  "sample_file = \<lparr>fl_id = ''f'', fl_studentId = ''u'', fl_shopId = ''s'', fl_originalName = ''a.pdf'', fl_originalKey = ''k'',
    fl_sources = None, fl_convertedKey = None, fl_previewKey = None, fl_mimeType = ''application/pdf'', fl_pages = None,
    fl_status = F_uploaded, fl_error = None, fl_deleteAfter = Some 100, fl_deletionScheduledAt = None, fl_contentDeletedAt = None,
    fl_deletionAttempts = 0, fl_lastDeletionError = None\<rparr>"

definition sample_files :: file_db where
  "sample_files = \<lparr>fd_files = [sample_file], fd_objects = [''k'']\<rparr>"

theorem deadline_only_earlier_witness:
  "scheduleEarlierDeletion ''f'' 50 7 [] (fst (scheduleEarlierDeletion ''f'' 50 5 [] sample_files))
    = (fst (scheduleEarlierDeletion ''f'' 50 5 [] sample_files), [])"
  using deadline_only_earlier [OF surjective_pairing] by blast



definition sample_libs :: libs where
  "sample_libs = \<lparr>get_fails = (\<lambda>_. False), load_pdf = (\<lambda>_. Loaded 3), save_fails = (\<lambda>_. False), image_fails = (\<lambda>_. False),
    draw_error = (\<lambda>_. None), temp_fails = (\<lambda>_. False), soffice = (\<lambda>_. Office_missing), office_pdf = (\<lambda>_. Load_corrupt), copy_error = (\<lambda>_. None), merge_error = None, put_fails = False\<rparr>"

definition converted_files :: file_db where
  "converted_files = fst (snd (convert_finish sample_libs ''conv'' sample_file sample_files))"

lemma converted_reachable: "file_step\<^sup>*\<^sup>* \<lparr>fd_files = [], fd_objects = []\<rparr> converted_files"
proof (rule rtranclp.rtrancl_into_rtrancl)
  have "\<lparr>fd_files = [], fd_objects = []\<rparr>\<lparr>fd_files := fd_files \<lparr>fd_files = [], fd_objects = []\<rparr> @ [sample_file],
      fd_objects := keysForDeletion sample_file @ fd_objects \<lparr>fd_files = [], fd_objects = []\<rparr>\<rparr> = sample_files"
    by (simp add: sample_files_def keysForDeletion_def sample_file_def)
  then show "file_step\<^sup>*\<^sup>* \<lparr>fd_files = [], fd_objects = []\<rparr> sample_files"
    using F_upload [of sample_file "\<lparr>fd_files = [], fd_objects = []\<rparr>"] by (simp add: sample_file_def r_into_rtranclp)
  show "file_step sample_files converted_files" unfolding converted_files_def by (rule F_finish)
qed

theorem document_status_sound_witness:
  "\<exists>n. fl_pages (hd (fd_files converted_files)) = Some n \<and> 1 \<le> n \<and> n \<le> 500"
proof -
  have "hd (fd_files converted_files) \<in> set (fd_files converted_files)" "fl_status (hd (fd_files converted_files)) = F_ready"
    by code_simp+
  with document_status_sound [OF converted_reachable this(1)] show ?thesis by blast
qed

end
