(* ===== verification/Page_Range.thy ===== *)
theory Page_Range
  imports Js_Text
begin

text \<open>
  packages/shared/src/pageRange.ts: the selection of pages of an order, its parser and its canonical form.
  The pattern of the parser is translated into a deterministic recogniser: after digits no other
  continuation of the pattern starts with a digit, and after an optional second number none starts with a
  minus. The limit of the engine on the size of a Set (2^24 elements) is not modelled.
\<close>

subsection \<open>The pattern\<close>

definition match_number :: "string \<Rightarrow> string option" where
  "match_number s = (if s = [] \<or> \<not> is_digit (hd s) then None else Some (dropWhile is_digit s))"

definition match_item :: "string \<Rightarrow> string option" where
  "match_item s = (case match_number s of None \<Rightarrow> None
    | Some (c # cs) \<Rightarrow> if c = CHR ''-'' then (case match_number cs of None \<Rightarrow> Some (c # cs) | Some r \<Rightarrow> Some r) else Some (c # cs)
    | Some [] \<Rightarrow> Some [])"

lemma match_number_shorter: "match_number s = Some r \<Longrightarrow> length r < length s"
  by (cases s) (auto simp: match_number_def less_Suc_eq_le length_dropWhile_le split: if_splits)

lemma match_item_shorter: "match_item s = Some r \<Longrightarrow> length r < length s"
  by (auto simp: match_item_def dest!: match_number_shorter split: option.splits list.splits if_splits)

function match_rest :: "string \<Rightarrow> bool" where
  "match_rest s = (if s = [] then True else case dropWhile is_space s of [] \<Rightarrow> False
    | c # cs \<Rightarrow> if c \<noteq> CHR '','' then False
      else case match_item (dropWhile is_space cs) of None \<Rightarrow> False | Some r \<Rightarrow> match_rest r)"
  by auto
termination
proof (relation "measure length", simp)
  fix s c cs r
  assume "dropWhile is_space s = c # cs" "match_item (dropWhile is_space cs) = Some r"
  then have "length r < length (dropWhile is_space cs)" "length (dropWhile is_space cs) \<le> length cs" "length cs < length s"
    using length_dropWhile_le [of is_space s] by (auto dest: match_item_shorter simp: length_dropWhile_le)
  then show "(r, s) \<in> measure length" by simp
qed

declare match_rest.simps [simp del]

text \<open>\<open>/^\d+(-\d+)?(\s*,\s*\d+(-\d+)?)*$/\<close>\<close>

definition is_range_list :: "string \<Rightarrow> bool" where
  "is_range_list s = (case match_item s of None \<Rightarrow> False | Some r \<Rightarrow> match_rest r)"

subsection \<open>parsePageRange, countSelectedPages, normalizePageRange\<close>

fun parse_parts :: "int \<Rightarrow> string list \<Rightarrow> int list \<Rightarrow> int list result" where
  "parse_parts totalPages [] pages = Inr pages"
| "parse_parts totalPages (part # parts) pages =
    (let ws = split_on (CHR ''-'') (trim part);
         start = to_number (hd ws);
         finish = (case tl ws of [] \<Rightarrow> start | e # _ \<Rightarrow> to_number e)
     in if start < 1 \<or> finish > totalPages \<or> start > finish then Inl (PageRangeError ''Selected pages are outside this document'')
        else parse_parts totalPages parts (pages @ filter (\<lambda>p. p \<notin> set pages) [start..finish]))"

definition parsePageRange :: "string \<Rightarrow> int \<Rightarrow> int list result" where
  "parsePageRange range_text totalPages = (let trimmed = trim range_text in
    if \<not> is_range_list trimmed then Inl (PageRangeError ''Use a format like 1-5,8'')
    else case parse_parts totalPages (split_on (CHR '','') trimmed) [] of Inl e \<Rightarrow> Inl e | Inr pages \<Rightarrow> Inr (sort pages))"

definition countSelectedPages :: "string option \<Rightarrow> int \<Rightarrow> int result" where
  "countSelectedPages range_text totalPages = (if \<not> truthy range_text then Inr totalPages
    else case parsePageRange (the range_text) totalPages of Inl e \<Rightarrow> Inl e | Inr pages \<Rightarrow> Inr (int (length pages)))"

definition show_part :: "int \<Rightarrow> int \<Rightarrow> string" where
  "show_part start prev = (if start = prev then show_int start else show_int start @ CHR ''-'' # show_int prev)"

fun merge_parts :: "int \<Rightarrow> int \<Rightarrow> int list \<Rightarrow> string list" where
  "merge_parts start prev [] = [show_part start prev]"
| "merge_parts start prev (p # ps) =
    (if p = prev + 1 then merge_parts start p ps else show_part start prev # merge_parts p p ps)"

definition MAX_PAGE :: int where "MAX_PAGE = 9007199254740991"

definition normalizePageRange :: "string option \<Rightarrow> int option \<Rightarrow> string option" where
  "normalizePageRange range_text totalPages = (if \<not> truthy range_text \<or> trim (the range_text) = [] then None
    else case parsePageRange (the range_text) (case totalPages of None \<Rightarrow> MAX_PAGE | Some n \<Rightarrow> n) of
      Inl _ \<Rightarrow> Some (trim (the range_text))
    | Inr pages \<Rightarrow> Some (join_with (CHR '','') (merge_parts (hd pages) (hd pages) (tl pages))))"

subsection \<open>Printed ranges\<close>

definition printed :: "(int \<times> int) list \<Rightarrow> string" where
  "printed rs = join_with (CHR '','') (map (\<lambda>(a, b). show_part a b) rs)"

lemma match_number_digits:
  "list_all is_digit w \<Longrightarrow> w \<noteq> [] \<Longrightarrow> r = [] \<or> \<not> is_digit (hd r) \<Longrightarrow> match_number (w @ r) = Some r"
  by (cases w; cases r) (auto simp: match_number_def dropWhile_append list_all_iff)

lemma minus_not_digit: "\<not> is_digit (CHR ''-'')" "\<not> is_digit (CHR '','')" "\<not> is_space (CHR '','')"
  by (simp_all add: is_digit_def is_space_def code_of_def)

lemma match_item_part:
  assumes "1 \<le> a" "a \<le> b" "r = [] \<or> hd r = CHR '',''"
  shows "match_item (show_part a b @ r) = Some r"
proof -
  note f = show_int_facts [of a] show_int_facts [of b]
  have nd: "r = [] \<or> \<not> is_digit (hd r)" using assms(3) by (auto simp: minus_not_digit)
  show ?thesis
  proof (cases "a = b")
    case True
    have "match_number (show_int b @ r) = Some r" using f assms nd by (simp add: match_number_digits)
    with True assms(3) show ?thesis
      by (cases r) (auto simp: match_item_def show_part_def)
  next
    case False
    have 1: "match_number (show_int a @ CHR ''-'' # show_int b @ r) = Some (CHR ''-'' # show_int b @ r)"
      using f assms by (intro match_number_digits) (auto simp: minus_not_digit)
    have 2: "match_number (show_int b @ r) = Some r" using f assms nd by (simp add: match_number_digits)
    show ?thesis using False by (simp add: match_item_def show_part_def 1 2)
  qed
qed

definition valid_runs :: "int \<Rightarrow> (int \<times> int) list \<Rightarrow> bool" where
  "valid_runs n rs = (rs \<noteq> [] \<and> (\<forall>(a, b) \<in> set rs. 1 \<le> a \<and> a \<le> b \<and> b \<le> n))"

lemma show_part_chars:
  assumes "1 \<le> a" "a \<le> b"
  shows "is_digit (hd (show_part a b))" "is_digit (last (show_part a b))" "show_part a b \<noteq> []" "CHR '','' \<notin> set (show_part a b)"
proof -
  note f = show_int_facts [of a] show_int_facts [of b]
  have "list_all is_digit (show_int a)" "show_int a \<noteq> []" "list_all is_digit (show_int b)" "show_int b \<noteq> []" using f assms by simp_all
  then show "is_digit (hd (show_part a b))" "is_digit (last (show_part a b))" "show_part a b \<noteq> []" "CHR '','' \<notin> set (show_part a b)"
    by (auto simp: show_part_def list_all_iff hd_append minus_not_digit dest: digit_not(2))
qed

lemma printed_matches:
  assumes "valid_runs n rs"
  shows "is_range_list (printed rs)"
proof -
  have rest: "match_rest (CHR '','' # printed rs)" if "valid_runs n rs" for rs
    using that
  proof (induction rs)
    case (Cons r rs)
    obtain a b where r: "r = (a, b)" "1 \<le> a" "a \<le> b" using Cons.prems by (auto simp: valid_runs_def)
    note c = show_part_chars [OF r(2,3)]
    have tail: "printed (r # rs) = show_part a b @ (if rs = [] then [] else CHR '','' # printed rs)"
      by (cases rs) (simp_all add: printed_def r)
    have "\<not> is_space (hd (printed (r # rs)))" "printed (r # rs) \<noteq> []" using c digit_not(1) by (auto simp: tail)
    then have "dropWhile is_space (printed (r # rs)) = printed (r # rs)" by (simp add: dropWhile_eq_self_iff)
    moreover have "match_item (printed (r # rs)) = Some (if rs = [] then [] else CHR '','' # printed rs)"
      unfolding tail by (rule match_item_part [OF r(2,3)]) auto
    moreover have "rs \<noteq> [] \<Longrightarrow> match_rest (CHR '','' # printed rs)" using Cons by (auto simp: valid_runs_def)
    ultimately show ?case
      by (subst match_rest.simps) (auto simp: minus_not_digit match_rest.simps [of "[]"])
  qed (simp add: valid_runs_def)
  obtain a b rs' where r: "rs = (a, b) # rs'" "1 \<le> a" "a \<le> b" using assms by (cases rs) (auto simp: valid_runs_def)
  have "match_item (printed rs) = Some (if rs' = [] then [] else CHR '','' # printed rs')"
    using match_item_part [OF r(2,3), of "[]"] match_item_part [OF r(2,3), of "CHR '','' # printed rs'"]
    by (cases rs') (simp_all add: printed_def r)
  moreover have "rs' \<noteq> [] \<Longrightarrow> match_rest (CHR '','' # printed rs')" using rest [of rs'] assms by (auto simp: r valid_runs_def)
  ultimately show ?thesis by (auto simp: is_range_list_def match_rest.simps [of "[]"])
qed

lemma printed_trim: "valid_runs n rs \<Longrightarrow> trim (printed rs) = printed rs"
proof (rule trim_none, rule disjI2)
  assume v: "valid_runs n rs"
  have "is_digit (hd (printed rs)) \<and> is_digit (last (printed rs)) \<and> printed rs \<noteq> []" using v
  proof (induction rs)
    case (Cons r rs)
    obtain a b where r: "r = (a, b)" "1 \<le> a" "a \<le> b" using Cons.prems by (auto simp: valid_runs_def)
    note c = show_part_chars [OF r(2,3)]
    show ?case
      using Cons c by (cases rs) (auto simp: printed_def r valid_runs_def hd_append)
  qed (simp add: valid_runs_def)
  then show "\<not> is_space (hd (printed rs)) \<and> \<not> is_space (last (printed rs))" by (auto dest: digit_not(1))
qed

lemma printed_split: "valid_runs n rs \<Longrightarrow> split_on (CHR '','') (printed rs) = map (\<lambda>(a, b). show_part a b) rs"
  unfolding printed_def by (rule split_join) (auto simp: valid_runs_def dest: show_part_chars(4))

lemma part_numbers:
  assumes "1 \<le> a" "a \<le> b"
  shows "to_number (hd (split_on (CHR ''-'') (trim (show_part a b)))) = a"
    "(case tl (split_on (CHR ''-'') (trim (show_part a b))) of [] \<Rightarrow> to_number (hd (split_on (CHR ''-'') (trim (show_part a b)))) | e # _ \<Rightarrow> to_number e) = b"
proof -
  note f = show_int_facts [of a] show_int_facts [of b]
  have d: "CHR ''-'' \<notin> set (show_int a)" "CHR ''-'' \<notin> set (show_int b)"
    using f assms by (auto simp: list_all_iff dest: digit_not(3))
  have t: "trim (show_part a b) = show_part a b"
    using show_part_chars [OF assms] by (intro trim_none) (auto dest: digit_not(1))
  show "to_number (hd (split_on (CHR ''-'') (trim (show_part a b)))) = a"
    "(case tl (split_on (CHR ''-'') (trim (show_part a b))) of [] \<Rightarrow> to_number (hd (split_on (CHR ''-'') (trim (show_part a b)))) | e # _ \<Rightarrow> to_number e) = b"
    unfolding t using f assms by (auto simp: show_part_def split_on_none split_on_append d)
qed

definition pages_of :: "(int \<times> int) list \<Rightarrow> int set" where
  "pages_of rs = (\<Union>(a, b) \<in> set rs. {a..b})"

lemma parse_printed_parts:
  assumes "\<forall>(a, b) \<in> set rs. 1 \<le> a \<and> a \<le> b \<and> b \<le> n" "distinct acc"
  shows "\<exists>ps. parse_parts n (map (\<lambda>(a, b). show_part a b) rs) acc = Inr ps \<and> distinct ps \<and> set ps = set acc \<union> pages_of rs"
  using assms
proof (induction rs arbitrary: acc)
  case (Cons r rs)
  obtain a b where r: "r = (a, b)" "1 \<le> a" "a \<le> b" "b \<le> n" using Cons.prems by auto
  let ?acc = "acc @ filter (\<lambda>p. p \<notin> set acc) [a..b]"
  have "distinct ?acc" using Cons.prems(2) by auto
  from Cons.IH [OF _ this] Cons.prems(1) obtain ps where
    "parse_parts n (map (\<lambda>(a, b). show_part a b) rs) ?acc = Inr ps" "distinct ps" "set ps = set ?acc \<union> pages_of rs" by auto
  moreover have "parse_parts n (map (\<lambda>(a, b). show_part a b) (r # rs)) acc = parse_parts n (map (\<lambda>(a, b). show_part a b) rs) ?acc"
    using r by (simp add: Let_def part_numbers)
  ultimately show ?case by (auto simp: pages_of_def r)
qed (simp add: pages_of_def)

lemma parse_printed:
  assumes "valid_runs n rs"
  shows "parsePageRange (printed rs) n = Inr (sorted_list_of_set (pages_of rs))"
proof -
  obtain ps where ps: "parse_parts n (map (\<lambda>(a, b). show_part a b) rs) [] = Inr ps" "distinct ps" "set ps = pages_of rs"
    using parse_printed_parts [of rs n "[]"] assms by (auto simp: valid_runs_def)
  have "sort ps = sorted_list_of_set (pages_of rs)"
    using ps(2,3) by (metis distinct_sort set_sort sorted_list_of_set.idem_if_sorted_distinct sorted_sort)
  with ps(1) show ?thesis
    by (simp add: parsePageRange_def printed_trim [OF assms] printed_matches [OF assms] printed_split [OF assms])
qed

subsection \<open>What a parsed range is\<close>

lemma parse_parts_facts:
  assumes "parse_parts n parts acc = Inr ps" "distinct acc" "set acc \<subseteq> {1..n}"
  shows "distinct ps \<and> set acc \<subseteq> set ps \<and> set ps \<subseteq> {1..n} \<and> (parts \<noteq> [] \<longrightarrow> ps \<noteq> [])"
  using assms
proof (induction n parts acc rule: parse_parts.induct)
  case (2 n part parts acc)
  define start finish where "start = to_number (hd (split_on (CHR ''-'') (trim part)))"
    and "finish = (case tl (split_on (CHR ''-'') (trim part)) of [] \<Rightarrow> start | e # _ \<Rightarrow> to_number e)"
  let ?acc = "acc @ filter (\<lambda>p. p \<notin> set acc) [start..finish]"
  have ok: "1 \<le> start" "finish \<le> n" "start \<le> finish" and p: "parse_parts n parts ?acc = Inr ps"
    using "2.prems"(1) [unfolded parse_parts.simps Let_def, folded start_def, folded finish_def] by (auto split: if_split_asm)
  have "distinct ?acc" "set ?acc \<subseteq> {1..n}" using "2.prems" ok by auto
  from "2.IH" [OF refl start_def finish_def _ p this] ok have "distinct ps" "set ?acc \<subseteq> set ps" "set ps \<subseteq> {1..n}" by auto
  moreover have "start \<in> set ?acc" using ok by auto
  ultimately show ?case by auto
qed simp

lemma parse_facts:
  assumes "parsePageRange r n = Inr ps"
  shows "sorted ps" "distinct ps" "ps \<noteq> []" "set ps \<subseteq> {1..n}" "trim r \<noteq> []" "r \<noteq> []"
proof -
  obtain qs where q: "parse_parts n (split_on (CHR '','') (trim r)) [] = Inr qs" "ps = sort qs" and m: "is_range_list (trim r)"
    using assms by (auto simp: parsePageRange_def Let_def split: if_splits sum.splits)
  have "ps = [] \<longleftrightarrow> qs = []" using q(2) by (metis set_empty set_sort)
  moreover have "distinct qs" "set qs \<subseteq> {1..n}" "qs \<noteq> []" using parse_parts_facts [OF q(1)] by auto
  ultimately show "sorted ps" "distinct ps" "ps \<noteq> []" "set ps \<subseteq> {1..n}" by (simp_all add: q(2))
  show t: "trim r \<noteq> []" using m by (auto simp: is_range_list_def match_item_def match_number_def)
  then show "r \<noteq> []" by (auto simp: trim_def)
qed

fun runs :: "int \<Rightarrow> int \<Rightarrow> int list \<Rightarrow> (int \<times> int) list" where
  "runs start prev [] = [(start, prev)]"
| "runs start prev (p # ps) = (if p = prev + 1 then runs start p ps else (start, prev) # runs p p ps)"

lemma merge_parts_runs: "merge_parts start prev ps = map (\<lambda>(a, b). show_part a b) (runs start prev ps)"
  by (induction start prev ps rule: merge_parts.induct) auto

lemma runs_facts:
  assumes "sorted (prev # ps)" "distinct (prev # ps)" "1 \<le> start" "start \<le> prev" "\<forall>p \<in> set (prev # ps). p \<le> n"
  shows "valid_runs n (runs start prev ps)" "pages_of (runs start prev ps) = {start..prev} \<union> set ps"
  using assms
proof (induction start prev ps rule: runs.induct)
  case (2 start prev p ps)
  {
    case 1
    then show ?case using "2.IH" by (auto simp: valid_runs_def)
  next
    case 2
    have "{start..p} = insert p {start..prev}" if "p = prev + 1" using that 2 by auto
    with 2 "2.IH" show ?case by (auto simp: pages_of_def)
  }
qed (auto simp: valid_runs_def pages_of_def)

lemma normalize_printed:
  assumes "parsePageRange r n = Inr ps"
  shows "normalizePageRange (Some r) (Some n) = Some (printed (runs (hd ps) (hd ps) (tl ps)))"
    "valid_runs n (runs (hd ps) (hd ps) (tl ps))" "pages_of (runs (hd ps) (hd ps) (tl ps)) = set ps"
proof -
  note f = parse_facts [OF assms]
  obtain p qs where ps: "ps = p # qs" using f(3) by (cases ps) auto
  have le: "\<forall>x \<in> set (p # qs). x \<le> n" "1 \<le> p" using f(4) by (auto simp: ps)
  show "normalizePageRange (Some r) (Some n) = Some (printed (runs (hd ps) (hd ps) (tl ps)))"
    using f by (simp add: normalizePageRange_def assms merge_parts_runs printed_def)
  show "valid_runs n (runs (hd ps) (hd ps) (tl ps))" "pages_of (runs (hd ps) (hd ps) (tl ps)) = set ps"
    using runs_facts [of p qs p n] f(1,2) le by (simp_all add: ps)
qed

text \<open>
  C17. Page ranges survive their canonical form. A range that parses selects at least one page, each once, in
  ascending order, all within the document, so that at most all pages are counted; its canonical form (runs
  merged, sorted) parses to exactly the same pages, and the canonical form of that is itself. And any list
  of runs within the document, printed in any order and overlapping, parses to the union of the runs.
\<close>

theorem page_range_roundtrip:
  assumes "parsePageRange r n = Inr ps" "valid_runs n rs"
  shows "sorted ps \<and> distinct ps \<and> ps \<noteq> [] \<and> set ps \<subseteq> {1..n}
    \<and> countSelectedPages (Some r) n = Inr (int (length ps)) \<and> int (length ps) \<le> n
    \<and> (\<exists>t. normalizePageRange (Some r) (Some n) = Some t \<and> parsePageRange t n = Inr ps
        \<and> normalizePageRange (Some t) (Some n) = Some t)
    \<and> parsePageRange (printed rs) n = Inr (sorted_list_of_set (pages_of rs))"
proof -
  note f = parse_facts [OF assms(1)]
  note N = normalize_printed [OF assms(1)]
  let ?t = "printed (runs (hd ps) (hd ps) (tl ps))"
  have again: "parsePageRange ?t n = Inr ps"
    using parse_printed [OF N(2)] f(1,2) by (simp add: N(3) sorted_list_of_set.idem_if_sorted_distinct)
  have "card (set ps) \<le> card {1..n}" using f(4) by (intro card_mono) auto
  then have "int (length ps) \<le> n"
    using f(2,3,4) by (cases ps) (auto simp: distinct_card)
  with f again N(1) normalize_printed(1) [OF again] parse_printed [OF assms(2)] show ?thesis
    by (auto simp: countSelectedPages_def assms(1))
qed

theorem page_range_roundtrip_witness:
  "countSelectedPages (Some ''5,1-2, 3-4'') 10 = Inr 5"
proof -
  have "parsePageRange ''5,1-2, 3-4'' 10 = Inr [1, 2, 3, 4, 5]" by code_simp
  moreover have "valid_runs 10 [(1, 2)]" by (simp add: valid_runs_def)
  ultimately show ?thesis using page_range_roundtrip [of "''5,1-2, 3-4''" 10 "[1, 2, 3, 4, 5]" "[(1, 2)]"] by simp
qed

end
