(* ===== verification/Pricing.thy ===== *)
theory Pricing
  imports Page_Range Job_Types
begin

text \<open>
  packages/shared/src/pricing.ts. Amounts are integer paise. The multiplier of the platform markup is a
  binary64 number and so is its product with an amount: both are modelled exactly, as integers over
  \<open>2 ^ 52\<close>, rounded to 53 significant bits, ties to even; \<open>Math.round\<close> rounds halves up. The quotient by 100 of
  a coupon's percentage is at least a hundredth away from the next half, far more than its rounding error
  for any safe integer below \<open>2 ^ 45\<close>, so it is rounded as the exact quotient.
\<close>

subsection \<open>Numbers\<close>

function bit_count :: "int \<Rightarrow> nat" where
  "bit_count n = (if n \<le> 0 then 0 else Suc (bit_count (n div 2)))"
  by auto
termination by (relation "measure nat") auto

declare bit_count.simps [simp del]

text \<open>The quotient rounded to the nearest integer, ties to even.\<close>

definition div_even :: "int \<Rightarrow> int \<Rightarrow> int" where
  "div_even a b = (let q = a div b; r = a mod b in
    if 2 * r > b \<or> (2 * r = b \<and> odd q) then q + 1 else q)"

text \<open>An integer rounded to 53 significant bits.\<close>

definition round53 :: "int \<Rightarrow> int" where
  "round53 n = (let w = bit_count n in if w \<le> 53 then n else div_even n (2 ^ (w - 53)) * 2 ^ (w - 53))"

text \<open>\<open>(10_000 + markupBps) / 10_000\<close>, a number from 1 to 2, times \<open>2 ^ 52\<close>.\<close>

definition multiplier :: "int \<Rightarrow> int" where
  "multiplier markupBps = div_even ((10000 + markupBps) * 2 ^ 52) 10000"

text \<open>\<open>Math.round\<close> of a number given times \<open>2 ^ 52\<close>.\<close>

definition math_round :: "int \<Rightarrow> int" where
  "math_round v = (v + 2 ^ 51) div 2 ^ 52"

definition marked_up :: "int \<Rightarrow> paise \<Rightarrow> paise" where
  "marked_up markupBps price = math_round (round53 (price * multiplier markupBps))"

subsection \<open>The price of an order\<close>

definition DEFAULT_PRINT_OPTIONS :: shop_options where
  "DEFAULT_PRINT_OPTIONS = \<lparr>
    o_papers = [\<lparr>po_id = ''A4'', po_label = ''A4'', po_bwPaise = 200, po_colorPaise = Some 1000\<rparr>,
      \<lparr>po_id = ''A3'', po_label = ''A3'', po_bwPaise = 500, po_colorPaise = Some 2000\<rparr>],
    o_bindings = [\<lparr>bo_id = ''stapling'', bo_label = ''Stapling'', bo_paise = 0\<rparr>,
      \<lparr>bo_id = ''spiral_binding'', bo_label = ''Spiral binding'', bo_paise = 3000\<rparr>],
    o_duplexEnabled = True\<rparr>"

definition unit_price :: "job_specs \<Rightarrow> paper_option \<Rightarrow> paise option" where
  "unit_price specs paper = (if color specs then po_colorPaise paper else Some (po_bwPaise paper))"

definition binding_price :: "job_specs \<Rightarrow> shop_options \<Rightarrow> (paise \<times> string option) result" where
  "binding_price specs options = (if \<not> truthy (js_binding specs) then Inr (0, None)
    else case find (\<lambda>b. Some (bo_id b) = js_binding specs) (o_bindings options) of
      None \<Rightarrow> Inl (PricingError ''binding not offered'')
    | Some b \<Rightarrow> Inr (bo_paise b, Some (bo_label b)))"

definition computePrice :: "job_specs \<Rightarrow> int \<Rightarrow> shop_options \<Rightarrow> price_breakdown result" where
  "computePrice specs totalPages options = (case find (\<lambda>p. po_id p = paperSize specs) (o_papers options) of
      None \<Rightarrow> Inl (PricingError ''paper not offered'')
    | Some paper \<Rightarrow> (case unit_price specs paper of
        None \<Rightarrow> Inl (PricingError ''black & white only'')
      | Some perPagePaise \<Rightarrow> (case countSelectedPages (pageRange specs) totalPages of
          Inl e \<Rightarrow> Inl e
        | Inr pagesPerCopy \<Rightarrow>
          (let pagesTotalPaise = perPagePaise * pagesPerCopy * copies specs in
           case binding_price specs options of
             Inl e \<Rightarrow> Inl e
           | Inr (bindingPaise, bindingLabel) \<Rightarrow> Inr \<lparr>pb_paperLabel = po_label paper, pb_pagesPerCopy = pagesPerCopy,
               pb_copies = copies specs, pb_perPagePaise = perPagePaise, pb_pagesTotalPaise = pagesTotalPaise,
               pb_bindingLabel = bindingLabel, pb_bindingPaise = bindingPaise, pb_discountPaise = 0,
               pb_totalPaise = pagesTotalPaise + bindingPaise\<rparr>))))"

definition applyPlatformMarkup :: "price_breakdown \<Rightarrow> int \<Rightarrow> price_breakdown result" where
  "applyPlatformMarkup base markupBps =
    (if markupBps < 0 \<or> markupBps > 10000 then Inl (PricingError ''Platform markup must be between 0% and 100%'')
     else let perPagePaise = marked_up markupBps (pb_perPagePaise base);
              pagesTotalPaise = perPagePaise * pb_pagesPerCopy base * pb_copies base;
              bindingPaise = marked_up markupBps (pb_bindingPaise base)
       in Inr (base\<lparr>pb_perPagePaise := perPagePaise, pb_pagesTotalPaise := pagesTotalPaise, pb_bindingPaise := bindingPaise,
            pb_discountPaise := 0, pb_totalPaise := pagesTotalPaise + bindingPaise\<rparr>))"

definition MIN_ORDER_PAISE :: paise where "MIN_ORDER_PAISE = 100"

text \<open>A percentage of null or 0 is falsy; then the flat amount, or 0.\<close>

definition raw_discount :: "resolved_coupon \<Rightarrow> paise \<Rightarrow> paise" where
  "raw_discount coupon preDiscountTotal = (case percentOff coupon of
      Some p \<Rightarrow> if p \<noteq> 0 then (2 * (preDiscountTotal * p) + 100) div 200 else (case paiseOff coupon of None \<Rightarrow> 0 | Some a \<Rightarrow> a)
    | None \<Rightarrow> (case paiseOff coupon of None \<Rightarrow> 0 | Some a \<Rightarrow> a))"

definition applyCoupon :: "price_breakdown \<Rightarrow> resolved_coupon \<Rightarrow> price_breakdown" where
  "applyCoupon breakdown coupon =
    (let preDiscountTotal = pb_pagesTotalPaise breakdown + pb_bindingPaise breakdown;
         discountPaise = min (raw_discount coupon preDiscountTotal) (max 0 (preDiscountTotal - MIN_ORDER_PAISE))
     in breakdown\<lparr>pb_discountPaise := discountPaise, pb_totalPaise := preDiscountTotal - discountPaise\<rparr>)"

subsection \<open>Rounding errors\<close>

lemma div_even_error:
  assumes "0 < b"
  shows "\<bar>2 * (div_even a b * b - a)\<bar> \<le> b"
proof -
  define q r where "q = a div b" and "r = a mod b"
  have a: "a = q * b + r" "0 \<le> r" "r < b" using assms by (simp_all add: q_def r_def)
  have "div_even a b = (if 2 * r > b \<or> (2 * r = b \<and> odd q) then q + 1 else q)"
    by (simp add: div_even_def Let_def q_def r_def)
  then have "div_even a b * b - a = (if 2 * r > b \<or> (2 * r = b \<and> odd q) then b - r else - r)"
    by (simp add: a(1) algebra_simps)
  with a(2,3) show ?thesis by (simp split: if_split)
qed

lemma bit_count_bounds:
  "0 < n \<Longrightarrow> 2 ^ (bit_count n - 1) \<le> n \<and> n < 2 ^ bit_count n \<and> 0 < bit_count n"
proof (induction n rule: bit_count.induct)
  case (1 n)
  show ?case
  proof (cases "n = 1")
    case True
    then show ?thesis by (simp add: bit_count.simps)
  next
    case False
    then have "0 < n div 2" using 1(2) by simp
    with 1 have ih: "2 ^ (bit_count (n div 2) - 1) \<le> n div 2" "n div 2 < 2 ^ bit_count (n div 2)" "0 < bit_count (n div 2)" by auto
    have e: "bit_count n = Suc (bit_count (n div 2))" using 1(2) by (subst bit_count.simps) simp
    have "(2 :: int) ^ bit_count (n div 2) = 2 * 2 ^ (bit_count (n div 2) - 1)" using ih(3) by (cases "bit_count (n div 2)") simp_all
    moreover have "2 * (n div 2) \<le> n" "n < 2 * (n div 2) + 2" by simp_all
    ultimately show ?thesis unfolding e power_Suc diff_Suc_1 using ih(1,2) by linarith
  qed
qed

lemma round53_error:
  assumes "0 \<le> n"
  shows "2 ^ 53 * \<bar>round53 n - n\<bar> \<le> n"
proof (cases "bit_count n \<le> 53")
  case True
  with assms show ?thesis by (simp add: round53_def Let_def)
next
  case False
  define w where "w = bit_count n"
  have "0 < n" using assms False by (cases "n = 0") (auto simp: bit_count.simps)
  then have low: "2 ^ (w - 1) \<le> n" using bit_count_bounds [of n] by (simp add: w_def)
  have "w - 1 = 52 + (w - 53)" using False by (simp add: w_def)
  then have p: "(2 :: int) ^ (w - 1) = 2 ^ 52 * 2 ^ (w - 53)" by (simp only: power_add)
  have "round53 n = div_even n (2 ^ (w - 53)) * 2 ^ (w - 53)" using False by (simp add: round53_def Let_def w_def)
  then have "\<bar>2 * (round53 n - n)\<bar> \<le> 2 ^ (w - 53)" using div_even_error [of "2 ^ (w - 53)" n] by simp
  then have "2 * \<bar>round53 n - n\<bar> \<le> 2 ^ (w - 53)" by (simp only: abs_mult abs_numeral)
  with low show ?thesis unfolding p by simp
qed

lemma math_round_error: "\<bar>2 ^ 52 * math_round v - v\<bar> \<le> 2 ^ 51"
proof -
  have "v + 2 ^ 51 = 2 ^ 52 * math_round v + (v + 2 ^ 51) mod 2 ^ 52" unfolding math_round_def by simp
  moreover have "0 \<le> (v + 2 ^ 51) mod 2 ^ 52" "(v + 2 ^ 51) mod 2 ^ 52 < 2 ^ 52" by simp_all
  ultimately show ?thesis by simp
qed

lemma multiplier_error: "\<bar>10000 * multiplier b - (10000 + b) * 2 ^ 52\<bar> \<le> 5000"
  using div_even_error [of 10000 "(10000 + b) * 2 ^ 52"] by (simp add: multiplier_def)

lemma scaled_error:
  fixes price :: int
  assumes "\<bar>10000 * m - (10000 + b) * 2 ^ 52\<bar> \<le> 5000" "0 \<le> price"
  shows "\<bar>10000 * (price * m) - price * ((10000 + b) * 2 ^ 52)\<bar> \<le> 5000 * price"
proof -
  have "\<bar>10000 * (price * m) - price * ((10000 + b) * 2 ^ 52)\<bar> = price * \<bar>10000 * m - (10000 + b) * 2 ^ 52\<bar>"
    using assms(2) by (subst abs_of_nonneg [OF assms(2), symmetric], subst abs_mult [symmetric]) (simp add: algebra_simps)
  also have "\<dots> \<le> price * 5000" using assms by (intro mult_left_mono) auto
  finally show ?thesis by simp
qed

text \<open>Up to a million rupees, a marked-up price is the exact product rounded to the nearest paisa.\<close>

lemma marked_up_nearest:
  assumes "0 \<le> price" "price \<le> 10 ^ 8" "0 \<le> b" "b \<le> 10000"
  shows "\<bar>10000 * marked_up b price - price * (10000 + b)\<bar> \<le> 5000"
proof -
  define m where "m = multiplier b"
  define v where "v = round53 (price * m)"
  have me: "\<bar>10000 * m - (10000 + b) * 2 ^ 52\<bar> \<le> 5000" unfolding m_def by (rule multiplier_error)
  have m: "0 \<le> m" "m \<le> 2 ^ 53" using me assms(3,4) by simp_all
  have pm: "0 \<le> price * m" "price * m \<le> 10 ^ 8 * 2 ^ 53"
    using assms(1,2) m by (simp, intro mult_mono) auto
  have "2 ^ 53 * \<bar>v - price * m\<bar> \<le> price * m" unfolding v_def by (rule round53_error [OF pm(1)])
  then have e1: "\<bar>v - price * m\<bar> \<le> 10 ^ 8" using pm(2) by simp
  have e2: "\<bar>2 ^ 52 * marked_up b price - v\<bar> \<le> 2 ^ 51" unfolding marked_up_def v_def m_def by (rule math_round_error)
  have e3: "\<bar>10000 * (price * m) - price * ((10000 + b) * 2 ^ 52)\<bar> \<le> 5000 * price" by (rule scaled_error [OF me assms(1)])
  define x where "x = price * (10000 + b)"
  have x: "price * ((10000 + b) * 2 ^ 52) = 2 ^ 52 * x" by (simp add: x_def)
  have "\<bar>2 ^ 52 * (10000 * marked_up b price - x)\<bar> \<le> 10000 * 2 ^ 51 + 10000 * 10 ^ 8 + 5000 * 10 ^ 8"
    using e1 e2 e3 assms(2) unfolding x by (simp only: abs_le_iff) simp
  then show ?thesis unfolding x_def by (simp add: abs_le_iff)
qed

lemma marked_up_bounds:
  assumes "0 \<le> price" "price \<le> 10 ^ 8" "0 \<le> b" "b \<le> 10000"
  shows "price \<le> marked_up b price" "marked_up b price \<le> 2 * price"
proof -
  have "0 \<le> price * b" "price * b \<le> price * 10000" using assms by (simp, intro mult_left_mono) auto
  then show "price \<le> marked_up b price" "marked_up b price \<le> 2 * price"
    using marked_up_nearest [OF assms] by (simp_all add: algebra_simps abs_le_iff)
qed

subsection \<open>Prices reconcile\<close>

definition price_ok :: "paise \<Rightarrow> bool" where
  "price_ok p = (0 \<le> p \<and> p \<le> 10 ^ 8)"

text \<open>What the menu's schema imposes, with a wider bound.\<close>

definition options_ok :: "shop_options \<Rightarrow> bool" where
  "options_ok options = ((\<forall>p \<in> set (o_papers options). price_ok (po_bwPaise p) \<and> (\<forall>c. po_colorPaise p = Some c \<longrightarrow> price_ok c))
    \<and> (\<forall>b \<in> set (o_bindings options). price_ok (bo_paise b)))"

definition coupon_ok :: "resolved_coupon \<Rightarrow> bool" where
  "coupon_ok c = ((\<forall>p. percentOff c = Some p \<longrightarrow> 0 \<le> p) \<and> (\<forall>a. paiseOff c = Some a \<longrightarrow> 0 \<le> a))"

lemma computePrice_facts:
  assumes "computePrice specs n options = Inr b"
  shows "pb_pagesTotalPaise b = pb_perPagePaise b * pb_pagesPerCopy b * pb_copies b" "pb_copies b = copies specs"
    "pb_totalPaise b = pb_pagesTotalPaise b + pb_bindingPaise b" "countSelectedPages (pageRange specs) n = Inr (pb_pagesPerCopy b)"
    "options_ok options \<Longrightarrow> price_ok (pb_perPagePaise b)" "options_ok options \<Longrightarrow> price_ok (pb_bindingPaise b)"
    "pb_discountPaise b = 0"
  using assms
  by (auto simp: computePrice_def unit_price_def binding_price_def options_ok_def price_ok_def Let_def
      split: option.splits sum.splits if_splits dest!: find_SomeD)

lemma count_nonneg: "countSelectedPages r n = Inr k \<Longrightarrow> 0 \<le> n \<Longrightarrow> 0 \<le> k \<and> k \<le> n"
proof -
  assume a: "countSelectedPages r n = Inr k" "0 \<le> n"
  show ?thesis
  proof (cases "truthy r")
    case True
    then obtain ps where p: "parsePageRange (the r) n = Inr ps" "k = int (length ps)"
      using a(1) by (auto simp: countSelectedPages_def split: sum.splits)
    note f = parse_facts [OF p(1)]
    have "card (set ps) \<le> card {1..n}" using f(4) by (intro card_mono) auto
    then show ?thesis using f(2) p(2) a(2) by (simp add: distinct_card)
  qed (use a in \<open>simp add: countSelectedPages_def\<close>)
qed

lemma markup_facts:
  assumes "applyPlatformMarkup b m = Inr s"
  shows "0 \<le> m" "m \<le> 10000" "pb_perPagePaise s = marked_up m (pb_perPagePaise b)" "pb_bindingPaise s = marked_up m (pb_bindingPaise b)"
    "pb_pagesTotalPaise s = pb_perPagePaise s * pb_pagesPerCopy s * pb_copies s" "pb_totalPaise s = pb_pagesTotalPaise s + pb_bindingPaise s"
    "pb_pagesPerCopy s = pb_pagesPerCopy b" "pb_copies s = pb_copies b" "pb_discountPaise s = 0"
  using assms by (auto simp: applyPlatformMarkup_def Let_def split: if_splits)

lemma coupon_facts:
  assumes "pb_totalPaise s = pb_pagesTotalPaise s + pb_bindingPaise s" "0 \<le> pb_totalPaise s" "coupon_ok c"
  shows "pb_totalPaise (applyCoupon s c) + pb_discountPaise (applyCoupon s c) = pb_totalPaise s"
    "min MIN_ORDER_PAISE (pb_totalPaise s) \<le> pb_totalPaise (applyCoupon s c)" "pb_totalPaise (applyCoupon s c) \<le> pb_totalPaise s"
proof -
  have "0 \<le> raw_discount c (pb_totalPaise s)"
    using assms(2,3) by (auto simp: raw_discount_def coupon_ok_def pos_imp_zdiv_nonneg_iff split: option.splits)
  then show "pb_totalPaise (applyCoupon s c) + pb_discountPaise (applyCoupon s c) = pb_totalPaise s"
    "min MIN_ORDER_PAISE (pb_totalPaise s) \<le> pb_totalPaise (applyCoupon s c)" "pb_totalPaise (applyCoupon s c) \<le> pb_totalPaise s"
    using assms(1) by (auto simp: applyCoupon_def Let_def)
qed

lemma markup_total:
  assumes "computePrice specs n options = Inr b" "applyPlatformMarkup b m = Inr s" "options_ok options" "0 \<le> copies specs" "0 \<le> n"
  shows "pb_totalPaise b \<le> pb_totalPaise s" "pb_totalPaise s \<le> 2 * pb_totalPaise b" "0 \<le> pb_totalPaise b"
proof -
  note B = computePrice_facts [OF assms(1)] and M = markup_facts [OF assms(2)]
  have ok: "price_ok (pb_perPagePaise b)" "price_ok (pb_bindingPaise b)" using B(5,6) assms(3) by auto
  define u where "u = pb_pagesPerCopy b * pb_copies b"
  have u: "0 \<le> u" unfolding u_def using count_nonneg [OF B(4) assms(5)] B(2) assms(4) by simp
  note p = marked_up_bounds [OF _ _ M(1,2), of "pb_perPagePaise b"] marked_up_bounds [OF _ _ M(1,2), of "pb_bindingPaise b"]
  have s: "pb_totalPaise s = pb_perPagePaise s * u + pb_bindingPaise s" "pb_totalPaise b = pb_perPagePaise b * u + pb_bindingPaise b"
    by (simp_all add: M(5-8) B(1,3) u_def algebra_simps)
  have "pb_perPagePaise b * u \<le> pb_perPagePaise s * u" "pb_perPagePaise s * u \<le> 2 * pb_perPagePaise b * u"
    using p ok u unfolding price_ok_def M(3) by (intro mult_right_mono; simp)+
  moreover have "0 \<le> pb_perPagePaise b * u" using ok u by (simp add: price_ok_def)
  ultimately show "pb_totalPaise b \<le> pb_totalPaise s" "pb_totalPaise s \<le> 2 * pb_totalPaise b" "0 \<le> pb_totalPaise b"
    using p ok unfolding s M(4) price_ok_def by simp_all
qed

text \<open>
  C18. What the student pays reconciles to the paisa. For a menu with prices up to a million rupees and a
  markup from 0% to 100%: the student's price of a page and of the binding is the shop's price times the
  markup, rounded to the nearest paisa although the product is computed in binary floating point; the
  subtotals multiply and add up exactly; the total is at least the shop's base and at most twice it; and a
  coupon takes off what it says but never more than leaves one rupee (or the whole price, when that is
  less), the discount being recorded exactly.
\<close>

theorem price_reconciles:
  assumes "computePrice specs n options = Inr b" "applyPlatformMarkup b bps = Inr s" "options_ok options" "0 \<le> copies specs" "0 \<le> n"
    "coupon_ok c"
  shows "\<bar>10000 * pb_perPagePaise s - pb_perPagePaise b * (10000 + bps)\<bar> \<le> 5000
    \<and> \<bar>10000 * pb_bindingPaise s - pb_bindingPaise b * (10000 + bps)\<bar> \<le> 5000
    \<and> pb_totalPaise s = pb_perPagePaise s * pb_pagesPerCopy s * copies specs + pb_bindingPaise s
    \<and> pb_totalPaise b \<le> pb_totalPaise s \<and> pb_totalPaise s \<le> 2 * pb_totalPaise b
    \<and> pb_totalPaise (applyCoupon s c) + pb_discountPaise (applyCoupon s c) = pb_totalPaise s
    \<and> min MIN_ORDER_PAISE (pb_totalPaise s) \<le> pb_totalPaise (applyCoupon s c) \<and> pb_totalPaise (applyCoupon s c) \<le> pb_totalPaise s"
proof -
  note B = computePrice_facts [OF assms(1)] and M = markup_facts [OF assms(2)]
  note T = markup_total [OF assms(1-5)]
  have ok: "price_ok (pb_perPagePaise b)" "price_ok (pb_bindingPaise b)" using B(5,6) assms(3) by auto
  note N = marked_up_nearest [OF _ _ M(1,2)]
  have "\<bar>10000 * pb_perPagePaise s - pb_perPagePaise b * (10000 + bps)\<bar> \<le> 5000"
    "\<bar>10000 * pb_bindingPaise s - pb_bindingPaise b * (10000 + bps)\<bar> \<le> 5000"
    unfolding M(3,4) using N ok by (auto simp: price_ok_def)
  moreover have "pb_totalPaise s = pb_perPagePaise s * pb_pagesPerCopy s * copies specs + pb_bindingPaise s"
    by (simp add: M(5,6,8) B(2))
  ultimately show ?thesis using T coupon_facts [OF M(6) _ assms(6)] by simp
qed

definition sample_base :: price_breakdown where
  "sample_base = \<lparr>pb_paperLabel = ''A4'', pb_pagesPerCopy = 3, pb_copies = 2, pb_perPagePaise = 200, pb_pagesTotalPaise = 1200,
    pb_bindingLabel = None, pb_bindingPaise = 0, pb_discountPaise = 0, pb_totalPaise = 1200\<rparr>"

definition sample_price :: price_breakdown where
  "sample_price = sample_base\<lparr>pb_perPagePaise := 250, pb_pagesTotalPaise := 1500, pb_totalPaise := 1500\<rparr>"

lemma sample_prices:
  "computePrice sample_specs 3 DEFAULT_PRINT_OPTIONS = Inr sample_base" "applyPlatformMarkup sample_base 2500 = Inr sample_price"
  by code_simp+

theorem price_reconciles_witness:
  "pb_totalPaise sample_base \<le> pb_totalPaise sample_price \<and> pb_totalPaise (applyCoupon sample_price
    \<lparr>rc_code = ''TEN'', percentOff = Some 10, paiseOff = None\<rparr>) = 1350"
proof -
  let ?c = "\<lparr>rc_code = ''TEN'', percentOff = Some 10, paiseOff = None\<rparr>"
  have "options_ok DEFAULT_PRINT_OPTIONS" by (simp add: options_ok_def DEFAULT_PRINT_OPTIONS_def price_ok_def)
  moreover have "0 \<le> copies sample_specs" "coupon_ok ?c" by (simp_all add: sample_specs_def coupon_ok_def)
  moreover have "pb_discountPaise (applyCoupon sample_price ?c) = 150" "pb_totalPaise sample_price = 1500" by code_simp+
  ultimately show ?thesis using price_reconciles [OF sample_prices, of ?c] by simp
qed

end
