(* ===== verification/Orders.thy ===== *)
theory Orders
  imports Queue_Engine Pricing Conversion
begin

text \<open>
  apps/api/src/modules/jobs/routes.ts and coupons.ts, lib/idempotency.ts, lib/shopOptions.ts, the open check of
  shops/availability.ts and payments/refund.ts: quoting, preparing, showing, cancelling and rating an order.
  Redis is a map from keys to a value with its expiry; \<open>up\<close> says whether it answers. The rows a handler reads
  together are a snapshot (the \<open>shop_view\<close>, the file, the coupons); its writes meet the store. The random id,
  the random counter codes and the cryptography are arguments; the texts of the errors are shortened.
\<close>

subsection \<open>Redis: idempotency keys and locks\<close>

type_synonym redis = "string \<Rightarrow> (string \<times> millis) option"

definition IDEM_TTL_S :: int where "IDEM_TTL_S = 600"
definition LOCK_TTL_S :: int where "LOCK_TTL_S = 30"

definition redis_get :: "millis \<Rightarrow> string \<Rightarrow> redis \<Rightarrow> string option" where
  "redis_get now k r = (case r k of None \<Rightarrow> None | Some (v, t) \<Rightarrow> if now < t then Some v else None)"

definition redis_set :: "millis \<Rightarrow> int \<Rightarrow> string \<Rightarrow> string \<Rightarrow> redis \<Rightarrow> redis" where
  "redis_set now ttl k v r = r(k := Some (v, now + ttl * 1000))"

definition redis_set_nx :: "millis \<Rightarrow> int \<Rightarrow> string \<Rightarrow> string \<Rightarrow> redis \<Rightarrow> bool \<times> redis" where
  "redis_set_nx now ttl k v r = (if redis_get now k r = None then (True, redis_set now ttl k v r) else (False, r))"

datatype header = H_none | H_one string | H_many "string list"

definition key_char :: "char \<Rightarrow> bool" where
  "key_char c = (is_digit c \<or> (65 \<le> code_of c \<and> code_of c \<le> 90) \<or> (97 \<le> code_of c \<and> code_of c \<le> 122)
    \<or> c = CHR ''_'' \<or> c = CHR ''-'')"

definition parseIdempotencyKey :: "header \<Rightarrow> string option" where
  "parseIdempotencyKey h =
    (case (case h of H_none \<Rightarrow> None | H_one s \<Rightarrow> Some s | H_many [] \<Rightarrow> None | H_many (s # _) \<Rightarrow> Some s) of
      None \<Rightarrow> None
    | Some s \<Rightarrow> if 8 \<le> length s \<and> length s \<le> 64 \<and> list_all key_char s then Some s else None)"

datatype idempotency_claim = Claimed | Replay id | In_flight

definition idem_key :: "string \<Rightarrow> string \<Rightarrow> string" where
  "idem_key scope key = ''idem:'' @ scope @ '':'' @ key"

definition claimIdempotency :: "bool \<Rightarrow> millis \<Rightarrow> string \<Rightarrow> string \<Rightarrow> redis \<Rightarrow> idempotency_claim \<times> redis" where
  "claimIdempotency up now scope key r = (if \<not> up then (Claimed, r)
    else (case redis_set_nx now IDEM_TTL_S (idem_key scope key) ''pending'' r of
      (True, r') \<Rightarrow> (Claimed, r')
    | (False, _) \<Rightarrow> ((case redis_get now (idem_key scope key) r of
        Some v \<Rightarrow> if v \<noteq> [] \<and> v \<noteq> ''pending'' then Replay v else In_flight | None \<Rightarrow> In_flight), r)))"

definition completeIdempotency :: "bool \<Rightarrow> millis \<Rightarrow> string \<Rightarrow> string \<Rightarrow> id \<Rightarrow> redis \<Rightarrow> redis" where
  "completeIdempotency up now scope key resultId r = (if up then redis_set now IDEM_TTL_S (idem_key scope key) resultId r else r)"

definition releaseIdempotency :: "bool \<Rightarrow> string \<Rightarrow> string \<Rightarrow> redis \<Rightarrow> redis" where
  "releaseIdempotency up scope key r = (if up then r(idem_key scope key := None) else r)"

definition tryLock :: "bool \<Rightarrow> millis \<Rightarrow> string \<Rightarrow> redis \<Rightarrow> bool \<times> redis" where
  "tryLock up now name r = (if \<not> up then (True, r) else redis_set_nx now LOCK_TTL_S (''lock:'' @ name) ''1'' r)"

definition unlock :: "bool \<Rightarrow> string \<Rightarrow> redis \<Rightarrow> redis" where
  "unlock up name r = (if up then r(''lock:'' @ name := None) else r)"

subsection \<open>The shop and its coupons\<close>

definition shopOptions :: "shop_row \<Rightarrow> shop_options" where
  "shopOptions s = (case sh_printOptions s of None \<Rightarrow> DEFAULT_PRINT_OPTIONS | Some options \<Rightarrow> options)"

definition isShopOperationalFrom :: "shop_view \<Rightarrow> bool" where
  "isShopOperationalFrom v = (let s = v_shop v in
    if \<not> sh_acceptingOrders s \<or> sh_feeBlockedAt s \<noteq> None \<or> sh_latitude s = None \<or> sh_longitude s = None then False
    else let reachable = concat (map ag_connectedPrinterIds (online_agents v))
      in list_ex (\<lambda>p. pt_status p = P_online \<and> pt_id p \<in> set reachable) (shop_printers v))"

record coupon_row =
  cp_code :: string
  cp_shopId :: "id option"
  cp_percentOff :: "int option"
  cp_paiseOff :: "paise option"
  cp_expiresAt :: "millis option"
  cp_maxRedemptions :: "int option"
  cp_redeemedCount :: int

definition coupon_code :: "string \<Rightarrow> string" where
  "coupon_code code = to_upper (trim code)"

definition resolveCoupon :: "string \<Rightarrow> id \<Rightarrow> millis \<Rightarrow> coupon_row list \<Rightarrow> resolved_coupon result" where
  "resolveCoupon code shopId now coupons = (case find (\<lambda>c. cp_code c = coupon_code code) coupons of
      None \<Rightarrow> Inl (BadRequest ''Invalid coupon code'')
    | Some c \<Rightarrow>
      if truthy (cp_shopId c) \<and> cp_shopId c \<noteq> Some shopId then Inl (BadRequest ''not valid at this shop'')
      else if (case cp_expiresAt c of None \<Rightarrow> False | Some t \<Rightarrow> t < now) then Inl (BadRequest ''expired'')
      else if (case cp_maxRedemptions c of None \<Rightarrow> False | Some m \<Rightarrow> cp_redeemedCount c \<ge> m) then Inl (BadRequest ''fully redeemed'')
      else Inr \<lparr>rc_code = cp_code c, percentOff = cp_percentOff c, paiseOff = cp_paiseOff c\<rparr>)"

definition redeemCoupon :: "string \<Rightarrow> coupon_row list \<Rightarrow> coupon_row list result" where
  "redeemCoupon code coupons = (if find (\<lambda>c. cp_code c = coupon_code code) coupons = None then Inl (Thrown ''P2025'')
    else Inr (update_where (\<lambda>c. cp_code c = coupon_code code) (\<lambda>c. c\<lparr>cp_redeemedCount := cp_redeemedCount c + 1\<rparr>) coupons))"

subsection \<open>Quote\<close>

record order_request =
  or_fileId :: id
  or_specs :: job_specs
  or_mode :: job_mode
  or_scheduledTime :: "millis option"
  or_couponCode :: "string option"

definition loadFileForOrder :: "id \<Rightarrow> id \<Rightarrow> file_row list \<Rightarrow> file_row option" where
  "loadFileForOrder fileId studentId files = find (\<lambda>f. fl_id f = fileId \<and> fl_studentId f = studentId \<and> fl_status f = F_ready) files"

text \<open>The price of a request: the shop's base, the price before any coupon, the final price and the coupon's code.\<close>

definition price_of :: "int \<Rightarrow> order_request \<Rightarrow> int \<Rightarrow> shop_row \<Rightarrow> millis \<Rightarrow> coupon_row list
    \<Rightarrow> (price_breakdown \<times> price_breakdown \<times> price_breakdown \<times> string option) result" where
  "price_of markupBps req pages s now coupons = (case computePrice (or_specs req) pages (shopOptions s) of
      Inl e \<Rightarrow> Inl e
    | Inr shopBase \<Rightarrow> (case applyPlatformMarkup shopBase markupBps of
        Inl e \<Rightarrow> Inl e
      | Inr marked \<Rightarrow>
        if \<not> truthy (or_couponCode req) then Inr (shopBase, marked, marked, None)
        else (case resolveCoupon (the (or_couponCode req)) (sh_id s) now coupons of
          Inl e \<Rightarrow> Inl e
        | Inr c \<Rightarrow> Inr (shopBase, marked, applyCoupon marked c, Some (rc_code c)))))"

record quote =
  qu_pagesPerCopy :: int
  qu_totalPaise :: paise
  qu_pages :: int
  qu_unsupported :: "unsupported_code list"

definition quoteOrder :: "int \<Rightarrow> id \<Rightarrow> order_request \<Rightarrow> millis \<Rightarrow> shop_view \<Rightarrow> file_row list \<Rightarrow> coupon_row list \<Rightarrow> quote result" where
  "quoteOrder markupBps studentId req now v files coupons = (case loadFileForOrder (or_fileId req) studentId files of
      None \<Rightarrow> Inl NotFound
    | Some f \<Rightarrow> (case fl_pages f of None \<Rightarrow> Inl NotFound
      | Some pages \<Rightarrow>
        if \<not> isShopOperationalFrom v then Inl (Conflict ''shop paused'')
        else (case price_of markupBps req pages (v_shop v) now coupons of
          Inl e \<Rightarrow> Inl e
        | Inr (shopBase, marked, breakdown, code) \<Rightarrow> Inr \<lparr>qu_pagesPerCopy = pb_pagesPerCopy breakdown,
            qu_totalPaise = pb_totalPaise breakdown, qu_pages = pages,
            qu_unsupported = unsupportedSpecs (map toProfile (shop_printers v)) (or_specs req)\<rparr>)))"

subsection \<open>Preparing an order\<close>

definition new_job :: "id \<Rightarrow> id \<Rightarrow> id \<Rightarrow> order_request \<Rightarrow> price_breakdown \<Rightarrow> price_breakdown \<Rightarrow> price_breakdown \<Rightarrow> string option \<Rightarrow> millis \<Rightarrow> job" where
  "new_job newId shopId studentId req shopBase marked breakdown code createdAt = \<lparr>j_id = newId, j_shopId = shopId,
    j_studentId = studentId, j_fileId = or_fileId req, j_assignedPrinterId = None, j_specs = or_specs req,
    j_pagesPerCopy = pb_pagesPerCopy breakdown, j_totalPaise = pb_totalPaise breakdown, j_shopBasePaise = pb_totalPaise shopBase,
    j_platformMarkupPaise = pb_totalPaise marked - pb_totalPaise shopBase, j_platformDiscountPaise = pb_discountPaise breakdown,
    j_paymentStatus = Pay_pending, j_paymentProvider = Some ''pay_at_shop'', j_paymentOrderId = None,
    j_paymentId = None, j_cashCollectedAt = None, j_counterPaymentMethod = None,
    j_counterPaymentConfirmedAt = None, j_counterPaymentConfirmedById = None,
    j_counterPaymentReference = None, j_counterPaymentAmountPaise = None, j_couponCode = code,
    j_mode = or_mode req, j_scheduledTime = (if or_mode req = Scheduled then or_scheduledTime req else None), j_status = Pending_payment,
    j_otpHash = None, j_otpCode = None,
    j_otpExpiresAt = None, j_releaseCodeDigest = None, j_releaseCodeEncrypted = None,
    j_releaseCodeGeneratedAt = None, j_nearFrontNotifiedAt = None, j_revealedAt = None,
    j_revealDeadlineAt = None, j_arrivingNotifiedAt = None, j_absentAt = None, j_absentReason = None,
    j_rating = None, j_queuedAt = None, j_arrivedAt = None, j_queueLeftAt = None, j_checkInCount = 0,
    j_claimedByAgentId = None, j_claimedBySessionId = None, j_printError = None, j_printAttempts = 0,
    j_spoolAcceptedAt = None, j_printConfirmedAt = None, j_printConfirmedById = None,
    j_printCompletionMethod = None, j_createdAt = createdAt, j_updatedAt = createdAt,
    j_refundConfirmedAt = None, j_refundAmountPaise = None\<rparr>"

text \<open>All checks of the request against the snapshot, in the order of the code; the row to insert.\<close>

definition prepare_row :: "int \<Rightarrow> id \<Rightarrow> id \<Rightarrow> order_request \<Rightarrow> millis \<Rightarrow> shop_view \<Rightarrow> file_row list \<Rightarrow> coupon_row list \<Rightarrow> job result" where
  "prepare_row markupBps newId studentId req now v files coupons = (case loadFileForOrder (or_fileId req) studentId files of
      None \<Rightarrow> Inl NotFound
    | Some f \<Rightarrow> (case fl_pages f of None \<Rightarrow> Inl NotFound
      | Some pages \<Rightarrow>
        (let fileJobs = filter (\<lambda>j. j_fileId j = or_fileId req) (v_jobs v) in
         if list_ex (\<lambda>j. j_studentId j = studentId \<and> j_shopId j = fl_shopId f \<and> j_status j \<in> set ACTIVE_FILE_JOB_STATUSES) fileJobs
         then Inl (Conflict ''duplicate order'')
         else case assertFileCanBackNewJobFrom f (list_ex isPrintedFileJob fileJobs) of
           Inl e \<Rightarrow> Inl e
         | Inr _ \<Rightarrow>
           if \<not> isShopOperationalFrom v then Inl (Conflict ''shop paused'')
           else if unsupportedSpecs (map toProfile (shop_printers v)) (or_specs req) \<noteq> [] then Inl (Conflict ''unsupported'')
           else case price_of markupBps req pages (v_shop v) now coupons of
             Inl e \<Rightarrow> Inl e
           | Inr (shopBase, marked, breakdown, code) \<Rightarrow>
             if pb_totalPaise breakdown < 100 then Inl (BadRequest ''Minimum order'')
             else Inr (new_job newId (fl_shopId f) studentId req shopBase marked breakdown code now))))"

text \<open>An older live order on the same file: the row withdraws itself.\<close>

definition rival_of :: "job \<Rightarrow> job \<Rightarrow> bool" where
  "rival_of j x = (j_fileId x = j_fileId j \<and> j_id x \<noteq> j_id j \<and> j_status x \<in> set ACTIVE_FILE_JOB_STATUSES
    \<and> (j_createdAt x < j_createdAt j \<or> (j_createdAt x = j_createdAt j \<and> j_id x < j_id j)))"

definition insert_row :: "job \<Rightarrow> db \<Rightarrow> db" where
  "insert_row j d = d\<lparr>jobs := jobs d @ [j]\<rparr>"

definition delete_row :: "job \<Rightarrow> db \<Rightarrow> db" where
  "delete_row j d = d\<lparr>jobs := filter (\<lambda>x. j_id x \<noteq> j_id j) (jobs d)\<rparr>"

record order_store =
  os_db :: db
  os_coupons :: "coupon_row list"
  os_redis :: redis

text \<open>
  After the insert: the rival check, the coupon, the counter code. \<open>collisions\<close> is the count that ran alongside
  the insert, \<open>code\<close> the candidate drawn before it, \<open>candidates\<close> further random codes.
\<close>

definition settle_row :: "(id \<Rightarrow> string \<Rightarrow> string) \<Rightarrow> (id \<Rightarrow> string \<Rightarrow> string) \<Rightarrow> string \<Rightarrow> string list \<Rightarrow> nat \<Rightarrow> job \<Rightarrow> millis
    \<Rightarrow> order_store \<Rightarrow> (id \<times> paise) result \<times> order_store \<times> effect list" where
  "settle_row digestOf encrypt code candidates collisions j now st =
    (if list_ex (rival_of j) (jobs (os_db st))
     then (Inl (Conflict ''duplicate order''), st\<lparr>os_db := delete_row j (os_db st)\<rparr>, [])
     else case (if truthy (j_couponCode j) then redeemCoupon (the (j_couponCode j)) (os_coupons st) else Inr (os_coupons st)) of
       Inl e \<Rightarrow> (Inl e, st, [])
     | Inr coupons \<Rightarrow>
       (case allocatePayAtShopCode digestOf encrypt candidates
           (if collisions = 0 then Some (newCounterCode digestOf (j_shopId j) code) else None) now j (jobs (os_db st)) (os_db st) of
         Inl e \<Rightarrow> (Inl e, st\<lparr>os_coupons := coupons\<rparr>, [])
       | Inr (prepared, d) \<Rightarrow> (Inr (j_id j, j_totalPaise j), st\<lparr>os_coupons := coupons, os_db := d\<rparr>,
           if prepared = None then [] else notifyPayAtShopPrepared now j)))"

definition createPreparedJob :: "(id \<Rightarrow> string \<Rightarrow> string) \<Rightarrow> (id \<Rightarrow> string \<Rightarrow> string) \<Rightarrow> string \<Rightarrow> string list \<Rightarrow> int \<Rightarrow> id \<Rightarrow> id
    \<Rightarrow> order_request \<Rightarrow> millis \<Rightarrow> shop_view \<Rightarrow> file_row list \<Rightarrow> order_store \<Rightarrow> (id \<times> paise) result \<times> order_store \<times> effect list" where
  "createPreparedJob digestOf encrypt code candidates markupBps newId studentId req now v files st =
    (case prepare_row markupBps newId studentId req now v files (os_coupons st) of
      Inl e \<Rightarrow> (Inl e, st, [])
    | Inr j \<Rightarrow> settle_row digestOf encrypt code candidates
        (counterCodeInUse (j_shopId j) (digestOf (j_shopId j) code) (jobs (os_db st))) j now
        (st\<lparr>os_db := insert_row j (os_db st)\<rparr>))"

definition lock_name :: "id \<Rightarrow> id \<Rightarrow> string" where
  "lock_name studentId fileId = ''job-create:'' @ studentId @ '':'' @ fileId"

text \<open>The order prepared under the lock, then the key completed or released and the lock given back.\<close>

definition locked_create :: "bool \<Rightarrow> (id \<Rightarrow> string \<Rightarrow> string) \<Rightarrow> (id \<Rightarrow> string \<Rightarrow> string) \<Rightarrow> string \<Rightarrow> string list \<Rightarrow> int \<Rightarrow> id \<Rightarrow> id
    \<Rightarrow> string option \<Rightarrow> order_request \<Rightarrow> millis \<Rightarrow> shop_view \<Rightarrow> file_row list \<Rightarrow> order_store
    \<Rightarrow> (bool \<times> id \<times> paise) result \<times> order_store \<times> effect list" where
  "locked_create up digestOf encrypt code candidates markupBps newId studentId idemKey req now v files st =
    (case tryLock up now (lock_name studentId (or_fileId req)) (os_redis st) of
      (False, r) \<Rightarrow> (Inl (Conflict ''duplicate order''), st\<lparr>os_redis := (case idemKey of None \<Rightarrow> r | Some k \<Rightarrow> releaseIdempotency up studentId k r)\<rparr>, [])
    | (True, r) \<Rightarrow>
      (case createPreparedJob digestOf encrypt code candidates markupBps newId studentId req now v files (st\<lparr>os_redis := r\<rparr>) of
        (res, st1, effs) \<Rightarrow>
          (let r1 = (case idemKey of None \<Rightarrow> os_redis st1
               | Some k \<Rightarrow> (case res of Inr (i, _) \<Rightarrow> completeIdempotency up now studentId k i (os_redis st1)
                   | Inl _ \<Rightarrow> releaseIdempotency up studentId k (os_redis st1)))
           in ((case res of Inl e \<Rightarrow> Inl e | Inr (i, t) \<Rightarrow> Inr (False, i, t)),
               st1\<lparr>os_redis := unlock up (lock_name studentId (or_fileId req)) r1\<rparr>, effs))))"

text \<open>POST /jobs. The Boolean of the answer says that an earlier result is replayed (200 instead of 201).\<close>

definition createJob :: "bool \<Rightarrow> (id \<Rightarrow> string \<Rightarrow> string) \<Rightarrow> (id \<Rightarrow> string \<Rightarrow> string) \<Rightarrow> string \<Rightarrow> string list \<Rightarrow> int \<Rightarrow> id \<Rightarrow> id
    \<Rightarrow> header \<Rightarrow> order_request \<Rightarrow> millis \<Rightarrow> shop_view \<Rightarrow> file_row list \<Rightarrow> order_store
    \<Rightarrow> (bool \<times> id \<times> paise) result \<times> order_store \<times> effect list" where
  "createJob up digestOf encrypt code candidates markupBps newId studentId h req now v files st =
    (case parseIdempotencyKey h of
      None \<Rightarrow> locked_create up digestOf encrypt code candidates markupBps newId studentId None req now v files st
    | Some k \<Rightarrow>
      (case claimIdempotency up now studentId k (os_redis st) of
        (Replay resultId, r) \<Rightarrow>
          (case find (\<lambda>j. j_id j = resultId \<and> j_studentId j = studentId) (jobs (os_db st)) of
            Some existing \<Rightarrow> (Inr (True, j_id existing, j_totalPaise existing), st, [])
          | None \<Rightarrow> locked_create up digestOf encrypt code candidates markupBps newId studentId (Some k) req now v files (st\<lparr>os_redis := r\<rparr>))
      | (In_flight, r) \<Rightarrow> (Inl (Conflict ''duplicate order''), st, [])
      | (Claimed, r) \<Rightarrow> locked_create up digestOf encrypt code candidates markupBps newId studentId (Some k) req now v files (st\<lparr>os_redis := r\<rparr>)))"

subsection \<open>Showing orders\<close>

definition listOrders :: "id \<Rightarrow> job list \<Rightarrow> job list" where
  "listOrders studentId js = take 50 (sort_key (\<lambda>j. - j_createdAt j) (filter (\<lambda>j. j_studentId j = studentId) js))"

record student_view =
  sw_live :: live_metrics
  sw_printProblem :: bool
  sw_counterUpi :: "(string \<times> string) option"
  sw_otpCode :: "string option"
  sw_counterCodeAvailable :: bool
  sw_absent :: bool
  sw_canCheckIn :: bool
  sw_checkInOpensAt :: "millis option"

text \<open>\<open>decrypt\<close> is decryptReleaseCode; the payee's name is not a column of the model's shop and is an argument.\<close>

definition showOrder :: "(id \<Rightarrow> string option \<Rightarrow> string option) \<Rightarrow> string option \<Rightarrow> id \<Rightarrow> id \<Rightarrow> millis \<Rightarrow> shop_view \<Rightarrow> student_view result" where
  "showOrder decrypt payeeName jobId studentId now v =
    (case find (\<lambda>j. j_id j = jobId \<and> j_studentId j = studentId) (v_jobs v) of
      None \<Rightarrow> Inl NotFound
    | Some j \<Rightarrow>
      (let live = getJobLiveMetrics (j_id j) v;
           codeVisible = (isCounterCodeAvailable (j_status j) (j_revealedAt j)
             \<and> (j_status j = Ready_for_pickup \<or> lm_band live = Some Revealed));
           checkInOpensAt = (if j_mode j = Scheduled then map_option (\<lambda>t. t - leadMs) (j_scheduledTime j) else None)
       in Inr \<lparr>sw_live = live, sw_printProblem = truthy (j_printError j),
         sw_counterUpi = (if sh_counterUpiVerifiedAt (v_shop v) \<noteq> None \<and> truthy (sh_counterUpiVpa (v_shop v)) \<and> truthy payeeName
           then Some (the (sh_counterUpiVpa (v_shop v)), the payeeName) else None),
         sw_otpCode = (if codeVisible then decrypt (j_shopId j) (j_releaseCodeEncrypted j) else None),
         sw_counterCodeAvailable = codeVisible,
         sw_absent = (j_absentAt j \<noteq> None \<and> j_status j = Awaiting_arrival),
         sw_canCheckIn = (j_paymentStatus j \<in> {Paid, Counter_due, Cash_due} \<and> j_status j \<in> {Awaiting_arrival, No_show, Requeued}
           \<and> (case checkInOpensAt of None \<Rightarrow> True | Some t \<Rightarrow> t \<le> now)),
         sw_checkInOpensAt = checkInOpensAt\<rparr>))"

definition receiptOf :: "id \<Rightarrow> id \<Rightarrow> job list \<Rightarrow> job result" where
  "receiptOf jobId studentId js = (case find (\<lambda>j. j_id j = jobId \<and> j_studentId j = studentId) js of
      None \<Rightarrow> Inl NotFound
    | Some j \<Rightarrow> if j_paymentStatus j \<noteq> Paid then Inl (Conflict ''not paid'') else Inr j)"

subsection \<open>Cancelling\<close>

definition cancel_request :: "job \<Rightarrow> millis \<Rightarrow> transition_request" where
  "cancel_request j now = \<lparr>t_from = j_status j, t_event = CANCEL, t_actor = \<lparr>actorType = A_student, actorId = Some (j_studentId j)\<rparr>,
    t_extra = (if j_paymentStatus j \<in> {Counter_due, Cash_due} then [(C_paymentStatus, VPay Pay_failed)] else []),
    t_audit = None, t_guard = [], t_now = now\<rparr>"

definition cancelJob :: "id \<Rightarrow> id \<Rightarrow> millis \<Rightarrow> job list \<Rightarrow> db \<Rightarrow> job result \<times> db \<times> effect list" where
  "cancelJob jobId studentId now seen d = (case find (\<lambda>j. j_id j = jobId \<and> j_studentId j = studentId) seen of
      None \<Rightarrow> (Inl NotFound, d, [])
    | Some j \<Rightarrow>
      if j_status j \<notin> {Awaiting_arrival, Queued, Notified, Pending_payment} then (Inl (Conflict ''can no longer be cancelled''), d, [])
      else if j_paymentProvider j = Some ''pay_at_shop'' \<and> j_paymentStatus j = Paid then (Inl (Conflict ''payment confirmed''), d, [])
      else (case applyTransition (j_id j) (cancel_request j now) d of
          Inl e \<Rightarrow> (Inl e, d, [])
        | Inr (None, d') \<Rightarrow> (Inl (Conflict ''Job state changed''), d', [])
        | Inr (Some u, d') \<Rightarrow> (Inr u, d', [Refund_check (j_id j), File_deletion (j_fileId j), Background ''queue-update'' (j_shopId j)])))"

subsection \<open>Rating\<close>

definition ratable :: "id \<Rightarrow> id \<Rightarrow> job \<Rightarrow> bool" where
  "ratable jobId studentId j = (j_id j = jobId \<and> j_studentId j = studentId \<and> j_status j = Completed \<and> j_rating j = None)"

text \<open>The conditional update is the lock; None when it changed no row.\<close>

definition rate_row :: "id \<Rightarrow> id \<Rightarrow> int \<Rightarrow> db \<Rightarrow> db option" where
  "rate_row jobId studentId rating d = (if count_where (ratable jobId studentId) (jobs d) = 0 then None
    else Some (d\<lparr>jobs := update_where (ratable jobId studentId) (\<lambda>j. j\<lparr>j_rating := Some rating\<rparr>) (jobs d)\<rparr>))"

definition rateJob :: "id \<Rightarrow> id \<Rightarrow> int \<Rightarrow> job list \<Rightarrow> db \<Rightarrow> unit result \<times> db" where
  "rateJob jobId studentId rating seen d = (case find (\<lambda>j. j_id j = jobId \<and> j_studentId j = studentId) seen of
      None \<Rightarrow> (Inl NotFound, d)
    | Some j \<Rightarrow>
      if j_status j \<noteq> Completed then (Inl (Conflict ''not completed''), d)
      else if j_rating j \<noteq> None then (Inl (Conflict ''already rated''), d)
      else (case rate_row jobId studentId rating d of None \<Rightarrow> (Inl (Conflict ''already rated''), d) | Some d' \<Rightarrow> (Inr (), d')))"

subsection \<open>Refunding a payment made through a provider\<close>

definition set_payment :: "id \<Rightarrow> payment_status \<Rightarrow> payment_status \<Rightarrow> db \<Rightarrow> db option" where
  "set_payment jobId from to d = (if count_where (\<lambda>j. j_id j = jobId \<and> j_paymentStatus j = from) (jobs d) = 0 then None
    else Some (d\<lparr>jobs := update_where (\<lambda>j. j_id j = jobId \<and> j_paymentStatus j = from) (\<lambda>j. j\<lparr>j_paymentStatus := to\<rparr>) (jobs d)\<rparr>))"

definition needs_refund :: "job \<Rightarrow> bool" where
  "needs_refund j = (j_paymentStatus j = Paid \<and> truthy (j_paymentId j) \<and> j_paymentProvider j \<noteq> Some ''pay_at_shop'')"

text \<open>The reservation comes before the call of the provider; None when there is nothing to refund or another worker has it.\<close>

definition refund_reserve :: "job \<Rightarrow> db \<Rightarrow> db option" where
  "refund_reserve j d = (if needs_refund j then set_payment (j_id j) Paid Refunding d else None)"

definition refund_event :: "job \<Rightarrow> payment_event_row" where
  "refund_event j = \<lparr>pe_providerEventId = ''refund_'' @ j_id j,
    pe_provider = (case j_paymentProvider j of None \<Rightarrow> ''unknown'' | Some p \<Rightarrow> p), pe_jobId = Some (j_id j), pe_amountPaise = Some (j_totalPaise j)\<rparr>"

text \<open>After the call; \<open>refunded\<close> says that the provider accepted it. A payment event that exists is only logged.\<close>

definition refund_finish :: "job \<Rightarrow> bool \<Rightarrow> db \<Rightarrow> db" where
  "refund_finish j refunded d = (if \<not> refunded then (case set_payment (j_id j) Refunding Paid d of None \<Rightarrow> d | Some d' \<Rightarrow> d')
    else case set_payment (j_id j) Refunding Refunded d of
      None \<Rightarrow> d
    | Some d' \<Rightarrow> if list_ex (\<lambda>e. pe_providerEventId e = ''refund_'' @ j_id j) (paymentEvents d') then d'
        else d'\<lparr>paymentEvents := paymentEvents d' @ [refund_event j]\<rparr>)"

definition refundIfPaid :: "(string \<Rightarrow> paise \<Rightarrow> bool) \<Rightarrow> job \<Rightarrow> db \<Rightarrow> db" where
  "refundIfPaid refund j d = (case refund_reserve j d of None \<Rightarrow> d
    | Some d' \<Rightarrow> refund_finish j (refund (the (j_paymentId j)) (j_totalPaise j)) d')"

end
