(* ===== verification/Order_Laws.thy ===== *)
theory Order_Laws
  imports Orders Transition_Audit
begin

text \<open>
  What the order routes promise: the row an accepted order leaves and its price, what a refused one leaves,
  one live order per document under competing creations, replay of a repeated request, one rating and one
  refund per order.
\<close>

subsection \<open>The price of a request\<close>

lemma coupon_split: "pb_totalPaise (applyCoupon s c) = pb_pagesTotalPaise s + pb_bindingPaise s - pb_discountPaise (applyCoupon s c)"
  by (simp add: applyCoupon_def Let_def)

lemma price_split:
  assumes "price_of bps req pages s now coupons = Inr (base, marked, final, c)"
  shows "pb_totalPaise final = pb_totalPaise base + (pb_totalPaise marked - pb_totalPaise base) - pb_discountPaise final"
    "c \<noteq> None \<longleftrightarrow> truthy (or_couponCode req)"
proof -
  obtain b where b: "computePrice (or_specs req) pages (shopOptions s) = Inr b"
    using assms by (auto simp: price_of_def split: sum.splits)
  obtain m where m: "applyPlatformMarkup b bps = Inr m"
    using assms b by (auto simp: price_of_def split: sum.splits)
  note sums = markup_facts(6,9) [OF m]
  show "pb_totalPaise final = pb_totalPaise base + (pb_totalPaise marked - pb_totalPaise base) - pb_discountPaise final"
    using assms sums coupon_split [of m]
    by (auto simp: price_of_def b m split: if_splits sum.splits)
  show "c \<noteq> None \<longleftrightarrow> truthy (or_couponCode req)"
    using assms by (auto simp: price_of_def b m split: if_splits sum.splits)
qed

subsection \<open>The row and its code\<close>

lemma new_job_cols [simp]:
  "j_id (new_job k sh u req b m p c t) = k" "j_shopId (new_job k sh u req b m p c t) = sh"
  "j_studentId (new_job k sh u req b m p c t) = u" "j_fileId (new_job k sh u req b m p c t) = or_fileId req"
  "j_totalPaise (new_job k sh u req b m p c t) = pb_totalPaise p" "j_status (new_job k sh u req b m p c t) = Pending_payment"
  "j_couponCode (new_job k sh u req b m p c t) = c" "j_createdAt (new_job k sh u req b m p c t) = t"
  by (simp_all add: new_job_def)

definition code_request :: "(id \<Rightarrow> string \<Rightarrow> string) \<Rightarrow> (id \<Rightarrow> string \<Rightarrow> string) \<Rightarrow> id \<Rightarrow> string \<Rightarrow> millis \<Rightarrow> transition_request" where
  "code_request digestOf encrypt shopId code now = \<lparr>t_from = Pending_payment, t_event = CASH_SELECTED, t_actor = system,
    t_extra = [(C_paymentStatus, VPay Counter_due), (C_paymentProvider, VText ''pay_at_shop''),
      (C_releaseCodeDigest, VText (digestOf shopId code)), (C_releaseCodeEncrypted, VText (encrypt shopId code)),
      (C_releaseCodeGeneratedAt, VTs now)], t_audit = None, t_guard = [], t_now = now\<rparr>"

lemma code_request_simps [simp]:
  "t_from (code_request h e s c now) = Pending_payment" "t_event (code_request h e s c now) = CASH_SELECTED"
  "t_guard (code_request h e s c now) = []" "t_now (code_request h e s c now) = now"
  "well_formed (code_request h e s c now)"
  by (simp_all add: code_request_def well_formed_def)

lemma code_request_row:
  "j_paymentStatus (rewritten (code_request h e s c now) to j) = Counter_due"
  "j_paymentProvider (rewritten (code_request h e s c now) to j) = Some ''pay_at_shop''"
  "j_releaseCodeDigest (rewritten (code_request h e s c now) to j) = Some (h s c)"
  "j_releaseCodeEncrypted (rewritten (code_request h e s c now) to j) = Some (e s c)"
  "j_shopBasePaise (rewritten (code_request h e s c now) to j) = j_shopBasePaise j"
  "j_platformMarkupPaise (rewritten (code_request h e s c now) to j) = j_platformMarkupPaise j"
  "j_platformDiscountPaise (rewritten (code_request h e s c now) to j) = j_platformDiscountPaise j"
  "j_couponCode (rewritten (code_request h e s c now) to j) = j_couponCode j"
  "j_mode (rewritten (code_request h e s c now) to j) = j_mode j"
  "j_specs (rewritten (code_request h e s c now) to j) = j_specs j"
  "j_queuedAt (rewritten (code_request h e s c now) to j) = j_queuedAt j"
  by (simp_all add: rewritten_def stamp_def code_request_def)

lemma allocated:
  assumes "allocatePayAtShopCode h e candidates pre now j seen d = Inr (res, d')"
    "\<And>c g. pre = Some (c, g) \<Longrightarrow> g = h (j_shopId j) c \<and> counterCodeInUse (j_shopId j) g seen = 0"
  obtains c where "counterCodeInUse (j_shopId j) (h (j_shopId j) c) seen = 0"
    "applyTransition (j_id j) (code_request h e (j_shopId j) c now) d = Inr (res, d')"
proof -
  define searched where "searched = find (\<lambda>(code, digest). counterCodeInUse (j_shopId j) digest seen = 0)
           (map (newCounterCode h (j_shopId j)) (take 20 candidates))"
  define chosen where "chosen = (case pre of Some (code, digest) \<Rightarrow> if code \<noteq> [] then Some (code, digest) else searched
                   | None \<Rightarrow> searched)"
  have searched_ok: "g = h (j_shopId j) c \<and> counterCodeInUse (j_shopId j) g seen = 0" if "searched = Some (c, g)" for c g
    using find_SomeD [OF that [unfolded searched_def]] by (auto simp: newCounterCode_def)
  obtain c g where cg: "chosen = Some (c, g)"
    using assms(1) unfolding allocatePayAtShopCode_def Let_def searched_def [symmetric] chosen_def [symmetric]
    by (cases chosen) auto
  have "g = h (j_shopId j) c \<and> counterCodeInUse (j_shopId j) g seen = 0"
    using cg assms(2) searched_ok by (auto simp: chosen_def split: option.splits if_splits)
  moreover have "applyTransition (j_id j) (code_request h e (j_shopId j) c now) d = Inr (res, d')" if "g = h (j_shopId j) c"
    using assms(1) that cg
    unfolding allocatePayAtShopCode_def Let_def searched_def [symmetric] chosen_def [symmetric]
    by (simp add: code_request_def)
  ultimately show thesis using that by blast
qed

text \<open>All conditions under which a row is prepared, and its price.\<close>

lemma prepare_rowD:
  assumes "prepare_row bps newId u req now v files coupons = Inr j"
  obtains f pages base marked final c where
    "loadFileForOrder (or_fileId req) u files = Some f" "fl_pages f = Some pages" "fl_deletionScheduledAt f = None"
    "isShopOperationalFrom v" "unsupportedSpecs (map toProfile (shop_printers v)) (or_specs req) = []"
    "price_of bps req pages (v_shop v) now coupons = Inr (base, marked, final, c)" "100 \<le> pb_totalPaise final"
    "j = new_job newId (fl_shopId f) u req base marked final c now"
    "\<forall>x \<in> set (v_jobs v). j_fileId x = or_fileId req \<longrightarrow> \<not> isPrintedFileJob x
      \<and> (j_studentId x = u \<and> j_shopId x = fl_shopId f \<longrightarrow> j_status x \<notin> set ACTIVE_FILE_JOB_STATUSES)"
proof -
  obtain f where f: "loadFileForOrder (or_fileId req) u files = Some f"
    using assms by (auto simp: prepare_row_def split: option.splits)
  obtain pages where pages: "fl_pages f = Some pages"
    using assms f by (auto simp: prepare_row_def split: option.splits)
  have free: "\<not> list_ex (\<lambda>x. j_studentId x = u \<and> j_shopId x = fl_shopId f \<and> j_status x \<in> set ACTIVE_FILE_JOB_STATUSES)
      (filter (\<lambda>x. j_fileId x = or_fileId req) (v_jobs v))"
    using assms by (simp add: prepare_row_def f pages Let_def split: if_splits)
  have unprinted: "\<not> list_ex isPrintedFileJob (filter (\<lambda>x. j_fileId x = or_fileId req) (v_jobs v))" "fl_deletionScheduledAt f = None"
    using assms free by (auto simp: prepare_row_def f pages Let_def assertFileCanBackNewJobFrom_def split: if_splits)
  note checked = assms [unfolded prepare_row_def f option.case pages Let_def, simplified free unprinted assertFileCanBackNewJobFrom_def if_False]
  have shop: "isShopOperationalFrom v" "unsupportedSpecs (map toProfile (shop_printers v)) (or_specs req) = []"
    using checked by (auto split: if_splits)
  obtain base marked final c where price: "price_of bps req pages (v_shop v) now coupons = Inr (base, marked, final, c)"
    using checked shop by (auto split: if_splits sum.splits)
  have "100 \<le> pb_totalPaise final" "j = new_job newId (fl_shopId f) u req base marked final c now"
    using checked shop price by (auto split: if_splits)
  with f pages unprinted(2) shop price show thesis
    using free unprinted(1) by (intro that) (auto simp: list_ex_iff)
qed

lemma in_use_insert: "counterCodeInUse sh g (js @ [new_job k sh' u req b m p c t]) = counterCodeInUse sh g js"
  by (simp add: counterCodeInUse_def count_where_def new_job_def)

lemma in_use_0: "counterCodeInUse sh g js = 0 \<longleftrightarrow>
    (\<forall>x \<in> set js. j_shopId x = sh \<and> j_releaseCodeDigest x = Some g \<longrightarrow> j_status x \<in> {Completed, Expired, Cancelled})"
  by (auto simp: counterCodeInUse_def count_where_0_iff UNFINISHED_EXCLUDED_def)

lemma find_append_first: "(\<And>x. x \<in> set xs \<Longrightarrow> \<not> P x) \<Longrightarrow> find P (xs @ ys) = find P ys"
  by (induction xs) simp_all

text \<open>The settlement of a row that is last in the table and whose id no other row has.\<close>

lemma commit_last:
  assumes "\<forall>x \<in> set js. j_id x \<noteq> j_id j" "jobs d = js @ [j]"
  shows "jobs (commit (j_id j) r to j d) = js @ [rewritten r to j]"
  using assms update_where_none [of js "\<lambda>x. j_id x = j_id j"] by (simp add: commit_def update_where_def)

lemma settled:
  assumes "settle_row h e code candidates (counterCodeInUse (j_shopId j) (h (j_shopId j) code) js) j now st = (Inr (k, due), st', effs)"
    "jobs (os_db st) = js @ [j]" "unique_ids (os_db st)" "j_status j = Pending_payment" "j_releaseCodeDigest j = None"
  obtains c where "\<not> list_ex (rival_of j) (js @ [j])" "k = j_id j" "due = j_totalPaise j"
    "counterCodeInUse (j_shopId j) (h (j_shopId j) c) js = 0"
    "jobs (os_db st') = js @ [rewritten (code_request h e (j_shopId j) c now) Awaiting_arrival j]"
    "os_db st' = commit (j_id j) (code_request h e (j_shopId j) c now) Awaiting_arrival j (os_db st)"
    "(if truthy (j_couponCode j) then redeemCoupon (the (j_couponCode j)) (os_coupons st) else Inr (os_coupons st)) = Inr (os_coupons st')"
    "effs = notifyPayAtShopPrepared now j"
proof -
  have norival: "\<not> list_ex (rival_of j) (js @ [j])"
    using assms(1,2) by (auto simp: settle_row_def split: if_splits)
  obtain coupons where coupons: "(if truthy (j_couponCode j) then redeemCoupon (the (j_couponCode j)) (os_coupons st)
      else Inr (os_coupons st)) = Inr coupons"
    using assms(1) norival unfolding settle_row_def assms(2) by (auto split: sum.splits simp del: list_ex_append)
  define pre where "pre = (if counterCodeInUse (j_shopId j) (h (j_shopId j) code) js = 0 then Some (newCounterCode h (j_shopId j) code) else None)"
  obtain res d' where a: "allocatePayAtShopCode h e candidates pre now j (js @ [j]) (os_db st) = Inr (res, d')"
    and out: "k = j_id j" "due = j_totalPaise j" "st' = st\<lparr>os_coupons := coupons, os_db := d'\<rparr>"
      "effs = (if res = None then [] else notifyPayAtShopPrepared now j)"
    using assms(1) norival coupons unfolding settle_row_def assms(2) pre_def [symmetric]
    by (auto split: sum.splits simp del: list_ex_append)
  have same: "counterCodeInUse (j_shopId j) g (js @ [j]) = counterCodeInUse (j_shopId j) g js" for g
    using assms(5) by (simp add: counterCodeInUse_def count_where_def)
  obtain c where c: "counterCodeInUse (j_shopId j) (h (j_shopId j) c) (js @ [j]) = 0"
    "applyTransition (j_id j) (code_request h e (j_shopId j) c now) (os_db st) = Inr (res, d')"
    by (rule allocated [OF a]) (auto simp: pre_def newCounterCode_def same split: if_splits)
  have ids: "\<forall>x \<in> set js. j_id x \<noteq> j_id j"
    using assms(2,3) by (auto simp: unique_ids_def image_iff)
  have t: "target (j_id j) (code_request h e (j_shopId j) c now) (os_db st) = Some j"
    using ids assms(2,4) by (simp add: target_def find_append_first)
  have "d' = commit (j_id j) (code_request h e (j_shopId j) c now) Awaiting_arrival j (os_db st)" "res \<noteq> None"
    using c(2) by (auto simp: applyTransition_spec [OF assms(3)] t)
  with commit_last [OF ids assms(2)] out c(1) norival coupons show thesis
    by (intro that) (simp_all add: same del: list_ex_append)
qed

text \<open>When the fresh row meets no rival, has no coupon and its code is unused, it is settled at once.\<close>

lemma settled_ok:
  assumes "unique_ids (insert_row j d)" "j_status j = Pending_payment" "os_db st = insert_row j d"
    "\<not> list_ex (rival_of j) (jobs (insert_row j d))" "\<not> truthy (j_couponCode j)" "code \<noteq> []"
  shows "settle_row h e code candidates 0 j now st = (Inr (j_id j, j_totalPaise j), st\<lparr>os_db := commit (j_id j)
    (code_request h e (j_shopId j) code now) Awaiting_arrival j (insert_row j d)\<rparr>, notifyPayAtShopPrepared now j)"
proof -
  let ?r = "code_request h e (j_shopId j) code now"
  have ids: "\<forall>x \<in> set (jobs d). j_id x \<noteq> j_id j"
    using assms(1) by (auto simp: insert_row_def unique_ids_def image_iff)
  have "target (j_id j) ?r (insert_row j d) = Some j"
    using ids assms(2) by (simp add: target_def insert_row_def find_append_first)
  then have "applyTransition (j_id j) ?r (insert_row j d) = Inr (Some (rewritten ?r Awaiting_arrival j),
      commit (j_id j) ?r Awaiting_arrival j (insert_row j d))"
    by (simp add: applyTransition_spec [OF assms(1)])
  then have "allocatePayAtShopCode h e candidates (Some (newCounterCode h (j_shopId j) code)) now j (jobs (insert_row j d)) (insert_row j d)
      = Inr (Some (rewritten ?r Awaiting_arrival j), commit (j_id j) ?r Awaiting_arrival j (insert_row j d))"
    using assms(6) by (simp add: allocatePayAtShopCode_def newCounterCode_def code_request_def)
  then show ?thesis using assms(3-5) by (simp add: settle_row_def)
qed

lemma unique_ids_insert: "unique_ids d \<Longrightarrow> j_id j \<notin> j_id ` set (jobs d) \<Longrightarrow> unique_ids (insert_row j d)"
  by (simp add: unique_ids_def insert_row_def)

text \<open>What the row of an accepted order says; \<open>js\<close> are the other rows of the table.\<close>

definition prepared_order :: "(id \<Rightarrow> string \<Rightarrow> string) \<Rightarrow> id \<Rightarrow> order_request \<Rightarrow> job list \<Rightarrow> job \<Rightarrow> bool" where
  "prepared_order h u req js j = (j_studentId j = u \<and> j_fileId j = or_fileId req \<and> j_specs j = or_specs req \<and> j_mode j = or_mode req
    \<and> j_status j = Awaiting_arrival \<and> j_paymentStatus j = Counter_due \<and> j_paymentProvider j = Some ''pay_at_shop'' \<and> j_queuedAt j = None
    \<and> 100 \<le> j_totalPaise j \<and> j_totalPaise j = j_shopBasePaise j + j_platformMarkupPaise j - j_platformDiscountPaise j
    \<and> (\<exists>c. j_releaseCodeDigest j = Some (h (j_shopId j) c))
    \<and> (\<forall>x \<in> set js. j_shopId x = j_shopId j \<and> j_releaseCodeDigest x = j_releaseCodeDigest j \<longrightarrow> j_status x \<in> {Completed, Expired, Cancelled}))"

text \<open>
  C21. An accepted order is complete. If preparing an order succeeds, the table holds its old rows and one new
  row of this student and document, waiting for the student's arrival and not in line; its total is at least
  one rupee and is exactly the shop's part plus the platform's part less the discount, all recorded in the row; its counter
  code is stored as a digest that no unfinished order of the shop shares; the shop was open and some printer
  could do the job; in the table no older order on the document was live, and in the snapshot no live order of the student
  and no printed one; the coupon, if any, is redeemed once; one audit row is written and the student is told.
\<close>

theorem order_prepared:
  assumes "createPreparedJob h e code candidates bps newId u req now v files st = (Inr (k, due), st', effs)"
    "unique_ids (os_db st)" "newId \<notin> j_id ` set (jobs (os_db st))"
  shows "\<exists>j. jobs (os_db st') = jobs (os_db st) @ [j] \<and> j_id j = newId \<and> k = newId \<and> due = j_totalPaise j
    \<and> prepared_order h u req (jobs (os_db st)) j
    \<and> isShopOperationalFrom v \<and> unsupportedSpecs (map toProfile (shop_printers v)) (or_specs req) = []
    \<and> (\<forall>x \<in> set (jobs (os_db st)). \<not> rival_of j x)
    \<and> (\<forall>x \<in> set (v_jobs v). j_fileId x = or_fileId req \<longrightarrow> \<not> isPrintedFileJob x
        \<and> (j_studentId x = u \<and> j_shopId x = j_shopId j \<longrightarrow> j_status x \<notin> set ACTIVE_FILE_JOB_STATUSES))
    \<and> (j_couponCode j = None) = (\<not> truthy (or_couponCode req))
    \<and> (if truthy (j_couponCode j) then redeemCoupon (the (j_couponCode j)) (os_coupons st) = Inr (os_coupons st')
        else os_coupons st' = os_coupons st)
    \<and> map (\<lambda>ev. (e_jobId ev, e_fromStatus ev, e_toStatus ev)) (jobEvents (os_db st'))
        = map (\<lambda>ev. (e_jobId ev, e_fromStatus ev, e_toStatus ev)) (jobEvents (os_db st)) @ [(newId, Pending_payment, Awaiting_arrival)]
    \<and> Notify u (K_prepared newId) \<in> set effs"
proof -
  obtain j where row: "prepare_row bps newId u req now v files (os_coupons st) = Inr j"
    using assms(1) by (auto simp: createPreparedJob_def split: sum.splits)
  obtain f pages base marked final c where f: "loadFileForOrder (or_fileId req) u files = Some f" and p: "isShopOperationalFrom v"
      "unsupportedSpecs (map toProfile (shop_printers v)) (or_specs req) = []"
      "price_of bps req pages (v_shop v) now (os_coupons st) = Inr (base, marked, final, c)" "100 \<le> pb_totalPaise final"
      "j = new_job newId (fl_shopId f) u req base marked final c now"
      "\<forall>x \<in> set (v_jobs v). j_fileId x = or_fileId req \<longrightarrow> \<not> isPrintedFileJob x
        \<and> (j_studentId x = u \<and> j_shopId x = fl_shopId f \<longrightarrow> j_status x \<notin> set ACTIVE_FILE_JOB_STATUSES)"
    by (rule prepare_rowD [OF row]) (rule that)
  let ?st = "st\<lparr>os_db := insert_row j (os_db st)\<rparr>"
  have s: "settle_row h e code candidates (counterCodeInUse (j_shopId j) (h (j_shopId j) code) (jobs (os_db st))) j now ?st
      = (Inr (k, due), st', effs)"
    using assms(1) by (simp add: createPreparedJob_def row)
  have ins: "jobs (os_db ?st) = jobs (os_db st) @ [j]" "unique_ids (os_db ?st)" "j_status j = Pending_payment" "j_releaseCodeDigest j = None"
    using assms(2,3) p(5) by (simp_all add: insert_row_def unique_ids_def new_job_def)
  obtain cc where c: "\<not> list_ex (rival_of j) (jobs (os_db st) @ [j])" "k = j_id j" "due = j_totalPaise j"
    "counterCodeInUse (j_shopId j) (h (j_shopId j) cc) (jobs (os_db st)) = 0"
    "jobs (os_db st') = jobs (os_db st) @ [rewritten (code_request h e (j_shopId j) cc now) Awaiting_arrival j]"
    "os_db st' = commit (j_id j) (code_request h e (j_shopId j) cc now) Awaiting_arrival j (os_db ?st)"
    "(if truthy (j_couponCode j) then redeemCoupon (the (j_couponCode j)) (os_coupons ?st) else Inr (os_coupons ?st)) = Inr (os_coupons st')"
    "effs = notifyPayAtShopPrepared now j"
    by (rule settled [OF s ins])
  let ?j = "rewritten (code_request h e (j_shopId j) cc now) Awaiting_arrival j"
  have cols: "j_shopBasePaise j = pb_totalPaise base" "j_platformMarkupPaise j = pb_totalPaise marked - pb_totalPaise base"
    "j_platformDiscountPaise j = pb_discountPaise final" "j_specs j = or_specs req" "j_mode j = or_mode req" "j_queuedAt j = None"
    using p(5) by (simp_all add: new_job_def)
  have "prepared_order h u req (jobs (os_db st)) ?j"
    using p(4,5) cols price_split(1) [OF p(3)] c(4) by (auto simp: prepared_order_def code_request_row in_use_0)
  moreover have "\<forall>x \<in> set (jobs (os_db st)). \<not> rival_of ?j x"
    using c(1) by (auto simp: list_ex_iff rival_of_def rewritten_def stamp_def)
  moreover have "(j_couponCode ?j = None) = (\<not> truthy (or_couponCode req))"
    using p(5) price_split(2) [OF p(3)] by (auto simp: code_request_row)
  moreover have "if truthy (j_couponCode ?j) then redeemCoupon (the (j_couponCode ?j)) (os_coupons st) = Inr (os_coupons st')
        else os_coupons st' = os_coupons st"
    using c(7) by (simp add: code_request_row split: if_splits)
  moreover have "Notify u (K_prepared newId) \<in> set effs"
    using c(8) p(5) by (auto simp: notifyPayAtShopPrepared_def split: job_mode.split option.split)
  ultimately show ?thesis
    using p c(2,3,5,6) ins(1) by (intro exI [of _ ?j]) (simp add: commit_def insert_row_def mk_event_def)
qed

subsection \<open>One live order on a document\<close>

text \<open>
  The steps of any number of concurrent creations and of everything else that happens to orders, on the store
  and the rows inserted but not yet settled. \<open>settle\<close> is what follows the insert of \<open>createPreparedJob\<close>;
  \<open>progress\<close> is any status transition; \<open>touch\<close> any other write, which keeps the key, the document, the
  creation time and the status of every row. \<open>ordered\<close> says that a row becomes visible after all rows older than it.
\<close>

definition older :: "job \<Rightarrow> job \<Rightarrow> bool" where
  "older x y = (j_createdAt x < j_createdAt y \<or> (j_createdAt x = j_createdAt y \<and> j_id x < j_id y))"

definition live :: "job \<Rightarrow> bool" where
  "live x = (j_status x \<in> set ACTIVE_FILE_JOB_STATUSES)"

inductive creation :: "bool \<Rightarrow> db \<times> job list \<Rightarrow> db \<times> job list \<Rightarrow> bool" for ordered where
  insert: "j_status j = Pending_payment \<Longrightarrow> j_id j \<notin> j_id ` set (jobs d) \<Longrightarrow> (ordered \<Longrightarrow> \<forall>x \<in> set (jobs d). older x j) \<Longrightarrow>
    creation ordered (d, pending) (insert_row j d, j # pending)"
| settle: "j \<in> set pending \<Longrightarrow> settle_row h e code candidates n j now st = (res, st', effs) \<Longrightarrow>
    creation ordered (os_db st, pending) (os_db st', filter (\<lambda>p. j_id p \<noteq> j_id j) pending)"
| progress: "well_formed r \<Longrightarrow> applyTransition k r d = Inr (res, d') \<Longrightarrow> creation ordered (d, pending) (d', pending)"
| touch: "list_all2 (\<lambda>x y. j_id y = j_id x \<and> j_fileId y = j_fileId x \<and> j_createdAt y = j_createdAt x \<and> j_status y = j_status x) (jobs d) (jobs d') \<Longrightarrow>
    creation ordered (d, pending) (d', pending)"

lemma rival_older: "rival_of j x \<longleftrightarrow> j_fileId x = j_fileId j \<and> j_id x \<noteq> j_id j \<and> live x \<and> older x j"
  by (simp add: rival_of_def older_def live_def)

lemma older_total: "j_id x \<noteq> j_id y \<Longrightarrow> older x y \<or> older y x"
  by (auto simp: older_def)

lemma older_irrefl: "older x y \<Longrightarrow> j_id x \<noteq> j_id y \<or> j_createdAt x < j_createdAt y"
  by (auto simp: older_def)

lemma live_step: "TRANSITIONS st ev = Some to \<Longrightarrow> to \<in> set ACTIVE_FILE_JOB_STATUSES \<Longrightarrow> st \<in> set ACTIVE_FILE_JOB_STATUSES"
  by (cases st; cases ev) (auto simp: ACTIVE_FILE_JOB_STATUSES_def)

text \<open>Every row of the new table comes from a row of the old one and is live only if that one was.\<close>

definition derived :: "db \<Rightarrow> db \<Rightarrow> bool" where
  "derived d d' = (distinct (map j_id (jobs d')) \<and> (\<forall>y \<in> set (jobs d'). \<exists>x \<in> set (jobs d). j_id y = j_id x \<and> j_fileId y = j_fileId x
    \<and> j_createdAt y = j_createdAt x \<and> (live y \<longrightarrow> live x)))"

lemma derived_refl: "unique_ids d \<Longrightarrow> derived d d"
  by (auto simp: derived_def unique_ids_def)

lemma derived_transition:
  assumes "unique_ids d" "well_formed r" "applyTransition k r d = Inr (res, d')"
  shows "derived d d' \<and> map j_id (jobs d') = map j_id (jobs d)"
proof (cases res)
  case None
  with applyTransition_lost [OF assms(1,2)] assms(3) have "d' = d" by metis
  then show ?thesis using assms(1) by (simp add: derived_refl)
next
  case (Some j')
  with assms(3) have "applyTransition k r d = Inr (Some j', d')" by simp
  then obtain to j where w: "TRANSITIONS (t_from r) (t_event r) = Some to" "target k r d = Some j" "d' = commit k r to j d"
    using applyTransition_won [OF assms(1,2)] by metis
  have j: "j \<in> set (jobs d)" "j_id j = k" "j_status j = t_from r" using target_SomeD [OF w(2)] by simp_all
  have "live (rewritten r to j) \<longrightarrow> live j" using live_step [OF w(1)] j(3) by (simp add: live_def)
  moreover have "j_createdAt (rewritten r to j) = j_createdAt j" by (simp add: rewritten_def stamp_def)
  ultimately have "derived d d'"
    using j assms(1) w(3) commit_ids [OF j(2), of r to d]
    by (auto simp: derived_def unique_ids_def set_update_where commit_def)
  with w(3) commit_ids [OF j(2)] show ?thesis by simp
qed

lemma allocation_transition:
  assumes "allocatePayAtShopCode h e candidates pre now j seen d = Inr (res, d')"
  shows "\<exists>r. well_formed r \<and> t_from r = Pending_payment \<and> t_event r = CASH_SELECTED \<and> applyTransition (j_id j) r d = Inr (res, d')"
proof -
  define chosen where "chosen = (case pre of
      Some (code, digest) \<Rightarrow> if code \<noteq> [] then Some (code, digest)
        else find (\<lambda>(code, digest). counterCodeInUse (j_shopId j) digest seen = 0) (map (newCounterCode h (j_shopId j)) (take 20 candidates))
    | None \<Rightarrow> find (\<lambda>(code, digest). counterCodeInUse (j_shopId j) digest seen = 0) (map (newCounterCode h (j_shopId j)) (take 20 candidates)))"
  obtain c g where "chosen = Some (c, g)"
    using assms unfolding allocatePayAtShopCode_def Let_def chosen_def [symmetric] by (cases chosen) auto
  then have "applyTransition (j_id j) \<lparr>t_from = Pending_payment, t_event = CASH_SELECTED, t_actor = system,
       t_extra = [(C_paymentStatus, VPay Counter_due), (C_paymentProvider, VText ''pay_at_shop''),
         (C_releaseCodeDigest, VText g), (C_releaseCodeEncrypted, VText (e (j_shopId j) c)), (C_releaseCodeGeneratedAt, VTs now)],
       t_audit = None, t_guard = [], t_now = now\<rparr> d = Inr (res, d')"
    using assms unfolding allocatePayAtShopCode_def Let_def chosen_def [symmetric] by simp
  then show ?thesis by (intro exI conjI) (auto simp: well_formed_def)
qed

lemma settle_row_cases:
  assumes "settle_row h e code candidates n j now st = (res, st', effs)" "unique_ids (os_db st)"
  shows "list_ex (rival_of j) (jobs (os_db st)) \<and> os_db st' = delete_row j (os_db st)
    \<or> \<not> list_ex (rival_of j) (jobs (os_db st)) \<and> derived (os_db st) (os_db st') \<and> map j_id (jobs (os_db st')) = map j_id (jobs (os_db st))"
proof (cases "list_ex (rival_of j) (jobs (os_db st))")
  case True
  then show ?thesis using assms(1) by (auto simp: settle_row_def)
next
  case False
  show ?thesis
  proof (cases "os_db st' = os_db st")
    case True
    with False derived_refl [OF assms(2)] show ?thesis by simp
  next
    case moved: False
    obtain p u where "allocatePayAtShopCode h e candidates p now j (jobs (os_db st)) (os_db st) = Inr (u, os_db st')"
      using assms(1) False moved by (auto simp: settle_row_def split: sum.splits)
    with allocation_transition derived_transition [OF assms(2)] False show ?thesis by metis
  qed
qed

definition one_live :: "db \<times> job list \<Rightarrow> bool" where
  "one_live s = (case s of (d, pending) \<Rightarrow> distinct (map j_id (jobs d))
    \<and> (\<forall>p \<in> set pending. \<exists>x \<in> set (jobs d). j_id x = j_id p \<and> j_fileId x = j_fileId p \<and> j_createdAt x = j_createdAt p)
    \<and> (\<forall>x \<in> set (jobs d). \<forall>y \<in> set (jobs d). live x \<and> live y \<and> j_fileId x = j_fileId y \<and> older x y \<longrightarrow> j_id y \<in> j_id ` set pending))"

lemma one_liveD:
  assumes "one_live (d, pending)"
  shows "unique_ids d" "p \<in> set pending \<Longrightarrow> \<exists>x \<in> set (jobs d). j_id x = j_id p \<and> j_fileId x = j_fileId p \<and> j_createdAt x = j_createdAt p"
    "x \<in> set (jobs d) \<Longrightarrow> y \<in> set (jobs d) \<Longrightarrow> live x \<Longrightarrow> live y \<Longrightarrow> j_fileId x = j_fileId y \<Longrightarrow> older x y \<Longrightarrow> \<exists>p \<in> set pending. j_id p = j_id y"
  using assms by (simp_all add: one_live_def unique_ids_def image_iff) metis

lemma one_liveI:
  assumes "unique_ids d" "\<And>p. p \<in> set pending \<Longrightarrow> \<exists>x \<in> set (jobs d). j_id x = j_id p \<and> j_fileId x = j_fileId p \<and> j_createdAt x = j_createdAt p"
    "\<And>x y. x \<in> set (jobs d) \<Longrightarrow> y \<in> set (jobs d) \<Longrightarrow> live x \<Longrightarrow> live y \<Longrightarrow> j_fileId x = j_fileId y \<Longrightarrow> older x y \<Longrightarrow> \<exists>p \<in> set pending. j_id p = j_id y"
  shows "one_live (d, pending)"
  using assms by (simp add: one_live_def unique_ids_def image_iff) metis

lemma one_live_derived:
  assumes "one_live (d, pending)" "derived d d'" "map j_id (jobs d') = map j_id (jobs d)"
  shows "one_live (d', pending)"
proof -
  have "\<exists>y \<in> set (jobs d'). j_id y = j_id p \<and> j_fileId y = j_fileId p \<and> j_createdAt y = j_createdAt p" if p: "p \<in> set pending" for p
  proof -
    obtain x where x: "x \<in> set (jobs d)" "j_id x = j_id p" "j_fileId x = j_fileId p" "j_createdAt x = j_createdAt p"
      using assms(1) p by (auto simp: one_live_def)
    then obtain y where y: "y \<in> set (jobs d')" "j_id y = j_id x"
      using assms(3) by (metis (no_types, lifting) image_iff image_set)
    obtain z where z: "z \<in> set (jobs d)" "j_id y = j_id z" "j_fileId y = j_fileId z" "j_createdAt y = j_createdAt z"
      using assms(2) y(1) by (auto simp: derived_def)
    have "z = x" using distinct_key_eq [of j_id "jobs d" z x] assms(1) x(1) z(1,2) y(2) by (simp add: one_live_def)
    with x y z show ?thesis by auto
  qed
  moreover have "j_id y \<in> j_id ` set pending" if "x \<in> set (jobs d')" "y \<in> set (jobs d')" "live x" "live y"
    "j_fileId x = j_fileId y" "older x y" for x y
  proof -
    note xy = that
    note origin = bspec [OF conjunct2 [OF assms(2) [unfolded derived_def]]]
    obtain x' where x': "x' \<in> set (jobs d)" "live x'" "j_id x = j_id x'" "j_fileId x = j_fileId x'" "j_createdAt x = j_createdAt x'"
      using origin [OF xy(1)] xy(3) by blast
    obtain y' where y': "y' \<in> set (jobs d)" "live y'" "j_id y = j_id y'" "j_fileId y = j_fileId y'" "j_createdAt y = j_createdAt y'"
      using origin [OF xy(2)] xy(4) by blast
    have "older x' y'" "j_fileId x' = j_fileId y'" using xy(5,6) x' y' by (simp_all add: older_def)
    with x'(1,2) y'(1-3) assms(1) show ?thesis by (auto simp: one_live_def)
  qed
  ultimately show ?thesis using assms(2) by (auto simp: one_live_def derived_def)
qed

lemma one_live_settle:
  assumes "one_live (os_db st, pending)" "j \<in> set pending" "settle_row h e code candidates n j now st = (res, st', effs)"
  shows "one_live (os_db st', filter (\<lambda>p. j_id p \<noteq> j_id j) pending)"
proof -
  have u: "unique_ids (os_db st)" using assms(1) by (simp add: one_live_def unique_ids_def)
  obtain x0 where x0: "x0 \<in> set (jobs (os_db st))" "j_id x0 = j_id j" "j_fileId x0 = j_fileId j" "j_createdAt x0 = j_createdAt j"
    using one_liveD(2) [OF assms(1,2)] by blast
  from settle_row_cases [OF assms(3) u] show ?thesis
  proof
    assume a: "list_ex (rival_of j) (jobs (os_db st)) \<and> os_db st' = delete_row j (os_db st)"
    have "distinct (map j_id (filter (\<lambda>x. j_id x \<noteq> j_id j) (jobs (os_db st))))"
      using u by (simp add: unique_ids_def distinct_map_filter)
    then have u': "unique_ids (os_db st')" and set': "set (jobs (os_db st')) = {x \<in> set (jobs (os_db st)). j_id x \<noteq> j_id j}"
      using a by (simp_all add: unique_ids_def delete_row_def)
    show ?thesis
    proof (rule one_liveI [OF u'])
      fix p assume p: "p \<in> set (filter (\<lambda>p. j_id p \<noteq> j_id j) pending)"
      then obtain x where "x \<in> set (jobs (os_db st))" "j_id x = j_id p" "j_fileId x = j_fileId p" "j_createdAt x = j_createdAt p"
        using one_liveD(2) [OF assms(1), of p] by auto
      with p show "\<exists>x \<in> set (jobs (os_db st')). j_id x = j_id p \<and> j_fileId x = j_fileId p \<and> j_createdAt x = j_createdAt p"
        unfolding set' by auto
    next
      fix x y assume xy: "x \<in> set (jobs (os_db st'))" "y \<in> set (jobs (os_db st'))" "live x" "live y" "j_fileId x = j_fileId y" "older x y"
      then obtain p where "p \<in> set pending" "j_id p = j_id y"
        using one_liveD(3) [OF assms(1), of x y] unfolding set' by auto
      with xy(2) show "\<exists>p \<in> set (filter (\<lambda>p. j_id p \<noteq> j_id j) pending). j_id p = j_id y" unfolding set' by auto
    qed
  next
    assume a: "\<not> list_ex (rival_of j) (jobs (os_db st)) \<and> derived (os_db st) (os_db st') \<and> map j_id (jobs (os_db st')) = map j_id (jobs (os_db st))"
    then have keep: "one_live (os_db st', pending)" using one_live_derived [OF assms(1)] by blast
    have "j_id y \<noteq> j_id j" if "x \<in> set (jobs (os_db st'))" "y \<in> set (jobs (os_db st'))" "live x" "j_fileId x = j_fileId y" "older x y" for x y
    proof
      note xy = that
      assume y: "j_id y = j_id j"
      have d: "derived (os_db st) (os_db st')" using a by blast
      obtain x' where x': "x' \<in> set (jobs (os_db st))" "live x'" "j_id x = j_id x'" "j_fileId x = j_fileId x'" "j_createdAt x = j_createdAt x'"
        using d xy(1,3) unfolding derived_def by blast
      obtain y' where y': "y' \<in> set (jobs (os_db st))" "j_id y = j_id y'" "j_fileId y = j_fileId y'" "j_createdAt y = j_createdAt y'"
        using d xy(2) unfolding derived_def by blast
      have "y' = x0" using distinct_key_eq [of j_id "jobs (os_db st)" y' x0] u y y' x0 by (simp add: unique_ids_def)
      then have "rival_of j x'"
        using x0 x' y y' xy(4,5) older_irrefl [OF xy(5)] distinct_key_eq [of j_id "jobs (os_db st)" x' y'] u
        by (auto simp: rival_older older_def unique_ids_def)
      with a x'(1) show False by (auto simp: list_ex_iff)
    qed
    note fresh = this
    show ?thesis
    proof (rule one_liveI [OF one_liveD(1) [OF keep]])
      fix p assume "p \<in> set (filter (\<lambda>p. j_id p \<noteq> j_id j) pending)"
      then show "\<exists>x \<in> set (jobs (os_db st')). j_id x = j_id p \<and> j_fileId x = j_fileId p \<and> j_createdAt x = j_createdAt p"
        using one_liveD(2) [OF keep] by simp
    next
      fix x y assume xy: "x \<in> set (jobs (os_db st'))" "y \<in> set (jobs (os_db st'))" "live x" "live y" "j_fileId x = j_fileId y" "older x y"
      then obtain p where "p \<in> set pending" "j_id p = j_id y" using one_liveD(3) [OF keep] by blast
      with fresh [OF xy(1-3,5,6)] show "\<exists>p \<in> set (filter (\<lambda>p. j_id p \<noteq> j_id j) pending). j_id p = j_id y" by auto
    qed
  qed
qed

lemma one_live_creation: "creation True s s' \<Longrightarrow> one_live s \<Longrightarrow> one_live s'"
proof (induction rule: creation.induct)
  case (insert j d pending)
  have "older x j \<and> \<not> older j x" if "x \<in> set (jobs d)" for x
    using insert(3) that by (auto simp: older_def)
  note young = this
  show ?case
  proof (rule one_liveI)
    show "unique_ids (insert_row j d)" using unique_ids_insert insert(2) one_liveD(1) [OF insert(4)] by blast
    show "\<exists>x \<in> set (jobs (insert_row j d)). j_id x = j_id p \<and> j_fileId x = j_fileId p \<and> j_createdAt x = j_createdAt p"
      if "p \<in> set (j # pending)" for p
      using that one_liveD(2) [OF insert(4), of p] by (auto simp: insert_row_def)
    show "\<exists>p \<in> set (j # pending). j_id p = j_id y"
      if "x \<in> set (jobs (insert_row j d))" "y \<in> set (jobs (insert_row j d))" "live x" "live y" "j_fileId x = j_fileId y" "older x y" for x y
    proof (cases "y = j")
      case False
      with that(2) have y: "y \<in> set (jobs d)" by (simp add: insert_row_def)
      moreover have "x \<in> set (jobs d)" using that(1,6) young [OF y] by (auto simp: insert_row_def)
      ultimately show ?thesis using one_liveD(3) [OF insert(4)] that(3-6) by auto
    qed simp
  qed
next
  case (settle j pending h e code candidates n now st res st' effs)
  then show ?case by (intro one_live_settle)
next
  case (progress r k d res d' pending)
  then have "unique_ids d" by (simp add: one_live_def unique_ids_def)
  with progress derived_transition show ?case by (metis one_live_derived)
next
  case (touch d d' pending)
  have ids: "map j_id (jobs d') = map j_id (jobs d)"
    using touch(1) by (induction rule: list_all2_induct) simp_all
  have "\<exists>x \<in> set (jobs d). j_id y = j_id x \<and> j_fileId y = j_fileId x \<and> j_createdAt y = j_createdAt x \<and> (live y \<longrightarrow> live x)"
    if y: "y \<in> set (jobs d')" for y
  proof -
    obtain i where "i < length (jobs d')" "y = jobs d' ! i" using y by (auto simp: in_set_conv_nth)
    with touch(1) have "jobs d ! i \<in> set (jobs d)" "j_id y = j_id (jobs d ! i)" "j_fileId y = j_fileId (jobs d ! i)"
      "j_createdAt y = j_createdAt (jobs d ! i)" "j_status y = j_status (jobs d ! i)"
      by (auto simp: list_all2_conv_all_nth)
    then show ?thesis by (intro bexI [of _ "jobs d ! i"]) (simp_all add: live_def)
  qed
  with ids one_liveD(1) [OF touch(2)] have "derived d d'" by (simp add: derived_def unique_ids_def)
  then show ?case using ids by (rule one_live_derived [OF touch(2)])
qed

lemma one_live_run: "(creation True)\<^sup>*\<^sup>* s s' \<Longrightarrow> one_live s \<Longrightarrow> one_live s'"
  by (induction rule: rtranclp_induct) (auto intro: one_live_creation)

text \<open>A whole creation is an insert followed by its settlement.\<close>

lemma createPreparedJob_steps:
  assumes "createPreparedJob h e code candidates bps newId u req now v files st = (Inr r, st', effs)"
    "newId \<notin> j_id ` set (jobs (os_db st))" "\<forall>x \<in> set (jobs (os_db st)). j_createdAt x < now"
  shows "(creation ordered)\<^sup>*\<^sup>* (os_db st, []) (os_db st', [])"
proof -
  obtain j where j: "prepare_row bps newId u req now v files (os_coupons st) = Inr j"
    using assms(1) by (auto simp: createPreparedJob_def split: sum.splits)
  have cols: "j_id j = newId" "j_status j = Pending_payment" "j_createdAt j = now"
    using prepare_rowD [OF j] by (metis new_job_cols)+
  let ?st = "st\<lparr>os_db := insert_row j (os_db st)\<rparr>"
  have "settle_row h e code candidates (counterCodeInUse (j_shopId j) (h (j_shopId j) code) (jobs (os_db st))) j now ?st = (Inr r, st', effs)"
    using assms(1) by (simp add: createPreparedJob_def j)
  then have "creation ordered (os_db ?st, [j]) (os_db st', filter (\<lambda>p. j_id p \<noteq> j_id j) [j])"
    by (intro creation.settle) auto
  moreover have "creation ordered (os_db st, []) (insert_row j (os_db st), [j])"
    using cols assms(2,3) by (intro creation.insert) (simp_all add: older_def)
  ultimately show ?thesis by (simp add: converse_rtranclp_into_rtranclp r_into_rtranclp)
qed

text \<open>
  C22. One live order per document. Let any number of requests create orders at the same time, every one of
  them past its first checks (no lock at all), while other orders change status or are rewritten; if rows become
  visible in the order of their creation times, then at every moment two different live orders on one document
  cannot both be settled: whoever is not the oldest has not finished its own check and will withdraw.
\<close>

theorem one_order_per_file:
  assumes "(creation True)\<^sup>*\<^sup>* (d0, []) (d, pending)" "unique_ids d0"
    "\<And>x y. x \<in> set (jobs d0) \<Longrightarrow> y \<in> set (jobs d0) \<Longrightarrow> live x \<Longrightarrow> live y \<Longrightarrow> j_fileId x = j_fileId y \<Longrightarrow> x = y"
    "x \<in> set (jobs d)" "y \<in> set (jobs d)" "live x" "live y" "j_fileId x = j_fileId y"
    "j_id x \<notin> j_id ` set pending" "j_id y \<notin> j_id ` set pending"
  shows "x = y"
proof (rule ccontr)
  have "\<not> older z z" for z by (simp add: older_def)
  then have "one_live (d0, [])" using assms(2,3) by (intro one_liveI) auto
  then have inv: "one_live (d, pending)" by (rule one_live_run [OF assms(1)])
  assume "x \<noteq> y"
  then have "j_id x \<noteq> j_id y"
    using distinct_key_eq [of j_id "jobs d" x y] one_liveD(1) [OF inv] assms(4,5) by (auto simp: unique_ids_def)
  then show False
    using older_total one_liveD(3) [OF inv assms(4,5,6,7,8)] one_liveD(3) [OF inv assms(5,4,7,6) assms(8) [symmetric]] assms(9,10)
    by (force simp: image_iff)
qed

definition first_order :: job where "first_order = sample_job ''a'' Queued"
definition second_order :: job where "second_order = (sample_job ''b'' Pending_payment)\<lparr>j_createdAt := 5\<rparr>"

definition order_db :: db where
  "order_db = \<lparr>jobs = [first_order], jobEvents = [], outbox = [], paymentEvents = []\<rparr>"

lemma order_columns [simp]:
  "j_id first_order = ''a''" "j_id second_order = ''b''" "j_status first_order = Queued" "j_status second_order = Pending_payment"
  "j_createdAt first_order = 0" "j_createdAt second_order = 5" "j_fileId first_order = ''f''" "j_fileId second_order = ''f''"
  "j_couponCode second_order = None" "j_shopId second_order = ''s''" "j_releaseCodeDigest second_order = Some ''d''"
  "live first_order" "live second_order"
  by (simp_all add: first_order_def second_order_def sample_job_def live_def ACTIVE_FILE_JOB_STATUSES_def)

theorem one_order_per_file_witness:
  "(creation True)\<^sup>*\<^sup>* (order_db, []) (order_db, []) \<and> (creation True) (order_db, []) (insert_row second_order order_db, [second_order])
    \<and> creation True (insert_row second_order order_db, [second_order]) (order_db, [])
    \<and> jobs order_db ! 0 = first_order"
proof -
  let ?st = "\<lparr>os_db = insert_row second_order order_db, os_coupons = [], os_redis = (\<lambda>_. None)\<rparr>"
  have i: "creation True (order_db, []) (insert_row second_order order_db, [second_order])"
    by (rule creation.insert) (simp_all add: order_db_def older_def)
  have "settle_row (\<lambda>_ c. c) (\<lambda>_ c. c) ''1'' [] 0 second_order 5 ?st = (Inl (Conflict ''duplicate order''), ?st\<lparr>os_db := order_db\<rparr>, [])"
    by (simp add: settle_row_def rival_older insert_row_def delete_row_def order_db_def older_def)
  from creation.settle [OF _ this, of "[second_order]" True]
  have w: "creation True (insert_row second_order order_db, [second_order]) (order_db, [])" by simp
  have run: "(creation True)\<^sup>*\<^sup>* (order_db, []) (order_db, [])" using i w by (meson r_into_rtranclp rtranclp_trans)
  have "jobs order_db ! 0 = first_order"
  proof (rule one_order_per_file [OF run])
    show "unique_ids order_db" "live (jobs order_db ! 0)" "live first_order" "j_fileId (jobs order_db ! 0) = j_fileId first_order"
      "jobs order_db ! 0 \<in> set (jobs order_db)" "first_order \<in> set (jobs order_db)"
      "j_id (jobs order_db ! 0) \<notin> j_id ` set []" "j_id first_order \<notin> j_id ` set []"
      "\<And>x y. x \<in> set (jobs order_db) \<Longrightarrow> y \<in> set (jobs order_db) \<Longrightarrow> x = y"
      by (simp_all add: order_db_def unique_ids_def)
  qed
  with i w run show ?thesis by blast
qed

text \<open>Without that order the check fails: the order with the older stamp arrives late, finds no older rival, and both stay.\<close>

lemma late_insert_escapes:
  "\<exists>d. (creation False)\<^sup>*\<^sup>* (order_db\<lparr>jobs := [first_order\<lparr>j_createdAt := 6\<rparr>]\<rparr>, []) (d, [])
    \<and> length (filter (\<lambda>x. live x \<and> j_fileId x = ''f'') (jobs d)) = 2"
proof -
  let ?d = "order_db\<lparr>jobs := [first_order\<lparr>j_createdAt := 6\<rparr>]\<rparr>"
  let ?st = "\<lparr>os_db = insert_row second_order ?d, os_coupons = [], os_redis = (\<lambda>_. None)\<rparr>"
  let ?r = "code_request (\<lambda>_ c. c) (\<lambda>_ c. c) ''s'' ''1'' 7"
  let ?d' = "commit ''b'' ?r Awaiting_arrival second_order (insert_row second_order ?d)"
  have live': "live (rewritten ?r Awaiting_arrival second_order)" by (simp add: live_def ACTIVE_FILE_JOB_STATUSES_def)
  have i: "creation False (?d, []) (insert_row second_order ?d, [second_order])"
    by (rule creation.insert) (simp_all add: order_db_def)
  have u: "unique_ids (insert_row second_order ?d)" by (simp add: unique_ids_def insert_row_def)
  have "\<not> list_ex (rival_of second_order) (jobs (insert_row second_order ?d))"
    by (simp add: rival_older insert_row_def older_def)
  then have "settle_row (\<lambda>_ c. c) (\<lambda>_ c. c) ''1'' [] 0 second_order 7 ?st = (Inr (''b'', j_totalPaise second_order),
      ?st\<lparr>os_db := ?d'\<rparr>, notifyPayAtShopPrepared 7 second_order)"
    using settled_ok [OF u, of ?st "''1''" "\<lambda>_ c. c" "\<lambda>_ c. c" "[]" 7] by simp
  from creation.settle [OF _ this, of "[second_order]" False]
  have w: "creation False (insert_row second_order ?d, [second_order]) (?d', [])" by simp
  have "length (filter (\<lambda>x. live x \<and> j_fileId x = ''f'') (jobs ?d')) = 2"
    using live' by (simp add: commit_def insert_row_def live_def ACTIVE_FILE_JOB_STATUSES_def)
  with i w show ?thesis by (meson r_into_rtranclp rtranclp_trans)
qed

subsection \<open>A repeated request\<close>

lemma createPreparedJob_redis:
  "createPreparedJob h e code candidates bps newId u req now v files st = (res, st', effs) \<Longrightarrow>
    os_redis st' = os_redis st \<and> (\<forall>i due. res = Inr (i, due) \<longrightarrow> i = newId)"
proof -
  assume a: "createPreparedJob h e code candidates bps newId u req now v files st = (res, st', effs)"
  show "os_redis st' = os_redis st \<and> (\<forall>i due. res = Inr (i, due) \<longrightarrow> i = newId)"
  proof (cases "prepare_row bps newId u req now v files (os_coupons st)")
    case (Inl err)
    then show ?thesis using a by (auto simp: createPreparedJob_def)
  next
    case (Inr j)
    have "j_id j = newId" using prepare_rowD [OF Inr] by (metis new_job_cols(1))
    with a Inr show ?thesis by (auto simp: createPreparedJob_def settle_row_def split: if_splits sum.splits)
  qed
qed

lemma tryLock_keeps: "tryLock up now name r = (b, r') \<Longrightarrow> r' (idem_key scope key) = r (idem_key scope key)"
  by (auto simp: tryLock_def redis_set_nx_def redis_set_def idem_key_def split: if_splits)

text \<open>What the guarded part leaves under the key: the id of the order, or nothing.\<close>

lemma locked_create_key:
  assumes "locked_create True h e code candidates bps newId u (Some key) req now v files st = (res, st', effs)"
  shows "case res of Inl _ \<Rightarrow> os_redis st' (idem_key u key) = None
    | Inr (replayed, i, due) \<Rightarrow> \<not> replayed \<and> i = newId \<and> os_redis st' (idem_key u key) = Some (newId, now + 600 * 1000)"
proof -
  obtain b r where l: "tryLock True now (lock_name u (or_fileId req)) (os_redis st) = (b, r)" by fastforce
  show ?thesis
  proof (cases b)
    case False
    with assms l show ?thesis by (auto simp: locked_create_def releaseIdempotency_def)
  next
    case True
    obtain res1 st1 effs1 where c: "createPreparedJob h e code candidates bps newId u req now v files (st\<lparr>os_redis := r\<rparr>) = (res1, st1, effs1)"
      by (cases "createPreparedJob h e code candidates bps newId u req now v files (st\<lparr>os_redis := r\<rparr>)")
    note id = createPreparedJob_redis [OF c]
    show ?thesis
      using assms l True c id
      by (cases res1) (auto simp: locked_create_def Let_def completeIdempotency_def releaseIdempotency_def redis_set_def unlock_def
          IDEM_TTL_S_def idem_key_def)
  qed
qed

text \<open>
  C23. A repeated order request is answered, not executed. Let a request with an idempotency key claim it. While it
  runs, every request of the student with this key is refused and changes nothing. If it succeeds, then for ten
  minutes every request with the key, whatever its body, is answered with the id of the order made first and its
  price, and changes nothing. If it fails, the key is free again, so that the student can retry.
\<close>

theorem idempotent_order:
  assumes "parseIdempotencyKey hdr = Some key" "claimIdempotency True now u key (os_redis st) = (Claimed, r)"
    "createJob True h e code candidates bps newId u hdr req now v files st = (res, st', effs)" "newId \<noteq> []" "newId \<noteq> ''pending''"
    "now2 < now + 600 * 1000"
  shows "(os_redis st2 (idem_key u key) = r (idem_key u key) \<longrightarrow>
      createJob True h2 e2 code2 candidates2 bps2 newId2 u hdr req2 now2 v2 files2 st2 = (Inl (Conflict ''duplicate order''), st2, []))
    \<and> (case res of
      Inl err \<Rightarrow> os_redis st' (idem_key u key) = None
    | Inr (replayed, i, due) \<Rightarrow> \<not> replayed \<and> i = newId
      \<and> (os_redis st2 (idem_key u key) = os_redis st' (idem_key u key) \<and> find (\<lambda>j. j_id j = newId \<and> j_studentId j = u) (jobs (os_db st2)) = Some x
        \<longrightarrow> createJob True h2 e2 code2 candidates2 bps2 newId2 u hdr req2 now2 v2 files2 st2 = (Inr (True, j_id x, j_totalPaise x), st2, [])))"
proof (rule conjI)
  have r: "r (idem_key u key) = Some (''pending'', now + 600 * 1000)"
    using assms(2) by (auto simp: claimIdempotency_def redis_set_nx_def redis_set_def IDEM_TTL_S_def split: if_splits option.splits)
  show "os_redis st2 (idem_key u key) = r (idem_key u key) \<longrightarrow>
      createJob True h2 e2 code2 candidates2 bps2 newId2 u hdr req2 now2 v2 files2 st2 = (Inl (Conflict ''duplicate order''), st2, [])"
    using assms(1,6) r by (simp add: createJob_def claimIdempotency_def redis_set_nx_def redis_get_def)
  have "locked_create True h e code candidates bps newId u (Some key) req now v files (st\<lparr>os_redis := r\<rparr>) = (res, st', effs)"
    using assms(1-3) by (simp add: createJob_def)
  note kept = locked_create_key [OF this]
  show "case res of
      Inl err \<Rightarrow> os_redis st' (idem_key u key) = None
    | Inr (replayed, i, due) \<Rightarrow> \<not> replayed \<and> i = newId
      \<and> (os_redis st2 (idem_key u key) = os_redis st' (idem_key u key) \<and> find (\<lambda>j. j_id j = newId \<and> j_studentId j = u) (jobs (os_db st2)) = Some x
        \<longrightarrow> createJob True h2 e2 code2 candidates2 bps2 newId2 u hdr req2 now2 v2 files2 st2 = (Inr (True, j_id x, j_totalPaise x), st2, []))"
  proof (cases res)
    case (Inr q)
    obtain b i' due' where q: "q = (b, i', due')" by (cases q)
    have "redis_get now2 (idem_key u key) (os_redis st2) = Some newId" if "os_redis st2 (idem_key u key) = os_redis st' (idem_key u key)"
      using kept that assms(6) by (simp add: Inr q redis_get_def)
    then have claim: "claimIdempotency True now2 u key (os_redis st2) = (Replay newId, os_redis st2)"
      if "os_redis st2 (idem_key u key) = os_redis st' (idem_key u key)"
      using that assms(4,5) by (simp add: claimIdempotency_def redis_set_nx_def)
    have "createJob True h2 e2 code2 candidates2 bps2 newId2 u hdr req2 now2 v2 files2 st2 = (Inr (True, j_id x, j_totalPaise x), st2, [])"
      if "os_redis st2 (idem_key u key) = os_redis st' (idem_key u key)" "find (\<lambda>j. j_id j = newId \<and> j_studentId j = u) (jobs (os_db st2)) = Some x"
      by (simp add: createJob_def assms(1) claim [OF that(1)] that(2))
    then show ?thesis using kept by (simp add: Inr q)
  qed (use kept in simp)
qed

subsection \<open>One rating, one refund\<close>

lemma rated_not_ratable [simp]: "\<not> ratable k u (j\<lparr>j_rating := Some stars\<rparr>)"
  by (simp add: ratable_def)

text \<open>Both are conditional updates and provide the claim-once interface.\<close>

interpretation rating: claim_once "\<lambda>stars. rate_row k u stars" "\<lambda>d. \<exists>j \<in> set (jobs d). ratable k u j" "\<lambda>_. True" "\<lambda>_. True" for k u
proof
  fix c s s' assume w: "rate_row k u c s = Some s'"
  show "\<exists>j \<in> set (jobs s). ratable k u j" using w by (auto simp: rate_row_def count_where_0_iff split: if_splits)
  show "\<not> (\<exists>j \<in> set (jobs s'). ratable k u j)" using w by (auto simp: rate_row_def set_update_where split: if_splits)
qed simp

definition paid_now :: "id \<Rightarrow> db \<Rightarrow> bool" where
  "paid_now k d = (\<exists>j \<in> set (jobs d). j_id j = k \<and> j_paymentStatus j = Paid)"

interpretation refund: claim_once refund_reserve "paid_now k" "\<lambda>j. j_id j = k" "\<lambda>_. True" for k
proof
  fix c s s' assume k: "j_id c = k" and w: "refund_reserve c s = Some s'"
  show "paid_now k s" using k w by (auto simp: refund_reserve_def set_payment_def count_where_0_iff paid_now_def split: if_splits)
  show "\<not> paid_now k s'" using k w by (auto simp: refund_reserve_def set_payment_def set_update_where paid_now_def split: if_splits)
qed simp

text \<open>A student's rating counts once: of competing ratings of one order at most one is stored.\<close>

lemma rated_once: "length (fst (race (rate_row k u) stars d)) \<le> 1"
  by (rule rating.at_most_one_winner) (simp_all add: list_all_iff)

text \<open>The payment statuses the rows of the order show: one at most, as ids are unique.\<close>

definition shown :: "id \<Rightarrow> db \<Rightarrow> payment_status set" where
  "shown k d = j_paymentStatus ` {j \<in> set (jobs d). j_id j = k}"

text \<open>
  Workers refunding one order: each reserves, calls the provider and finishes, in any interleaving, on whatever
  snapshot of the order it has; \<open>calls\<close> are the workers between reserve and finish, \<open>given\<close> counts the calls the
  provider accepted. Other writes leave the payment status of the order alone.
\<close>

inductive refunding :: "id \<Rightarrow> db \<times> job list \<times> nat \<Rightarrow> db \<times> job list \<times> nat \<Rightarrow> bool" for k where
  reserve: "j_id j = k \<Longrightarrow> refund_reserve j d = Some d' \<Longrightarrow> refunding k (d, calls, given) (d', j # calls, given)"
| accepted: "j \<in> set calls \<Longrightarrow> refunding k (d, calls, given) (refund_finish j True d, remove1 j calls, given + 1)"
| refused: "j \<in> set calls \<Longrightarrow> refunding k (d, calls, given) (refund_finish j False d, remove1 j calls, given)"
| other: "shown k d' = shown k d \<Longrightarrow>
    refunding k (d, calls, given) (d', calls, given)"

lemma set_payment_frame: "jobs (d\<lparr>jobs := js\<rparr>) = js"
  by simp

lemma shown_update:
  "shown k (d\<lparr>jobs := update_where (\<lambda>j. j_id j = k \<and> j_paymentStatus j = old) (\<lambda>j. j\<lparr>j_paymentStatus := to\<rparr>) (jobs d)\<rparr>)
    = (\<lambda>st. if st = old then to else st) ` shown k d"
proof -
  let ?f = "\<lambda>j. if j_id j = k \<and> j_paymentStatus j = old then j\<lparr>j_paymentStatus := to\<rparr> else j"
  have "{j \<in> ?f ` set (jobs d). j_id j = k} = ?f ` {j \<in> set (jobs d). j_id j = k}" by auto
  then have "shown k (d\<lparr>jobs := update_where (\<lambda>j. j_id j = k \<and> j_paymentStatus j = old) (\<lambda>j. j\<lparr>j_paymentStatus := to\<rparr>) (jobs d)\<rparr>)
      = (\<lambda>j. j_paymentStatus (?f j)) ` {j \<in> set (jobs d). j_id j = k}"
    by (simp only: shown_def set_payment_frame set_update_where image_image)
  also have "\<dots> = (\<lambda>j. if j_paymentStatus j = old then to else j_paymentStatus j) ` {j \<in> set (jobs d). j_id j = k}"
    by (rule image_cong) auto
  finally show ?thesis by (simp only: shown_def image_image)
qed

lemma set_payment_shown:
  "set_payment k old to d = None \<longleftrightarrow> old \<notin> shown k d"
  "set_payment k old to d = Some d' \<Longrightarrow> old \<in> shown k d \<and> shown k d' = (\<lambda>st. if st = old then to else st) ` shown k d"
proof -
  have c: "count_where (\<lambda>j. j_id j = k \<and> j_paymentStatus j = old) (jobs d) = 0 \<longleftrightarrow> old \<notin> shown k d"
    by (auto simp: count_where_0_iff shown_def)
  show "set_payment k old to d = None \<longleftrightarrow> old \<notin> shown k d" by (simp add: set_payment_def c)
  assume "set_payment k old to d = Some d'"
  then have "old \<in> shown k d" "d' = d\<lparr>jobs := update_where (\<lambda>j. j_id j = k \<and> j_paymentStatus j = old) (\<lambda>j. j\<lparr>j_paymentStatus := to\<rparr>) (jobs d)\<rparr>"
    by (simp_all add: set_payment_def c split: if_splits)
  then show "old \<in> shown k d \<and> shown k d' = (\<lambda>st. if st = old then to else st) ` shown k d"
    by (simp only: shown_update)
qed

lemma reserve_shown:
  assumes "j_id j = k" "refund_reserve j d = Some d'"
  shows "needs_refund j" "Paid \<in> shown k d" "shown k d' = (\<lambda>st. if st = Paid then Refunding else st) ` shown k d"
  using assms set_payment_shown(2) [of k Paid Refunding d d'] by (auto simp: refund_reserve_def split: if_splits)

lemma finish_shown:
  assumes "j_id j = k" "shown k d = {Refunding}"
  shows "shown k (refund_finish j done d) = {if done then Refunded else Paid}"
proof -
  have keep: "shown k (x\<lparr>paymentEvents := es\<rparr>) = shown k x" for x es by (simp add: shown_def)
  obtain d1 where "set_payment k Refunding Refunded d = Some d1" using assms(2) set_payment_shown(1) [of k Refunding Refunded d] by auto
  moreover obtain d2 where "set_payment k Refunding Paid d = Some d2" using assms(2) set_payment_shown(1) [of k Refunding Paid d] by auto
  moreover have "shown k d1 = {Refunded}" "shown k d2 = {Paid}"
    using calculation set_payment_shown(2) [of k Refunding] assms(2) by auto
  ultimately show ?thesis using assms(1) keep by (simp add: refund_finish_def)
qed

definition refund_state :: "id \<Rightarrow> db \<times> job list \<times> nat \<Rightarrow> bool" where
  "refund_state k s = (case s of (d, calls, given) \<Rightarrow>
      (calls = [] \<and> given = 0 \<and> (\<exists>p. shown k d = {p} \<and> p \<noteq> Refunding \<and> p \<noteq> Refunded))
    \<or> (\<exists>j. calls = [j] \<and> j_id j = k \<and> needs_refund j \<and> given = 0 \<and> shown k d = {Refunding})
    \<or> (calls = [] \<and> given = 1 \<and> shown k d = {Refunded}))"

lemma refund_stateE:
  assumes "refund_state k (d, calls, given)"
  obtains (idle) p where "calls = []" "given = 0" "shown k d = {p}" "p \<noteq> Refunding" "p \<noteq> Refunded"
    | (calling) j where "calls = [j]" "j_id j = k" "needs_refund j" "given = 0" "shown k d = {Refunding}"
    | (settled) "calls = []" "given = 1" "shown k d = {Refunded}"
  using assms unfolding refund_state_def prod.case by (elim disjE exE conjE) (rule that; assumption)+

lemma refund_state_step: "refunding k s s' \<Longrightarrow> refund_state k s \<Longrightarrow> refund_state k s'"
proof (induction rule: refunding.induct)
  case (reserve j d d' calls given)
  note new = reserve_shown [OF reserve(1,2)]
  from reserve(3) show ?case
  proof (cases rule: refund_stateE)
    case (idle p)
    with new have "shown k d' = {Refunding}" by simp
    with idle(1,2) reserve(1) new(1) show ?thesis by (simp add: refund_state_def)
  qed (use new(2) in simp_all)
next
  case (accepted j calls d given)
  from accepted(2,1) show ?case
  proof (cases rule: refund_stateE)
    case (calling i)
    with accepted(1) finish_shown [of i k d True] show ?thesis by (simp add: refund_state_def)
  qed simp_all
next
  case (refused j calls d given)
  from refused(2,1) show ?case
  proof (cases rule: refund_stateE)
    case (calling i)
    with refused(1) finish_shown [of i k d False] show ?thesis by (simp add: refund_state_def)
  qed simp_all
qed (simp add: refund_state_def)

lemma refund_state_run: "(refunding k)\<^sup>*\<^sup>* s s' \<Longrightarrow> refund_state k s \<Longrightarrow> refund_state k s'"
  by (induction rule: rtranclp_induct) (auto intro: refund_state_step)

text \<open>
  Money goes back once. However many workers try to refund an order, from whatever snapshots and in whatever
  interleaving, with calls of the provider that succeed or fail: at any time at most one of them is talking to the provider, the
  provider accepts at most one refund of the order, and after it has, the order is marked refunded. An order paid at the
  counter, or without a provider payment, is never sent to the provider.
\<close>

theorem refunded_once:
  assumes "(refunding k)\<^sup>*\<^sup>* (d0, [], 0) (d, calls, given)" "shown k d0 = {p}" "p \<noteq> Refunding" "p \<noteq> Refunded"
  shows "given \<le> 1 \<and> length calls \<le> 1 \<and> (given = 1 \<longrightarrow> calls = [] \<and> shown k d = {Refunded})
    \<and> (\<forall>j \<in> set calls. shown k d = {Refunding} \<and> truthy (j_paymentId j) \<and> j_paymentProvider j \<noteq> Some ''pay_at_shop'')"
proof -
  have "refund_state k (d0, [], 0)" using assms(2-4) by (simp add: refund_state_def)
  from refund_state_run [OF assms(1) this] show ?thesis by (cases rule: refund_stateE) (simp_all add: needs_refund_def)
qed

definition paid_order :: job where
  "paid_order = (sample_job ''a'' Cancelled)\<lparr>j_paymentStatus := Paid, j_paymentProvider := Some ''razorpay'', j_paymentId := Some ''pay''\<rparr>"

theorem refunded_once_witness:
  "\<exists>d. (refunding ''a'')\<^sup>*\<^sup>* (order_db\<lparr>jobs := [paid_order]\<rparr>, [], 0) (d, [], 1) \<and> shown ''a'' d = {Refunded}"
proof -
  let ?d = "order_db\<lparr>jobs := [paid_order]\<rparr>"
  have cols: "j_id paid_order = ''a''" "j_paymentStatus paid_order = Paid" "needs_refund paid_order"
    by (simp_all add: paid_order_def sample_job_def needs_refund_def)
  then have "{j \<in> set (jobs ?d). j_id j = ''a''} = {paid_order}" by auto
  with cols have p: "shown ''a'' ?d = {Paid}" "j_id paid_order = ''a''" by (simp_all add: shown_def)
  have "needs_refund paid_order" by (rule cols)
  then obtain d' where r: "refund_reserve paid_order ?d = Some d'"
    using set_payment_shown(1) [of "''a''" Paid Refunding ?d] p by (auto simp: refund_reserve_def)
  have "refunding ''a'' (?d, [], 0) (d', [paid_order], 0)" using refunding.reserve [OF p(2) r] .
  moreover have "refunding ''a'' (d', [paid_order], 0) (refund_finish paid_order True d', [], 1)"
    using refunding.accepted [of paid_order "[paid_order]" "''a''" d' 0] by simp
  ultimately have run: "(refunding ''a'')\<^sup>*\<^sup>* (?d, [], 0) (refund_finish paid_order True d', [], 1)" by (meson r_into_rtranclp rtranclp_trans)
  with refunded_once [OF run p(1)] show ?thesis by auto
qed

subsection \<open>An order\<close>

definition ready_file :: file_row where
  "ready_file = \<lparr>fl_id = ''f'', fl_studentId = ''u'', fl_shopId = ''s'', fl_originalName = ''a.pdf'', fl_originalKey = ''k'',
    fl_sources = None, fl_convertedKey = Some ''c'', fl_previewKey = Some ''c'', fl_mimeType = ''application/pdf'', fl_pages = Some 3,
    fl_status = F_ready, fl_error = None, fl_deleteAfter = Some 100, fl_deletionScheduledAt = None, fl_contentDeletedAt = None,
    fl_deletionAttempts = 0, fl_lastDeletionError = None\<rparr>"

definition sample_request :: order_request where
  "sample_request = \<lparr>or_fileId = ''f'', or_specs = sample_specs, or_mode = Instant, or_scheduledTime = None, or_couponCode = None\<rparr>"

definition open_shop :: shop_view where
  "open_shop = \<lparr>v_shop = sample_shop, v_printers = [sample_printer ''p''], v_agents = [sample_agent], v_jobs = []\<rparr>"

definition empty_store :: order_store where
  "empty_store = \<lparr>os_db = \<lparr>jobs = [], jobEvents = [], outbox = [], paymentEvents = []\<rparr>, os_coupons = [], os_redis = (\<lambda>_. None)\<rparr>"

definition sample_order :: job where
  "sample_order = new_job ''j'' ''s'' ''u'' sample_request sample_base sample_price sample_price None 7"

lemma sample_prepared: "prepare_row 2500 ''j'' ''u'' sample_request 7 open_shop [ready_file] coupons = Inr sample_order"
proof -
  have "loadFileForOrder (or_fileId sample_request) ''u'' [ready_file] = Some ready_file"
    by (simp add: loadFileForOrder_def sample_request_def ready_file_def)
  moreover have "isShopOperationalFrom open_shop" "unsupportedSpecs (map toProfile (shop_printers open_shop)) (or_specs sample_request) = []"
    by code_simp+
  moreover have "price_of 2500 sample_request 3 (v_shop open_shop) 7 coupons = Inr (sample_base, sample_price, sample_price, None)"
    using sample_prices by (simp add: price_of_def shopOptions_def open_shop_def sample_shop_def sample_request_def)
  moreover have "pb_totalPaise sample_price \<ge> 100" by code_simp
  ultimately show ?thesis
    by (simp add: prepare_row_def ready_file_def open_shop_def sample_order_def assertFileCanBackNewJobFrom_def)
qed

lemma sample_order_cols [simp]:
  "j_id sample_order = ''j''" "j_shopId sample_order = ''s''" "j_studentId sample_order = ''u''" "j_totalPaise sample_order = 1500"
  "j_status sample_order = Pending_payment" "j_couponCode sample_order = None"
  by (simp_all add: sample_order_def sample_price_def)

definition sample_db' :: db where
  "sample_db' = commit ''j'' (code_request (\<lambda>_ c. c) (\<lambda>_ c. c) ''s'' ''1'' 7) Awaiting_arrival sample_order (insert_row sample_order (os_db empty_store))"

lemma sample_created:
  assumes "os_db st = os_db empty_store"
  shows "createPreparedJob (\<lambda>_ c. c) (\<lambda>_ c. c) ''1'' [] 2500 ''j'' ''u'' sample_request 7 open_shop [ready_file] st
    = (Inr (''j'', 1500), st\<lparr>os_db := sample_db'\<rparr>, notifyPayAtShopPrepared 7 sample_order)"
proof -
  have e: "jobs (os_db empty_store) = []" by (simp add: empty_store_def)
  have "unique_ids (insert_row sample_order (os_db empty_store))" "\<not> list_ex (rival_of sample_order) (jobs (insert_row sample_order (os_db empty_store)))"
    by (simp_all add: unique_ids_def insert_row_def e rival_of_def)
  from settled_ok [OF this(1) _ _ this(2), of "st\<lparr>os_db := insert_row sample_order (os_db empty_store)\<rparr>" "''1''" "\<lambda>_ c. c" "\<lambda>_ c. c" "[]" 7]
  show ?thesis by (simp add: createPreparedJob_def sample_prepared assms e counterCodeInUse_def count_where_def sample_db'_def)
qed

theorem order_prepared_witness:
  "\<exists>j. jobs sample_db' = [j] \<and> j_id j = ''j'' \<and> j_totalPaise j = 1500 \<and> prepared_order (\<lambda>_ c. c) ''u'' sample_request [] j"
proof -
  have "unique_ids (os_db empty_store)" "''j'' \<notin> j_id ` set (jobs (os_db empty_store))"
    by (simp_all add: empty_store_def unique_ids_def)
  from order_prepared [OF sample_created [OF refl] this] show ?thesis by (auto simp: empty_store_def)
qed

theorem idempotent_order_witness:
  "\<exists>st. createJob True (\<lambda>_ c. c) (\<lambda>_ c. c) ''1'' [] 2500 ''j'' ''u'' (H_one ''abcdefgh'') sample_request 7 open_shop [ready_file] empty_store
      = (Inr (False, ''j'', 1500), st, notifyPayAtShopPrepared 7 sample_order)
    \<and> createJob True (\<lambda>_ c. c) (\<lambda>_ c. c) ''2'' [] 2500 ''k'' ''u'' (H_one ''abcdefgh'') sample_request 9 open_shop [ready_file] st
      = (Inr (True, ''j'', 1500), st, [])"
proof -
  have key: "parseIdempotencyKey (H_one ''abcdefgh'') = Some ''abcdefgh''" by code_simp
  define r where "r = os_redis (empty_store\<lparr>os_redis := redis_set 7 600 (idem_key ''u'' ''abcdefgh'') ''pending'' (\<lambda>_. None)\<rparr>)"
  have claim: "claimIdempotency True 7 ''u'' ''abcdefgh'' (os_redis empty_store) = (Claimed, r)"
    by (simp add: claimIdempotency_def redis_set_nx_def redis_get_def empty_store_def IDEM_TTL_S_def r_def)
  have "redis_get 7 (''lock:'' @ lock_name ''u'' ''f'') r = None"
    by (simp add: r_def redis_set_def redis_get_def idem_key_def)
  then obtain r' where lock: "tryLock True 7 (lock_name ''u'' (or_fileId sample_request)) r = (True, r')"
    by (simp add: tryLock_def redis_set_nx_def sample_request_def)
  define st where "st = empty_store\<lparr>os_db := sample_db', os_redis := unlock True (lock_name ''u'' ''f'')
    (completeIdempotency True 7 ''u'' ''abcdefgh'' ''j'' r')\<rparr>"
  have first: "createJob True (\<lambda>_ c. c) (\<lambda>_ c. c) ''1'' [] 2500 ''j'' ''u'' (H_one ''abcdefgh'') sample_request 7 open_shop [ready_file] empty_store
      = (Inr (False, ''j'', 1500), st, notifyPayAtShopPrepared 7 sample_order)"
    using lock sample_created [of "empty_store\<lparr>os_redis := r'\<rparr>"]
    by (simp add: createJob_def key claim locked_create_def st_def Let_def sample_request_def)
  obtain j where "jobs sample_db' = [j]" "j_id j = ''j''" "j_studentId j = ''u''" "j_totalPaise j = 1500"
    by (simp add: sample_db'_def commit_def insert_row_def empty_store_def)
  then have "find (\<lambda>j. j_id j = ''j'' \<and> j_studentId j = ''u'') (jobs (os_db st)) = Some j" "j_id j = ''j''" "j_totalPaise j = 1500"
    by (simp_all add: st_def)
  with idempotent_order [OF key claim first, where ?now2.0 = 9 and ?st2.0 = st and x = j] first show ?thesis by auto
qed

end
