(* ===== verification/Order_System.thy ===== *)
theory Order_System
  imports Order_Laws Release_Laws Print_Laws Commission
begin

text \<open>
  The composition of all handlers that write orders. Each works on rows it read at some earlier time (\<open>seen\<close> is
  everything any handler has ever read) and its writes meet the table as it is now. What holds after every
  sequence of them: the audit trail is complete, and nothing is released, printed or handed over unpaid.
\<close>

subsection \<open>What an order's status promises about its payment\<close>

definition summary :: "job \<Rightarrow> id \<times> job_status \<times> payment_status" where
  "summary j = (j_id j, j_status j, j_paymentStatus j)"

definition before_release :: "job_status set" where
  "before_release = {Pending_payment, Awaiting_arrival, Queued, Notified, No_show, Requeued}"

definition row_ok :: "job set \<Rightarrow> id \<times> job_status \<times> payment_status \<Rightarrow> bool" where
  "row_ok seen t = (case t of (k, st, p) \<Rightarrow>
    (st = Pending_payment \<longrightarrow> p \<noteq> Paid) \<and> (st \<in> {Otp_verified, Printing} \<longrightarrow> p = Paid)
    \<and> (st \<in> {Finishing, Ready_for_pickup, Completed} \<longrightarrow> p = Paid \<or> p = Refunded)
    \<and> (st \<in> before_release \<longrightarrow> (\<forall>x \<in> seen. j_id x = k \<and> j_paymentStatus x = Paid \<longrightarrow> p = Paid)))"

lemma row_ok_paid:
  "row_ok seen (summary y) \<Longrightarrow> j_status y \<in> before_release \<Longrightarrow> x \<in> seen \<Longrightarrow> j_id x = j_id y \<Longrightarrow> j_paymentStatus x = Paid
    \<Longrightarrow> j_paymentStatus y = Paid"
  unfolding row_ok_def summary_def by simp blast

definition orders_ok :: "job set \<Rightarrow> db \<Rightarrow> bool" where
  "orders_ok seen d = (audited d \<and> (\<forall>t \<in> set (map summary (jobs d)). row_ok seen t))"

lemma orders_ok_unique [dest]: "orders_ok seen d \<Longrightarrow> unique_ids d"
  by (simp add: orders_ok_def audited_def)

text \<open>Writes that change neither key, status nor payment of any row.\<close>

lemma audited_touch:
  assumes "audited d" "map (\<lambda>j. (j_id j, j_status j)) (jobs d') = map (\<lambda>j. (j_id j, j_status j)) (jobs d)"
    "jobEvents d' = jobEvents d" "outbox d' = outbox d"
  shows "audited d'"
proof -
  have "map fst (map (\<lambda>j. (j_id j, j_status j)) xs) = map j_id xs" for xs by simp
  then have ids: "map j_id (jobs d') = map j_id (jobs d)" using assms(2) by metis
  have "chain Pending_payment (trail (j_id y) d') (j_status y)" if y: "y \<in> set (jobs d')" for y
  proof -
    have "(j_id y, j_status y) \<in> set (map (\<lambda>j. (j_id j, j_status j)) (jobs d))" using y assms(2) [symmetric] by auto
    moreover have "trail (j_id y) d' = trail (j_id y) d" by (simp add: trail_def assms(3))
    ultimately show ?thesis using assms(1) by (auto simp: audited_def)
  qed
  then show ?thesis using assms ids by (simp add: audited_def unique_ids_def)
qed

lemma orders_ok_touch:
  assumes "orders_ok seen d" "map summary (jobs d') = map summary (jobs d)" "jobEvents d' = jobEvents d" "outbox d' = outbox d"
  shows "orders_ok seen d'"
proof -
  have two: "map (\<lambda>j. (j_id j, j_status j)) xs = map (\<lambda>(k, st, p). (k, st)) (map summary xs)" for xs by (simp add: summary_def)
  have "map (\<lambda>j. (j_id j, j_status j)) (jobs d') = map (\<lambda>j. (j_id j, j_status j)) (jobs d)"
    by (simp only: two assms(2))
  then have "audited d'" using assms(1,3,4) unfolding orders_ok_def by (metis audited_touch)
  with assms(1) show ?thesis unfolding orders_ok_def assms(2) by blast
qed

text \<open>A write that may change the payment, of rows that keep their promise whatever it is.\<close>

lemma orders_ok_payment:
  assumes "orders_ok seen d" "\<And>j. j \<in> set (jobs d) \<Longrightarrow> p j \<Longrightarrow> row_ok seen (summary (f j))" "\<And>j. j_id (f j) = j_id j" "\<And>j. j_status (f j) = j_status j"
  shows "orders_ok seen (d\<lparr>jobs := update_where p f (jobs d)\<rparr>)"
proof -
  have "audited (d\<lparr>jobs := update_where p f (jobs d)\<rparr>)"
  proof (rule audited_touch [of d])
    show "audited d" using assms(1) by (simp add: orders_ok_def)
  qed (simp_all add: update_where_def assms(3,4))
  moreover have "row_ok seen (summary y)" if "y \<in> set (jobs (d\<lparr>jobs := update_where p f (jobs d)\<rparr>))" for y
  proof -
    obtain j where "j \<in> set (jobs d)" "y = (if p j then f j else j)" using \<open>y \<in> _\<close> by (auto simp: set_update_where)
    then show ?thesis using assms(1,2) by (auto simp: orders_ok_def)
  qed
  ultimately show ?thesis by (simp add: orders_ok_def)
qed

lemma summary_update: "(\<And>j. p j \<Longrightarrow> summary (f j) = summary j) \<Longrightarrow> map summary (update_where p f js) = map summary js"
  by (simp add: update_where_def)

text \<open>A status transition, given that the row it writes keeps the promise.\<close>

lemma orders_ok_move:
  assumes "orders_ok seen d" "well_formed r" "applyTransition k r d = Inr (res, d')"
    "\<And>j to. target k r d = Some j \<Longrightarrow> TRANSITIONS (t_from r) (t_event r) = Some to \<Longrightarrow> row_ok seen (summary (rewritten r to j))"
  shows "orders_ok seen d'"
proof (cases res)
  case None
  with applyTransition_lost [OF orders_ok_unique [OF assms(1)] assms(2)] assms(1,3) show ?thesis by metis
next
  case (Some u)
  with assms(3) have "applyTransition k r d = Inr (Some u, d')" by simp
  then obtain to j where w: "TRANSITIONS (t_from r) (t_event r) = Some to" "target k r d = Some j" "d' = commit k r to j d"
    using applyTransition_won [OF orders_ok_unique [OF assms(1)] assms(2)] by metis
  have "audited d'" using audited_applyTransition [OF _ assms(2,3)] assms(1) by (simp add: orders_ok_def)
  moreover have "row_ok seen (summary y)" if "y \<in> set (jobs d')" for y
    using that assms(1) assms(4) [OF w(2,1)] by (auto simp: w(3) commit_def set_update_where orders_ok_def)
  ultimately show ?thesis by (simp add: orders_ok_def)
qed

subsection \<open>Transitions that do not touch the payment, and those that cancel\<close>

lemma write_col_payment: "c \<noteq> C_paymentStatus \<Longrightarrow> j_paymentStatus (write_col c v j) = j_paymentStatus j"
  by (cases c) simp_all

lemma write_cols_payment:
  "C_paymentStatus \<notin> fst ` set extra \<Longrightarrow> j_paymentStatus (write_cols extra j) = j_paymentStatus j"
proof (induction extra arbitrary: j)
  case (Cons cv extra)
  then show ?case by (cases cv) (simp add: write_col_payment [OF not_sym])
qed simp

lemma summary_rewritten: "summary (rewritten r to j) = (j_id j, to, j_paymentStatus (write_cols (t_extra r) j))"
  by (simp add: summary_def rewritten_def stamp_def)

lemma target_ok: "orders_ok seen d \<Longrightarrow> target k r d = Some j \<Longrightarrow> row_ok seen (summary j) \<and> j_status j = t_from r"
  by (auto simp: orders_ok_def dest!: target_SomeD)

lemma row_ok_plain:
  assumes "row_ok seen (k, st, p)" "TRANSITIONS st ev = Some to" "ev \<notin> {COUNTER_RELEASE, OTP_VERIFIED, CASH_SELECTED, PAYMENT_CONFIRMED}"
  shows "row_ok seen (k, to, p)"
  using assms by (cases st; cases ev) (auto simp: row_ok_def before_release_def)

lemma orders_ok_plain:
  assumes "orders_ok seen d" "well_formed r" "applyTransition k r d = Inr (res, d')"
    "t_event r \<notin> {COUNTER_RELEASE, OTP_VERIFIED, CASH_SELECTED, PAYMENT_CONFIRMED}" "C_paymentStatus \<notin> fst ` set (t_extra r)"
  shows "orders_ok seen d'"
proof (rule orders_ok_move [OF assms(1-3)])
  fix j to assume t: "target k r d = Some j" and to: "TRANSITIONS (t_from r) (t_event r) = Some to"
  have "row_ok seen (j_id j, t_from r, j_paymentStatus j)" using target_ok [OF assms(1) t] by (metis summary_def)
  from row_ok_plain [OF this to assms(4)] show "row_ok seen (summary (rewritten r to j))"
    by (simp add: summary_rewritten write_cols_payment [OF assms(5)])
qed

lemma orders_ok_cancel:
  assumes "orders_ok seen d" "well_formed r" "applyTransition k r d = Inr (res, d')"
    "t_event r \<in> {CANCEL, COUNTER_PAYMENT_RETURNED, CASH_RETURNED}"
  shows "orders_ok seen d'"
proof (rule orders_ok_move [OF assms(1-3)])
  fix j to assume "TRANSITIONS (t_from r) (t_event r) = Some to"
  with assms(4) have "to = Cancelled" by (cases "t_from r") auto
  then show "row_ok seen (summary (rewritten r to j))" by (simp add: summary_rewritten row_ok_def before_release_def)
qed

subsection \<open>The reveal pass and the printer dispatch change no summary\<close>

lemma pass_summary: "lockedRevealPass s settings now js = (won, js') \<Longrightarrow> map summary js' = map summary js"
  by (auto simp: lockedRevealPass_def Let_def pick_update_def summary_def split: option.splits prod.splits if_splits)

lemma run_summary: "runRevealPass s settings now js = (won, js', effs) \<Longrightarrow> map summary js' = map summary js"
  by (auto simp: runRevealPass_def Let_def split: prod.splits dest: pass_summary)

lemma reconcile_summary: "reconcileShopQueue s settings ps now js0 js = (q, n, js', effs) \<Longrightarrow> map summary js' = map summary js"
  by (auto simp: reconcileShopQueue_def Let_def split: prod.splits if_splits dest: run_summary)

lemma sync_summary: "syncShopQueue s settings ps now js0 js = (n, js', effs) \<Longrightarrow> map summary js' = map summary js"
  by (auto simp: syncShopQueue_def split: prod.splits dest: reconcile_summary)

lemma emit_summary: "emitQueueUpdate v now js = (js', effs) \<Longrightarrow> map summary js' = map summary js"
  by (auto simp: emitQueueUpdate_def split: prod.splits dest: reconcile_summary)

lemma post_check_in_summary: "post_check_in v now u js = (q, js', effs) \<Longrightarrow> map summary js' = map summary js"
  by (auto simp: post_check_in_def Let_def split: prod.splits if_splits dest: run_summary)

lemma orders_ok_jobs: "orders_ok seen d \<Longrightarrow> map summary js = map summary (jobs d) \<Longrightarrow> orders_ok seen (d\<lparr>jobs := js\<rparr>)"
  by (rule orders_ok_touch) simp_all

lemma orders_ok_update:
  "orders_ok seen d \<Longrightarrow> (\<And>j. p j \<Longrightarrow> summary (f j) = summary j) \<Longrightarrow> orders_ok seen (d\<lparr>jobs := update_where p f (jobs d)\<rparr>)"
  by (intro orders_ok_jobs summary_update)

lemma orders_ok_dispatch: "orders_ok seen d \<Longrightarrow> dispatchJob now j pre agents d = (d', effs) \<Longrightarrow> orders_ok seen d'"
  by (auto simp: dispatchJob_def Let_def summary_def split: if_splits intro: orders_ok_update)

lemma orders_ok_disarm: "orders_ok seen d \<Longrightarrow> disarmAbsentTimer now j s d = (d', effs) \<Longrightarrow> orders_ok seen d'"
  by (auto simp: disarmAbsentTimer_def Let_def summary_def split: if_splits intro: orders_ok_update)

lemmas orders_ok_writes = orders_ok_jobs orders_ok_update orders_ok_dispatch orders_ok_disarm

subsection \<open>The transitions of the handlers\<close>

named_theorems order_moves

lemma arrived_move [order_moves]:
  "applyTransition k (arrived_request j u p now) d = Inr (res, d') \<Longrightarrow> orders_ok seen d \<Longrightarrow> orders_ok seen d'"
  by (rule orders_ok_plain [where r = "arrived_request j u p now"]) (simp_all, simp_all add: arrived_request_def)

lemma absent_move [order_moves]:
  "applyTransition k (absent_request j act reason [] now) d = Inr (res, d') \<Longrightarrow> orders_ok seen d \<Longrightarrow> orders_ok seen d'"
  "applyTransition k (absent_request j act reason (expire_guard t) now) d = Inr (res, d') \<Longrightarrow> orders_ok seen d \<Longrightarrow> orders_ok seen d'"
  by (rule orders_ok_plain [where r = "absent_request j act reason [] now"] orders_ok_plain [where r = "absent_request j act reason (expire_guard t) now"],
      simp_all, simp_all add: absent_request_def)+

lemma started_move [order_moves]:
  "applyTransition k (started_request au now) d = Inr (res, d') \<Longrightarrow> orders_ok seen d \<Longrightarrow> orders_ok seen d'"
  by (rule orders_ok_plain [where r = "started_request au now"]) (simp_all, simp_all add: started_request_def)

lemma failed_move [order_moves]:
  "applyTransition k (failed_request j act reason now) d = Inr (res, d') \<Longrightarrow> orders_ok seen d \<Longrightarrow> orders_ok seen d'"
  "applyTransition k (agent_failed_request au reason now) d = Inr (res, d') \<Longrightarrow> orders_ok seen d \<Longrightarrow> orders_ok seen d'"
  by (rule orders_ok_plain [where r = "failed_request j act reason now"] orders_ok_plain [where r = "agent_failed_request au reason now"],
      simp_all add: failed_request_def agent_failed_request_def well_formed_def split: option.split)+

lemma confirm_move [order_moves]:
  "applyTransition k (confirm_request j act method now) d = Inr (res, d') \<Longrightarrow> orders_ok seen d \<Longrightarrow> orders_ok seen d'"
  by (rule orders_ok_plain [where r = "confirm_request j act method now"])
     (simp_all add: confirm_request_def well_formed_def split: option.split)

lemma plain_move [order_moves]:
  "applyTransition k (plain_request Finishing FINISHING_COMPLETED act [] now) d = Inr (res, d') \<Longrightarrow> orders_ok seen d \<Longrightarrow> orders_ok seen d'"
  "applyTransition k (plain_request Ready_for_pickup HANDED_OVER act [] now) d = Inr (res, d') \<Longrightarrow> orders_ok seen d \<Longrightarrow> orders_ok seen d'"
  by (rule orders_ok_plain [where r = "plain_request Finishing FINISHING_COMPLETED act [] now"]
        orders_ok_plain [where r = "plain_request Ready_for_pickup HANDED_OVER act [] now"],
      simp_all add: plain_request_def well_formed_def)+

lemma cancel_move [order_moves]:
  "applyTransition k (cancel_request j now) d = Inr (res, d') \<Longrightarrow> orders_ok seen d \<Longrightarrow> orders_ok seen d'"
  "applyTransition k (plain_request Otp_verified COUNTER_PAYMENT_RETURNED act
      [(C_paymentStatus, VPay Refunded), (C_claimedByAgentId, VNull), (C_claimedBySessionId, VNull), (C_printError, VNull)] now) d = Inr (res, d')
    \<Longrightarrow> orders_ok seen d \<Longrightarrow> orders_ok seen d'"
  "applyTransition k \<lparr>t_from = Awaiting_arrival, t_event = CANCEL, t_actor = system,
        t_extra = (if c then [(C_paymentStatus, VPay Pay_failed)] else []), t_audit = None, t_guard = [], t_now = now\<rparr> d = Inr (res, d')
    \<Longrightarrow> orders_ok seen d \<Longrightarrow> orders_ok seen d'"
  by (erule orders_ok_cancel [rotated 2]; simp add: cancel_request_def plain_request_def well_formed_def)+

lemma skipped_move [order_moves]:
  "applyTransition k \<lparr>t_from = No_show, t_event = QUEUE_SKIPPED, t_actor = system,
      t_extra = [(C_queuedAt, VNull), (C_queueLeftAt, VTs now)], t_audit = None, t_guard = [], t_now = now\<rparr> d = Inr (res, d')
    \<Longrightarrow> orders_ok seen d \<Longrightarrow> orders_ok seen d'"
  by (erule orders_ok_plain [rotated 2]) (simp_all add: well_formed_def)

subsection \<open>Every handler keeps the promise\<close>

lemma checkInJob_ok: "checkInJob k u arrival now v d = (res, d', effs) \<Longrightarrow> orders_ok seen d \<Longrightarrow> orders_ok seen d'"
  by (auto simp: checkInJob_def split: option.splits if_splits sum.splits prod.splits
      dest: order_moves post_check_in_summary intro: orders_ok_jobs)

lemma markAbsent_ok:
  "markAbsent j act reason [] now v d = (res, d', effs) \<Longrightarrow> orders_ok seen d \<Longrightarrow> orders_ok seen d'"
  "markAbsent j act reason (expire_guard t) now v d = (res, d', effs) \<Longrightarrow> orders_ok seen d \<Longrightarrow> orders_ok seen d'"
  by (auto simp: markAbsent_def split: option.splits sum.splits prod.splits dest: order_moves emit_summary intro: orders_ok_jobs)

lemma removeFromLiveQueue_ok: "removeFromLiveQueue k s u now v d = (res, d', effs) \<Longrightarrow> orders_ok seen d \<Longrightarrow> orders_ok seen d'"
  by (auto simp: removeFromLiveQueue_def split: option.splits if_splits sum.splits prod.splits dest: markAbsent_ok)

lemma expireReveal_ok: "expireReveal k now v d = (res, d', effs) \<Longrightarrow> orders_ok seen d \<Longrightarrow> orders_ok seen d'"
  by (auto simp: expireReveal_def split: option.splits if_splits sum.splits prod.splits dest: markAbsent_ok)

lemma expire_loop_ok: "expire_loop shops ps ags now ks d = (n, d', effs) \<Longrightarrow> orders_ok seen d \<Longrightarrow> orders_ok seen d'"
proof (induction ks arbitrary: n d d' effs)
  case (Cons k ks)
  from Cons(2,3) show ?case
    by (auto split: option.splits prod.splits dest: expireReveal_ok Cons(1))
qed simp

lemma sync_loop_ok: "sync_loop shops ps ags now ss d = (d', effs) \<Longrightarrow> orders_ok seen d \<Longrightarrow> orders_ok seen d'"
proof (induction ss arbitrary: d d' effs)
  case (Cons s ss)
  show ?case
  proof (cases "view_of shops ps ags d s")
    case None
    with Cons show ?thesis by simp
  next
    case (Some v)
    obtain js e where "sync_loop shops ps ags now ss (d\<lparr>jobs := js\<rparr>) = (d', e)" "map summary js = map summary (jobs d)"
      using Cons(2) Some
      by (auto simp: Let_def split: prod.splits if_splits dest!: sync_summary emit_summary)
    then show ?thesis using Cons(1,3) orders_ok_jobs by blast
  qed
qed simp

lemma sweep_ok: "sweepExpiredReveals shops ps ags now d = (n, d', effs) \<Longrightarrow> orders_ok seen d \<Longrightarrow> orders_ok seen d'"
  by (auto simp: sweepExpiredReveals_def Let_def split: prod.splits dest: expire_loop_ok sync_loop_ok)

lemma legacy_ok:
  "handleNoShowCheck k now v d = (res, d', effs) \<Longrightarrow> orders_ok seen d \<Longrightarrow> orders_ok seen d'"
  "handleGraceExpiry k now v d = (res, d', effs) \<Longrightarrow> orders_ok seen d \<Longrightarrow> orders_ok seen d'"
  by (auto simp: handleNoShowCheck_def handleGraceExpiry_def split: option.splits if_splits sum.splits prod.splits
      dest: removeFromLiveQueue_ok order_moves emit_summary intro: orders_ok_jobs)

lemma orders_ok_commit:
  assumes "orders_ok seen d" "well_formed r" "TRANSITIONS (t_from r) (t_event r) = Some to" "target k r d = Some j"
    "row_ok seen (summary (rewritten r to j))"
  shows "orders_ok seen (commit k r to j d)"
proof (rule orders_ok_move [OF assms(1,2)])
  show "applyTransition k r d = Inr (Some (rewritten r to j), commit k r to j d)"
    using applyTransition_spec [OF orders_ok_unique [OF assms(1)] assms(2)] assms(3,4) by simp
qed (use assms(3-5) in simp)

lemma releaseByOtp_ok:
  assumes "releaseByOtp digestOf verifyHash otp staffId manual override payment now v d = (res, d', effs)"
    "orders_ok seen d" "set (v_jobs v) \<subseteq> seen"
  shows "orders_ok seen d'"
proof (cases "case res of Inr r \<Rightarrow> rr_ok r | _ \<Rightarrow> False")
  case False
  from release_incomplete [OF orders_ok_unique [OF assms(2)] assms(1) False] assms(2) show ?thesis
    by (metis orders_ok_disarm prod.collapse)
next
  case True
  then obtain r where r: "res = Inr r" "rr_ok r" by (auto split: sum.splits)
  obtain j p j0 w where w: "lookup_release digestOf verifyHash (sh_id (v_shop v)) otp (v_jobs v) = Some j"
      "j_status j \<notin> {Otp_verified, Printing, Finishing, Ready_for_pickup}" "payment_due j \<longrightarrow> payment \<noteq> None"
      "target (j_id j) (release_request j p staffId payment w now) d = Some j0"
      "d' = fst (dispatchJob now (rewritten (release_request j p staffId payment w now) Otp_verified j0) (Some (online_agents v))
        (v_agents v) (commit (j_id j) (release_request j p staffId payment w now) Otp_verified j0 d))"
      "TRANSITIONS (j_status j) (t_event (release_request j p staffId payment w now)) = Some Otp_verified"
    by (rule release_won [OF orders_ok_unique [OF assms(2)] assms(1) [unfolded r(1)] r(2)]) (rule that)
  let ?r = "release_request j p staffId payment w now"
  note found = lookup_release_in [OF w(1)]
  have st: "j_status j \<in> {Awaiting_arrival, Queued, Notified, No_show, Requeued}"
    using found(4) w(2) by (auto simp: COUNTER_CODE_LOOKUP_STATUSES_def)
  have j0: "row_ok seen (summary j0)" "j_status j0 = j_status j" "j_id j0 = j_id j"
    using target_ok [OF assms(2) w(4)] target_SomeD [OF w(4)] by simp_all
  have "j_paymentStatus (rewritten ?r Otp_verified j0) = Paid"
  proof (cases "payment_due j")
    case True
    then obtain m ref where "payment = Some (m, ref)" using w(3) by auto
    with release_row(3) [OF True this] show ?thesis by blast
  next
    case False
    then have "j_paymentStatus j = Paid" using payment_ready_due [OF found(3)] by blast
    moreover have "j \<in> seen" using found(1) assms(3) by blast
    moreover have "j_status j0 \<in> before_release" using j0(2) st by (auto simp: before_release_def)
    ultimately have "j_paymentStatus j0 = Paid" using row_ok_paid [OF j0(1)] j0(3) by metis
    with release_row(4) [OF False] show ?thesis by simp
  qed
  then have "row_ok seen (summary (rewritten ?r Otp_verified j0))"
    by (simp add: summary_def row_ok_def before_release_def)
  moreover have "TRANSITIONS (t_from ?r) (t_event ?r) = Some Otp_verified"
    using w(6) by simp
  ultimately have "orders_ok seen (commit (j_id j) ?r Otp_verified j0 d)"
    using orders_ok_commit [OF assms(2) release_request_wf _ w(4)] by blast
  then show ?thesis unfolding w(5) by (metis orders_ok_dispatch prod.collapse)
qed

lemma expire_orders_ok: "expire_orders now js d = (d', effs) \<Longrightarrow> orders_ok seen d \<Longrightarrow> orders_ok seen d'"
proof (induction js arbitrary: d d' effs)
  case (Cons j js)
  from Cons(2,3) show ?case
    by (auto split: sum.splits option.splits prod.splits dest: cancel_move(3) Cons(1))
qed simp

lemma expireStale_ok: "expireStalePreparedOrders now d = (d', effs) \<Longrightarrow> orders_ok seen d \<Longrightarrow> orders_ok seen d'"
  by (auto simp: expireStalePreparedOrders_def split: prod.splits dest: expire_orders_ok)

lemma fail_gone_ok: "markPrintFailedAgentGone j act reason now d = (res, d', effs) \<Longrightarrow> orders_ok seen d \<Longrightarrow> orders_ok seen d'"
  by (auto simp: markPrintFailedAgentGone_def split: sum.splits option.splits prod.splits dest: order_moves)

lemma fail_each_ok: "fail_each reason now js d = (n, d', effs) \<Longrightarrow> orders_ok seen d \<Longrightarrow> orders_ok seen d'"
proof (induction js arbitrary: n d d' effs)
  case (Cons j js)
  from Cons(2,3) show ?case by (auto split: option.splits prod.splits dest: fail_gone_ok Cons(1))
qed simp

lemma agent_ok:
  "reconcileAgentSession a s ids now d = (n, d', effs) \<Longrightarrow> orders_ok seen d \<Longrightarrow> orders_ok seen d'"
  "failOrphanedPrints agents now d = (n, d', effs) \<Longrightarrow> orders_ok seen d \<Longrightarrow> orders_ok seen d'"
  by (auto simp: reconcileAgentSession_def failOrphanedPrints_def dest: fail_each_ok)

lemma agent_routes_ok:
  "heartbeat au ids now agents d = (as, d', effs) \<Longrightarrow> orders_ok seen d \<Longrightarrow> orders_ok seen d'"
  "report_printers au names ps now agents d = (as, d', effs) \<Longrightarrow> orders_ok seen d \<Longrightarrow> orders_ok seen d'"
  by (auto simp: heartbeat_def report_printers_def Let_def split: option.splits if_splits prod.splits dest: agent_ok)

lemma claimJob_ok: "claimJob au k now d = (res, d', effs) \<Longrightarrow> orders_ok seen d \<Longrightarrow> orders_ok seen d'"
proof -
  assume c: "claimJob au k now d = (res, d', effs)" and ok: "orders_ok seen d"
  have "orders_ok seen (snd (claim_lock au k now d))"
    unfolding claim_lock_def snd_conv by (rule orders_ok_update [OF ok]) (simp add: summary_def)
  with c ok show ?thesis
    by (auto simp: claimJob_def claim_start_def split: prod.splits if_splits sum.splits option.splits dest: order_moves)
qed

lemma spool_ok: "orders_ok seen d \<Longrightarrow> orders_ok seen (recordSpoolAccepted k now d)"
  unfolding recordSpoolAccepted_def by (rule orders_ok_update) (simp_all add: summary_def)

lemma confirm_ok: "confirmSuccessfulPrint j act method now d = (res, d', effs) \<Longrightarrow> orders_ok seen d \<Longrightarrow> orders_ok seen d'"
  by (auto simp: confirmSuccessfulPrint_def Let_def split: sum.splits option.splits prod.splits dest: order_moves)

lemma completePrint_ok: "completePrint sim au k out now js d = (res, d', effs) \<Longrightarrow> orders_ok seen d \<Longrightarrow> orders_ok seen d'"
  by (auto simp: completePrint_def split: option.splits if_splits sum.splits prod.splits dest: confirm_ok intro: spool_ok)

lemma failPrint_ok: "failPrint au k raw now js d = (res, d', effs) \<Longrightarrow> orders_ok seen d \<Longrightarrow> orders_ok seen d'"
  by (auto simp: failPrint_def Let_def split: option.splits if_splits sum.splits prod.splits dest: order_moves)

lemma assignPrinter_ok: "assignPrinter k p now v d = (res, d', effs) \<Longrightarrow> orders_ok seen d \<Longrightarrow> orders_ok seen d'"
proof -
  assume a: "assignPrinter k p now v d = (res, d', effs)" and ok: "orders_ok seen d"
  show ?thesis
  proof (cases "d' = d")
    case False
    obtain js where "d' = d\<lparr>jobs := js\<rparr>" "map summary js = map summary (jobs d)"
      using a False summary_update
      by (auto simp: assignPrinter_def Let_def summary_def split: option.splits if_splits prod.splits dest!: emit_summary)
    with ok show ?thesis by (simp add: orders_ok_jobs)
  qed (use ok in simp)
qed

lemma releaseOrphaned_ok: "releaseOrphanedPrint j s agents now d = (res, d', effs) \<Longrightarrow> orders_ok seen d \<Longrightarrow> orders_ok seen d'"
  by (auto simp: releaseOrphanedPrint_def split: if_splits sum.splits option.splits prod.splits dest: fail_gone_ok)

lemma retry_write_ok: "orders_ok seen d \<Longrightarrow> orders_ok seen (retry_write k p now d)"
  unfolding retry_write_def by (rule orders_ok_update) (simp_all add: summary_def)

lemma retryPrint_ok: "retryPrint k s req now v d = (res, d', effs) \<Longrightarrow> orders_ok seen d \<Longrightarrow> orders_ok seen d'"
  by (auto simp: retryPrint_def Let_def split: option.splits if_splits sum.splits prod.splits
      dest!: releaseOrphaned_ok intro: retry_write_ok orders_ok_dispatch)

lemma record_returned_ok: "orders_ok seen d \<Longrightarrow> orders_ok seen (record_returned j d)"
  by (rule orders_ok_touch [of seen d]) (simp_all add: record_returned_def Let_def)

lemma desk_ok:
  "confirmPrintCompletion k s u now js d = (res1, d', effs) \<Longrightarrow> orders_ok seen d \<Longrightarrow> orders_ok seen d'"
  "finishingComplete k s u now js d = (res2, d', effs) \<Longrightarrow> orders_ok seen d \<Longrightarrow> orders_ok seen d'"
  "handover k u now v d = (res2, d', effs) \<Longrightarrow> orders_ok seen d \<Longrightarrow> orders_ok seen d'"
  by (auto simp: confirmPrintCompletion_def finishingComplete_def handover_def
      split: option.splits if_splits sum.splits prod.splits dest: confirm_ok order_moves emit_summary intro: orders_ok_jobs)

lemma returned_ok: "counterPaymentReturned k s now v d = (res, d', effs) \<Longrightarrow> orders_ok seen d \<Longrightarrow> orders_ok seen d'"
  by (auto simp: counterPaymentReturned_def Let_def split: option.splits if_splits sum.splits prod.splits
      dest!: releaseOrphaned_ok dest: order_moves emit_summary intro: orders_ok_jobs record_returned_ok)

lemma cancelJob_ok: "cancelJob k u now js d = (res, d', effs) \<Longrightarrow> orders_ok seen d \<Longrightarrow> orders_ok seen d'"
  by (auto simp: cancelJob_def split: option.splits if_splits sum.splits prod.splits dest: order_moves)

lemma rateJob_ok: "rateJob k u stars js d = (res, d') \<Longrightarrow> orders_ok seen d \<Longrightarrow> orders_ok seen d'"
  by (auto simp: rateJob_def rate_row_def summary_def split: option.splits if_splits intro!: orders_ok_update)

text \<open>A refund through the provider: its callers have a cancelled or expired order.\<close>

definition closed :: "id \<Rightarrow> db \<Rightarrow> bool" where
  "closed k d = (\<forall>j \<in> set (jobs d). j_id j = k \<longrightarrow> j_status j \<in> {Cancelled, Expired})"

lemma set_payment_ok:
  assumes "set_payment k old to d = Some d'" "orders_ok seen d" "closed k d"
  shows "orders_ok seen d' \<and> closed k d'"
proof -
  have d': "d' = d\<lparr>jobs := update_where (\<lambda>j. j_id j = k \<and> j_paymentStatus j = old) (\<lambda>j. j\<lparr>j_paymentStatus := to\<rparr>) (jobs d)\<rparr>"
    using assms(1) by (simp add: set_payment_def split: if_splits)
  have "row_ok seen (summary (j\<lparr>j_paymentStatus := to\<rparr>))" if "j \<in> set (jobs d)" "j_id j = k \<and> j_paymentStatus j = old" for j
  proof -
    have "j_status j \<in> {Cancelled, Expired}" using assms(3) that by (simp add: closed_def)
    then show ?thesis by (auto simp: row_ok_def summary_def before_release_def)
  qed
  then have "orders_ok seen d'" unfolding d' by (intro orders_ok_payment [OF assms(2)]) simp_all
  moreover have "closed k d'" using assms(3) unfolding d' closed_def by (simp add: update_where_def ball_Un)
  ultimately show ?thesis by blast
qed

lemma refund_finish_ok: "orders_ok seen d \<Longrightarrow> closed (j_id j) d \<Longrightarrow> orders_ok seen (refund_finish j done d)"
proof -
  assume a: "orders_ok seen d" "closed (j_id j) d"
  have log: "orders_ok seen (x\<lparr>paymentEvents := es\<rparr>)" if "orders_ok seen x" for x es
    by (rule orders_ok_touch [OF that]) simp_all
  show ?thesis
    using a log by (auto simp: refund_finish_def split: option.splits dest: set_payment_ok)
qed

lemma refundIfPaid_ok: "orders_ok seen d \<Longrightarrow> closed (j_id j) d \<Longrightarrow> orders_ok seen (refundIfPaid refund j d)"
  by (auto simp: refundIfPaid_def refund_reserve_def split: option.splits if_splits dest: set_payment_ok intro: refund_finish_ok)

lemma confirmCounterRefund_ok:
  assumes "confirmCounterRefund k b n now d fd = (res, d', fd')" "orders_ok seen d"
  shows "orders_ok seen d'"
proof (cases "d' = d")
  case False
  obtain j es where j: "find (\<lambda>j. j_id j = k) (jobs d) = Some j" "j_status j \<in> {Finishing, Ready_for_pickup, Completed}"
    "d' = d\<lparr>jobs := update_where (\<lambda>x. j_id x = k) (refund_row now) (jobs d), paymentEvents := es\<rparr>"
    using assms(1) False by (auto simp: confirmCounterRefund_def split: if_splits option.splits)
  have "row_ok seen (summary (refund_row now x))" if "x \<in> set (jobs d)" "j_id x = k" for x
  proof -
    have "x = j" using that find_SomeD [OF j(1)] distinct_key_eq [of j_id "jobs d" x j] orders_ok_unique [OF assms(2)]
      by (simp add: unique_ids_def)
    with j(2) have "j_status x \<in> {Finishing, Ready_for_pickup, Completed}" by simp
    moreover have "summary (refund_row now x) = (j_id x, j_status x, Refunded)" by (simp add: summary_def refund_row_def)
    ultimately show ?thesis by (elim insertE emptyE) (simp_all add: row_ok_def before_release_def)
  qed
  then have "orders_ok seen (d\<lparr>jobs := update_where (\<lambda>x. j_id x = k) (refund_row now) (jobs d)\<rparr>)"
    by (intro orders_ok_payment [OF assms(2)]) (simp_all add: refund_row_def)
  then show ?thesis by (rule orders_ok_touch) (simp_all add: j(3))
qed (use assms(2) in simp)

subsection \<open>Creating an order\<close>

lemma orders_ok_insert:
  assumes "orders_ok seen d" "j_status j = Pending_payment" "j_paymentStatus j \<noteq> Paid"
    "j_id j \<notin> j_id ` set (jobs d)" "j_id j \<notin> j_id ` seen" "j_id j \<notin> e_jobId ` set (jobEvents d)"
  shows "orders_ok seen (insert_row j d)"
proof -
  have "trail (j_id j) d = []" using assms(6) by (auto simp: trail_def filter_empty_conv image_iff)
  then have "chain Pending_payment (trail (j_id j) (insert_row j d)) (j_status j)"
    using assms(2) by (simp add: trail_def insert_row_def)
  moreover have "trail k (insert_row j d) = trail k d" for k by (simp add: trail_def insert_row_def)
  ultimately have "audited (insert_row j d)"
    using assms(1,2,4) by (auto simp: orders_ok_def audited_def insert_row_def unique_ids_def)
  moreover have "row_ok seen (summary j)" using assms(2,3,5) by (auto simp: row_ok_def summary_def image_iff)
  ultimately show ?thesis using assms(1) by (simp add: orders_ok_def insert_row_def)
qed

lemma orders_ok_delete: "orders_ok seen d \<Longrightarrow> orders_ok seen (delete_row j d)"
proof -
  assume a: "orders_ok seen d"
  have "trail k (delete_row j d) = trail k d" for k by (simp add: trail_def delete_row_def)
  moreover have "distinct (map j_id (filter (\<lambda>x. j_id x \<noteq> j_id j) (jobs d)))"
    using orders_ok_unique [OF a] by (simp add: unique_ids_def distinct_map_filter)
  ultimately show ?thesis using a by (simp add: orders_ok_def audited_def unique_ids_def delete_row_def)
qed

lemma orders_ok_code:
  assumes "orders_ok seen d" "well_formed r" "t_from r = Pending_payment" "t_event r = CASH_SELECTED" "applyTransition k r d = Inr (res, d')"
  shows "orders_ok seen d'"
proof (rule orders_ok_move [OF assms(1,2,5)])
  fix j to assume t: "target k r d = Some j" and to: "TRANSITIONS (t_from r) (t_event r) = Some to"
  have "row_ok seen (j_id j, Pending_payment, j_paymentStatus j)" using target_ok [OF assms(1) t] assms(3) by (metis summary_def)
  moreover have "to = Awaiting_arrival" using to assms(3,4) by simp
  ultimately show "row_ok seen (summary (rewritten r to j))"
    by (auto simp: summary_rewritten row_ok_def before_release_def)
qed

lemma allocate_ok:
  "allocatePayAtShopCode h e candidates pre now j js d = Inr (res, d') \<Longrightarrow> orders_ok seen d \<Longrightarrow> orders_ok seen d'"
  by (drule allocation_transition) (elim exE conjE, rule orders_ok_code)

lemma prepare_ok: "preparePayAtShopOrder h e candidates now k v d = (res, d', effs) \<Longrightarrow> orders_ok seen d \<Longrightarrow> orders_ok seen d'"
  by (auto simp: preparePayAtShopOrder_def split: option.splits if_splits sum.splits prod.splits
      dest: allocate_ok emit_summary intro: orders_ok_jobs)

lemma new_job_payment: "j_paymentStatus (new_job k sh u req b m p c t) = Pay_pending"
  by (simp add: new_job_def)

lemma createPreparedJob_ok:
  assumes "createPreparedJob h e code candidates bps newId u req now v files st = (res, st', effs)" "orders_ok seen (os_db st)"
    "newId \<notin> j_id ` set (jobs (os_db st))" "newId \<notin> j_id ` seen" "newId \<notin> e_jobId ` set (jobEvents (os_db st))"
  shows "orders_ok seen (os_db st')"
proof (cases "prepare_row bps newId u req now v files (os_coupons st)")
  case (Inl err)
  then show ?thesis using assms(1,2) by (auto simp: createPreparedJob_def)
next
  case (Inr j)
  have j: "j_id j = newId" "j_status j = Pending_payment" "j_paymentStatus j = Pay_pending"
    using prepare_rowD [OF Inr] by (metis new_job_cols(1), metis new_job_cols(6), metis new_job_payment)
  have "orders_ok seen (insert_row j (os_db st))"
    using orders_ok_insert [OF assms(2) j(2)] j assms(3-5) by simp
  then show ?thesis
    using assms(1) Inr
    by (auto simp: createPreparedJob_def settle_row_def split: if_splits sum.splits option.splits prod.splits
        dest: allocate_ok intro: orders_ok_delete)
qed

lemma createJob_ok:
  assumes "createJob up h e code candidates bps newId u hdr req now v files st = (res, st', effs)" "orders_ok seen (os_db st)"
    "newId \<notin> j_id ` set (jobs (os_db st))" "newId \<notin> j_id ` seen" "newId \<notin> e_jobId ` set (jobEvents (os_db st))"
  shows "orders_ok seen (os_db st')"
proof -
  have create: "orders_ok seen (os_db y)"
    if "createPreparedJob h e code candidates bps newId u req now v files x = (r, y, ef)" "os_db x = os_db st" for x y r ef
    using createPreparedJob_ok [OF that(1)] that(2) assms(2-5) by simp
  have locked: "orders_ok seen (os_db y)"
    if "locked_create up h e code candidates bps newId u k req now v files x = (r, y, ef)" "os_db x = os_db st" for x y r ef k
    using that assms(2) by (auto simp: locked_create_def Let_def split: prod.splits bool.splits dest: create)
  show ?thesis
    using assms(1,2) by (auto simp: createJob_def split: option.splits prod.splits idempotency_claim.splits dest: locked)
qed

subsection \<open>Runs of the whole system\<close>

text \<open>
  One call of one handler. \<open>js\<close> and the rows of \<open>v\<close> are what the handler has read. Only the release decides on a
  payment it has read, so only there the rows must have been real at some time; the others may have read anything.
\<close>

inductive order_op :: "job set \<Rightarrow> db \<Rightarrow> db \<Rightarrow> bool" for seen where
  create: "createJob up h e code candidates bps newId u hdr req now v files st = (res1, st', effs) \<Longrightarrow>
    newId \<notin> j_id ` set (jobs (os_db st)) \<Longrightarrow> newId \<notin> j_id ` seen \<Longrightarrow> newId \<notin> e_jobId ` set (jobEvents (os_db st)) \<Longrightarrow>
    order_op seen (os_db st) (os_db st')"
| prepare: "preparePayAtShopOrder h e candidates now k v d = (res2, d', effs) \<Longrightarrow> order_op seen d d'"
| check_in: "checkInJob k u arrival now v d = (res3, d', effs) \<Longrightarrow> order_op seen d d'"
| remove: "removeFromLiveQueue k s u now v d = (res4, d', effs) \<Longrightarrow> order_op seen d d'"
| expire: "expireReveal k now v d = (res5, d', effs) \<Longrightarrow> order_op seen d d'"
| sweep: "sweepExpiredReveals shops ps ags now d = (n, d', effs) \<Longrightarrow> order_op seen d d'"
| legacy_no_show: "handleNoShowCheck k now v d = (res2, d', effs) \<Longrightarrow> order_op seen d d'"
| legacy_grace: "handleGraceExpiry k now v d = (res2, d', effs) \<Longrightarrow> order_op seen d d'"
| stale: "expireStalePreparedOrders now d = (d', effs) \<Longrightarrow> order_op seen d d'"
| release: "releaseByOtp digestOf verifyHash otp staffId manual override payment now v d = (res6, d', effs) \<Longrightarrow>
    set (v_jobs v) \<subseteq> seen \<Longrightarrow> order_op seen d d'"
| heartbeat: "heartbeat au ids now agents d = (as, d', effs) \<Longrightarrow> order_op seen d d'"
| printers: "report_printers au names ps now agents d = (as, d', effs) \<Longrightarrow> order_op seen d d'"
| orphans: "failOrphanedPrints agents now d = (n, d', effs) \<Longrightarrow> order_op seen d d'"
| claim: "claimJob au k now d = (res4, d', effs) \<Longrightarrow> order_op seen d d'"
| complete: "completePrint sim au k out now js d = (res7, d', effs) \<Longrightarrow> order_op seen d d'"
| fail: "failPrint au k raw now js d = (res2, d', effs) \<Longrightarrow> order_op seen d d'"
| assign: "assignPrinter k p now v d = (res2, d', effs) \<Longrightarrow> order_op seen d d'"
| retry: "retryPrint k s req' now v d = (res4, d', effs) \<Longrightarrow> order_op seen d d'"
| confirm: "confirmPrintCompletion k s u now js d = (res8, d', effs) \<Longrightarrow> order_op seen d d'"
| returned: "counterPaymentReturned k s now v d = (res4, d', effs) \<Longrightarrow> order_op seen d d'"
| finishing: "finishingComplete k s u now js d = (res4, d', effs) \<Longrightarrow> order_op seen d d'"
| handed_over: "handover k u now v d = (res4, d', effs) \<Longrightarrow> order_op seen d d'"
| cancel: "cancelJob k u now js d = (res4, d', effs) \<Longrightarrow> order_op seen d d'"
| rate: "rateJob k u stars js d = (res2, d') \<Longrightarrow> order_op seen d d'"
| refund: "closed (j_id j) d \<Longrightarrow> order_op seen d (refundIfPaid provider j d)"
| counter_refund: "confirmCounterRefund k b n' now d fd = (res2, d', fd') \<Longrightarrow> order_op seen d d'"

lemma order_op_ok: "order_op seen d d' \<Longrightarrow> orders_ok seen d \<Longrightarrow> orders_ok seen d'"
  by (erule order_op.cases)
     (simp_all add: createJob_ok prepare_ok checkInJob_ok removeFromLiveQueue_ok expireReveal_ok sweep_ok legacy_ok expireStale_ok
       releaseByOtp_ok agent_routes_ok agent_ok claimJob_ok completePrint_ok failPrint_ok assignPrinter_ok retryPrint_ok desk_ok
       returned_ok cancelJob_ok rateJob_ok refundIfPaid_ok confirmCounterRefund_ok)

text \<open>The store and everything ever read from it, from the empty store on.\<close>

definition empty_db :: db where
  "empty_db = \<lparr>jobs = [], jobEvents = [], outbox = [], paymentEvents = []\<rparr>"

inductive order_run :: "db \<Rightarrow> job set \<Rightarrow> bool" where
  begins: "order_run empty_db {}"
| continues: "order_run d seen \<Longrightarrow> order_op seen d d' \<Longrightarrow> order_run d' (seen \<union> set (jobs d'))"

lemma row_ok_more:
  assumes "row_ok seen (k, st, p)" "\<And>x. x \<in> new \<Longrightarrow> j_id x = k \<Longrightarrow> j_paymentStatus x = p"
  shows "row_ok (seen \<union> new) (k, st, p)"
proof -
  have "p = Paid" if "st \<in> before_release" "x \<in> seen \<union> new" "j_id x = k" "j_paymentStatus x = Paid" for x
  proof (cases "x \<in> seen")
    case True
    with assms(1) that show ?thesis unfolding row_ok_def prod.case by metis
  next
    case False
    with that(2) have "x \<in> new" by blast
    from assms(2) [OF this that(3)] that(4) show ?thesis by simp
  qed
  with assms(1) show ?thesis unfolding row_ok_def prod.case by metis
qed

lemma orders_ok_read: "orders_ok seen d \<Longrightarrow> orders_ok (seen \<union> set (jobs d)) d"
proof -
  assume a: "orders_ok seen d"
  have "row_ok (seen \<union> set (jobs d)) (summary y)" if y: "y \<in> set (jobs d)" for y
  proof -
    have "x = y" if "x \<in> set (jobs d)" "j_id x = j_id y" for x
      using distinct_key_eq [of j_id "jobs d" x y] orders_ok_unique [OF a] that y by (simp add: unique_ids_def)
    moreover have "row_ok seen (summary y)" using a y by (simp add: orders_ok_def)
    ultimately show ?thesis unfolding summary_def by (intro row_ok_more) auto
  qed
  with a show ?thesis by (simp add: orders_ok_def)
qed

lemma order_run_ok: "order_run d seen \<Longrightarrow> orders_ok seen d"
proof (induction rule: order_run.induct)
  case begins
  then show ?case by (simp add: orders_ok_def audited_def unique_ids_def empty_db_def)
next
  case (continues d seen d')
  from order_op_ok [OF continues(2,3)] show ?case by (rule orders_ok_read)
qed

text \<open>
  C24. Nothing leaves the counter unpaid, and everything is on record. Start from the empty store and let the handlers
  of students, staff, agents, timers and administrators run in any order, each on rows read at any earlier time. Then
  at every moment: an order that is released or printing is paid; one that is printed, ready or handed over is paid, or
  was paid and is refunded after printing; ids are unique; the audit rows of every order are a path of the transition table from
  payment pending to its status; and there is one outbox row for every audit row.
\<close>

theorem orders_paid_and_audited:
  assumes "order_run d seen" "j \<in> set (jobs d)"
  shows "(j_status j \<in> {Otp_verified, Printing} \<longrightarrow> j_paymentStatus j = Paid)
    \<and> (j_status j \<in> {Finishing, Ready_for_pickup, Completed} \<longrightarrow> j_paymentStatus j \<in> {Paid, Refunded})
    \<and> unique_ids d \<and> chain Pending_payment (trail (j_id j) d) (j_status j)
    \<and> (\<exists>evs. length evs = length (trail (j_id j) d) \<and> sm_path Pending_payment evs (j_status j))
    \<and> length (outbox d) = length (jobEvents d)"
proof -
  have ok: "orders_ok seen d" by (rule order_run_ok [OF assms(1)])
  then have a: "audited d" "row_ok seen (summary j)" using assms(2) by (simp_all add: orders_ok_def)
  from a(1) assms(2) have "unique_ids d" "chain Pending_payment (trail (j_id j) d) (j_status j)" "length (outbox d) = length (jobEvents d)"
    by (simp_all add: audited_def)
  moreover have "(j_status j \<in> {Otp_verified, Printing} \<longrightarrow> j_paymentStatus j = Paid)
      \<and> (j_status j \<in> {Finishing, Ready_for_pickup, Completed} \<longrightarrow> j_paymentStatus j \<in> {Paid, Refunded})"
    using a(2) unfolding row_ok_def summary_def prod.case by simp
  ultimately show ?thesis using chain_path by blast
qed

theorem orders_paid_and_audited_witness:
  "\<exists>j seen. order_run sample_db' seen \<and> j \<in> set (jobs sample_db') \<and> j_status j = Awaiting_arrival
    \<and> chain Pending_payment (trail (j_id j) sample_db') Awaiting_arrival"
proof -
  have e: "empty_db = os_db empty_store" by (simp add: empty_db_def empty_store_def)
  obtain st effs where c: "createJob False (\<lambda>_ c. c) (\<lambda>_ c. c) ''1'' [] 2500 ''j'' ''u'' H_none sample_request 7 open_shop [ready_file] empty_store
      = (Inr (False, ''j'', 1500), st, effs)" "os_db st = sample_db'"
    using sample_created [of empty_store]
    by (simp add: createJob_def parseIdempotencyKey_def locked_create_def tryLock_def unlock_def Let_def)
  have "order_op {} empty_db sample_db'"
    unfolding e c(2) [symmetric] by (rule order_op.create [OF c(1)]) (simp_all add: empty_store_def)
  then have run: "order_run sample_db' ({} \<union> set (jobs sample_db'))" by (rule order_run.continues [OF order_run.begins])
  obtain j where j: "j \<in> set (jobs sample_db')" "j_status j = Awaiting_arrival"
    by (simp add: sample_db'_def commit_def insert_row_def empty_store_def)
  from orders_paid_and_audited [OF run j(1)] have "chain Pending_payment (trail (j_id j) sample_db') (j_status j)" by blast
  with run j show ?thesis by metis
qed

end
