(* ===== verification/Auth_Codes.thy ===== *)
theory Auth_Codes
  imports Claim_Once
begin

text \<open>
  The one-time codes of modules/auth/routes.ts and modules/admin/routes.ts: the rows of LoginOtp,
  PasswordResetOtp and AdminPasswordResetOtp and the statements that the handlers run on them. One record
  stands for the three tables: \<open>oc_account\<close> is the column phone, email or adminId, and the delivery columns
  of the two reset tables stay None in a LoginOtp row. A primary key is unique, as the database enforces.
\<close>

record code_row =
  oc_id :: id
  oc_account :: string
  oc_otpHash :: string
  oc_attempts :: int
  oc_expiresAt :: millis
  oc_consumedAt :: "millis option"
  oc_createdAt :: millis
  oc_deliveryProvider :: "string option"
  oc_deliveryMessageId :: "string option"
  oc_deliveryAttemptedAt :: "millis option"
  oc_deliveryError :: "string option"

definition new_code :: "id \<Rightarrow> string \<Rightarrow> string \<Rightarrow> millis \<Rightarrow> millis \<Rightarrow> code_row" where
  "new_code newId account otpHash ttl now = \<lparr>oc_id = newId, oc_account = account, oc_otpHash = otpHash, oc_attempts = 0,
    oc_expiresAt = now + ttl, oc_consumedAt = None, oc_createdAt = now, oc_deliveryProvider = None,
    oc_deliveryMessageId = None, oc_deliveryAttemptedAt = None, oc_deliveryError = None\<rparr>"

text \<open>\<open>create\<close>, with the primary key constraint.\<close>

definition insert_code :: "code_row \<Rightarrow> code_row list \<Rightarrow> code_row list result" where
  "insert_code r rows = (if oc_id r \<in> set (map oc_id rows) then Inl (Thrown ''P2002'') else Inr (rows @ [r]))"

definition sent_recently :: "string \<Rightarrow> millis \<Rightarrow> millis \<Rightarrow> code_row list \<Rightarrow> bool" where
  "sent_recently account resend now rows = list_ex (\<lambda>r. oc_account r = account \<and> oc_createdAt r > now - resend) rows"

definition sent_today :: "string \<Rightarrow> millis \<Rightarrow> code_row list \<Rightarrow> nat" where
  "sent_today account now rows = count_where (\<lambda>r. oc_account r = account \<and> oc_createdAt r > now - 86400000) rows"

definition live_code :: "string \<Rightarrow> millis \<Rightarrow> code_row \<Rightarrow> bool" where
  "live_code account now r = (oc_account r = account \<and> oc_consumedAt r = None \<and> oc_expiresAt r > now)"

text \<open>\<open>findFirst\<close> of the live codes of the account, newest first.\<close>

definition find_code :: "string \<Rightarrow> millis \<Rightarrow> code_row list \<Rightarrow> code_row option" where
  "find_code account now rows =
    (case sort_key (\<lambda>r. - oc_createdAt r) (filter (live_code account now) rows) of [] \<Rightarrow> None | r # _ \<Rightarrow> Some r)"

text \<open>The conditional increment that claims one guess; None when \<open>count\<close> is not 1.\<close>

definition claim_attempt :: "int \<Rightarrow> id \<Rightarrow> code_row list \<Rightarrow> code_row list option" where
  "claim_attempt limit i rows =
    (let p = \<lambda>r. oc_id r = i \<and> oc_consumedAt r = None \<and> oc_attempts r < limit in
     if count_where p rows \<noteq> 1 then None else Some (update_where p (\<lambda>r. r\<lparr>oc_attempts := oc_attempts r + 1\<rparr>) rows))"

text \<open>The conditional write of \<open>consumedAt\<close>; \<open>extra\<close> is what the statement asks beyond a live row.\<close>

definition consume_code :: "(code_row \<Rightarrow> bool) \<Rightarrow> id \<Rightarrow> millis \<Rightarrow> code_row list \<Rightarrow> code_row list option" where
  "consume_code extra i now rows =
    (let p = \<lambda>r. oc_id r = i \<and> oc_consumedAt r = None \<and> extra r \<and> oc_expiresAt r > now in
     if count_where p rows \<noteq> 1 then None else Some (update_where p (\<lambda>r. r\<lparr>oc_consumedAt := Some now\<rparr>) rows))"

text \<open>The record of a delivery: \<open>Inr\<close> the provider's message id, \<open>Inl\<close> the error text.\<close>

definition record_delivery :: "id \<Rightarrow> string \<Rightarrow> string + string option \<Rightarrow> millis \<Rightarrow> code_row list \<Rightarrow> code_row list" where
  "record_delivery i provider res now rows = update_where (\<lambda>r. oc_id r = i)
    (\<lambda>r. case res of
        Inr messageId \<Rightarrow> r\<lparr>oc_deliveryProvider := Some provider, oc_deliveryMessageId := messageId,
          oc_deliveryAttemptedAt := Some now, oc_deliveryError := None\<rparr>
      | Inl message \<Rightarrow> r\<lparr>oc_deliveryProvider := Some provider, oc_deliveryAttemptedAt := Some now,
          oc_deliveryError := Some (take 300 message)\<rparr>) rows"

subsection \<open>What the statements keep\<close>

definition row_of :: "id \<Rightarrow> code_row list \<Rightarrow> code_row option" where
  "row_of i rows = find (\<lambda>r. oc_id r = i) rows"

definition guesses :: "id \<Rightarrow> code_row list \<Rightarrow> int" where
  "guesses i rows = (case row_of i rows of None \<Rightarrow> 0 | Some r \<Rightarrow> oc_attempts r)"

definition uses :: "id \<Rightarrow> code_row list \<Rightarrow> int" where
  "uses i rows = (case row_of i rows of None \<Rightarrow> 0 | Some r \<Rightarrow> if oc_consumedAt r = None then 0 else 1)"

definition ids_distinct :: "code_row list \<Rightarrow> bool" where
  "ids_distinct rows = distinct (map oc_id rows)"

text \<open>A statement that wrote one row found the row of its key, in the state it asked for.\<close>

lemma one_row_written:
  assumes "count_where (\<lambda>r. oc_id r = i \<and> q r) rows = 1" "ids_distinct rows"
  obtains r where "row_of i rows = Some r" "q r"
    "update_where (\<lambda>r. oc_id r = i \<and> q r) f rows = update_where (\<lambda>r. oc_id r = i) f rows"
proof -
  have "0 < count_where (\<lambda>r. oc_id r = i \<and> q r) rows" using assms(1) by simp
  then obtain r where r: "r \<in> set rows" "oc_id r = i" "q r" by (auto simp: count_where_pos_iff)
  have f: "row_of i rows = Some r"
    unfolding row_of_def using find_eq_Some_distinct [of oc_id rows r] r assms(2) by (simp add: ids_distinct_def)
  have "x = r" if "x \<in> set rows" "oc_id x = i" for x
    using distinct_key_eq [of oc_id rows x r] that r assms(2) by (simp add: ids_distinct_def)
  then have "\<And>x. x \<in> set rows \<Longrightarrow> (oc_id x = i \<and> q x) = (oc_id x = i)" using r(3) by blast
  then have "update_where (\<lambda>r. oc_id r = i \<and> q r) f rows = update_where (\<lambda>r. oc_id r = i) f rows"
    unfolding update_where_def by (intro map_cong) simp_all
  with f r(3) show ?thesis by (rule that)
qed

lemma claim_attempt_Some:
  assumes "claim_attempt limit i rows = Some rows'" "ids_distinct rows"
  obtains r where "row_of i rows = Some r" "oc_consumedAt r = None" "oc_attempts r < limit"
    "rows' = update_where (\<lambda>r. oc_id r = i) (\<lambda>r. r\<lparr>oc_attempts := oc_attempts r + 1\<rparr>) rows"
proof -
  let ?q = "\<lambda>r. oc_consumedAt r = None \<and> oc_attempts r < limit"
  have c: "count_where (\<lambda>r. oc_id r = i \<and> ?q r) rows = 1"
    and e: "rows' = update_where (\<lambda>r. oc_id r = i \<and> ?q r) (\<lambda>r. r\<lparr>oc_attempts := oc_attempts r + 1\<rparr>) rows"
    using assms(1) by (auto simp: claim_attempt_def Let_def split: if_splits)
  show ?thesis
    by (rule one_row_written [OF c assms(2), of "\<lambda>r. r\<lparr>oc_attempts := oc_attempts r + 1\<rparr>"]) (use e that in auto)
qed

lemma consume_code_Some:
  assumes "consume_code extra i now rows = Some rows'" "ids_distinct rows"
  obtains r where "row_of i rows = Some r" "oc_consumedAt r = None" "extra r" "now < oc_expiresAt r"
    "rows' = update_where (\<lambda>r. oc_id r = i) (\<lambda>r. r\<lparr>oc_consumedAt := Some now\<rparr>) rows"
proof -
  let ?q = "\<lambda>r. oc_consumedAt r = None \<and> extra r \<and> oc_expiresAt r > now"
  have c: "count_where (\<lambda>r. oc_id r = i \<and> ?q r) rows = 1"
    and e: "rows' = update_where (\<lambda>r. oc_id r = i \<and> ?q r) (\<lambda>r. r\<lparr>oc_consumedAt := Some now\<rparr>) rows"
    using assms(1) by (auto simp: consume_code_def Let_def split: if_splits)
  show ?thesis
    by (rule one_row_written [OF c assms(2), of "\<lambda>r. r\<lparr>oc_consumedAt := Some now\<rparr>"]) (use e that in auto)
qed

lemma row_of_update:
  "(\<And>r. oc_id (f r) = oc_id r) \<Longrightarrow> row_of k (update_where (\<lambda>r. oc_id r = i) f rows)
    = map_option (\<lambda>r. if oc_id r = i then f r else r) (row_of k rows)"
  by (simp add: row_of_def find_update_where_key)

lemma row_of_id: "row_of k rows = Some r \<Longrightarrow> oc_id r = k"
  by (auto simp: row_of_def dest: find_SomeD)

text \<open>
  The budget of a table: \<open>f i\<close> guesses were checked or may still be checked against the code i, \<open>g i\<close>
  requests used it.
\<close>

definition codes_ok :: "int \<Rightarrow> code_row list \<Rightarrow> (id \<Rightarrow> int) \<Rightarrow> (id \<Rightarrow> int) \<Rightarrow> bool" where
  "codes_ok limit rows f g = (ids_distinct rows \<and> (\<forall>i. f i \<le> guesses i rows \<and> guesses i rows \<le> limit \<and> g i \<le> uses i rows))"

lemma codes_okI:
  "ids_distinct rows \<Longrightarrow> (\<And>i. f i \<le> guesses i rows) \<Longrightarrow> (\<And>i. guesses i rows \<le> limit) \<Longrightarrow> (\<And>i. g i \<le> uses i rows)
    \<Longrightarrow> codes_ok limit rows f g"
  by (simp add: codes_ok_def)

lemma codes_okD:
  assumes "codes_ok limit rows f g"
  shows "ids_distinct rows" "f i \<le> guesses i rows" "guesses i rows \<le> limit" "g i \<le> uses i rows"
  using assms by (auto simp: codes_ok_def)

lemma uses_le_one: "uses i rows \<le> 1"
  by (simp add: uses_def split: option.split)

lemma ids_distinct_update [simp]:
  "(\<And>r. oc_id (f r) = oc_id r) \<Longrightarrow> ids_distinct (update_where p f rows) = ids_distinct rows"
  by (simp add: ids_distinct_def map_update_where)

lemma codes_ok_claim:
  assumes "codes_ok limit rows f g" "claim_attempt limit i rows = Some rows'"
  shows "codes_ok limit rows' (f(i := f i + 1)) g"
proof -
  obtain r where r: "row_of i rows = Some r" "oc_attempts r < limit"
    and e: "rows' = update_where (\<lambda>r. oc_id r = i) (\<lambda>r. r\<lparr>oc_attempts := oc_attempts r + 1\<rparr>) rows"
    using claim_attempt_Some [OF assms(2) codes_okD(1) [OF assms(1)]] by blast
  have g1: "guesses k rows' = (if k = i then guesses k rows + 1 else guesses k rows)" for k
    using r(1) by (auto simp: guesses_def e row_of_update split: option.split dest: row_of_id)
  have g2: "uses k rows' = uses k rows" for k
    by (auto simp: uses_def e row_of_update split: option.split)
  have "guesses i rows < limit" using r by (simp add: guesses_def)
  then show ?thesis
    using codes_okD [OF assms(1)] by (intro codes_okI) (auto simp: g1 g2, simp add: e)
qed

lemma codes_ok_consume:
  assumes "codes_ok limit rows f g" "consume_code extra i now rows = Some rows'"
  shows "codes_ok limit rows' f (g(i := g i + 1))"
proof -
  obtain r where r: "row_of i rows = Some r" "oc_consumedAt r = None"
    and e: "rows' = update_where (\<lambda>r. oc_id r = i) (\<lambda>r. r\<lparr>oc_consumedAt := Some now\<rparr>) rows"
    using consume_code_Some [OF assms(2) codes_okD(1) [OF assms(1)]] by blast
  have g1: "guesses k rows' = guesses k rows" for k
    by (auto simp: guesses_def e row_of_update split: option.split)
  have g2: "uses k rows' = (if k = i then 1 else uses k rows)" for k
    using r(1) by (auto simp: uses_def e row_of_update split: option.split dest: row_of_id)
  have "g i \<le> 0" using codes_okD(4) [OF assms(1), of i] r by (simp add: uses_def)
  then show ?thesis
    using codes_okD [OF assms(1)] by (intro codes_okI) (auto simp: g1 g2, simp add: e)
qed

lemma codes_ok_insert:
  assumes "codes_ok limit rows f g" "insert_code r rows = Inr rows'" "oc_attempts r = 0" "oc_consumedAt r = None"
    "0 \<le> limit"
  shows "codes_ok limit rows' f g"
proof -
  have n: "oc_id r \<notin> set (map oc_id rows)" and e: "rows' = rows @ [r]"
    using assms(2) by (auto simp: insert_code_def split: if_splits)
  have "row_of (oc_id r) rows = None"
    using n by (auto simp: row_of_def find_None_iff image_iff)
  then have u: "row_of k rows' = (if k = oc_id r then Some r else row_of k rows)" for k
    unfolding e row_of_def by (induction rows) auto
  have z: "f (oc_id r) \<le> 0" "g (oc_id r) \<le> 0"
    using codes_okD(2,4) [OF assms(1), of "oc_id r"] \<open>row_of (oc_id r) rows = None\<close> by (simp_all add: guesses_def uses_def)
  have "ids_distinct rows'"
    using codes_okD(1) [OF assms(1)] n by (simp add: e ids_distinct_def)
  moreover have "guesses k rows' = (if k = oc_id r then 0 else guesses k rows)" for k
    using assms(3) by (simp add: guesses_def u)
  moreover have "uses k rows' = (if k = oc_id r then 0 else uses k rows)" for k
    using assms(4) by (simp add: uses_def u)
  ultimately show ?thesis
    using codes_okD [OF assms(1)] z assms(5) by (intro codes_okI) auto
qed

lemma codes_ok_delivery:
  assumes "codes_ok limit rows f g"
  shows "codes_ok limit (record_delivery i provider res now rows) f g"
proof -
  have k: "oc_id (case res of Inr m \<Rightarrow> r\<lparr>oc_deliveryProvider := Some provider, oc_deliveryMessageId := m,
          oc_deliveryAttemptedAt := Some now, oc_deliveryError := None\<rparr>
      | Inl m \<Rightarrow> r\<lparr>oc_deliveryProvider := Some provider, oc_deliveryAttemptedAt := Some now,
          oc_deliveryError := Some (take 300 m)\<rparr>) = oc_id r" for r :: code_row
    by (simp split: sum.split)
  have "guesses k (record_delivery i provider res now rows) = guesses k rows"
    "uses k (record_delivery i provider res now rows) = uses k rows" for k
    by (auto simp: guesses_def uses_def record_delivery_def row_of_update [OF k] split: option.split sum.split)
  moreover have "ids_distinct (record_delivery i provider res now rows)"
    using codes_okD(1) [OF assms] by (simp add: record_delivery_def ids_distinct_update [OF k])
  ultimately show ?thesis using codes_okD [OF assms] by (intro codes_okI) auto
qed

text \<open>Using a code is a compare-and-set write: of any competing requests at most one wins.\<close>

definition unused :: "id \<Rightarrow> code_row list \<Rightarrow> bool" where
  "unused i rows = (\<exists>r. row_of i rows = Some r \<and> oc_consumedAt r = None)"

interpretation code_use: claim_once "\<lambda>now. consume_code extra i now" "unused i" "\<lambda>_. True" ids_distinct
proof
  fix now rows rows'
  assume "ids_distinct rows" and c: "consume_code extra i now rows = Some rows'"
  then obtain r where r: "row_of i rows = Some r" "oc_consumedAt r = None"
    and e: "rows' = update_where (\<lambda>r. oc_id r = i) (\<lambda>r. r\<lparr>oc_consumedAt := Some now\<rparr>) rows"
    using consume_code_Some by blast
  show "unused i rows" using r by (simp add: unused_def)
  show "\<not> unused i rows'"
    using r by (auto simp: unused_def e row_of_update dest: row_of_id)
  show "ids_distinct rows'" using \<open>ids_distinct rows\<close> by (simp add: e)
qed

end
