(* ===== verification/Session_Tokens.thy ===== *)
theory Session_Tokens
  imports Js_Value Print_Routes
begin

text \<open>
  lib/tokens.ts, lib/shopSession.ts and middleware/auth.ts: signed tokens, the claims read back from them and
  the checks that a request passes before its handler runs. The signing library is a parameter: \<open>jw_sign\<close>
  makes a token of a payload, a subject, a lifetime in seconds and the time, \<open>jw_verify\<close> reads one at a time
  (None is its exception). \<open>jwt_ok\<close> is what its documentation promises of a token that it signed itself.
\<close>

type_synonym payload = "(string \<times> json) list"

record jwt =
  jw_sign :: "payload \<Rightarrow> string \<Rightarrow> int \<Rightarrow> millis \<Rightarrow> string"
  jw_verify :: "string \<Rightarrow> millis \<Rightarrow> payload option"

definition signed_payload :: "payload \<Rightarrow> string \<Rightarrow> int \<Rightarrow> millis \<Rightarrow> payload" where
  "signed_payload p sub ttl now = p @ [(''iat'', JInt (now div 1000)), (''exp'', JInt (now div 1000 + ttl)), (''sub'', JStr sub)]"

definition jwt_ok :: "jwt \<Rightarrow> bool" where
  "jwt_ok J = (\<forall>p sub ttl t0 now. jw_verify J (jw_sign J p sub ttl t0) now
    = (if now div 1000 < t0 div 1000 + ttl then Some (signed_payload p sub ttl t0) else None))"

datatype shop_role = Owner | Staff

datatype claims =
    Student_claims id
  | Shop_claims id id shop_role int
  | Admin_claims id int

definition role_text :: "shop_role \<Rightarrow> string" where
  "role_text r = (case r of Owner \<Rightarrow> ''owner'' | Staff \<Rightarrow> ''staff'')"

definition signStudentToken :: "jwt \<Rightarrow> id \<Rightarrow> millis \<Rightarrow> string" where
  "signStudentToken J studentId now = jw_sign J [(''typ'', JStr ''student'')] studentId (30 * 86400) now"

definition signShopToken :: "jwt \<Rightarrow> id \<Rightarrow> id \<Rightarrow> shop_role \<Rightarrow> int \<Rightarrow> millis \<Rightarrow> string" where
  "signShopToken J shopUserId shopId role sessionVersion now =
    jw_sign J [(''typ'', JStr ''shop''), (''shopId'', JStr shopId), (''role'', JStr (role_text role)), (''sv'', JInt sessionVersion)]
      shopUserId (12 * 3600) now"

definition signAdminToken :: "jwt \<Rightarrow> id \<Rightarrow> int \<Rightarrow> millis \<Rightarrow> string" where
  "signAdminToken J adminId sessionVersion now =
    jw_sign J [(''typ'', JStr ''admin''), (''role'', JStr ''platform_admin''), (''sv'', JInt sessionVersion)] adminId (4 * 3600) now"

definition PREVIEW_TOKEN_TTL_SECONDS :: int where "PREVIEW_TOKEN_TTL_SECONDS = 120"

definition signPreviewToken :: "jwt \<Rightarrow> id \<Rightarrow> id \<Rightarrow> millis \<Rightarrow> string" where
  "signPreviewToken J studentId fileId now =
    jw_sign J [(''typ'', JStr ''file-preview''), (''fid'', JStr fileId)] studentId PREVIEW_TOKEN_TTL_SECONDS now"

definition verifyPreviewToken :: "jwt \<Rightarrow> string \<Rightarrow> id \<Rightarrow> millis \<Rightarrow> id option" where
  "verifyPreviewToken J token fileId now = (case jw_verify J token now of
      None \<Rightarrow> None
    | Some p \<Rightarrow> if field ''typ'' (Some p) = Some (JStr ''file-preview'') \<and> field ''fid'' (Some p) = Some (JStr fileId)
        then as_string (field ''sub'' (Some p)) else None)"

definition role_of :: "json option \<Rightarrow> shop_role option" where
  "role_of v = (if v = Some (JStr ''owner'') then Some Owner else if v = Some (JStr ''staff'') then Some Staff else None)"

definition claims_of :: "payload \<Rightarrow> claims option" where
  "claims_of p =
    (let typ = field ''typ'' (Some p); sub = as_string (field ''sub'' (Some p)); shopId = as_string (field ''shopId'' (Some p));
         role = role_of (field ''role'' (Some p)); sv = safe_nonneg (field ''sv'' (Some p))
     in if typ = Some (JStr ''student'') \<and> sub \<noteq> None then Some (Student_claims (the sub))
     else if typ = Some (JStr ''shop'') \<and> sub \<noteq> None \<and> shopId \<noteq> None \<and> role \<noteq> None
       then Some (Shop_claims (the sub) (the shopId) (the role) (case sv of Some n \<Rightarrow> n | None \<Rightarrow> 0))
     else if typ = Some (JStr ''admin'') \<and> sub \<noteq> None \<and> field ''role'' (Some p) = Some (JStr ''platform_admin'') \<and> sv \<noteq> None
       then Some (Admin_claims (the sub) (the sv))
     else None)"

definition verifyToken :: "jwt \<Rightarrow> string \<Rightarrow> millis \<Rightarrow> claims option" where
  "verifyToken J token now = Option.bind (jw_verify J token now) claims_of"

subsection \<open>The accounts the checks look up\<close>

record shop_user_row =
  su_id :: id
  su_shopId :: id
  su_email :: string
  su_passwordHash :: string
  su_name :: string
  su_role :: shop_role
  su_sessionVersion :: int

record admin_row =
  ad_id :: id
  ad_email :: string
  ad_passwordHash :: string
  ad_sessionVersion :: int
  ad_name :: string
  ad_active :: bool

record shop_session =
  ss_id :: id
  ss_shopId :: id
  ss_role :: shop_role

definition resolveShopSession :: "id \<Rightarrow> id \<Rightarrow> int \<Rightarrow> shop_user_row list \<Rightarrow> shop_session option" where
  "resolveShopSession sub shopId sv users = (case find (\<lambda>u. su_id u = sub \<and> su_shopId u = shopId) users of
      None \<Rightarrow> None
    | Some u \<Rightarrow> if su_sessionVersion u \<noteq> sv then None
        else Some \<lparr>ss_id = su_id u, ss_shopId = su_shopId u, ss_role = su_role u\<rparr>)"

subsection \<open>middleware/auth.ts\<close>

text \<open>What a check reads of a request: two headers, the \<open>:id\<close> parameter and the \<open>pt\<close> of the query.\<close>

record auth_request =
  rq_authorization :: "string option"
  rq_agentToken :: "string option"
  rq_agentSession :: "string option"
  rq_idParam :: "string option"
  rq_pt :: "string option"

definition unauthorized :: "'a result" where "unauthorized = Inl (Unauthorized ''Unauthorized'')"

definition starts_with :: "string \<Rightarrow> string \<Rightarrow> bool" where
  "starts_with p s = (take (length p) s = p)"

definition bearer :: "auth_request \<Rightarrow> string option" where
  "bearer req = (case rq_authorization req of
      None \<Rightarrow> None
    | Some h \<Rightarrow> if starts_with ''Bearer '' h then Some (drop 7 h) else None)"

text \<open>\<open>token ? verifyToken(token) : null\<close>.\<close>

definition bearer_claims :: "jwt \<Rightarrow> auth_request \<Rightarrow> millis \<Rightarrow> claims option" where
  "bearer_claims J req now = (if truthy (bearer req) then verifyToken J (the (bearer req)) now else None)"

definition requireStudent :: "jwt \<Rightarrow> auth_request \<Rightarrow> millis \<Rightarrow> id result" where
  "requireStudent J req now = (case bearer_claims J req now of Some (Student_claims i) \<Rightarrow> Inr i | _ \<Rightarrow> unauthorized)"

definition requireStudentOrPreviewToken :: "jwt \<Rightarrow> auth_request \<Rightarrow> millis \<Rightarrow> id result" where
  "requireStudentOrPreviewToken J req now =
    (if truthy (bearer req)
     then (case verifyToken J (the (bearer req)) now of Some (Student_claims i) \<Rightarrow> Inr i | _ \<Rightarrow> unauthorized)
     else let studentId = (if truthy (rq_pt req) \<and> truthy (rq_idParam req)
         then verifyPreviewToken J (the (rq_pt req)) (the (rq_idParam req)) now else None)
       in if truthy studentId then Inr (the studentId) else unauthorized)"

definition requireShopUser :: "jwt \<Rightarrow> auth_request \<Rightarrow> shop_user_row list \<Rightarrow> millis \<Rightarrow> shop_session result" where
  "requireShopUser J req users now = (case bearer_claims J req now of
      Some (Shop_claims sub shopId role sv) \<Rightarrow>
        (case resolveShopSession sub shopId sv users of None \<Rightarrow> unauthorized | Some session \<Rightarrow> Inr session)
    | _ \<Rightarrow> unauthorized)"

definition requireShopOwner :: "jwt \<Rightarrow> auth_request \<Rightarrow> shop_user_row list \<Rightarrow> millis \<Rightarrow> shop_session result" where
  "requireShopOwner J req users now = (case requireShopUser J req users now of
      Inl e \<Rightarrow> Inl e
    | Inr session \<Rightarrow> if ss_role session \<noteq> Owner then Inl (Forbidden ''Owner access required'') else Inr session)"

definition requireAdmin :: "jwt \<Rightarrow> auth_request \<Rightarrow> admin_row list \<Rightarrow> millis \<Rightarrow> id result" where
  "requireAdmin J req admins now = (case bearer_claims J req now of
      Some (Admin_claims sub sv) \<Rightarrow> (case find (\<lambda>a. ad_id a = sub) admins of
          None \<Rightarrow> unauthorized
        | Some a \<Rightarrow> if \<not> ad_active a \<or> ad_sessionVersion a \<noteq> sv then unauthorized else Inr sub)
    | _ \<Rightarrow> unauthorized)"

text \<open>\<open>/^[A-Za-z0-9_-]{8,64}$/\<close>.\<close>

definition parseAgentSessionId :: "string option \<Rightarrow> string option" where
  "parseAgentSessionId v = (case v of
      None \<Rightarrow> None
    | Some s \<Rightarrow> if 8 \<le> length s \<and> length s \<le> 64 \<and> list_all (\<lambda>c. is_alnum c \<or> c = CHR ''_'' \<or> c = CHR ''-'') s then Some s else None)"

text \<open>\<open>digest\<close> is the SHA-256 of a token, in hexadecimal.\<close>

definition requireAgent :: "(string \<Rightarrow> string) \<Rightarrow> auth_request \<Rightarrow> agent_row list \<Rightarrow> agent_auth result" where
  "requireAgent digest req agents = (case rq_agentToken req of
      None \<Rightarrow> unauthorized
    | Some token \<Rightarrow> if length token < 32 then unauthorized
      else (case find (\<lambda>a. ag_tokenHash a = digest token) agents of
          None \<Rightarrow> unauthorized
        | Some a \<Rightarrow> Inr \<lparr>au_id = ag_id a, au_shopId = ag_shopId a, au_connectedPrinterIds = ag_connectedPrinterIds a,
            au_sessionId = parseAgentSessionId (rq_agentSession req)\<rparr>))"

subsection \<open>Reading back what was signed\<close>

lemma jwt_okD:
  "jwt_ok J \<Longrightarrow> jw_verify J (jw_sign J p sub ttl t0) now
    = (if now div 1000 < t0 div 1000 + ttl then Some (signed_payload p sub ttl t0) else None)"
  unfolding jwt_ok_def by blast

lemma role_of_text [simp]: "role_of (Some (JStr (role_text r))) = Some r"
  by (cases r) (simp_all add: role_of_def role_text_def)

lemma verify_shop_token:
  assumes "jwt_ok J"
  shows "verifyToken J (signShopToken J u s r sv t0) now = (if now div 1000 < t0 div 1000 + 12 * 3600
    then Some (Shop_claims u s r (if 0 \<le> sv \<and> sv \<le> MAX_SAFE_INTEGER then sv else 0)) else None)"
  unfolding verifyToken_def signShopToken_def jwt_okD [OF assms]
  by (simp add: claims_of_def signed_payload_def field_def safe_nonneg_def as_string_def)

lemma verify_student_token:
  assumes "jwt_ok J"
  shows "verifyToken J (signStudentToken J u t0) now = (if now div 1000 < t0 div 1000 + 30 * 86400 then Some (Student_claims u) else None)"
  unfolding verifyToken_def signStudentToken_def jwt_okD [OF assms]
  by (simp add: claims_of_def signed_payload_def field_def as_string_def)

lemma verify_admin_token:
  assumes "jwt_ok J" "0 \<le> sv" "sv \<le> MAX_SAFE_INTEGER"
  shows "verifyToken J (signAdminToken J u sv t0) now = (if now div 1000 < t0 div 1000 + 4 * 3600 then Some (Admin_claims u sv) else None)"
  unfolding verifyToken_def signAdminToken_def jwt_okD [OF assms(1)]
  using assms by (simp add: claims_of_def signed_payload_def field_def safe_nonneg_def as_string_def)

lemma preview_is_no_session:
  assumes "jwt_ok J"
  shows "verifyToken J (signPreviewToken J u f t0) now = None"
  unfolding verifyToken_def signPreviewToken_def jwt_okD [OF assms]
  by (simp add: claims_of_def signed_payload_def field_def as_string_def)

lemma session_is_no_preview:
  assumes "jwt_ok J"
  shows "verifyPreviewToken J (signStudentToken J u t0) f now = None"
  unfolding verifyPreviewToken_def signStudentToken_def jwt_okD [OF assms]
  by (simp add: signed_payload_def field_def as_string_def)

lemma verify_preview_token:
  assumes "jwt_ok J"
  shows "verifyPreviewToken J (signPreviewToken J u f t0) g now =
    (if now div 1000 < t0 div 1000 + 120 \<and> g = f then Some u else None)"
  unfolding verifyPreviewToken_def signPreviewToken_def jwt_okD [OF assms]
  by (simp add: signed_payload_def field_def as_string_def PREVIEW_TOKEN_TTL_SECONDS_def)

lemma resolveShopSession_Some:
  "resolveShopSession sub shopId sv users = Some se \<Longrightarrow>
    \<exists>u \<in> set users. su_id u = sub \<and> su_shopId u = shopId \<and> su_sessionVersion u = sv
      \<and> se = \<lparr>ss_id = sub, ss_shopId = shopId, ss_role = su_role u\<rparr>"
  by (auto simp: resolveShopSession_def split: option.splits if_splits dest!: find_SomeD)

end
