(* ===== verification/Accounts.thy ===== *)
theory Accounts
  imports Auth_Codes Session_Tokens Orders
begin

text \<open>
  modules/auth/routes.ts, the login, recovery and bootstrap of modules/admin, and the staff accounts of
  modules/shops/routes.ts. A handler that awaits several statements between which another request may run
  is a function from one phase to the next (\<open>student_step\<close>, \<open>reset_step\<close>, \<open>admin_reset_step\<close>); the
  others run as one step. The password hash (argon2) is a parameter: a hash of a salt and a text, and a check.
\<close>

record student_row =
  stu_id :: id
  stu_phone :: string
  stu_firebaseUid :: "string option"
  stu_name :: "string option"

record audit_row =
  av_adminId :: id
  av_action :: string
  av_subjectType :: string
  av_subjectId :: id
  av_reason :: "string option"
  av_createdAt :: millis

record auth_db =
  ab_students :: "student_row list"
  ab_shopUsers :: "shop_user_row list"
  ab_admins :: "admin_row list"
  ab_shops :: "shop_row list"
  ab_loginOtps :: "code_row list"
  ab_resetOtps :: "code_row list"
  ab_adminOtps :: "code_row list"
  ab_audit :: "audit_row list"

record auth_env =
  ae_localStudents :: bool
  ae_firebaseStudents :: bool
  ae_jwt :: jwt
  ae_hash :: "string \<Rightarrow> string \<Rightarrow> string"
  ae_verify :: "string \<Rightarrow> string \<Rightarrow> bool"
  ae_pepper :: string
  ae_dummyHash :: string
  ae_emailProvider :: string

definition audit :: "id \<Rightarrow> string \<Rightarrow> string \<Rightarrow> id \<Rightarrow> string option \<Rightarrow> millis \<Rightarrow> audit_row" where
  "audit adminId action subjectType subjectId reason now = \<lparr>av_adminId = adminId, av_action = action,
    av_subjectType = subjectType, av_subjectId = subjectId, av_reason = reason, av_createdAt = now\<rparr>"

subsection \<open>lib/otp.ts\<close>

definition pad_start :: "nat \<Rightarrow> char \<Rightarrow> string \<Rightarrow> string" where
  "pad_start n c s = replicate (n - length s) c @ s"

text \<open>The argument is the value of \<open>randomInt(0, 1_000_000)\<close>.\<close>

definition generateOtp :: "int \<Rightarrow> string" where
  "generateOtp r = pad_start 6 (CHR ''0'') (show_int r)"

definition hashOtp :: "auth_env \<Rightarrow> string \<Rightarrow> string \<Rightarrow> string" where
  "hashOtp E salt otp = ae_hash E salt (otp @ ae_pepper E)"

definition verifyOtpHash :: "auth_env \<Rightarrow> string \<Rightarrow> string \<Rightarrow> bool" where
  "verifyOtpHash E hash otp = ae_verify E hash (otp @ ae_pepper E)"

subsection \<open>Student login with a code\<close>

definition LOGIN_OTP_TTL_MS :: millis where "LOGIN_OTP_TTL_MS = 5 * 60000"
definition MAX_LOGIN_OTP_ATTEMPTS :: int where "MAX_LOGIN_OTP_ATTEMPTS = 5"
definition LOGIN_OTP_RESEND_MS :: millis where "LOGIN_OTP_RESEND_MS = 60000"
definition MAX_LOGIN_OTP_SENDS_PER_PHONE_PER_DAY :: nat where "MAX_LOGIN_OTP_SENDS_PER_PHONE_PER_DAY = 10"

text \<open>The second component is the message handed to the SMS provider.\<close>

definition requestLoginOtp :: "auth_env \<Rightarrow> string \<Rightarrow> id \<Rightarrow> string \<Rightarrow> int \<Rightarrow> millis \<Rightarrow> auth_db
    \<Rightarrow> unit result \<times> (string \<times> string) list \<times> auth_db" where
  "requestLoginOtp E phone newId salt r now db =
    (if \<not> ae_localStudents E then (Inl NotFound, [], db)
     else if sent_recently phone LOGIN_OTP_RESEND_MS now (ab_loginOtps db) then (Inl (TooMany ''wait a minute''), [], db)
     else if sent_today phone now (ab_loginOtps db) \<ge> MAX_LOGIN_OTP_SENDS_PER_PHONE_PER_DAY
       then (Inl (TooMany ''too many codes today''), [], db)
     else let otp = generateOtp r in
       case insert_code (new_code newId phone (hashOtp E salt otp) LOGIN_OTP_TTL_MS now) (ab_loginOtps db) of
         Inl e \<Rightarrow> (Inl e, [], db)
       | Inr rows \<Rightarrow> (Inr (), [(phone, otp)], db\<lparr>ab_loginOtps := rows\<rparr>))"

datatype student_phase =
    S_find
  | S_claim id string
  | S_check id string
  | S_consume id
  | S_upsert
  | S_done "string result"

definition upsert_student :: "id \<Rightarrow> string \<Rightarrow> student_row list \<Rightarrow> student_row \<times> student_row list" where
  "upsert_student newId phone rows = (case find (\<lambda>s. stu_phone s = phone) rows of
      Some s \<Rightarrow> (s, rows)
    | None \<Rightarrow> (let s = \<lparr>stu_id = newId, stu_phone = phone, stu_firebaseUid = None, stu_name = None\<rparr> in (s, rows @ [s])))"

definition student_step :: "auth_env \<Rightarrow> string \<Rightarrow> string \<Rightarrow> id \<Rightarrow> millis \<Rightarrow> student_phase \<Rightarrow> auth_db \<Rightarrow> student_phase \<times> auth_db" where
  "student_step E phone otp newId now ph db = (case ph of
      S_find \<Rightarrow> if \<not> ae_localStudents E then (S_done (Inl NotFound), db)
        else (case find_code phone now (ab_loginOtps db) of
            None \<Rightarrow> (S_done (Inl (BadRequest ''Code expired or not found'')), db)
          | Some r \<Rightarrow> (S_claim (oc_id r) (oc_otpHash r), db))
    | S_claim i h \<Rightarrow> (case claim_attempt MAX_LOGIN_OTP_ATTEMPTS i (ab_loginOtps db) of
          None \<Rightarrow> (S_done (Inl (BadRequest ''Too many wrong attempts'')), db)
        | Some rows \<Rightarrow> (S_check i h, db\<lparr>ab_loginOtps := rows\<rparr>))
    | S_check i h \<Rightarrow> if verifyOtpHash E h otp then (S_consume i, db) else (S_done (Inl (Unauthorized ''Incorrect code'')), db)
    | S_consume i \<Rightarrow> (case consume_code (\<lambda>_. True) i now (ab_loginOtps db) of
          None \<Rightarrow> (S_done (Inl (BadRequest ''Code expired or already used'')), db)
        | Some rows \<Rightarrow> (S_upsert, db\<lparr>ab_loginOtps := rows\<rparr>))
    | S_upsert \<Rightarrow> (case upsert_student newId phone (ab_students db) of (s, rows) \<Rightarrow>
        (S_done (Inr (signStudentToken (ae_jwt E) (stu_id s) now)), db\<lparr>ab_students := rows\<rparr>))
    | S_done res \<Rightarrow> (S_done res, db))"

subsection \<open>Student login with a Firebase identity, and the profile\<close>

definition firebaseLogin :: "auth_env \<Rightarrow> (string \<times> string) option \<Rightarrow> id \<Rightarrow> millis \<Rightarrow> auth_db \<Rightarrow> string result \<times> auth_db" where
  "firebaseLogin E identity newId now db =
    (if \<not> ae_firebaseStudents E then (Inl NotFound, db)
     else case identity of
       None \<Rightarrow> (Inl (Unauthorized ''Phone verification expired''), db)
     | Some (uid, phone) \<Rightarrow>
       (let byUid = find (\<lambda>s. stu_firebaseUid s = Some uid) (ab_students db);
            byPhone = find (\<lambda>s. stu_phone s = phone) (ab_students db);
            token = (\<lambda>i. signStudentToken (ae_jwt E) i now)
        in if byUid \<noteq> None \<and> stu_phone (the byUid) \<noteq> phone then (Inl (Unauthorized ''Firebase account identity changed''), db)
        else if byPhone \<noteq> None \<and> truthy (stu_firebaseUid (the byPhone)) \<and> stu_firebaseUid (the byPhone) \<noteq> Some uid
          then (Inl (Unauthorized ''This phone is linked to a different Firebase account''), db)
        else case byUid of
          Some s \<Rightarrow> (Inr (token (stu_id s)), db)
        | None \<Rightarrow> (case byPhone of
            Some s \<Rightarrow> (Inr (token (stu_id s)), db\<lparr>ab_students := update_where (\<lambda>x. stu_id x = stu_id s)
              (\<lambda>x. x\<lparr>stu_firebaseUid := Some uid\<rparr>) (ab_students db)\<rparr>)
          | None \<Rightarrow> (Inr (token newId), db\<lparr>ab_students := ab_students db
              @ [\<lparr>stu_id = newId, stu_phone = phone, stu_firebaseUid = Some uid, stu_name = None\<rparr>]\<rparr>))))"

definition studentMe :: "id \<Rightarrow> auth_db \<Rightarrow> student_row option" where
  "studentMe studentId db = find (\<lambda>s. stu_id s = studentId) (ab_students db)"

text \<open>\<open>update\<close> of a row that does not exist is an exception of the database layer.\<close>

definition patchStudentName :: "id \<Rightarrow> string option \<Rightarrow> auth_db \<Rightarrow> student_row result \<times> auth_db" where
  "patchStudentName studentId v db =
    (let name = (case v of None \<Rightarrow> [] | Some s \<Rightarrow> take 80 (trim s)) in
     if name = [] then (Inl (BadRequest ''Name is required''), db)
     else case find (\<lambda>s. stu_id s = studentId) (ab_students db) of
       None \<Rightarrow> (Inl (Thrown ''P2025''), db)
     | Some s \<Rightarrow> (Inr (s\<lparr>stu_name := Some name\<rparr>),
         db\<lparr>ab_students := update_where (\<lambda>x. stu_id x = studentId) (\<lambda>x. x\<lparr>stu_name := Some name\<rparr>) (ab_students db)\<rparr>))"

subsection \<open>Shop accounts: login and logout\<close>

definition password_login :: "auth_env \<Rightarrow> string \<Rightarrow> string \<Rightarrow> string \<Rightarrow> millis \<Rightarrow> auth_db \<Rightarrow> string result" where
  "password_login E refusal email secret now db =
    (let user = find (\<lambda>u. su_email u = email) (ab_shopUsers db);
         hash = (case user of None \<Rightarrow> ae_dummyHash E | Some u \<Rightarrow> su_passwordHash u);
         valid = ae_verify E hash secret
     in case user of
       None \<Rightarrow> Inl (Unauthorized refusal)
     | Some u \<Rightarrow> if \<not> valid then Inl (Unauthorized refusal)
       else Inr (signShopToken (ae_jwt E) (su_id u) (su_shopId u) (su_role u) (su_sessionVersion u) now))"

definition shopLogin :: "auth_env \<Rightarrow> string \<Rightarrow> string \<Rightarrow> millis \<Rightarrow> auth_db \<Rightarrow> string result" where
  "shopLogin E email password now db = password_login E ''Invalid email or password'' email password now db"

definition staffLogin :: "auth_env \<Rightarrow> string \<Rightarrow> string \<Rightarrow> millis \<Rightarrow> auth_db \<Rightarrow> string result" where
  "staffLogin E email pin now db = password_login E ''Invalid email or PIN'' email pin now db"

definition shopLogout :: "auth_env \<Rightarrow> auth_request \<Rightarrow> millis \<Rightarrow> auth_db \<Rightarrow> unit result \<times> auth_db" where
  "shopLogout E req now db = (case requireShopUser (ae_jwt E) req (ab_shopUsers db) now of
      Inl e \<Rightarrow> (Inl e, db)
    | Inr se \<Rightarrow> (Inr (), db\<lparr>ab_shopUsers := update_where (\<lambda>u. su_id u = ss_id se \<and> su_shopId u = ss_shopId se)
        (\<lambda>u. u\<lparr>su_sessionVersion := su_sessionVersion u + 1\<rparr>) (ab_shopUsers db)\<rparr>))"

subsection \<open>Password reset of a shop account\<close>

definition RESET_OTP_TTL_MS :: millis where "RESET_OTP_TTL_MS = 15 * 60000"
definition MAX_RESET_OTP_ATTEMPTS :: int where "MAX_RESET_OTP_ATTEMPTS = 5"
definition RESET_OTP_RESEND_MS :: millis where "RESET_OTP_RESEND_MS = 60000"
definition MAX_RESET_OTP_SENDS_PER_EMAIL_PER_DAY :: nat where "MAX_RESET_OTP_SENDS_PER_EMAIL_PER_DAY = 10"

text \<open>\<open>delivery\<close> is what the email provider answers: a message id, or the text of its exception.\<close>

definition sendPasswordResetCode :: "auth_env \<Rightarrow> string \<Rightarrow> id \<Rightarrow> string \<Rightarrow> int \<Rightarrow> string + string option \<Rightarrow> millis \<Rightarrow> auth_db
    \<Rightarrow> unit result \<times> (string \<times> string) list \<times> auth_db" where
  "sendPasswordResetCode E email newId salt r delivery now db =
    (if find (\<lambda>u. su_email u = email) (ab_shopUsers db) = None then (Inr (), [], db)
     else if sent_recently email RESET_OTP_RESEND_MS now (ab_resetOtps db)
       \<or> sent_today email now (ab_resetOtps db) \<ge> MAX_RESET_OTP_SENDS_PER_EMAIL_PER_DAY then (Inr (), [], db)
     else let otp = generateOtp r in
       case insert_code (new_code newId email (hashOtp E salt otp) RESET_OTP_TTL_MS now) (ab_resetOtps db) of
         Inl e \<Rightarrow> (Inl e, [], db)
       | Inr rows \<Rightarrow> (Inr (), [(email, otp)],
           db\<lparr>ab_resetOtps := record_delivery newId (ae_emailProvider E) delivery now rows\<rparr>))"

datatype reset_phase =
    R_find
  | R_claim id string
  | R_check id string
  | R_user id
  | R_swap id id
  | R_done "unit result"

definition set_password :: "id \<Rightarrow> string \<Rightarrow> shop_user_row list \<Rightarrow> shop_user_row list" where
  "set_password userId passwordHash users = update_where (\<lambda>u. su_id u = userId)
    (\<lambda>u. u\<lparr>su_passwordHash := passwordHash, su_sessionVersion := su_sessionVersion u + 1\<rparr>) users"

text \<open>\<open>R_swap\<close> is the transaction: an account that is gone by then rolls the use of the code back.\<close>

definition reset_step :: "auth_env \<Rightarrow> string \<Rightarrow> string \<Rightarrow> string \<Rightarrow> millis \<Rightarrow> reset_phase \<Rightarrow> auth_db \<Rightarrow> reset_phase \<times> auth_db" where
  "reset_step E email otp passwordHash now ph db = (case ph of
      R_find \<Rightarrow> (case find_code email now (ab_resetOtps db) of
          None \<Rightarrow> (R_done (Inl (BadRequest ''Code expired or not found'')), db)
        | Some r \<Rightarrow> (R_claim (oc_id r) (oc_otpHash r), db))
    | R_claim i h \<Rightarrow> (case claim_attempt MAX_RESET_OTP_ATTEMPTS i (ab_resetOtps db) of
          None \<Rightarrow> (R_done (Inl (BadRequest ''Too many wrong attempts'')), db)
        | Some rows \<Rightarrow> (R_check i h, db\<lparr>ab_resetOtps := rows\<rparr>))
    | R_check i h \<Rightarrow> if verifyOtpHash E h otp then (R_user i, db) else (R_done (Inl (Unauthorized ''Incorrect code'')), db)
    | R_user i \<Rightarrow> (case find (\<lambda>u. su_email u = email) (ab_shopUsers db) of
          None \<Rightarrow> (R_done (Inl (BadRequest ''Code expired or not found'')), db)
        | Some u \<Rightarrow> (R_swap i (su_id u), db))
    | R_swap i u \<Rightarrow> (case consume_code (\<lambda>_. True) i now (ab_resetOtps db) of
          None \<Rightarrow> (R_done (Inl (BadRequest ''Code expired or already used'')), db)
        | Some rows \<Rightarrow> if u \<notin> su_id ` set (ab_shopUsers db) then (R_done (Inl (Thrown ''P2025'')), db)
          else (R_done (Inr ()), db\<lparr>ab_resetOtps := rows, ab_shopUsers := set_password u passwordHash (ab_shopUsers db)\<rparr>))
    | R_done res \<Rightarrow> (R_done res, db))"

subsection \<open>The platform administrator\<close>

definition adminLogin :: "auth_env \<Rightarrow> string \<Rightarrow> string \<Rightarrow> millis \<Rightarrow> auth_db \<Rightarrow> string result" where
  "adminLogin E email password now db =
    (let admin = find (\<lambda>a. ad_email a = email) (ab_admins db);
         valid = ae_verify E (case admin of None \<Rightarrow> ae_dummyHash E | Some a \<Rightarrow> ad_passwordHash a) password
     in case admin of
       None \<Rightarrow> Inl (Unauthorized ''Invalid email or password'')
     | Some a \<Rightarrow> if \<not> ad_active a \<or> \<not> valid then Inl (Unauthorized ''Invalid email or password'')
       else Inr (signAdminToken (ae_jwt E) (ad_id a) (ad_sessionVersion a) now))"

definition adminLogout :: "auth_env \<Rightarrow> auth_request \<Rightarrow> millis \<Rightarrow> auth_db \<Rightarrow> unit result \<times> auth_db" where
  "adminLogout E req now db = (case requireAdmin (ae_jwt E) req (ab_admins db) now of
      Inl e \<Rightarrow> (Inl e, db)
    | Inr i \<Rightarrow> (Inr (), db\<lparr>ab_admins := update_where (\<lambda>a. ad_id a = i)
        (\<lambda>a. a\<lparr>ad_sessionVersion := ad_sessionVersion a + 1\<rparr>) (ab_admins db)\<rparr>))"

definition ADMIN_RESET_TTL_MS :: millis where "ADMIN_RESET_TTL_MS = 15 * 60000"
definition ADMIN_RESET_RESEND_MS :: millis where "ADMIN_RESET_RESEND_MS = 60000"
definition ADMIN_RESET_DAILY_LIMIT :: nat where "ADMIN_RESET_DAILY_LIMIT = 10"
definition ADMIN_RESET_MAX_ATTEMPTS :: int where "ADMIN_RESET_MAX_ATTEMPTS = 5"

definition active_admin :: "string \<Rightarrow> auth_db \<Rightarrow> id option" where
  "active_admin email db = (case find (\<lambda>a. ad_email a = email) (ab_admins db) of
      None \<Rightarrow> None
    | Some a \<Rightarrow> if ad_active a then Some (ad_id a) else None)"

definition requestAdminReset :: "auth_env \<Rightarrow> string \<Rightarrow> id \<Rightarrow> string \<Rightarrow> int \<Rightarrow> string + string option \<Rightarrow> millis \<Rightarrow> auth_db
    \<Rightarrow> unit result \<times> (string \<times> string) list \<times> auth_db" where
  "requestAdminReset E email newId salt r delivery now db = (case active_admin email db of
      None \<Rightarrow> (Inr (), [], db)
    | Some adminId \<Rightarrow>
      if sent_recently adminId ADMIN_RESET_RESEND_MS now (ab_adminOtps db)
        \<or> sent_today adminId now (ab_adminOtps db) \<ge> ADMIN_RESET_DAILY_LIMIT then (Inr (), [], db)
      else let otp = generateOtp r in
        case insert_code (new_code newId adminId (hashOtp E salt otp) ADMIN_RESET_TTL_MS now) (ab_adminOtps db) of
          Inl e \<Rightarrow> (Inl e, [], db)
        | Inr rows \<Rightarrow> (Inr (), [(email, otp)],
            db\<lparr>ab_adminOtps := record_delivery newId (ae_emailProvider E) delivery now rows\<rparr>))"

datatype admin_phase =
    A_account
  | A_find id
  | A_check id id string
  | A_wrong id
  | A_swap id id
  | A_done "unit result"

definition admin_reset_step :: "auth_env \<Rightarrow> string \<Rightarrow> string \<Rightarrow> string \<Rightarrow> millis \<Rightarrow> admin_phase \<Rightarrow> auth_db \<Rightarrow> admin_phase \<times> auth_db" where
  "admin_reset_step E email otp passwordHash now ph db = (case ph of
      A_account \<Rightarrow> (case active_admin email db of
          None \<Rightarrow> (A_done (Inl (BadRequest ''Code expired or not found'')), db)
        | Some a \<Rightarrow> (A_find a, db))
    | A_find a \<Rightarrow> (case find_code a now (ab_adminOtps db) of
          None \<Rightarrow> (A_done (Inl (BadRequest ''Code expired or not found'')), db)
        | Some r \<Rightarrow> if oc_attempts r \<ge> ADMIN_RESET_MAX_ATTEMPTS then (A_done (Inl (BadRequest ''Too many wrong attempts'')), db)
          else (A_check a (oc_id r) (oc_otpHash r), db))
    | A_check a i h \<Rightarrow> if verifyOtpHash E h otp then (A_swap a i, db) else (A_wrong i, db)
    | A_wrong i \<Rightarrow> (A_done (Inl (Unauthorized ''Incorrect code'')), db\<lparr>ab_adminOtps :=
        (case claim_attempt ADMIN_RESET_MAX_ATTEMPTS i (ab_adminOtps db) of None \<Rightarrow> ab_adminOtps db | Some rows \<Rightarrow> rows)\<rparr>)
    | A_swap a i \<Rightarrow> (case consume_code (\<lambda>r. oc_attempts r < ADMIN_RESET_MAX_ATTEMPTS) i now (ab_adminOtps db) of
          None \<Rightarrow> (A_done (Inl (BadRequest ''Code expired or already used'')), db)
        | Some rows \<Rightarrow> if a \<notin> ad_id ` set (ab_admins db) then (A_done (Inl (Thrown ''P2025'')), db)
          else (A_done (Inr ()), db\<lparr>ab_adminOtps := rows, ab_admins := update_where (\<lambda>x. ad_id x = a)
            (\<lambda>x. x\<lparr>ad_passwordHash := passwordHash, ad_sessionVersion := ad_sessionVersion x + 1\<rparr>) (ab_admins db),
            ab_audit := ab_audit db @ [audit a ''admin_password_reset'' ''admin_user'' a None now]\<rparr>))
    | A_done res \<Rightarrow> (A_done res, db))"

text \<open>modules/admin/bootstrap.ts; \<open>fallback\<close> is the hash of a random password that nobody knows.\<close>

definition ensureBootstrapAdmin :: "string option \<Rightarrow> string option \<Rightarrow> string \<Rightarrow> id \<Rightarrow> auth_db \<Rightarrow> auth_db" where
  "ensureBootstrapAdmin email configured fallback newId db =
    (if \<not> truthy email then db
     else if find (\<lambda>a. ad_email a = the email) (ab_admins db) \<noteq> None then db
     else db\<lparr>ab_admins := ab_admins db @ [\<lparr>ad_id = newId, ad_email = the email,
       ad_passwordHash = (case configured of Some h \<Rightarrow> h | None \<Rightarrow> fallback), ad_sessionVersion = 0,
       ad_name = ''Platform Administrator'', ad_active = True\<rparr>]\<rparr>)"

subsection \<open>Registration of a shop\<close>

definition slug_char :: "char \<Rightarrow> bool" where
  "slug_char c = (let n = code_of c in (48 \<le> n \<and> n \<le> 57) \<or> (97 \<le> n \<and> n \<le> 122))"

text \<open>\<open>replace(/[^a-z0-9]+/g, '-')\<close>; the flag says that the run of other characters already gave its dash.\<close>

fun dash_runs :: "bool \<Rightarrow> string \<Rightarrow> string" where
  "dash_runs b [] = []"
| "dash_runs b (c # cs) = (if slug_char c then c # dash_runs False cs
    else if b then dash_runs True cs else CHR ''-'' # dash_runs True cs)"

definition strip_dashes :: "string \<Rightarrow> string" where
  "strip_dashes s = rev (dropWhile (\<lambda>c. c = CHR ''-'') (rev (dropWhile (\<lambda>c. c = CHR ''-'') s)))"

definition baseSlug :: "string \<Rightarrow> string" where
  "baseSlug shopName = (let s = take 40 (strip_dashes (dash_runs False (lower_case shopName))) in if s = [] then ''shop'' else s)"

definition numbered :: "string \<Rightarrow> nat \<Rightarrow> string" where
  "numbered base i = base @ CHR ''-'' # show_nat i"

lemma numbered_inj: "numbered base i = numbered base j \<longleftrightarrow> i = j"
proof
  assume "numbered base i = numbered base j"
  then have "show_nat i = show_nat j" by (simp add: numbered_def)
  then have "to_number (show_nat i) = to_number (show_nat j)" by simp
  then show "i = j" by (simp add: show_nat_facts)
qed simp

text \<open>A search through distinct candidates passes each taken one at most once.\<close>

lemma probe_measure:
  fixes cand :: "nat \<Rightarrow> string"
  assumes "inj cand" "cand i \<in> set taken"
  shows "card {j. Suc i \<le> j \<and> cand j \<in> set taken} < card {j. i \<le> j \<and> cand j \<in> set taken}"
proof (rule psubset_card_mono)
  have "finite (cand -` set taken)" using assms(1) by (simp add: finite_vimageI)
  then show "finite {j. i \<le> j \<and> cand j \<in> set taken}"
    by (rule rev_finite_subset) auto
  have "i \<in> {j. i \<le> j \<and> cand j \<in> set taken} - {j. Suc i \<le> j \<and> cand j \<in> set taken}"
    "{j. Suc i \<le> j \<and> cand j \<in> set taken} \<subseteq> {j. i \<le> j \<and> cand j \<in> set taken}"
    using assms(2) by auto
  then show "{j. Suc i \<le> j \<and> cand j \<in> set taken} \<subset> {j. i \<le> j \<and> cand j \<in> set taken}" by blast
qed

text \<open>
  The inner loop \<open>for (let i = 2; await taken(slug); i++)\<close>. It ends because the numbered slugs differ and
  only finitely many are taken.
\<close>

function next_slug :: "string list \<Rightarrow> string \<Rightarrow> nat \<Rightarrow> string" where
  "next_slug taken base i = (if numbered base i \<in> set taken then next_slug taken base (Suc i) else numbered base i)"
  by auto
termination
proof (relation "measure (\<lambda>(taken, base, i). card {j. i \<le> j \<and> numbered base j \<in> set taken})")
  fix taken base i
  assume a: "numbered base i \<in> set taken"
  have "inj (numbered base)" by (auto intro: injI simp: numbered_inj)
  then show "((taken, base, Suc i), taken, base, i) \<in> measure (\<lambda>(taken, base, i). card {j. i \<le> j \<and> numbered base j \<in> set taken})"
    using probe_measure a by simp
qed simp

declare next_slug.simps [simp del]

definition free_slug :: "string \<Rightarrow> shop_row list \<Rightarrow> string" where
  "free_slug base shops = (let taken = map sh_slug shops in if base \<in> set taken then next_slug taken base 2 else base)"

record registration =
  rg_shopName :: string
  rg_address :: string
  rg_campusName :: "string option"
  rg_ownerName :: string
  rg_email :: string

definition registered_shop :: "id \<Rightarrow> string \<Rightarrow> registration \<Rightarrow> shop_row" where
  "registered_shop shopId slug b = \<lparr>sh_id = shopId, sh_slug = slug, sh_verificationStatus = V_draft, sh_publishedAt = None,
    sh_autoLive = True, sh_latitude = None, sh_longitude = None, sh_checkInRadiusM = 200, sh_counterCapacity = 5,
    sh_revealGraceSeconds = 60, sh_counterUpiVpa = None, sh_counterUpiVerifiedAt = None, sh_autoAssignEnabled = True,
    sh_acceptingOrders = True, sh_feeBlockedAt = None, sh_feeBlockReason = None, sh_feeBlockOverrideUntil = None,
    sh_printOptions = Some DEFAULT_PRINT_OPTIONS, sh_printOptionsVersion = 0, sh_name = rg_shopName b,
    sh_address = rg_address b, sh_campusId = None, sh_campusName = rg_campusName b, sh_verificationSubmittedAt = None,
    sh_verifiedAt = None, sh_verificationNotes = None, sh_locationUpdatedAt = None, sh_cashPaymentsEnabled = False,
    sh_counterUpiPayeeName = None, sh_payoutSchedule = Po_daily, sh_razorpayLinkedAccountId = None\<rparr>"

definition new_user :: "id \<Rightarrow> id \<Rightarrow> string \<Rightarrow> string \<Rightarrow> string \<Rightarrow> shop_role \<Rightarrow> shop_user_row" where
  "new_user newId shopId email passwordHash name role = \<lparr>su_id = newId, su_shopId = shopId, su_email = email,
    su_passwordHash = passwordHash, su_name = name, su_role = role, su_sessionVersion = 0\<rparr>"

text \<open>The transaction of the two inserts: a unique constraint (slug, email, primary key) rolls both back.\<close>

definition createShopWithOwner :: "id \<Rightarrow> id \<Rightarrow> string \<Rightarrow> string \<Rightarrow> registration \<Rightarrow> auth_db \<Rightarrow> auth_db option" where
  "createShopWithOwner shopId userId slug passwordHash b db =
    (if slug \<in> sh_slug ` set (ab_shops db) \<or> rg_email b \<in> su_email ` set (ab_shopUsers db)
      \<or> userId \<in> su_id ` set (ab_shopUsers db) then None
     else Some (db\<lparr>ab_shops := ab_shops db @ [registered_shop shopId slug b],
       ab_shopUsers := ab_shopUsers db @ [new_user userId shopId (rg_email b) passwordHash (rg_ownerName b) Owner]\<rparr>))"

definition DUPLICATE_EMAIL :: string where "DUPLICATE_EMAIL = ''An account with this email already exists''"

text \<open>
  \<open>world a\<close> is what the other requests do to the database between the search for a slug and the transaction of
  attempt a. The loop gives up after the attempt number 4.
\<close>

function register_loop :: "(nat \<Rightarrow> auth_db \<Rightarrow> auth_db) \<Rightarrow> id \<Rightarrow> id \<Rightarrow> string \<Rightarrow> registration \<Rightarrow> nat \<Rightarrow> auth_db
    \<Rightarrow> unit result \<times> auth_db" where
  "register_loop world shopId userId passwordHash b attempt db =
    (let slug = free_slug (baseSlug (rg_shopName b)) (ab_shops db); db1 = world attempt db in
     case createShopWithOwner shopId userId slug passwordHash b db1 of
       Some db2 \<Rightarrow> (Inr (), db2)
     | None \<Rightarrow> if rg_email b \<in> su_email ` set (ab_shopUsers db1) then (Inl (Conflict DUPLICATE_EMAIL), db1)
       else if attempt \<ge> 4 then (Inl (Thrown ''P2002''), db1)
       else register_loop world shopId userId passwordHash b (Suc attempt) db1)"
  by auto
termination by (relation "measure (\<lambda>(_, _, _, _, _, attempt, _). 4 - attempt)") auto

declare register_loop.simps [simp del]

definition registerShop :: "auth_env \<Rightarrow> (nat \<Rightarrow> auth_db \<Rightarrow> auth_db) \<Rightarrow> id \<Rightarrow> id \<Rightarrow> string \<Rightarrow> registration \<Rightarrow> millis \<Rightarrow> auth_db
    \<Rightarrow> string result \<times> auth_db" where
  "registerShop E world shopId userId passwordHash b now db =
    (if rg_email b \<in> su_email ` set (ab_shopUsers db) then (Inl (Conflict DUPLICATE_EMAIL), db)
     else case register_loop world shopId userId passwordHash b 0 db of
       (Inl e, db1) \<Rightarrow> (Inl e, db1)
     | (Inr _, db1) \<Rightarrow> (Inr (signShopToken (ae_jwt E) userId shopId Owner 0 now), db1))"

subsection \<open>Staff accounts (modules/shops/routes.ts)\<close>

definition createStaff :: "shop_session \<Rightarrow> string \<Rightarrow> string \<Rightarrow> string \<Rightarrow> id \<Rightarrow> auth_db \<Rightarrow> id result \<times> auth_db" where
  "createStaff se email name pinHash newId db =
    (if email \<in> su_email ` set (ab_shopUsers db) then (Inl (BadRequest DUPLICATE_EMAIL), db)
     else if newId \<in> su_id ` set (ab_shopUsers db) then (Inl (Thrown ''P2002''), db)
     else (Inr newId, db\<lparr>ab_shopUsers := ab_shopUsers db @ [new_user newId (ss_shopId se) email pinHash name Staff]\<rparr>))"

definition deleteStaff :: "shop_session \<Rightarrow> id \<Rightarrow> auth_db \<Rightarrow> unit result \<times> auth_db" where
  "deleteStaff se i db = (case find (\<lambda>u. su_id u = i \<and> su_shopId u = ss_shopId se) (ab_shopUsers db) of
      None \<Rightarrow> (Inl NotFound, db)
    | Some u \<Rightarrow> if su_role u = Owner then (Inl (Conflict ''The owner account cannot be removed''), db)
      else (Inr (), db\<lparr>ab_shopUsers := filter (\<lambda>x. su_id x \<noteq> i) (ab_shopUsers db)\<rparr>))"

end
