(* ===== verification/Account_Runs.thy ===== *)
theory Account_Runs
  imports Accounts
begin

text \<open>
  The accounts under concurrent requests. A request that verifies a code is a call that runs phase by phase;
  the phases of any number of calls interleave with one another and with the other handlers, in any order and
  at any times (\<open>run\<close>). The log keeps, per table, which codes were compared with a guess and which were used.
\<close>

datatype code_table = T_login | T_reset | T_admin

datatype code_event = Checked code_table id | Used code_table id

datatype call =
    Student_call string string id student_phase
  | Reset_call string string string reset_phase
  | Admin_call string string string admin_phase

record auth_sys =
  sy_db :: auth_db
  sy_calls :: "call list"
  sy_log :: "code_event list"

fun call_log :: "call \<Rightarrow> call \<Rightarrow> code_event list" where
  "call_log (Student_call _ _ _ (S_check i h)) c = [Checked T_login i]"
| "call_log (Student_call _ _ _ (S_consume i)) (Student_call _ _ _ S_upsert) = [Used T_login i]"
| "call_log (Reset_call _ _ _ (R_check i h)) c = [Checked T_reset i]"
| "call_log (Reset_call _ _ _ (R_swap i u)) (Reset_call _ _ _ (R_done (Inr x))) = [Used T_reset i]"
| "call_log (Admin_call _ _ _ (A_check a i h)) c = [Checked T_admin i]"
| "call_log (Admin_call _ _ _ (A_swap a i)) (Admin_call _ _ _ (A_done (Inr x))) = [Used T_admin i]"
| "call_log _ _ = []"

definition step_call :: "auth_env \<Rightarrow> millis \<Rightarrow> call \<Rightarrow> auth_db \<Rightarrow> call \<times> auth_db" where
  "step_call E now c db = (case c of
      Student_call phone otp newId ph \<Rightarrow> map_prod (Student_call phone otp newId) id (student_step E phone otp newId now ph db)
    | Reset_call email otp h ph \<Rightarrow> map_prod (Reset_call email otp h) id (reset_step E email otp h now ph db)
    | Admin_call email otp h ph \<Rightarrow> map_prod (Admin_call email otp h) id (admin_reset_step E email otp h now ph db))"

datatype auth_event =
    Ev_request_login string id string int
  | Ev_request_reset string id string int "string + string option"
  | Ev_request_admin string id string int "string + string option"
  | Ev_start_login string string id
  | Ev_start_reset string string string
  | Ev_start_admin string string string
  | Ev_step nat
  | Ev_logout auth_request
  | Ev_admin_logout auth_request
  | Ev_firebase "(string \<times> string) option" id
  | Ev_rename id "string option"
  | Ev_register id id string registration
  | Ev_create_staff auth_request string string string id
  | Ev_delete_staff auth_request id
  | Ev_bootstrap "string option" "string option" string id

definition with_db :: "auth_sys \<Rightarrow> auth_db \<Rightarrow> auth_sys" where
  "with_db s db = s\<lparr>sy_db := db\<rparr>"

definition start_call :: "call \<Rightarrow> auth_sys \<Rightarrow> auth_sys" where
  "start_call c s = s\<lparr>sy_calls := sy_calls s @ [c]\<rparr>"

definition step_nth :: "auth_env \<Rightarrow> millis \<Rightarrow> nat \<Rightarrow> auth_sys \<Rightarrow> auth_sys" where
  "step_nth E now k s = (if k \<ge> length (sy_calls s) then s
    else case step_call E now (sy_calls s ! k) (sy_db s) of (c, db) \<Rightarrow>
      \<lparr>sy_db = db, sy_calls = (sy_calls s)[k := c], sy_log = sy_log s @ call_log (sy_calls s ! k) c\<rparr>)"

text \<open>The staff routes run only for the session of an owner.\<close>

definition as_owner :: "auth_env \<Rightarrow> auth_request \<Rightarrow> millis \<Rightarrow> (shop_session \<Rightarrow> auth_db \<Rightarrow> auth_db) \<Rightarrow> auth_db \<Rightarrow> auth_db" where
  "as_owner E req now f db = (case requireShopOwner (ae_jwt E) req (ab_shopUsers db) now of Inl e \<Rightarrow> db | Inr se \<Rightarrow> f se db)"

definition exec :: "auth_env \<Rightarrow> millis \<times> auth_event \<Rightarrow> auth_sys \<Rightarrow> auth_sys" where
  "exec E ev s = (let now = fst ev; db = sy_db s in case snd ev of
      Ev_request_login phone newId salt r \<Rightarrow> with_db s (snd (snd (requestLoginOtp E phone newId salt r now db)))
    | Ev_request_reset email newId salt r delivery \<Rightarrow> with_db s (snd (snd (sendPasswordResetCode E email newId salt r delivery now db)))
    | Ev_request_admin email newId salt r delivery \<Rightarrow> with_db s (snd (snd (requestAdminReset E email newId salt r delivery now db)))
    | Ev_start_login phone otp newId \<Rightarrow> start_call (Student_call phone otp newId S_find) s
    | Ev_start_reset email otp h \<Rightarrow> start_call (Reset_call email otp h R_find) s
    | Ev_start_admin email otp h \<Rightarrow> start_call (Admin_call email otp h A_account) s
    | Ev_step k \<Rightarrow> step_nth E now k s
    | Ev_logout req \<Rightarrow> with_db s (snd (shopLogout E req now db))
    | Ev_admin_logout req \<Rightarrow> with_db s (snd (adminLogout E req now db))
    | Ev_firebase identity newId \<Rightarrow> with_db s (snd (firebaseLogin E identity newId now db))
    | Ev_rename studentId v \<Rightarrow> with_db s (snd (patchStudentName studentId v db))
    | Ev_register shopId userId h b \<Rightarrow> with_db s (snd (registerShop E (\<lambda>_ d. d) shopId userId h b now db))
    | Ev_create_staff req email name h newId \<Rightarrow> with_db s (as_owner E req now (\<lambda>se d. snd (createStaff se email name h newId d)) db)
    | Ev_delete_staff req i \<Rightarrow> with_db s (as_owner E req now (\<lambda>se d. snd (deleteStaff se i d)) db)
    | Ev_bootstrap email configured fallback newId \<Rightarrow> with_db s (ensureBootstrapAdmin email configured fallback newId db))"

definition run :: "auth_env \<Rightarrow> (millis \<times> auth_event) list \<Rightarrow> auth_sys \<Rightarrow> auth_sys" where
  "run E evs s = fold (exec E) evs s"

definition boot :: "auth_db \<Rightarrow> auth_sys" where
  "boot db = \<lparr>sy_db = db, sy_calls = [], sy_log = []\<rparr>"

definition no_codes :: "auth_db \<Rightarrow> bool" where
  "no_codes db = (ab_loginOtps db = [] \<and> ab_resetOtps db = [] \<and> ab_adminOtps db = [])"

lemma run_simps [simp]:
  "run E [] s = s" "run E (ev # evs) s = run E evs (exec E ev s)" "run E (evs @ evs') s = run E evs' (run E evs s)"
  by (simp_all add: run_def)

lemma run_invariant:
  assumes "P s" "\<And>ev s. P s \<Longrightarrow> P (exec E ev s)"
  shows "P (run E evs s)"
  using assms(1) by (induction evs arbitrary: s) (simp_all add: assms(2))

subsection \<open>The budget of guesses\<close>

text \<open>The guesses of a code that a call has claimed and not yet spent.\<close>

fun claimed :: "code_table \<Rightarrow> id \<Rightarrow> call \<Rightarrow> bool" where
  "claimed T_login k (Student_call _ _ _ (S_check i h)) = (i = k)"
| "claimed T_reset k (Reset_call _ _ _ (R_check i h)) = (i = k)"
| "claimed _ _ _ = False"

definition spent :: "code_table \<Rightarrow> auth_sys \<Rightarrow> id \<Rightarrow> int" where
  "spent t s i = int (count_list (sy_log s) (Checked t i)) + int (length (filter (claimed t i) (sy_calls s)))"

definition used :: "code_table \<Rightarrow> auth_sys \<Rightarrow> id \<Rightarrow> int" where
  "used t s i = int (count_list (sy_log s) (Used t i))"

definition budget_inv :: "auth_sys \<Rightarrow> bool" where
  "budget_inv s = (codes_ok 5 (ab_loginOtps (sy_db s)) (spent T_login s) (used T_login s)
    \<and> codes_ok 5 (ab_resetOtps (sy_db s)) (spent T_reset s) (used T_reset s)
    \<and> codes_ok 5 (ab_adminOtps (sy_db s)) (\<lambda>_. 0) (used T_admin s))"

text \<open>What one phase of a call adds to the two counts.\<close>

definition more_spent :: "code_table \<Rightarrow> id \<Rightarrow> call \<Rightarrow> call \<Rightarrow> int" where
  "more_spent t i c c' = int (count_list (call_log c c') (Checked t i))
    + (if claimed t i c' then 1 else 0) - (if claimed t i c then 1 else 0)"

definition more_used :: "code_table \<Rightarrow> id \<Rightarrow> call \<Rightarrow> call \<Rightarrow> int" where
  "more_used t i c c' = int (count_list (call_log c c') (Used t i))"

lemma length_filter_list_update:
  "k < length xs \<Longrightarrow> int (length (filter P (xs[k := y])))
    = int (length (filter P xs)) + (if P y then 1 else 0) - (if P (xs ! k) then 1 else 0)"
proof (induction xs arbitrary: k)
  case (Cons x xs)
  show ?case
  proof (cases k)
    case (Suc j)
    then show ?thesis
      using Cons.IH [of j] Cons.prems by (cases "P y"; cases "P (xs ! j)"; simp)
  qed simp
qed simp

lemma step_nth_counts:
  assumes "k < length (sy_calls s)" "step_call E now (sy_calls s ! k) (sy_db s) = (c', db')"
  shows "spent t (step_nth E now k s) i = spent t s i + more_spent t i (sy_calls s ! k) c'"
    "used t (step_nth E now k s) i = used t s i + more_used t i (sy_calls s ! k) c'"
    "sy_db (step_nth E now k s) = db'"
  using assms by (simp_all add: step_nth_def spent_def used_def more_spent_def more_used_def count_list_append length_filter_list_update)

lemma codes_ok_claim_step:
  assumes "codes_ok n rows f g" "claim_attempt n k rows = Some rows'"
  shows "codes_ok n rows' (\<lambda>i. f i + (if k = i then 1 else 0)) g"
proof -
  have "(\<lambda>i. f i + (if k = i then 1 else 0)) = f(k := f k + 1)" by auto
  then show ?thesis using codes_ok_claim [OF assms] by simp
qed

lemma codes_ok_use_step:
  assumes "codes_ok n rows f g" "consume_code x k now rows = Some rows'"
  shows "codes_ok n rows' f (\<lambda>i. g i + (if k = i then 1 else 0))"
proof -
  have "(\<lambda>i. g i + (if k = i then 1 else 0)) = g(k := g k + 1)" by auto
  then show ?thesis using codes_ok_consume [OF assms] by simp
qed

lemma codes_ok_less: "codes_ok n rows f g \<Longrightarrow> (\<And>i. f' i \<le> f i) \<Longrightarrow> codes_ok n rows f' g"
  unfolding codes_ok_def by (meson order_trans)

lemma logged_once:
  "int (count_list [Checked t k] (Checked t i)) = (if k = i then 1 else 0)"
  "int (count_list [Used t k] (Used t i)) = (if k = i then 1 else 0)"
  by simp_all

lemmas more_defs = more_spent_def more_used_def

lemma student_step_codes:
  assumes "student_step E phone otp newId now ph db = (ph', db')" "codes_ok 5 (ab_loginOtps db) f g"
  shows "codes_ok 5 (ab_loginOtps db')
    (\<lambda>i. f i + more_spent T_login i (Student_call phone otp newId ph) (Student_call phone otp newId ph'))
    (\<lambda>i. g i + more_used T_login i (Student_call phone otp newId ph) (Student_call phone otp newId ph'))"
proof (cases ph)
  case (S_claim i h)
  then show ?thesis
    using assms by (auto simp del: count_list.simps(2) simp: student_step_def MAX_LOGIN_OTP_ATTEMPTS_def more_defs logged_once split: option.splits
      intro: codes_ok_claim_step)
next
  case (S_consume i)
  then show ?thesis
    using assms by (auto simp del: count_list.simps(2) simp: student_step_def more_defs logged_once split: option.splits intro: codes_ok_use_step)
qed (use assms in \<open>auto simp del: count_list.simps(2) simp: student_step_def more_defs logged_once upsert_student_def Let_def split: option.splits if_splits prod.splits\<close>)

lemma reset_step_codes:
  assumes "reset_step E email otp h now ph db = (ph', db')" "codes_ok 5 (ab_resetOtps db) f g"
  shows "codes_ok 5 (ab_resetOtps db')
    (\<lambda>i. f i + more_spent T_reset i (Reset_call email otp h ph) (Reset_call email otp h ph'))
    (\<lambda>i. g i + more_used T_reset i (Reset_call email otp h ph) (Reset_call email otp h ph'))"
proof (cases ph)
  case (R_claim i h)
  then show ?thesis
    using assms by (auto simp del: count_list.simps(2) simp: reset_step_def MAX_RESET_OTP_ATTEMPTS_def more_defs logged_once split: option.splits
      intro: codes_ok_claim_step)
next
  case (R_swap i u)
  then show ?thesis
    using assms by (auto simp del: count_list.simps(2) simp: reset_step_def more_defs logged_once split: option.splits if_splits intro: codes_ok_use_step)
qed (use assms in \<open>auto simp del: count_list.simps(2) simp: reset_step_def more_defs logged_once split: option.splits if_splits\<close>)

lemma admin_step_codes:
  assumes "admin_reset_step E email otp h now ph db = (ph', db')" "codes_ok 5 (ab_adminOtps db) (\<lambda>_. 0) g"
  shows "codes_ok 5 (ab_adminOtps db') (\<lambda>_. 0)
    (\<lambda>i. g i + more_used T_admin i (Admin_call email otp h ph) (Admin_call email otp h ph'))"
proof (cases ph)
  case (A_wrong i)
  have "codes_ok 5 rows' (\<lambda>_. 0) g" if "claim_attempt 5 i (ab_adminOtps db) = Some rows'" for rows'
    using codes_ok_claim_step [OF assms(2) that] by (rule codes_ok_less) simp
  with A_wrong show ?thesis
    using assms by (auto simp del: count_list.simps(2) simp: admin_reset_step_def ADMIN_RESET_MAX_ATTEMPTS_def more_defs logged_once split: option.splits)
next
  case (A_swap a i)
  then show ?thesis
    using assms by (auto simp del: count_list.simps(2) simp: admin_reset_step_def more_defs logged_once split: option.splits if_splits intro: codes_ok_use_step)
qed (use assms in \<open>auto simp del: count_list.simps(2) simp: admin_reset_step_def more_defs logged_once split: option.splits if_splits\<close>)

text \<open>A call touches only the codes of its own table.\<close>

lemma other_tables:
  "student_step E phone otp newId now sp db = (sp', db') \<Longrightarrow>
    ab_resetOtps db' = ab_resetOtps db \<and> ab_adminOtps db' = ab_adminOtps db \<and> ab_shopUsers db' = ab_shopUsers db"
  "reset_step E email otp h now rp db = (rp', db') \<Longrightarrow>
    ab_loginOtps db' = ab_loginOtps db \<and> ab_adminOtps db' = ab_adminOtps db"
  "admin_reset_step E email otp h now ap db = (ap', db') \<Longrightarrow>
    ab_loginOtps db' = ab_loginOtps db \<and> ab_resetOtps db' = ab_resetOtps db \<and> ab_shopUsers db' = ab_shopUsers db"
  by (auto simp: student_step_def reset_step_def admin_reset_step_def Let_def
    split: student_phase.splits reset_phase.splits admin_phase.splits option.splits if_splits prod.splits)

fun call_table :: "call \<Rightarrow> code_table" where
  "call_table (Student_call _ _ _ _) = T_login"
| "call_table (Reset_call _ _ _ _) = T_reset"
| "call_table (Admin_call _ _ _ _) = T_admin"

lemma claimed_table: "claimed t i c \<Longrightarrow> t = call_table c"
  by (induction t i c rule: claimed.induct) auto

lemma logged_table:
  "Checked t i \<in> set (call_log c c') \<Longrightarrow> t = call_table c"
  "Used t i \<in> set (call_log c c') \<Longrightarrow> t = call_table c"
  by (induction c c' rule: call_log.induct) auto

lemma other_counts:
  assumes "call_table c \<noteq> t" "call_table c' = call_table c"
  shows "more_spent t i c c' = 0" "more_used t i c c' = 0"
proof -
  have "\<not> claimed t i c" "\<not> claimed t i c'" using assms claimed_table by metis+
  moreover have "count_list (call_log c c') (Checked t i) = 0" "count_list (call_log c c') (Used t i) = 0"
    using assms(1) logged_table by (metis count_list_0_iff)+
  ultimately show "more_spent t i c c' = 0" "more_used t i c c' = 0" by (simp_all add: more_defs)
qed

lemma step_call_table: "step_call E now c db = (c', db') \<Longrightarrow> call_table c' = call_table c"
  by (cases c) (auto simp: step_call_def map_prod_def split: prod.splits)

lemma budget_step:
  assumes "budget_inv s"
  shows "budget_inv (step_nth E now k s)"
proof (cases "k < length (sy_calls s)")
  case True
  obtain c' db' where st: "step_call E now (sy_calls s ! k) (sy_db s) = (c', db')" by fastforce
  let ?c = "sy_calls s ! k"
  note counts = step_nth_counts [OF True st]
  note same = step_call_table [OF st]
  have b: "codes_ok 5 (ab_loginOtps (sy_db s)) (spent T_login s) (used T_login s)"
    "codes_ok 5 (ab_resetOtps (sy_db s)) (spent T_reset s) (used T_reset s)"
    "codes_ok 5 (ab_adminOtps (sy_db s)) (\<lambda>_. 0) (used T_admin s)"
    using assms by (simp_all add: budget_inv_def)
  have "codes_ok 5 (ab_loginOtps db') (\<lambda>i. spent T_login s i + more_spent T_login i ?c c') (\<lambda>i. used T_login s i + more_used T_login i ?c c')
    \<and> codes_ok 5 (ab_resetOtps db') (\<lambda>i. spent T_reset s i + more_spent T_reset i ?c c') (\<lambda>i. used T_reset s i + more_used T_reset i ?c c')
    \<and> codes_ok 5 (ab_adminOtps db') (\<lambda>_. 0) (\<lambda>i. used T_admin s i + more_used T_admin i ?c c')"
  proof (cases ?c)
    case c: (Student_call phone otp newId ph)
    obtain ph' where ph': "student_step E phone otp newId now ph (sy_db s) = (ph', db')" "c' = Student_call phone otp newId ph'"
      using st by (auto simp: c step_call_def map_prod_def split: prod.splits)
    show ?thesis
      using student_step_codes [OF ph'(1) b(1)] other_tables(1) [OF ph'(1)] b(2,3)
      by (simp add: c ph'(2) other_counts)
  next
    case c: (Reset_call email otp h ph)
    obtain ph' where ph': "reset_step E email otp h now ph (sy_db s) = (ph', db')" "c' = Reset_call email otp h ph'"
      using st by (auto simp: c step_call_def map_prod_def split: prod.splits)
    show ?thesis
      using reset_step_codes [OF ph'(1) b(2)] other_tables(2) [OF ph'(1)] b(1,3)
      by (simp add: c ph'(2) other_counts)
  next
    case c: (Admin_call email otp h ph)
    obtain ph' where ph': "admin_reset_step E email otp h now ph (sy_db s) = (ph', db')" "c' = Admin_call email otp h ph'"
      using st by (auto simp: c step_call_def map_prod_def split: prod.splits)
    show ?thesis
      using admin_step_codes [OF ph'(1) b(3)] other_tables(3) [OF ph'(1)] b(1,2)
      by (simp add: c ph'(2) other_counts)
  qed
  then show ?thesis
    by (simp add: budget_inv_def counts [abs_def] counts)
next
  case False
  then show ?thesis using assms by (simp add: step_nth_def)
qed

lemma spent_with_db [simp]: "spent t (with_db s db) = spent t s" "used t (with_db s db) = used t s"
  by (simp_all add: spent_def used_def with_db_def fun_eq_iff)

lemma sy_db_with_db [simp]: "sy_db (with_db s db) = db"
  by (simp add: with_db_def)

lemma spent_start_call:
  "(\<And>i. \<not> claimed t i c) \<Longrightarrow> spent t (start_call c s) = spent t s" "used t (start_call c s) = used t s"
  by (simp_all add: spent_def used_def start_call_def fun_eq_iff)

lemma sy_db_start_call [simp]: "sy_db (start_call c s) = sy_db s"
  by (simp add: start_call_def)

text \<open>Without interference a registration inserts the shop with its owner, or changes nothing.\<close>

lemma register_loop_alone:
  assumes "register_loop (\<lambda>_ d. d) shopId userId h b n db = (x, db')"
  shows "db' = db \<and> x \<noteq> Inr () \<or> (\<exists>slug. createShopWithOwner shopId userId slug h b db = Some db' \<and> x = Inr ())"
  using assms
proof (induction "4 - n" arbitrary: n rule: less_induct)
  case less
  show ?case
  proof (cases "createShopWithOwner shopId userId (free_slug (baseSlug (rg_shopName b)) (ab_shops db)) h b db")
    case None
    then show ?thesis
      using less.prems less.hyps [of "Suc n"] by (subst (asm) register_loop.simps) (auto simp: Let_def split: if_splits)
  next
    case (Some db2)
    then show ?thesis using less.prems by (subst (asm) register_loop.simps) (auto simp: Let_def)
  qed
qed

lemma registerShop_alone:
  assumes "registerShop E (\<lambda>_ d. d) shopId userId h b now db = (x, db')"
  shows "db' = db \<or> (\<exists>slug. createShopWithOwner shopId userId slug h b db = Some db')"
  using assms register_loop_alone [of shopId userId h b 0 db]
  by (auto simp: registerShop_def split: if_splits prod.splits sum.splits)

lemma spent_nonneg: "0 \<le> spent t s i"
  by (simp add: spent_def)

lemma budget_insert:
  assumes "codes_ok 5 rows f g" "insert_code (new_code newId account h ttl now) rows = Inr rows'"
  shows "codes_ok 5 rows' f g"
  using codes_ok_insert [OF assms] by (simp add: new_code_def)

lemma budget_exec:
  assumes "budget_inv s"
  shows "budget_inv (exec E ev s)"
proof -
  have b: "codes_ok 5 (ab_loginOtps (sy_db s)) (spent T_login s) (used T_login s)"
    "codes_ok 5 (ab_resetOtps (sy_db s)) (spent T_reset s) (used T_reset s)"
    "codes_ok 5 (ab_adminOtps (sy_db s)) (\<lambda>_. 0) (used T_admin s)"
    using assms by (simp_all add: budget_inv_def)
  have same: "budget_inv (with_db s db)" if "ab_loginOtps db = ab_loginOtps (sy_db s)"
    "ab_resetOtps db = ab_resetOtps (sy_db s)" "ab_adminOtps db = ab_adminOtps (sy_db s)" for db
    using assms that by (simp add: budget_inv_def)
  obtain now e where ev: "ev = (now, e)" by fastforce
  show ?thesis
  proof (cases e)
    case (Ev_request_login phone newId salt r)
    then show ?thesis
      using b by (auto simp: exec_def ev requestLoginOtp_def Let_def budget_inv_def split: sum.splits intro: budget_insert)
  next
    case (Ev_request_reset email newId salt r delivery)
    then show ?thesis
      using b by (auto simp: exec_def ev sendPasswordResetCode_def Let_def budget_inv_def split: sum.splits
        intro: budget_insert codes_ok_delivery)
  next
    case (Ev_request_admin email newId salt r delivery)
    then show ?thesis
      using b by (auto simp: exec_def ev requestAdminReset_def Let_def budget_inv_def split: sum.splits option.splits
        intro: budget_insert codes_ok_delivery)
  next
    case (Ev_start_login phone otp newId)
    then show ?thesis
      using b by (simp add: exec_def ev budget_inv_def spent_start_call)
  next
    case (Ev_start_reset email otp h)
    then show ?thesis
      using b by (simp add: exec_def ev budget_inv_def spent_start_call)
  next
    case (Ev_start_admin email otp h)
    then show ?thesis
      using b by (simp add: exec_def ev budget_inv_def spent_start_call)
  next
    case (Ev_step k)
    then show ?thesis using budget_step [OF assms] by (simp add: exec_def ev)
  next
    case (Ev_register shopId userId h b)
    obtain x db' where r: "registerShop E (\<lambda>_ d. d) shopId userId h b now (sy_db s) = (x, db')" by fastforce
    have "budget_inv (with_db s db')"
      using registerShop_alone [OF r] by (intro same) (auto simp: createShopWithOwner_def split: if_splits)
    then show ?thesis using Ev_register r by (simp add: exec_def ev)
  qed (auto simp: exec_def ev shopLogout_def adminLogout_def firebaseLogin_def patchStudentName_def as_owner_def createStaff_def
      deleteStaff_def ensureBootstrapAdmin_def Let_def intro!: same split: sum.splits option.splits)
qed

subsection \<open>The shop accounts\<close>

fun created :: "auth_event \<Rightarrow> id option" where
  "created (Ev_register _ userId _ _) = Some userId"
| "created (Ev_create_staff _ _ _ _ newId) = Some newId"
| "created _ = None"

text \<open>An id that was given to an account is never given again.\<close>

fun fresh_ids :: "id list \<Rightarrow> (millis \<times> auth_event) list \<Rightarrow> bool" where
  "fresh_ids K [] = True"
| "fresh_ids K (ev # evs) = (case created (snd ev) of
      None \<Rightarrow> fresh_ids K evs
    | Some u \<Rightarrow> u \<notin> set K \<and> fresh_ids (u # K) evs)"

fun known :: "id list \<Rightarrow> (millis \<times> auth_event) list \<Rightarrow> id list" where
  "known K [] = K"
| "known K (ev # evs) = known (case created (snd ev) of None \<Rightarrow> K | Some u \<Rightarrow> u # K) evs"

lemma fresh_ids_append: "fresh_ids K (evs @ evs') \<longleftrightarrow> fresh_ids K evs \<and> fresh_ids (known K evs) evs'"
  by (induction K evs rule: fresh_ids.induct) (auto split: option.splits)

lemma known_append: "known K (evs @ evs') = known (known K evs) evs'"
  by (induction K evs rule: known.induct) auto

lemma known_mono: "set K \<subseteq> set (known K evs)"
proof (induction K evs rule: known.induct)
  case (2 K ev evs)
  then show ?case by (cases "created (snd ev)") auto
qed simp

definition users :: "auth_sys \<Rightarrow> shop_user_row list" where
  "users s = ab_shopUsers (sy_db s)"

text \<open>A phase that changes the password of the account u.\<close>

definition swaps :: "id \<Rightarrow> millis \<Rightarrow> nat \<Rightarrow> auth_sys \<Rightarrow> (string \<times> string \<times> string \<times> id) option" where
  "swaps u now k s = (if k \<ge> length (sy_calls s) then None else case sy_calls s ! k of
      Reset_call email otp h (R_swap i w) \<Rightarrow>
        if w = u \<and> u \<in> su_id ` set (users s) \<and> consume_code (\<lambda>_. True) i now (ab_resetOtps (sy_db s)) \<noteq> None
        then Some (email, otp, h, i) else None
    | _ \<Rightarrow> None)"

lemma step_nth_users:
  assumes "x' \<in> set (users (step_nth E now k s))"
  shows "x' \<in> set (users s) \<and> swaps (su_id x') now k s = None
    \<or> (\<exists>x \<in> set (users s). \<exists>email otp h i. swaps (su_id x) now k s = Some (email, otp, h, i)
      \<and> x' = x\<lparr>su_passwordHash := h, su_sessionVersion := su_sessionVersion x + 1\<rparr>)"
proof (cases "k < length (sy_calls s)")
  case True
  obtain c' db' where st: "step_call E now (sy_calls s ! k) (sy_db s) = (c', db')" by fastforce
  have u: "users (step_nth E now k s) = ab_shopUsers db'"
    using step_nth_counts(3) [OF True st] by (simp add: users_def)
  show ?thesis
  proof (cases "sy_calls s ! k")
    case c: (Student_call phone otp newId ph)
    then have "ab_shopUsers db' = users s"
      using st other_tables(1) by (fastforce simp: c step_call_def map_prod_def users_def split: prod.splits)
    then show ?thesis using assms u by (simp add: swaps_def c)
  next
    case c: (Admin_call email otp h ph)
    then have "ab_shopUsers db' = users s"
      using st other_tables(3) by (fastforce simp: c step_call_def map_prod_def users_def split: prod.splits)
    then show ?thesis using assms u by (simp add: swaps_def c)
  next
    case c: (Reset_call email otp h ph)
    obtain ph' where r: "reset_step E email otp h now ph (sy_db s) = (ph', db')"
      using st by (auto simp: c step_call_def map_prod_def split: prod.splits)
    show ?thesis
    proof (cases ph)
      case (R_swap i w)
      show ?thesis
      proof (cases "w \<in> su_id ` set (users s) \<and> consume_code (\<lambda>_. True) i now (ab_resetOtps (sy_db s)) \<noteq> None")
        case t: True
        then have "ab_shopUsers db' = set_password w h (users s)"
          using r R_swap by (auto simp: reset_step_def users_def)
        then have "x' \<in> set (set_password w h (users s))" using assms u by simp
        then obtain x where x: "x \<in> set (users s)"
          "x' = (if su_id x = w then x\<lparr>su_passwordHash := h, su_sessionVersion := su_sessionVersion x + 1\<rparr> else x)"
          by (auto simp: set_password_def set_update_where)
        have sw: "swaps v now k s = (if v = w then Some (email, otp, h, i) else None)" for v
          using t True by (auto simp: swaps_def c R_swap)
        show ?thesis using x by (cases "su_id x = w") (auto simp: sw)
      next
        case f: False
        then have "ab_shopUsers db' = users s"
          using r R_swap by (auto simp: reset_step_def users_def split: option.splits)
        moreover have "swaps v now k s = None" for v using f by (auto simp: swaps_def c R_swap)
        ultimately show ?thesis using assms u by simp
      qed
    qed (use r assms u in \<open>auto simp: reset_step_def users_def swaps_def c split: option.splits if_splits\<close>)
  qed
next
  case False
  then show ?thesis using assms by (simp add: step_nth_def users_def swaps_def)
qed

lemma users_with_db [simp]: "users (with_db s db) = ab_shopUsers db"
  by (simp add: users_def)

lemma exec_users:
  assumes "x' \<in> set (users (exec E (now, e) s))"
  shows "x' \<in> set (users s) \<and> (\<forall>k. e = Ev_step k \<longrightarrow> swaps (su_id x') now k s = None)
    \<or> (\<exists>x \<in> set (users s). x' = x\<lparr>su_sessionVersion := su_sessionVersion x + 1\<rparr> \<and> (\<forall>k. e \<noteq> Ev_step k))
    \<or> (\<exists>x \<in> set (users s). \<exists>k email otp h i. e = Ev_step k \<and> swaps (su_id x) now k s = Some (email, otp, h, i)
      \<and> x' = x\<lparr>su_passwordHash := h, su_sessionVersion := su_sessionVersion x + 1\<rparr>)
    \<or> created e = Some (su_id x') \<and> su_id x' \<notin> su_id ` set (users s) \<and> su_sessionVersion x' = 0"
proof (cases e)
  case (Ev_step k)
  then show ?thesis using step_nth_users [of x' E now k s] assms by (auto simp: exec_def)
next
  case (Ev_register shopId userId h b)
  obtain x db' where r: "registerShop E (\<lambda>_ d. d) shopId userId h b now (sy_db s) = (x, db')" by fastforce
  then have "users (exec E (now, e) s) = ab_shopUsers db'" by (simp add: Ev_register exec_def)
  then show ?thesis
    using registerShop_alone [OF r] assms Ev_register
    by (auto simp: createShopWithOwner_def users_def new_user_def split: if_splits)
next
  case (Ev_logout req)
  then show ?thesis
    using assms by (auto simp: exec_def shopLogout_def users_def set_update_where Let_def split: sum.splits if_splits)
next
  case (Ev_create_staff req email name h newId)
  then show ?thesis
    using assms by (auto simp: exec_def as_owner_def createStaff_def users_def new_user_def Let_def split: sum.splits if_splits)
next
  case (Ev_delete_staff req i)
  then show ?thesis
    using assms by (auto simp: exec_def as_owner_def deleteStaff_def users_def Let_def split: sum.splits if_splits option.splits)
qed (use assms in \<open>auto simp: exec_def users_def requestLoginOtp_def sendPasswordResetCode_def requestAdminReset_def start_call_def
  adminLogout_def firebaseLogin_def patchStudentName_def ensureBootstrapAdmin_def Let_def split: sum.splits option.splits if_splits\<close>)

lemma set_password_ids [simp]: "map su_id (set_password w h us) = map su_id us"
  by (simp add: set_password_def map_update_where)

lemma reset_step_ids:
  "reset_step E email otp h now ph db = (ph', db') \<Longrightarrow> map su_id (ab_shopUsers db') = map su_id (ab_shopUsers db)"
  by (auto simp: reset_step_def split: reset_phase.splits option.splits if_splits)

lemma step_nth_ids: "map su_id (users (step_nth E now k s)) = map su_id (users s)"
proof (cases "k < length (sy_calls s)")
  case True
  obtain c' db' where st: "step_call E now (sy_calls s ! k) (sy_db s) = (c', db')" by fastforce
  have u: "users (step_nth E now k s) = ab_shopUsers db'"
    using step_nth_counts(3) [OF True st] by (simp add: users_def)
  then show ?thesis
    using st other_tables(1,3) reset_step_ids
    by (cases "sy_calls s ! k") (fastforce simp: step_call_def map_prod_def users_def split: prod.splits)+
next
  case False
  then show ?thesis by (simp add: step_nth_def)
qed

lemma exec_distinct:
  assumes "distinct (map su_id (users s))"
  shows "distinct (map su_id (users (exec E (now, e) s)))"
proof (cases e)
  case (Ev_step k)
  then show ?thesis using assms by (simp add: exec_def step_nth_ids del: map_eq_conv)
next
  case (Ev_register shopId userId h b)
  obtain x db' where r: "registerShop E (\<lambda>_ d. d) shopId userId h b now (sy_db s) = (x, db')" by fastforce
  then have "users (exec E (now, e) s) = ab_shopUsers db'" by (simp add: Ev_register exec_def)
  then show ?thesis
    using registerShop_alone [OF r] assms by (auto simp: createShopWithOwner_def users_def new_user_def split: if_splits)
next
  case (Ev_logout req)
  have "distinct (map su_id (update_where p (\<lambda>u. u\<lparr>su_sessionVersion := su_sessionVersion u + 1\<rparr>) (users s)))" for p
    using assms by (simp add: map_update_where)
  then show ?thesis
    using assms Ev_logout by (auto simp: exec_def shopLogout_def users_def Let_def split: sum.splits)
next
  case (Ev_create_staff req email name h newId)
  then show ?thesis
    using assms by (auto simp: exec_def as_owner_def createStaff_def users_def new_user_def Let_def split: sum.splits)
next
  case (Ev_delete_staff req i)
  then show ?thesis
    using assms by (auto simp: exec_def as_owner_def deleteStaff_def users_def Let_def distinct_map_filter split: sum.splits option.splits)
qed (use assms in \<open>auto simp: exec_def users_def requestLoginOtp_def sendPasswordResetCode_def requestAdminReset_def start_call_def
  adminLogout_def firebaseLogin_def patchStudentName_def ensureBootstrapAdmin_def Let_def split: sum.splits option.splits if_splits\<close>)

subsection \<open>What a call that verifies a code has seen\<close>

definition issued :: "code_row list \<Rightarrow> (id \<times> string \<times> string) set" where
  "issued rows = set (map (\<lambda>r. (oc_id r, oc_account r, oc_otpHash r)) rows)"

definition guessed :: "auth_env \<Rightarrow> code_row list \<Rightarrow> string \<Rightarrow> string \<Rightarrow> id \<Rightarrow> bool" where
  "guessed E rows email otp i = (\<exists>hs. (i, email, hs) \<in> issued rows \<and> verifyOtpHash E hs otp)"

fun call_ok :: "auth_env \<Rightarrow> id set \<Rightarrow> auth_sys \<Rightarrow> call \<Rightarrow> bool" where
  "call_ok E K s (Reset_call email otp h (R_claim i hs)) = ((i, email, hs) \<in> issued (ab_resetOtps (sy_db s)))"
| "call_ok E K s (Reset_call email otp h (R_check i hs)) = ((i, email, hs) \<in> issued (ab_resetOtps (sy_db s)))"
| "call_ok E K s (Reset_call email otp h (R_user i)) = guessed E (ab_resetOtps (sy_db s)) email otp i"
| "call_ok E K s (Reset_call email otp h (R_swap i u)) = (guessed E (ab_resetOtps (sy_db s)) email otp i \<and> u \<in> K
    \<and> (\<forall>x \<in> set (users s). su_id x = u \<longrightarrow> su_email x = email))"
| "call_ok E K s _ = True"

definition acct_inv :: "auth_env \<Rightarrow> id set \<Rightarrow> auth_sys \<Rightarrow> bool" where
  "acct_inv E K s = (distinct (map su_id (users s)) \<and> (\<forall>x \<in> set (users s). su_id x \<in> K \<and> 0 \<le> su_sessionVersion x)
    \<and> (\<forall>c \<in> set (sy_calls s). call_ok E K s c))"

lemma issued_update: "(\<And>r. oc_id (f r) = oc_id r \<and> oc_account (f r) = oc_account r \<and> oc_otpHash (f r) = oc_otpHash r) \<Longrightarrow>
    issued (update_where p f rows) = issued rows"
  by (simp add: issued_def map_update_where)

lemma issued_statements:
  "claim_attempt n i rows = Some rows' \<Longrightarrow> issued rows' = issued rows"
  "consume_code x i now rows = Some rows' \<Longrightarrow> issued rows' = issued rows"
  "issued (record_delivery i provider res now rows) = issued rows"
  "insert_code r rows = Inr rows' \<Longrightarrow> issued rows \<subseteq> issued rows'"
proof -
  show "claim_attempt n i rows = Some rows' \<Longrightarrow> issued rows' = issued rows"
    by (auto simp: claim_attempt_def Let_def issued_update split: if_splits)
  show "consume_code x i now rows = Some rows' \<Longrightarrow> issued rows' = issued rows"
    by (auto simp: consume_code_def Let_def issued_update split: if_splits)
  show "issued (record_delivery i provider res now rows) = issued rows"
    unfolding record_delivery_def by (rule issued_update) (simp split: sum.split)
  show "insert_code r rows = Inr rows' \<Longrightarrow> issued rows \<subseteq> issued rows'"
    by (auto simp: insert_code_def issued_def split: if_splits)
qed

lemma guessed_mono: "guessed E rows email otp i \<Longrightarrow> issued rows \<subseteq> issued rows' \<Longrightarrow> guessed E rows' email otp i"
  by (auto simp: guessed_def)

text \<open>A change of the state that keeps the issued codes and gives no account a second time keeps \<open>call_ok\<close>.\<close>

lemma call_ok_mono:
  assumes "call_ok E K s c" "issued (ab_resetOtps (sy_db s)) \<subseteq> issued (ab_resetOtps (sy_db s'))" "K \<subseteq> K'"
    "\<And>x'. x' \<in> set (users s') \<Longrightarrow> su_id x' \<in> K \<Longrightarrow> \<exists>x \<in> set (users s). su_id x = su_id x' \<and> su_email x = su_email x'"
  shows "call_ok E K' s' c"
  using assms(1)
proof (cases c)
  case (Reset_call email otp h ph)
  then show ?thesis
    using assms by (cases ph) (auto intro: guessed_mono, fastforce)
qed auto

lemma find_code_issued:
  assumes "find_code account now rows = Some r"
  shows "(oc_id r, account, oc_otpHash r) \<in> issued rows"
proof -
  obtain rs where "sort_key (\<lambda>r. - oc_createdAt r) (filter (live_code account now) rows) = r # rs"
    using assms by (cases "sort_key (\<lambda>r. - oc_createdAt r) (filter (live_code account now) rows)") (simp_all add: find_code_def)
  then have "r \<in> set (filter (live_code account now) rows)" by (metis list.set_intros(1) set_sort)
  then show ?thesis by (auto simp: issued_def live_code_def)
qed

lemma reset_step_ok:
  assumes "reset_step E email otp h now ph (sy_db s) = (ph', db')" "call_ok E K s (Reset_call email otp h ph)"
    "distinct (map su_id (users s))" "\<forall>x \<in> set (users s). su_id x \<in> K"
  shows "call_ok E K s (Reset_call email otp h ph')"
proof (cases ph)
  case R_find
  then show ?thesis using assms by (auto simp: reset_step_def dest: find_code_issued split: option.splits)
next
  case (R_claim i hs)
  then show ?thesis using assms by (auto simp: reset_step_def split: option.splits)
next
  case (R_check i hs)
  then show ?thesis using assms by (auto simp: reset_step_def guessed_def split: if_splits)
next
  case (R_user i)
  show ?thesis
  proof (cases "find (\<lambda>u. su_email u = email) (ab_shopUsers (sy_db s))")
    case None
    then show ?thesis using R_user assms by (simp add: reset_step_def) auto
  next
    case (Some u)
    then have u: "u \<in> set (users s)" "su_email u = email" by (auto simp: users_def dest: find_SomeD)
    then have "su_email x = email" if "x \<in> set (users s)" "su_id x = su_id u" for x
      using distinct_key_eq [OF assms(3) that(1) u(1)] that(2) by simp
    then show ?thesis using Some R_user assms u by (simp add: reset_step_def) auto
  qed
next
  case (R_swap i u)
  then show ?thesis using assms by (auto simp: reset_step_def split: option.splits if_splits)
qed (use assms in \<open>auto simp: reset_step_def\<close>)

lemma step_call_ok:
  assumes "step_call E now c (sy_db s) = (c', db')" "call_ok E K s c" "acct_inv E K s"
  shows "call_ok E K s c'"
proof (cases c)
  case (Reset_call email otp h ph)
  then obtain ph' where ph': "reset_step E email otp h now ph (sy_db s) = (ph', db')" "c' = Reset_call email otp h ph'"
    using assms(1) by (auto simp: step_call_def map_prod_def split: prod.splits)
  have i: "distinct (map su_id (users s))" "\<forall>x \<in> set (users s). su_id x \<in> K"
    using assms(3) unfolding acct_inv_def by auto
  show ?thesis using reset_step_ok [OF ph'(1) _ i] assms(2) Reset_call ph'(2) by simp
qed (use assms in \<open>auto simp: step_call_def map_prod_def split: prod.splits\<close>)

lemma step_call_issued:
  assumes "step_call E now c db = (c', db')"
  shows "issued (ab_resetOtps db') = issued (ab_resetOtps db)"
proof (cases c)
  case (Reset_call email otp h ph)
  then obtain ph' where "reset_step E email otp h now ph db = (ph', db')"
    using assms by (auto simp: step_call_def map_prod_def split: prod.splits)
  then show ?thesis
    by (auto simp: reset_step_def issued_statements(1,2) split: reset_phase.splits option.splits if_splits)
next
  case (Student_call phone otp newId ph)
  then show ?thesis using assms other_tables(1) by (fastforce simp: step_call_def map_prod_def split: prod.splits)
next
  case (Admin_call email otp h ph)
  then show ?thesis using assms other_tables(3) by (fastforce simp: step_call_def map_prod_def split: prod.splits)
qed

lemma exec_issued: "issued (ab_resetOtps (sy_db s)) \<subseteq> issued (ab_resetOtps (sy_db (exec E (now, e) s)))"
proof (cases e)
  case (Ev_step k)
  obtain c' db' where "step_call E now (sy_calls s ! k) (sy_db s) = (c', db')" by fastforce
  then show ?thesis
    using step_call_issued by (auto simp: Ev_step exec_def step_nth_def)
next
  case (Ev_request_reset email newId salt r delivery)
  then show ?thesis
    by (auto simp: exec_def sendPasswordResetCode_def Let_def issued_statements(3) dest: issued_statements(4) split: sum.splits)
next
  case (Ev_register shopId userId h b)
  obtain x db' where r: "registerShop E (\<lambda>_ d. d) shopId userId h b now (sy_db s) = (x, db')" by fastforce
  then show ?thesis
    using registerShop_alone [OF r] by (auto simp: Ev_register exec_def createShopWithOwner_def split: if_splits)
qed (auto simp: exec_def requestLoginOtp_def requestAdminReset_def as_owner_def createStaff_def deleteStaff_def shopLogout_def
  adminLogout_def firebaseLogin_def patchStudentName_def ensureBootstrapAdmin_def Let_def split: sum.splits option.splits if_splits)

lemma exec_calls:
  assumes "c' \<in> set (sy_calls (exec E (now, e) s))" "acct_inv E K s"
  shows "call_ok E K s c'"
proof -
  have all: "\<And>c. c \<in> set (sy_calls s) \<Longrightarrow> call_ok E K s c" using assms(2) by (simp add: acct_inv_def)
  show ?thesis
  proof (cases e)
    case (Ev_step k)
    show ?thesis
    proof (cases "k < length (sy_calls s)")
      case True
      obtain c1 db' where st: "step_call E now (sy_calls s ! k) (sy_db s) = (c1, db')" by fastforce
      then have "c' \<in> set ((sy_calls s)[k := c1])" using assms(1) True by (simp add: Ev_step exec_def step_nth_def)
      then consider "c' = c1" | "c' \<in> set (sy_calls s)" using set_update_subset_insert [of "sy_calls s" k c1] by blast
      then show ?thesis
      proof cases
        case 1
        have "call_ok E K s (sy_calls s ! k)" using all True by simp
        from step_call_ok [OF st this assms(2)] show ?thesis by (simp add: 1)
      qed (rule all)
    qed (use all assms(1) in \<open>simp add: Ev_step exec_def step_nth_def\<close>)
  qed (use all assms(1) in \<open>auto simp: exec_def with_db_def start_call_def Let_def\<close>)
qed

lemma acct_exec:
  assumes "acct_inv E K s" "\<And>u. created e = Some u \<Longrightarrow> u \<notin> K"
  shows "acct_inv E (K \<union> set_option (created e)) (exec E (now, e) s)"
proof -
  have i: "distinct (map su_id (users s))" "\<And>x. x \<in> set (users s) \<Longrightarrow> su_id x \<in> K \<and> 0 \<le> su_sessionVersion x"
    using assms(1) unfolding acct_inv_def by auto
  have new: "su_id x' \<in> K \<union> set_option (created e) \<and> 0 \<le> su_sessionVersion x'" if "x' \<in> set (users (exec E (now, e) s))" for x'
    using exec_users [OF that] i(2) by fastforce
  have old: "\<exists>x \<in> set (users s). su_id x = su_id x' \<and> su_email x = su_email x'"
    if "x' \<in> set (users (exec E (now, e) s))" "su_id x' \<in> K" for x'
    using exec_users [OF that(1)] assms(2) that(2) by fastforce
  have "call_ok E (K \<union> set_option (created e)) (exec E (now, e) s) c" if "c \<in> set (sy_calls (exec E (now, e) s))" for c
    using exec_calls [OF that assms(1)] exec_issued Un_upper1 old by (rule call_ok_mono)
  then show ?thesis
    unfolding acct_inv_def using exec_distinct [OF i(1)] new by blast
qed

lemma acct_run:
  assumes "acct_inv E (set K) s" "fresh_ids K evs"
  shows "acct_inv E (set (known K evs)) (run E evs s)"
  using assms
proof (induction evs arbitrary: K s)
  case (Cons ev evs)
  obtain now e where ev: "ev = (now, e)" by fastforce
  show ?case
  proof (cases "created e")
    case None
    then show ?thesis
      using Cons.IH [of K "exec E (now, e) s"] acct_exec [OF Cons.prems(1), of e now] Cons.prems(2) by (simp add: ev)
  next
    case (Some u)
    then have "acct_inv E (set (u # K)) (exec E (now, e) s)"
      using acct_exec [OF Cons.prems(1), of e now] Cons.prems(2) by (simp add: ev)
    then show ?thesis
      using Cons.IH [of "u # K" "exec E (now, e) s"] Cons.prems(2) Some by (auto simp: ev)
  qed
qed simp

end
