(* ===== verification/Account_Laws.thy ===== *)
theory Account_Laws
  imports Account_Runs "HOL-Library.Countable"
begin

text \<open>
  What holds of the accounts however the requests interleave: a code is compared with at most five guesses and
  used at most once, a password changes only through a code that was sent to its account, and a token stops
  working as soon as its account signs out, changes its password or is removed.
\<close>

subsection \<open>The budget of guesses\<close>

lemma budget_run:
  assumes "no_codes db"
  shows "budget_inv (run E evs (boot db))"
proof (rule run_invariant [of budget_inv])
  show "budget_inv (boot db)"
    using assms by (simp add: budget_inv_def boot_def no_codes_def codes_ok_def ids_distinct_def spent_def used_def
      guesses_def uses_def row_of_def)
qed (rule budget_exec)

lemma budget_bounds:
  assumes "budget_inv s"
  shows "count_list (sy_log s) (Checked T_login i) \<le> 5" "count_list (sy_log s) (Checked T_reset i) \<le> 5"
    "count_list (sy_log s) (Used t i) \<le> 1"
proof -
  have b: "codes_ok 5 (ab_loginOtps (sy_db s)) (spent T_login s) (used T_login s)"
    "codes_ok 5 (ab_resetOtps (sy_db s)) (spent T_reset s) (used T_reset s)"
    "codes_ok 5 (ab_adminOtps (sy_db s)) (\<lambda>_. 0) (used T_admin s)"
    using assms by (simp_all add: budget_inv_def)
  have "spent T_login s i \<le> 5" "spent T_reset s i \<le> 5"
    using codes_okD(2,3) [OF b(1), of i] codes_okD(2,3) [OF b(2), of i] by simp_all
  then show "count_list (sy_log s) (Checked T_login i) \<le> 5" "count_list (sy_log s) (Checked T_reset i) \<le> 5"
    by (simp_all add: spent_def)
  have "used t s i \<le> 1"
    using codes_okD(4) [OF b(1), of i] codes_okD(4) [OF b(2), of i] codes_okD(4) [OF b(3), of i] uses_le_one
    by (cases t) (force intro: order_trans)+
  then show "count_list (sy_log s) (Used t i) \<le> 1" by (simp add: used_def)
qed

text \<open>
  C25. Whatever requests arrive, in whatever interleaving of their phases and at whatever times, at most five
  guesses are ever compared with one login code, at most five with one reset code of a shop account, and every
  code is used at most once.
\<close>

theorem guesses_bounded:
  assumes "no_codes db"
  shows "count_list (sy_log (run E evs (boot db))) (Checked T_login i) \<le> 5
    \<and> count_list (sy_log (run E evs (boot db))) (Checked T_reset i) \<le> 5
    \<and> count_list (sy_log (run E evs (boot db))) (Used t i) \<le> 1"
  using budget_bounds [OF budget_run [OF assms]] by blast

subsection \<open>The reset of the administrator has no such bound\<close>

definition guess_call :: "string \<Rightarrow> string \<Rightarrow> id \<Rightarrow> id \<Rightarrow> string \<Rightarrow> call" where
  "guess_call email otp a i h = Admin_call email otp ''h'' (A_check a i h)"

definition open_guess :: "string \<Rightarrow> string \<Rightarrow> nat \<Rightarrow> (millis \<times> auth_event) list" where
  "open_guess email otp k = [(1, Ev_start_admin email otp ''h''), (1, Ev_step k), (1, Ev_step k)]"

lemma open_guess_run:
  assumes "active_admin email db = Some a" "find_code a 1 (ab_adminOtps db) = Some r" "oc_attempts r < 5"
  shows "run E (open_guess email otp (length cs)) \<lparr>sy_db = db, sy_calls = cs, sy_log = l\<rparr>
    = \<lparr>sy_db = db, sy_calls = cs @ [guess_call email otp a (oc_id r) (oc_otpHash r)], sy_log = l\<rparr>"
  using assms by (simp add: open_guess_def guess_call_def exec_def start_call_def step_nth_def step_call_def admin_reset_step_def
    nth_append ADMIN_RESET_MAX_ATTEMPTS_def)

fun open_guesses :: "string \<Rightarrow> string \<Rightarrow> nat \<Rightarrow> (millis \<times> auth_event) list" where
  "open_guesses email otp 0 = []"
| "open_guesses email otp (Suc n) = open_guesses email otp n @ open_guess email otp n"

lemma open_guesses_run:
  assumes "active_admin email db = Some a" "find_code a 1 (ab_adminOtps db) = Some r" "oc_attempts r < 5"
  shows "run E (open_guesses email otp n) (boot db)
    = \<lparr>sy_db = db, sy_calls = replicate n (guess_call email otp a (oc_id r) (oc_otpHash r)), sy_log = []\<rparr>"
proof (induction n)
  case (Suc n)
  then show ?case
    using open_guess_run [OF assms, of E otp "replicate n (guess_call email otp a (oc_id r) (oc_otpHash r))" "[]"]
    by (simp flip: replicate_append_same)
qed (simp add: boot_def)

lemma check_guesses_run:
  assumes "\<not> verifyOtpHash E h otp"
  shows "sy_log (run E (map (\<lambda>k. (1, Ev_step k)) [m..<m + n])
      \<lparr>sy_db = db, sy_calls = replicate m (Admin_call email otp ''h'' (A_wrong i)) @ replicate n (guess_call email otp a i h), sy_log = l\<rparr>)
    = l @ replicate n (Checked T_admin i)"
proof (induction n arbitrary: m l)
  case (Suc n)
  let ?w = "Admin_call email otp ''h'' (A_wrong i)" and ?g = "guess_call email otp a i h"
  have u: "(replicate m ?w @ replicate (Suc n) ?g)[m := ?w] = replicate (Suc m) ?w @ replicate n ?g"
    by (simp add: list_update_append replicate_append_same)
  have ex: "exec E (1, Ev_step m) \<lparr>sy_db = db, sy_calls = replicate m ?w @ replicate (Suc n) ?g, sy_log = l\<rparr>
      = \<lparr>sy_db = db, sy_calls = replicate (Suc m) ?w @ replicate n ?g, sy_log = l @ [Checked T_admin i]\<rparr>"
    using assms u by (simp add: exec_def step_nth_def step_call_def admin_reset_step_def guess_call_def nth_append del: replicate_Suc)
  have l: "[m..<m + Suc n] = m # [Suc m..<Suc m + n]" by (simp add: upt_conv_Cons del: upt_Suc)
  show ?case unfolding l list.map run_simps(2) ex Suc.IH by simp
qed simp

text \<open>
  The administrator's reset reads the number of attempts before it compares the code and counts the
  attempt only afterwards: for every n there is an interleaving in which n wrong guesses are compared with the
  same code, although the limit is five.
\<close>

theorem admin_guesses_unbounded:
  assumes "active_admin email db = Some a" "find_code a 1 (ab_adminOtps db) = Some r" "oc_attempts r < 5"
    "\<not> verifyOtpHash E (oc_otpHash r) otp"
  shows "\<exists>evs. count_list (sy_log (run E evs (boot db))) (Checked T_admin (oc_id r)) = n"
proof -
  have "sy_log (run E (open_guesses email otp n @ map (\<lambda>k. (1, Ev_step k)) [0..<0 + n]) (boot db))
      = replicate n (Checked T_admin (oc_id r))"
    using check_guesses_run [OF assms(4), where m = 0 and n = n and l = "[]" and db = db and email = email and a = a and i = "oc_id r"]
    by (simp add: open_guesses_run [OF assms(1-3)])
  moreover have "count_list (replicate n x) x = n" for x :: code_event by (induction n) simp_all
  ultimately show ?thesis by metis
qed

subsection \<open>A password changes only through a code of its account\<close>

definition accounts_ok :: "auth_db \<Rightarrow> bool" where
  "accounts_ok db = (distinct (map su_id (ab_shopUsers db)) \<and> list_all (\<lambda>u. 0 \<le> su_sessionVersion u) (ab_shopUsers db))"

lemma acct_boot: "accounts_ok db \<Longrightarrow> acct_inv E (set (map su_id (ab_shopUsers db))) (boot db)"
  by (auto simp: acct_inv_def accounts_ok_def boot_def users_def list_all_iff)

lemma acct_reached:
  assumes "accounts_ok db" "fresh_ids (map su_id (ab_shopUsers db)) evs"
  shows "acct_inv E (set (known (map su_id (ab_shopUsers db)) evs)) (run E evs (boot db))"
  using acct_run [OF acct_boot [OF assms(1)] assms(2)] .

text \<open>
  C26. Whatever the interleaving, the password of a shop account changes only in the step of a reset request that
  names the email of the account, compared the right guess with a code issued to that email and uses this code
  in that very step; the step also advances the session version of the account. (An id given to an account is
  not given again: ids are random UUIDs.)
\<close>

theorem password_needs_code:
  assumes "accounts_ok db" "fresh_ids (map su_id (ab_shopUsers db)) (evs @ [(now, e)])"
    "x \<in> set (users (run E evs (boot db)))" "x' \<in> set (users (exec E (now, e) (run E evs (boot db))))"
    "su_id x' = su_id x" "su_passwordHash x' \<noteq> su_passwordHash x"
  shows "\<exists>k otp i hs. e = Ev_step k
    \<and> swaps (su_id x) now k (run E evs (boot db)) = Some (su_email x, otp, su_passwordHash x', i)
    \<and> (i, su_email x, hs) \<in> issued (ab_resetOtps (sy_db (run E evs (boot db)))) \<and> verifyOtpHash E hs otp
    \<and> su_sessionVersion x' = su_sessionVersion x + 1"
proof -
  obtain K where inv: "acct_inv E K (run E evs (boot db))"
    using acct_reached assms(1,2) by (metis fresh_ids_append)
  let ?s = "run E evs (boot db)"
  have d: "distinct (map su_id (users ?s))" using inv by (simp add: acct_inv_def)
  have same: "y = x" if "y \<in> set (users ?s)" "su_id y = su_id x" for y
    using distinct_key_eq [OF d that(1) assms(3)] that(2) by simp
  have "su_id x' \<in> su_id ` set (users ?s)" using assms(3,5) by simp
  then obtain k email otp h i where k: "e = Ev_step k" "swaps (su_id x) now k ?s = Some (email, otp, h, i)"
      "x' = x\<lparr>su_passwordHash := h, su_sessionVersion := su_sessionVersion x + 1\<rparr>"
    using exec_users [OF assms(4)] same assms(5,6) by fastforce
  then have c: "k < length (sy_calls ?s)" "sy_calls ?s ! k = Reset_call email otp h (R_swap i (su_id x))"
    by (auto simp: swaps_def split: if_splits call.splits reset_phase.splits)
  then have "call_ok E K ?s (Reset_call email otp h (R_swap i (su_id x)))"
    using inv nth_mem [OF c(1)] unfolding acct_inv_def by metis
  then have "guessed E (ab_resetOtps (sy_db ?s)) email otp i" "su_email x = email" using assms(3) by auto
  then show ?thesis using k by (auto simp: guessed_def)
qed

subsection \<open>Revocation\<close>

text \<open>The events that end the sessions of the account u.\<close>

definition revokes :: "auth_env \<Rightarrow> id \<Rightarrow> millis \<Rightarrow> auth_event \<Rightarrow> auth_sys \<Rightarrow> bool" where
  "revokes E u now e s = (case e of
      Ev_logout req \<Rightarrow> (case requireShopUser (ae_jwt E) req (users s) now of Inl _ \<Rightarrow> False | Inr se \<Rightarrow> ss_id se = u)
    | Ev_step k \<Rightarrow> swaps u now k s \<noteq> None
    | Ev_delete_staff req i \<Rightarrow> i = u \<and> (case requireShopOwner (ae_jwt E) req (users s) now of Inl _ \<Rightarrow> False
        | Inr se \<Rightarrow> list_ex (\<lambda>x. su_id x = u \<and> su_shopId x = ss_shopId se \<and> su_role x = Staff) (users s))
    | _ \<Rightarrow> False)"

definition at_least :: "int \<Rightarrow> id \<Rightarrow> auth_sys \<Rightarrow> bool" where
  "at_least v u s = (\<forall>x \<in> set (users s). su_id x = u \<longrightarrow> v \<le> su_sessionVersion x)"

lemma at_leastD: "at_least v u s \<Longrightarrow> x \<in> set (users s) \<Longrightarrow> su_id x = u \<Longrightarrow> v \<le> su_sessionVersion x"
  by (simp add: at_least_def)

lemma at_least_exec:
  assumes "at_least v u s" "created e \<noteq> Some u"
  shows "at_least v u (exec E (now, e) s)"
  unfolding at_least_def
proof (intro ballI impI)
  fix x' assume x': "x' \<in> set (users (exec E (now, e) s))" "su_id x' = u"
  show "v \<le> su_sessionVersion x'"
    using exec_users [OF x'(1)] assms(2) x'(2) at_leastD [OF assms(1)] by (fastforce intro: add_increasing2)
qed

lemma at_least_run:
  assumes "at_least v u s" "u \<in> set K" "fresh_ids K evs"
  shows "at_least v u (run E evs s)"
  using assms
proof (induction evs arbitrary: s K)
  case (Cons ev evs)
  obtain now e where ev: "ev = (now, e)" by fastforce
  have "created e \<noteq> Some u" using Cons.prems by (auto simp: ev)
  then have "at_least v u (exec E (now, e) s)" using Cons.prems(1) by (rule at_least_exec [rotated])
  then show ?case
    using Cons.IH [of _ K] Cons.IH [of _ "the (created e) # K"] Cons.prems by (auto simp: ev split: option.splits)
qed simp

lemma revokes_exec:
  assumes "revokes E u now e s" "at_least v u s" "distinct (map su_id (users s))"
  shows "at_least (v + 1) u (exec E (now, e) s)"
  unfolding at_least_def
proof (intro ballI impI)
  fix x' assume x': "x' \<in> set (users (exec E (now, e) s))" "su_id x' = u"
  have only: "y = x" if "x \<in> set (users s)" "su_id x = u" "y \<in> set (users s)" "su_id y = u" for x y
    using distinct_key_eq [OF assms(3) that(3,1)] that by simp
  show "v + 1 \<le> su_sessionVersion x'"
  proof (cases e)
    case (Ev_step k)
    then have "swaps u now k s \<noteq> None" using assms(1) by (simp add: revokes_def)
    then show ?thesis using exec_users [OF x'(1)] x'(2) at_leastD [OF assms(2)] Ev_step by auto
  next
    case (Ev_logout req)
    then obtain se where se: "requireShopUser (ae_jwt E) req (users s) now = Inr se" "ss_id se = u"
      using assms(1) by (auto simp: revokes_def split: sum.splits)
    obtain sub shopId sv where "resolveShopSession sub shopId sv (users s) = Some se"
      using se(1) by (auto simp: requireShopUser_def unauthorized_def split: option.splits claims.splits)
    then obtain w where w: "w \<in> set (users s)" "su_id w = u" "su_shopId w = ss_shopId se"
      using se(2) by (auto dest: resolveShopSession_Some)
    have "x' \<in> set (update_where (\<lambda>x. su_id x = u \<and> su_shopId x = ss_shopId se)
        (\<lambda>x. x\<lparr>su_sessionVersion := su_sessionVersion x + 1\<rparr>) (users s))"
      using x'(1) se by (simp add: Ev_logout exec_def shopLogout_def users_def Let_def)
    then obtain x where x: "x \<in> set (users s)" "x' = (if su_id x = u \<and> su_shopId x = ss_shopId se
        then x\<lparr>su_sessionVersion := su_sessionVersion x + 1\<rparr> else x)"
      by (auto simp: set_update_where)
    then have "su_id x = u" using x'(2) by (auto split: if_splits)
    then have "x = w" using only w x(1) by blast
    then show ?thesis using x(2) w at_leastD [OF assms(2) w(1,2)] by simp
  next
    case (Ev_delete_staff req i)
    then obtain se where se: "requireShopOwner (ae_jwt E) req (users s) now = Inr se" "i = u"
        "list_ex (\<lambda>x. su_id x = u \<and> su_shopId x = ss_shopId se \<and> su_role x = Staff) (users s)"
      using assms(1) by (auto simp: revokes_def split: sum.splits)
    then obtain w where w: "w \<in> set (users s)" "su_id w = u" "su_shopId w = ss_shopId se" "su_role w = Staff"
      by (auto simp: list_ex_iff)
    have f: "find (\<lambda>x. su_id x = u \<and> su_shopId x = ss_shopId se) (users s) = Some w"
    proof (cases "find (\<lambda>x. su_id x = u \<and> su_shopId x = ss_shopId se) (users s)")
      case None
      then show ?thesis using w by (auto simp: find_None_iff)
    next
      case (Some y)
      then show ?thesis using only [OF w(1,2), of y] by (auto dest: find_SomeD)
    qed
    have "users (exec E (now, e) s) = filter (\<lambda>x. su_id x \<noteq> u) (users s)"
      using se f w(4) by (simp add: Ev_delete_staff exec_def as_owner_def deleteStaff_def users_def Let_def)
    then show ?thesis using x' by simp
  qed (use assms(1) in \<open>simp_all add: revokes_def\<close>)
qed

lemma stale_token_refused:
  assumes "jwt_ok J" "at_least (v + 1) u s" "0 \<le> v" "bearer req = Some (signShopToken J u shop role v t0)"
  shows "requireShopUser J req (users s) now = unauthorized"
proof (cases "bearer_claims J req now")
  case None
  then show ?thesis by (simp add: requireShopUser_def)
next
  case (Some c)
  then have "verifyToken J (signShopToken J u shop role v t0) now = Some c"
    using assms(4) by (simp add: bearer_claims_def split: if_splits)
  then obtain sv where c: "c = Shop_claims u shop role sv" "sv \<le> v"
    using assms(3) by (auto simp: verify_shop_token [OF assms(1)] split: if_splits)
  have "resolveShopSession u shop sv (users s) = None"
  proof (cases "resolveShopSession u shop sv (users s)")
    case (Some se)
    then obtain x where "x \<in> set (users s)" "su_id x = u" "su_sessionVersion x = sv"
      by (auto dest: resolveShopSession_Some)
    then show ?thesis using at_leastD [OF assms(2), of x] c(2) by simp
  qed
  then show ?thesis using Some c(1) by (simp add: requireShopUser_def)
qed

lemma password_login_token:
  assumes "password_login E m email secret t0 db = Inr tok" "find (\<lambda>u. su_email u = email) (ab_shopUsers db) = Some u"
  shows "tok = signShopToken (ae_jwt E) (su_id u) (su_shopId u) (su_role u) (su_sessionVersion u) t0"
  using assms by (auto simp: password_login_def Let_def split: if_splits)

text \<open>
  C27. A session token that a login gave out is refused in every state after its account signed out, completed a
  password reset or was removed from the staff, whatever happened in between and whatever comes later, at any
  time.
\<close>

theorem revoked_token_refused:
  assumes "jwt_ok (ae_jwt E)" "accounts_ok db"
    "fresh_ids (map su_id (ab_shopUsers db)) (evs1 @ evs2 @ (now, e) # evs3)"
    "password_login E m email secret t0 (sy_db (run E evs1 (boot db))) = Inr tok"
    "find (\<lambda>u. su_email u = email) (users (run E evs1 (boot db))) = Some u"
    "revokes E (su_id u) now e (run E (evs1 @ evs2) (boot db))"
    "bearer req = Some tok"
  shows "requireShopUser (ae_jwt E) req (users (run E (evs1 @ evs2 @ (now, e) # evs3) (boot db))) t = unauthorized"
proof -
  let ?K = "map su_id (ab_shopUsers db)" and ?v = "su_sessionVersion u"
  have f: "fresh_ids ?K evs1" "fresh_ids (known ?K evs1) evs2" "fresh_ids (known ?K (evs1 @ evs2)) ((now, e) # evs3)"
    "fresh_ids ?K (evs1 @ evs2)" "known (known ?K evs1) evs2 = known ?K (evs1 @ evs2)"
    using assms(3) fresh_ids_append [of ?K evs1 "evs2 @ (now, e) # evs3"] fresh_ids_append [of ?K evs1 evs2]
      fresh_ids_append [of "known ?K evs1" evs2 "(now, e) # evs3"] known_append [of ?K evs1 evs2] by (simp_all add: known_append)
  have i1: "acct_inv E (set (known ?K evs1)) (run E evs1 (boot db))" by (rule acct_reached [OF assms(2) f(1)])
  have i2: "acct_inv E (set (known ?K (evs1 @ evs2))) (run E (evs1 @ evs2) (boot db))" by (rule acct_reached [OF assms(2) f(4)])
  have u: "u \<in> set (users (run E evs1 (boot db)))" using assms(5) by (auto dest: find_SomeD)
  then have uK: "su_id u \<in> set (known ?K evs1)" "0 \<le> ?v" using i1 by (auto simp: acct_inv_def)
  have d1: "distinct (map su_id (users (run E evs1 (boot db))))" using i1 by (simp add: acct_inv_def)
  have a1: "at_least ?v (su_id u) (run E evs1 (boot db))"
    unfolding at_least_def using distinct_key_eq [OF d1 _ u] by auto
  then have a2: "at_least ?v (su_id u) (run E (evs1 @ evs2) (boot db))"
    using at_least_run [OF a1 uK(1) f(2)] by simp
  have "distinct (map su_id (users (run E (evs1 @ evs2) (boot db))))" using i2 by (simp add: acct_inv_def)
  then have a3: "at_least (?v + 1) (su_id u) (exec E (now, e) (run E (evs1 @ evs2) (boot db)))"
    by (rule revokes_exec [OF assms(6) a2])
  have uK2: "su_id u \<in> set (known ?K (evs1 @ evs2))"
    using uK(1) known_mono [of "known ?K evs1" evs2] f(5) by auto
  then have "su_id u \<in> set (known (known ?K (evs1 @ evs2)) [(now, e)])" using known_mono by blast
  moreover have "fresh_ids (known (known ?K (evs1 @ evs2)) [(now, e)]) evs3"
    using f(3) by (simp split: option.splits)
  ultimately have "at_least (?v + 1) (su_id u) (run E evs3 (exec E (now, e) (run E (evs1 @ evs2) (boot db))))"
    by (rule at_least_run [OF a3])
  then have a4: "at_least (?v + 1) (su_id u) (run E (evs1 @ evs2 @ (now, e) # evs3) (boot db))" by simp
  have "find (\<lambda>u. su_email u = email) (ab_shopUsers (sy_db (run E evs1 (boot db)))) = Some u"
    using assms(5) by (simp add: users_def)
  then have "tok = signShopToken (ae_jwt E) (su_id u) (su_shopId u) (su_role u) ?v t0"
    by (rule password_login_token [OF assms(4)])
  then show ?thesis using stale_token_refused [OF assms(1) a4 uK(2)] assms(7) by simp
qed

subsection \<open>Registration\<close>

lemma next_slug_facts:
  shows "next_slug taken base i \<notin> set taken
    \<and> (\<exists>k. next_slug taken base i = numbered base (i + k) \<and> (\<forall>j < k. numbered base (i + j) \<in> set taken))"
proof (induction taken base i rule: next_slug.induct)
  case (1 taken base i)
  show ?case
  proof (cases "numbered base i \<in> set taken")
    case True
    then obtain k where k: "next_slug taken base (Suc i) = numbered base (Suc i + k)" "\<forall>j < k. numbered base (Suc i + j) \<in> set taken"
      "next_slug taken base (Suc i) \<notin> set taken"
      using 1 by blast
    have "\<forall>j < Suc k. numbered base (i + j) \<in> set taken"
      using k(2) True by (auto simp: less_Suc_eq_0_disj)
    moreover have "next_slug taken base i = next_slug taken base (Suc i)"
      using True by (subst next_slug.simps) simp
    ultimately show ?thesis using k by (intro conjI exI [of _ "Suc k"]) simp_all
  next
    case False
    then have "next_slug taken base i = numbered base i" by (subst next_slug.simps) simp
    then show ?thesis using False by (auto intro: exI [of _ 0])
  qed
qed

text \<open>
  C28. The search for a free slug ends: it returns a slug that no shop has, either the one made of the name or one
  numbered from 2, after trying at most as many numbers as there are shops.
\<close>

theorem slug_search_ends:
  "free_slug base shops \<notin> set (map sh_slug shops) \<and> (free_slug base shops = base
    \<or> (\<exists>k \<le> length shops. free_slug base shops = numbered base (2 + k)))"
proof (cases "base \<in> set (map sh_slug shops)")
  case True
  let ?taken = "map sh_slug shops"
  obtain k where k: "next_slug ?taken base 2 \<notin> set ?taken" "next_slug ?taken base 2 = numbered base (2 + k)"
      "\<forall>j < k. numbered base (2 + j) \<in> set ?taken"
    using next_slug_facts [of ?taken base 2] by auto
  have "inj_on (\<lambda>j. numbered base (2 + j)) {..<k}" by (simp add: inj_on_def numbered_inj)
  then have "k = card ((\<lambda>j. numbered base (2 + j)) ` {..<k})" by (simp add: card_image)
  also have "\<dots> \<le> card (set ?taken)" using k(3) by (intro card_mono) auto
  also have "\<dots> \<le> length shops" using card_length [of "map sh_slug shops"] by simp
  finally show ?thesis using k True by (auto simp: free_slug_def Let_def)
qed (simp add: free_slug_def)

subsection \<open>Witnesses\<close>

definition sample_env :: "jwt \<Rightarrow> auth_env" where
  "sample_env J = \<lparr>ae_localStudents = True, ae_firebaseStudents = False, ae_jwt = J, ae_hash = (\<lambda>salt s. s),
    ae_verify = (\<lambda>h s. h = s), ae_pepper = ''x'', ae_dummyHash = ''-'', ae_emailProvider = ''console''\<rparr>"

definition no_jwt :: jwt where
  "no_jwt = \<lparr>jw_sign = (\<lambda>_ _ _ _. []), jw_verify = (\<lambda>_ _. None)\<rparr>"

definition sample_owner :: shop_user_row where
  "sample_owner = \<lparr>su_id = ''o'', su_shopId = ''s'', su_email = ''o@s'', su_passwordHash = ''pw'', su_name = ''O'',
    su_role = Owner, su_sessionVersion = 0\<rparr>"

definition sample_accounts :: auth_db where
  "sample_accounts = \<lparr>ab_students = [], ab_shopUsers = [sample_owner],
    ab_admins = [\<lparr>ad_id = ''a'', ad_email = ''a@p'', ad_passwordHash = ''ap'', ad_sessionVersion = 0, ad_name = ''A'', ad_active = True\<rparr>],
    ab_shops = [], ab_loginOtps = [], ab_resetOtps = [], ab_adminOtps = [], ab_audit = []\<rparr>"

text \<open>Seven wrong guesses of one login code, all claimed before any is compared.\<close>

definition burst :: "(millis \<times> auth_event) list" where
  "burst = (0, Ev_request_login ''ph'' ''c'' ''salt'' 7) # map (\<lambda>k. (1, Ev_start_login ''ph'' ''111111'' ''st'')) [0..<7]
    @ map (\<lambda>k. (1, Ev_step k)) ([0..<7] @ [0..<7] @ [0..<7])"

lemma guesses_bounded_witness:
  "no_codes sample_accounts
    \<and> count_list (sy_log (run (sample_env no_jwt) burst (boot sample_accounts))) (Checked T_login ''c'') = 5
    \<and> count_list (sy_log (run (sample_env no_jwt) burst (boot sample_accounts))) (Used T_login ''c'') \<le> 1"
proof (intro conjI)
  show n: "no_codes sample_accounts" by code_simp
  show "count_list (sy_log (run (sample_env no_jwt) burst (boot sample_accounts))) (Used T_login ''c'') \<le> 1"
    using guesses_bounded [OF n, of "sample_env no_jwt" burst "''c''" T_login] by blast
  show "count_list (sy_log (run (sample_env no_jwt) burst (boot sample_accounts))) (Checked T_login ''c'') = 5"
    by code_simp
qed

definition sample_reset :: code_row where
  "sample_reset = new_code ''c'' ''a'' ''123456x'' 900000 0"

lemma admin_guesses_unbounded_witness:
  "\<exists>evs. count_list (sy_log (run (sample_env no_jwt) evs (boot (sample_accounts\<lparr>ab_adminOtps := [sample_reset]\<rparr>))))
    (Checked T_admin ''c'') = 100"
proof -
  let ?db = "sample_accounts\<lparr>ab_adminOtps := [sample_reset]\<rparr>"
  have "active_admin ''a@p'' ?db = Some ''a''" "find_code ''a'' 1 (ab_adminOtps ?db) = Some sample_reset"
    "oc_attempts sample_reset < 5" "\<not> verifyOtpHash (sample_env no_jwt) (oc_otpHash sample_reset) ''111111''"
    by code_simp+
  then have "\<exists>evs. count_list (sy_log (run (sample_env no_jwt) evs (boot ?db))) (Checked T_admin (oc_id sample_reset)) = 100"
    by (rule admin_guesses_unbounded)
  then show ?thesis by (simp add: sample_reset_def new_code_def)
qed

definition reset_run :: "(millis \<times> auth_event) list" where
  "reset_run = [(0, Ev_request_reset ''o@s'' ''c'' ''salt'' 7 (Inr None)), (1, Ev_start_reset ''o@s'' ''000007'' ''new''),
    (2, Ev_step 0), (3, Ev_step 0), (4, Ev_step 0), (5, Ev_step 0)]"

lemma password_needs_code_witness:
  "\<exists>k otp i hs. Ev_step 0 = Ev_step k
    \<and> swaps ''o'' 6 k (run (sample_env no_jwt) reset_run (boot sample_accounts)) = Some (''o@s'', otp, ''new'', i)
    \<and> (i, ''o@s'', hs) \<in> issued (ab_resetOtps (sy_db (run (sample_env no_jwt) reset_run (boot sample_accounts))))
    \<and> verifyOtpHash (sample_env no_jwt) hs otp \<and> (1::int) = 0 + 1"
proof -
  let ?x' = "sample_owner\<lparr>su_passwordHash := ''new'', su_sessionVersion := 1\<rparr>"
  have a: "accounts_ok sample_accounts" "fresh_ids (map su_id (ab_shopUsers sample_accounts)) (reset_run @ [(6, Ev_step 0)])"
    "sample_owner \<in> set (users (run (sample_env no_jwt) reset_run (boot sample_accounts)))"
    "?x' \<in> set (users (exec (sample_env no_jwt) (6, Ev_step 0) (run (sample_env no_jwt) reset_run (boot sample_accounts))))"
    by code_simp+
  show ?thesis
    using password_needs_code [OF a] by (simp add: sample_owner_def)
qed

instance json :: countable by countable_datatype

text \<open>A signer of numbers that keeps its promise.\<close>

definition sample_jwt :: jwt where
  "sample_jwt = \<lparr>jw_sign = (\<lambda>p sub ttl t0. show_nat (to_nat (p, sub, ttl, t0))),
    jw_verify = (\<lambda>tok now. case from_nat (nat (to_number tok)) of (p, sub, ttl, t0) \<Rightarrow>
      if now div 1000 < t0 div 1000 + ttl then Some (signed_payload p sub ttl t0) else None)\<rparr>"

lemma sample_jwt_ok: "jwt_ok sample_jwt"
  by (simp add: jwt_ok_def sample_jwt_def show_nat_facts)

definition sample_token :: string where
  "sample_token = signShopToken sample_jwt ''o'' ''s'' Owner 0 0"

definition sample_request :: auth_request where
  "sample_request = \<lparr>rq_authorization = Some (''Bearer '' @ sample_token), rq_agentToken = None, rq_agentSession = None,
    rq_idParam = None, rq_pt = None\<rparr>"

lemma sample_bearer: "bearer sample_request = Some sample_token"
  by (simp add: bearer_def sample_request_def starts_with_def)

lemma sample_claims:
  assumes "now < 1000"
  shows "bearer_claims sample_jwt sample_request now = Some (Shop_claims ''o'' ''s'' Owner 0)"
proof -
  have "now div 1000 < 43200" using assms by simp
  moreover have "sample_token \<noteq> []" by (simp add: sample_token_def signShopToken_def sample_jwt_def show_nat_facts)
  ultimately show ?thesis
    using verify_shop_token [OF sample_jwt_ok, of "''o''" "''s''" Owner 0 0 now]
    by (simp add: bearer_claims_def sample_bearer MAX_SAFE_INTEGER_def flip: sample_token_def)
qed

lemma revoked_token_refused_witness:
  "requireShopUser sample_jwt sample_request (users (run (sample_env sample_jwt) [(500, Ev_logout sample_request)] (boot sample_accounts))) 700
    = unauthorized"
proof -
  have "resolveShopSession ''o'' ''s'' 0 [sample_owner] = Some \<lparr>ss_id = ''o'', ss_shopId = ''s'', ss_role = Owner\<rparr>" by code_simp
  then have r: "revokes (sample_env sample_jwt) ''o'' 500 (Ev_logout sample_request) (boot sample_accounts)"
    by (simp add: revokes_def sample_env_def requireShopUser_def sample_claims boot_def users_def sample_accounts_def)
  have l: "password_login (sample_env sample_jwt) ''m'' ''o@s'' ''pw'' 0 sample_accounts = Inr sample_token"
    by (simp add: password_login_def sample_accounts_def sample_owner_def sample_env_def sample_token_def)
  have o: "su_id sample_owner = ''o''" by (simp add: sample_owner_def)
  show ?thesis
    using revoked_token_refused [of "sample_env sample_jwt" sample_accounts "[]" "[]" 500 "Ev_logout sample_request" "[]" "''m''" "''o@s''"
        "''pw''" 0 sample_token sample_owner sample_request 700] sample_jwt_ok r l o sample_bearer
    by (simp add: accounts_ok_def sample_accounts_def sample_env_def users_def boot_def sample_owner_def)
qed

end
