(* ===== verification/Shop_Publication.thy ===== *)
theory Shop_Publication
  imports Accounts
begin

text \<open>
  When students see a shop: modules/public/discovery.ts, modules/shops/visibility.ts and autoLive.ts, the
  verification route of modules/shops/routes.ts and the review actions of modules/admin (routes.ts,
  shopViews.ts), on the tables of shops, campuses, printers, agents and audit events and of the students who
  wait for a closed shop.
\<close>

record campus_row =
  cm_id :: id
  cm_slug :: string
  cm_name :: string
  cm_address :: string
  cm_latitude :: "real option"
  cm_longitude :: "real option"
  cm_isActive :: bool

record shop_store =
  sp_shops :: "shop_row list"
  sp_campuses :: "campus_row list"
  sp_printers :: "printer_row list"
  sp_agents :: "agent_row list"
  sp_audit :: "audit_row list"
  sp_interests :: "(id \<times> id) list"

definition find_shop_row :: "id \<Rightarrow> shop_store \<Rightarrow> shop_row option" where
  "find_shop_row shopId st = find (\<lambda>s. sh_id s = shopId) (sp_shops st)"

definition campus_of :: "shop_row \<Rightarrow> shop_store \<Rightarrow> campus_row option" where
  "campus_of s st = (case sh_campusId s of None \<Rightarrow> None | Some c \<Rightarrow> find (\<lambda>x. cm_id x = c) (sp_campuses st))"

definition printers_of :: "id \<Rightarrow> shop_store \<Rightarrow> printer_row list" where
  "printers_of shopId st = filter (\<lambda>p. pt_shopId p = shopId) (sp_printers st)"

definition agents_of :: "id \<Rightarrow> shop_store \<Rightarrow> agent_row list" where
  "agents_of shopId st = filter (\<lambda>a. ag_shopId a = shopId) (sp_agents st)"

definition update_shop :: "id \<Rightarrow> (shop_row \<Rightarrow> shop_row) \<Rightarrow> shop_store \<Rightarrow> shop_store" where
  "update_shop shopId f st = st\<lparr>sp_shops := update_where (\<lambda>s. sh_id s = shopId) f (sp_shops st)\<rparr>"

definition with_audit :: "audit_row \<Rightarrow> shop_store \<Rightarrow> shop_store" where
  "with_audit a st = st\<lparr>sp_audit := sp_audit st @ [a]\<rparr>"

definition campus_inactive :: "shop_row \<Rightarrow> shop_store \<Rightarrow> bool" where
  "campus_inactive s st = (case campus_of s st of None \<Rightarrow> False | Some c \<Rightarrow> \<not> cm_isActive c)"

definition has_location :: "shop_row \<Rightarrow> bool" where
  "has_location s = (sh_latitude s \<noteq> None \<and> sh_longitude s \<noteq> None)"

subsection \<open>discovery.ts: two forms of one rule\<close>

text \<open>The condition of the database query.\<close>

definition publishedShopWhere :: "shop_store \<Rightarrow> shop_row \<Rightarrow> bool" where
  "publishedShopWhere st s = (sh_verificationStatus s = V_verified \<and> sh_publishedAt s \<noteq> None
    \<and> (sh_campusId s = None \<or> list_ex (\<lambda>c. sh_campusId s = Some (cm_id c) \<and> cm_isActive c) (sp_campuses st)))"

text \<open>The check on a row that is already loaded with its campus.\<close>

definition isPublishedShop :: "shop_row \<Rightarrow> campus_row option \<Rightarrow> bool" where
  "isPublishedShop s campus = (sh_verificationStatus s = V_verified \<and> sh_publishedAt s \<noteq> None
    \<and> (sh_campusId s = None \<or> (case campus of None \<Rightarrow> False | Some c \<Rightarrow> cm_isActive c)))"

subsection \<open>visibility.ts\<close>

datatype visibility_state = Vs_live | Vs_live_pc_offline | Vs_not_ready | Vs_hidden_by_admin | Vs_campus_inactive | Vs_pending_review

definition VISIBILITY_ADMIN_ACTIONS :: "string list" where
  "VISIBILITY_ADMIN_ACTIONS = [''shop.published'', ''shop.unpublished'', ''shop.verified'', ''shop.rejected'']"

definition recordedReason :: "audit_row option \<Rightarrow> string option" where
  "recordedReason event = (case event of
      None \<Rightarrow> None
    | Some a \<Rightarrow> (case av_reason a of None \<Rightarrow> None
        | Some reason \<Rightarrow> if trim reason \<noteq> [] then Some (take 300 (trim reason)) else None))"

definition shopVisibility :: "shop_row \<Rightarrow> campus_row option \<Rightarrow> bool \<Rightarrow> audit_row option \<Rightarrow> visibility_state \<times> string option" where
  "shopVisibility s campus printerPathOnline last_action =
    (let did = (\<lambda>a. case last_action of None \<Rightarrow> False | Some e \<Rightarrow> av_action e = a) in
     if sh_verificationStatus s = V_rejected
       then (Vs_hidden_by_admin, if did ''shop.rejected'' then recordedReason last_action else None)
     else if sh_verificationStatus s = V_verified \<and> sh_publishedAt s = None \<and> did ''shop.unpublished''
       then (Vs_hidden_by_admin, recordedReason last_action)
     else if sh_campusId s \<noteq> None \<and> \<not> (case campus of None \<Rightarrow> False | Some c \<Rightarrow> cm_isActive c) then (Vs_campus_inactive, None)
     else if isPublishedShop s campus then
       (if \<not> has_location s then (Vs_not_ready, None)
        else (if printerPathOnline then Vs_live else Vs_live_pc_offline, None))
     else if (sh_verificationStatus s = V_submitted \<and> \<not> sh_autoLive s) \<or> sh_verificationStatus s = V_verified
       then (Vs_pending_review, None)
     else (Vs_not_ready, None))"

definition hasOnlinePrinterPath :: "agent_row list \<Rightarrow> printer_row list \<Rightarrow> bool" where
  "hasOnlinePrinterPath agents printers =
    (let reachable = concat (map ag_connectedPrinterIds (filter (\<lambda>a. ag_status a = Ag_online) agents))
     in list_ex (\<lambda>p. pt_status p = P_online \<and> pt_id p \<in> set reachable) printers)"

definition countDetectedPrinters :: "agent_row list \<Rightarrow> printer_row list \<Rightarrow> nat" where
  "countDetectedPrinters agents printers =
    (let linked = concat (map (\<lambda>p. case pt_osPrinterName p of Some n \<Rightarrow> if n \<noteq> [] then [n] else [] | None \<Rightarrow> []) printers);
         found = concat (map (\<lambda>a. case ag_detectedPrinters a of None \<Rightarrow> [] | Some names \<Rightarrow> filter (\<lambda>n. n \<noteq> [] \<and> n \<notin> set linked) names)
           (filter (\<lambda>a. ag_status a = Ag_online) agents))
     in length (unique_first found))"

subsection \<open>autoLive.ts\<close>

definition reviewable :: "shop_row \<Rightarrow> bool" where
  "reviewable s = (sh_autoLive s \<and> (sh_verificationStatus s = V_draft \<or> sh_verificationStatus s = V_submitted) \<and> sh_publishedAt s = None)"

definition ready_to_publish :: "shop_row \<Rightarrow> printer_row list \<Rightarrow> agent_row list \<Rightarrow> bool" where
  "ready_to_publish s printers agents =
    (let linkedOnline = map pt_id (filter (\<lambda>p. truthy (pt_osPrinterName p) \<and> pt_status p = P_online) printers)
     in has_location s \<and> o_papers (shopOptions s) \<noteq> []
       \<and> list_ex (\<lambda>a. ag_status a = Ag_online \<and> list_ex (\<lambda>i. i \<in> set linkedOnline) (ag_connectedPrinterIds a)) agents)"

text \<open>The guarded write: a row that an administrator has just reviewed no longer satisfies the guard.\<close>

definition publish_write :: "id \<Rightarrow> millis \<Rightarrow> shop_store \<Rightarrow> bool \<times> shop_store" where
  "publish_write shopId now st =
    (let p = \<lambda>s. sh_id s = shopId \<and> reviewable s in
     (0 < count_where p (sp_shops st), st\<lparr>sp_shops := update_where p (\<lambda>s. s\<lparr>sh_verificationStatus := V_verified,
       sh_verificationSubmittedAt := Some now, sh_verifiedAt := Some now, sh_publishedAt := Some now\<rparr>) (sp_shops st)\<rparr>))"

definition publishIfReady :: "id \<Rightarrow> millis \<Rightarrow> shop_store \<Rightarrow> bool \<times> shop_store" where
  "publishIfReady shopId now st = (case find_shop_row shopId st of
      None \<Rightarrow> (False, st)
    | Some s \<Rightarrow> if \<not> reviewable s then (False, st)
      else if \<not> ready_to_publish s (printers_of shopId st) (agents_of shopId st) then (False, st)
      else publish_write shopId now st)"

subsection \<open>The owner asks for verification\<close>

definition submitVerification :: "id \<Rightarrow> millis \<Rightarrow> shop_store \<Rightarrow> verification_status result \<times> shop_store" where
  "submitVerification shopId now st = (case find_shop_row shopId st of
      None \<Rightarrow> (Inl NotFound, st)
    | Some s \<Rightarrow>
      if sh_autoLive s \<and> sh_verificationStatus s = V_rejected then (Inl (Conflict ''rejected by review''), st)
      else if \<not> has_location s \<or> \<not> list_ex (\<lambda>p. truthy (pt_osPrinterName p)) (printers_of shopId st)
        \<or> agents_of shopId st = [] \<or> o_papers (shopOptions s) = [] then (Inl (BadRequest ''Complete the setup''), st)
      else (case publishIfReady shopId now st of
          (True, st1) \<Rightarrow> (Inr V_verified, st1)
        | (False, st1) \<Rightarrow>
          if sh_autoLive s \<and> sh_verificationStatus s = V_draft then (Inr V_draft, st1)
          else if sh_verificationStatus s = V_verified then (Inr V_verified, st1)
          else (Inr V_submitted, update_shop shopId (\<lambda>x. x\<lparr>sh_verificationStatus := V_submitted,
            sh_verificationSubmittedAt := Some now, sh_verifiedAt := None, sh_publishedAt := None, sh_verificationNotes := None\<rparr>) st1)))"

subsection \<open>The administrator reviews\<close>

definition verifyShop :: "id \<Rightarrow> id \<Rightarrow> string option \<Rightarrow> millis \<Rightarrow> shop_store \<Rightarrow> unit result \<times> shop_store" where
  "verifyShop adminId shopId notes now st = (case find_shop_row shopId st of
      None \<Rightarrow> (Inl NotFound, st)
    | Some s \<Rightarrow> if sh_verificationStatus s \<noteq> V_submitted then (Inl (Conflict ''Only submitted shops can be verified''), st)
      else if campus_inactive s st \<or> \<not> has_location s then (Inl (Conflict ''inactive campus or no location''), st)
      else (Inr (), with_audit (audit adminId ''shop.verified'' ''shop'' shopId None now)
        (update_shop shopId (\<lambda>x. x\<lparr>sh_verificationStatus := V_verified, sh_verifiedAt := Some now, sh_publishedAt := None,
          sh_verificationNotes := notes\<rparr>) st)))"

definition rejectShop :: "id \<Rightarrow> id \<Rightarrow> string option \<Rightarrow> millis \<Rightarrow> shop_store \<Rightarrow> unit result \<times> shop_store" where
  "rejectShop adminId shopId notes now st = (case find_shop_row shopId st of
      None \<Rightarrow> (Inl NotFound, st)
    | Some s \<Rightarrow> if sh_verificationStatus s = V_draft then (Inl (Conflict ''A draft shop has not requested verification''), st)
      else (Inr (), with_audit (audit adminId ''shop.rejected'' ''shop'' shopId None now)
        (update_shop shopId (\<lambda>x. x\<lparr>sh_verificationStatus := V_rejected, sh_verifiedAt := None, sh_publishedAt := None,
          sh_verificationNotes := notes\<rparr>) st)))"

definition publishShop :: "id \<Rightarrow> id \<Rightarrow> millis \<Rightarrow> shop_store \<Rightarrow> unit result \<times> shop_store" where
  "publishShop adminId shopId now st = (case find_shop_row shopId st of
      None \<Rightarrow> (Inl NotFound, st)
    | Some s \<Rightarrow> if sh_verificationStatus s \<noteq> V_verified \<or> campus_inactive s st
        then (Inl (Conflict ''Only verified shops can be published''), st)
      else (Inr (), with_audit (audit adminId ''shop.published'' ''shop'' shopId None now)
        (update_shop shopId (\<lambda>x. x\<lparr>sh_publishedAt := Some now\<rparr>) st)))"

definition unpublishShop :: "id \<Rightarrow> id \<Rightarrow> string option \<Rightarrow> millis \<Rightarrow> shop_store \<Rightarrow> unit result \<times> shop_store" where
  "unpublishShop adminId shopId reason now st = (case find_shop_row shopId st of
      None \<Rightarrow> (Inl NotFound, st)
    | Some s \<Rightarrow> (Inr (), with_audit (audit adminId ''shop.unpublished'' ''shop'' shopId
          (if truthy reason then reason else None) now)
        (update_shop shopId (\<lambda>x. x\<lparr>sh_publishedAt := None\<rparr>) st)))"

subsection \<open>shopViews.ts\<close>

datatype shop_view_tab = Tab_all | Tab_live | Tab_hidden | Tab_setup

definition shopViewWhere :: "shop_view_tab \<Rightarrow> shop_store \<Rightarrow> shop_row \<Rightarrow> bool" where
  "shopViewWhere view st s = (case view of
      Tab_live \<Rightarrow> publishedShopWhere st s
    | Tab_hidden \<Rightarrow> sh_verificationStatus s = V_rejected
        \<or> (sh_verificationStatus s = V_verified \<and> sh_publishedAt s = None)
        \<or> (sh_verificationStatus s = V_verified
            \<and> list_ex (\<lambda>c. sh_campusId s = Some (cm_id c) \<and> \<not> cm_isActive c) (sp_campuses st))
    | Tab_setup \<Rightarrow> sh_verificationStatus s = V_draft \<or> sh_verificationStatus s = V_submitted
    | Tab_all \<Rightarrow> True)"

datatype list_state = Ls_live | Ls_campus_inactive | Ls_hidden_by_admin | Ls_rejected | Ls_waiting_review | Ls_setting_up

definition shopListState :: "shop_row \<Rightarrow> campus_row option \<Rightarrow> list_state" where
  "shopListState s campus =
    (if sh_verificationStatus s = V_draft then Ls_setting_up
     else if sh_verificationStatus s = V_submitted then Ls_waiting_review
     else if sh_verificationStatus s = V_rejected then Ls_rejected
     else if sh_publishedAt s = None then Ls_hidden_by_admin
     else if (case campus of None \<Rightarrow> False | Some c \<Rightarrow> \<not> cm_isActive c) then Ls_campus_inactive
     else Ls_live)"

text \<open>The reason of the latest unpublish event of every shop; the map of the code is a function here.\<close>

definition latestUnpublishReasons :: "id list \<Rightarrow> shop_store \<Rightarrow> id \<Rightarrow> string option option" where
  "latestUnpublishReasons shopIds st i =
    (case sort_key (\<lambda>a. - av_createdAt a) (filter (\<lambda>a. av_action a = ''shop.unpublished'' \<and> av_subjectType a = ''shop''
        \<and> av_subjectId a \<in> set shopIds \<and> av_subjectId a = i) (sp_audit st)) of
      [] \<Rightarrow> None
    | a # _ \<Rightarrow> Some (if truthy (av_reason a) then av_reason a else None))"

subsection \<open>Campuses\<close>

definition canonicalSlug :: "string \<Rightarrow> string" where
  "canonicalSlug v = take 100 (strip_dashes (dash_runs False (lower_case v)))"

definition campus_numbered :: "string \<Rightarrow> nat \<Rightarrow> string" where
  "campus_numbered base i = take (max 1 (100 - length (show_nat i) - 1)) base @ CHR ''-'' # show_nat i"

lemma campus_numbered_inj: "inj (campus_numbered base)"
proof (rule injI)
  fix i j
  have tail: "takeWhile (\<lambda>c. c \<noteq> CHR ''-'') (rev (p @ CHR ''-'' # show_nat n)) = rev (show_nat n)" for p n
  proof -
    have "CHR ''-'' \<notin> set (show_nat n)"
      using show_nat_facts(2) [of n] digit_not(3) by (auto simp: list_all_iff)
    then show ?thesis by (simp add: takeWhile_append)
  qed
  assume "campus_numbered base i = campus_numbered base j"
  then have "rev (show_nat i) = rev (show_nat j)" unfolding campus_numbered_def using tail by metis
  then have "to_number (show_nat i) = to_number (show_nat j)" by simp
  then show "i = j" by (simp add: show_nat_facts)
qed

function next_campus_slug :: "string list \<Rightarrow> string \<Rightarrow> nat \<Rightarrow> string" where
  "next_campus_slug taken base i =
    (if campus_numbered base i \<in> set taken then next_campus_slug taken base (Suc i) else campus_numbered base i)"
  by auto
termination
  by (relation "measure (\<lambda>(taken, base, i). card {j. i \<le> j \<and> campus_numbered base j \<in> set taken})")
    (simp_all add: probe_measure campus_numbered_inj)

declare next_campus_slug.simps [simp del]

definition uniqueCampusSlug :: "string \<Rightarrow> id option \<Rightarrow> campus_row list \<Rightarrow> string" where
  "uniqueCampusSlug preferred excludeId campuses =
    (let base = (if canonicalSlug preferred = [] then ''campus'' else canonicalSlug preferred);
         taken = map cm_slug (filter (\<lambda>c. Some (cm_id c) \<noteq> excludeId) campuses)
     in if base \<in> set taken then next_campus_slug taken base 2 else base)"

text \<open>An exact duplicate of the name, ignoring case.\<close>

definition campus_name_clash :: "string \<Rightarrow> id option \<Rightarrow> campus_row list \<Rightarrow> bool" where
  "campus_name_clash name excludeId campuses =
    list_ex (\<lambda>c. lower_case (cm_name c) = lower_case name \<and> Some (cm_id c) \<noteq> excludeId) campuses"

record campus_input =
  ci_name :: "string option"
  ci_address :: "string option"
  ci_slug :: "string option"
  ci_isActive :: "bool option"
  ci_latitude :: "real option option"
  ci_longitude :: "real option option"

definition createCampus :: "id \<Rightarrow> id \<Rightarrow> string \<Rightarrow> string \<Rightarrow> campus_input \<Rightarrow> millis \<Rightarrow> shop_store \<Rightarrow> campus_row result \<times> shop_store" where
  "createCampus adminId newId name address b now st =
    (if campus_name_clash name None (sp_campuses st) then (Inl (Conflict ''A campus of this name already exists''), st)
     else let slug = uniqueCampusSlug (case ci_slug b of Some s \<Rightarrow> s | None \<Rightarrow> name) None (sp_campuses st);
            c = \<lparr>cm_id = newId, cm_slug = slug, cm_name = name, cm_address = address,
              cm_latitude = Option.bind (ci_latitude b) id, cm_longitude = Option.bind (ci_longitude b) id,
              cm_isActive = (case ci_isActive b of Some v \<Rightarrow> v | None \<Rightarrow> True)\<rparr>
       in (Inr c, with_audit (audit adminId ''campus.created'' ''campus'' newId None now) (st\<lparr>sp_campuses := sp_campuses st @ [c]\<rparr>)))"

definition patch_campus_row :: "campus_input \<Rightarrow> string option \<Rightarrow> campus_row \<Rightarrow> campus_row" where
  "patch_campus_row b slug c = c\<lparr>
    cm_name := (case ci_name b of Some v \<Rightarrow> v | None \<Rightarrow> cm_name c),
    cm_address := (case ci_address b of Some v \<Rightarrow> v | None \<Rightarrow> cm_address c),
    cm_isActive := (case ci_isActive b of Some v \<Rightarrow> v | None \<Rightarrow> cm_isActive c),
    cm_latitude := (case ci_latitude b of Some v \<Rightarrow> v | None \<Rightarrow> cm_latitude c),
    cm_longitude := (case ci_longitude b of Some v \<Rightarrow> v | None \<Rightarrow> cm_longitude c),
    cm_slug := (case slug of Some v \<Rightarrow> v | None \<Rightarrow> cm_slug c)\<rparr>"

definition patchCampus :: "id \<Rightarrow> id \<Rightarrow> campus_input \<Rightarrow> millis \<Rightarrow> shop_store \<Rightarrow> unit result \<times> shop_store" where
  "patchCampus adminId i b now st =
    (if find (\<lambda>c. cm_id c = i) (sp_campuses st) = None then (Inl NotFound, st)
     else if (case ci_name b of None \<Rightarrow> False | Some name \<Rightarrow> campus_name_clash name (Some i) (sp_campuses st))
       then (Inl (Conflict ''A campus of this name already exists''), st)
     else let slug = map_option (\<lambda>s. uniqueCampusSlug s (Some i) (sp_campuses st)) (ci_slug b) in
       (Inr (), with_audit (audit adminId ''campus.updated'' ''campus'' i None now)
         (st\<lparr>sp_campuses := update_where (\<lambda>c. cm_id c = i) (patch_campus_row b slug) (sp_campuses st)\<rparr>)))"

end
