(* ===== verification/Input_Rules.thy ===== *)
theory Input_Rules
  imports Pricing
begin

text \<open>
  What the program accepts as input: the phone rule of the server (packages/shared/src/schemas.ts) and the
  helpers of the phone and code fields (apps/web/src/lib/phone.ts), the password rule
  (packages/shared/src/password.ts), and the schemas of a shop's menu and of the specs and the time slot of
  an order (schemas.ts). A schema is a bool-valued check of the value after its own trimming.
\<close>

subsection \<open>Phone numbers on the server\<close>

text \<open>\<open>/^[6-9]\d{9}$/\<close>\<close>

definition isValidIndianMobile :: "string \<Rightarrow> bool" where
  "isValidIndianMobile s = (length s = 10 \<and> list_all is_digit s \<and> 54 \<le> code_of (hd s))"

definition PLUS_91 :: string where "PLUS_91 = ''+91''"

definition phoneSchema :: "string \<Rightarrow> string option" where
  "phoneSchema raw =
    (let v = filter (\<lambda>c. \<not> is_space c \<and> c \<noteq> CHR ''-'') (trim raw) in
     if take 3 v = PLUS_91 \<and> isValidIndianMobile (drop 3 v) then Some v
     else if isValidIndianMobile v then Some (PLUS_91 @ v)
     else None)"

text \<open>\<open>/^\d{6}$/\<close>\<close>

definition six_digits :: "string \<Rightarrow> bool" where
  "six_digits s = (length s = 6 \<and> list_all is_digit s)"

text \<open>\<open>/^\d{4,6}$/\<close>\<close>

definition staff_pin_ok :: "string \<Rightarrow> bool" where
  "staff_pin_ok s = (4 \<le> length s \<and> length s \<le> 6 \<and> list_all is_digit s)"

subsection \<open>Phone numbers and codes in the browser\<close>

definition starts_0 :: "string \<Rightarrow> bool" where
  "starts_0 s = (take 1 s = ''0'')"

definition starts_91 :: "string \<Rightarrow> bool" where
  "starts_91 s = (take 2 s = ''91'')"

text \<open>The loop that strips the country prefixes.\<close>

function strip_prefixes :: "string \<Rightarrow> string" where
  "strip_prefixes national =
    (if 10 < length national \<and> (starts_0 national \<or> starts_91 national)
     then strip_prefixes (if starts_0 national then drop 1 national else drop 2 national) else national)"
  by auto
termination by (relation "measure length") auto

declare strip_prefixes.simps [simp del]

definition normalizeIndianMobile :: "string \<Rightarrow> string" where
  "normalizeIndianMobile raw =
    (let digits = filter is_digit raw; national = strip_prefixes digits in
     if national \<noteq> digits then take 12 national
     else take (if starts_91 digits then 12 else if starts_0 digits then 11 else 10) digits)"

datatype phone_hint = Too_many_digits | Wrong_start | Enter_ten_digits

definition phoneHint :: "string \<Rightarrow> bool \<Rightarrow> phone_hint option" where
  "phoneHint national finished =
    (if national = [] \<or> isValidIndianMobile national then None
     else if 10 < length national then Some Too_many_digits
     else if 49 \<le> code_of (hd national) \<and> code_of (hd national) \<le> 53 then Some Wrong_start
     else if finished then Some Enter_ten_digits else None)"

text \<open>
  \<open>/(?:^|\D)(\d{6})(?!\d)/\<close> finds the first maximal run of digits that has length 6; \<open>digit_runs\<close> lists the
  maximal runs, the empty ones between two other characters included.
\<close>

fun digit_runs :: "string \<Rightarrow> string list" where
  "digit_runs [] = [[]]"
| "digit_runs (c # cs) = (if \<not> is_digit c then [] # digit_runs cs
    else case digit_runs cs of [] \<Rightarrow> [[c]] | w # ws \<Rightarrow> (c # w) # ws)"

definition extractOtp :: "string \<Rightarrow> string" where
  "extractOtp raw = (case find (\<lambda>r. length r = 6) (digit_runs raw) of
      Some r \<Rightarrow> r
    | None \<Rightarrow> take 6 (filter is_digit raw))"

definition formatWait :: "int \<Rightarrow> string" where
  "formatWait seconds = (if seconds < 60 then show_int seconds @ ''s'' else show_int ((seconds + 59) div 60) @ '' min'')"

subsection \<open>Passwords\<close>

definition COMMON_PASSWORD_WORDS :: "string list" where
  "COMMON_PASSWORD_WORDS = [''password'', ''passwd'', ''printq'', ''printqs'', ''qwerty'', ''qwertyui'', ''qwertyuiop'', ''asdfgh'',
    ''asdfghjk'', ''zxcvbnm'', ''admin'', ''welcome'', ''iloveyou'', ''letmein'', ''india'', ''xerox'']"

definition COMMON_PASSWORDS :: "string list" where
  "COMMON_PASSWORDS = [''abcd1234'', ''1234abcd'', ''qwer1234'', ''asdf1234'', ''1q2w3e4r'', ''zaq12wsx'']"

definition run_step :: "char \<Rightarrow> char \<Rightarrow> int" where
  "run_step a b = (let diff = code_of b - code_of a in
    if \<not> is_digit a \<or> \<not> is_digit b then diff
    else let wrapped = (diff + 10) mod 10 in if wrapped = 1 then 1 else if wrapped = 9 then -1 else 0)"

fun steps_by :: "int \<Rightarrow> string \<Rightarrow> bool" where
  "steps_by d (a # b # cs) = (run_step a b = d \<and> steps_by d (b # cs))"
| "steps_by d _ = True"

text \<open>Called on at least two characters.\<close>

definition isStraightRun :: "string \<Rightarrow> bool" where
  "isStraightRun v = (let first = run_step (v ! 0) (v ! 1) in (first = 1 \<or> first = -1) \<and> steps_by first (tl v))"

text \<open>\<open>/^(.{1,4})\1+$/\<close>; the point matches every character but a line terminator.\<close>

definition repeats_chunk :: "nat \<Rightarrow> string \<Rightarrow> bool" where
  "repeats_chunk k v = (2 * k \<le> length v \<and> list_all (\<lambda>c. code_of c \<noteq> 10 \<and> code_of c \<noteq> 13) (take k v)
    \<and> v = concat (replicate (length v div k) (take k v)))"

definition is_letter :: "char \<Rightarrow> bool" where
  "is_letter c = (97 \<le> code_of c \<and> code_of c \<le> 122)"

definition leet :: "char \<Rightarrow> char" where
  "leet c = (if c = CHR ''@'' \<or> c = CHR ''4'' then CHR ''a'' else if c = CHR ''0'' then CHR ''o''
    else if c = CHR ''$'' \<or> c = CHR ''5'' then CHR ''s'' else if c = CHR ''3'' then CHR ''e''
    else if c = CHR ''1'' then CHR ''i'' else c)"

definition bare_word :: "string \<Rightarrow> string" where
  "bare_word v = map leet (rev (dropWhile (\<lambda>c. \<not> is_letter c) (rev (dropWhile (\<lambda>c. \<not> is_letter c) v))))"

definition isWeakPassword :: "string \<Rightarrow> bool" where
  "isWeakPassword password =
    (let v = lower_case (trim password) in
     length v < 2 \<or> list_ex (\<lambda>k. repeats_chunk k v) [1, 2, 3, 4] \<or> isStraightRun v \<or> v \<in> set COMMON_PASSWORDS
     \<or> bare_word v \<in> set COMMON_PASSWORD_WORDS)"

datatype password_problem = Pw_required | Pw_only_spaces | Pw_too_short | Pw_too_long | Pw_weak

definition passwordProblem :: "string \<Rightarrow> password_problem option" where
  "passwordProblem password =
    (if password = [] then Some Pw_required
     else if trim password = [] then Some Pw_only_spaces
     else if length (trim password) < 8 then Some Pw_too_short
     else if 128 < length password then Some Pw_too_long
     else if isWeakPassword password then Some Pw_weak
     else None)"

subsection \<open>The menu of a shop\<close>

definition MAX_PAGE_PRICE_PAISE :: paise where "MAX_PAGE_PRICE_PAISE = 10000"
definition MAX_BINDING_PRICE_PAISE :: paise where "MAX_BINDING_PRICE_PAISE = 100000"

definition option_text_ok :: "string \<Rightarrow> bool" where
  "option_text_ok s = (1 \<le> length s \<and> length s \<le> 40)"

definition paper_ok :: "paper_option \<Rightarrow> bool" where
  "paper_ok p = (option_text_ok (po_id p) \<and> option_text_ok (po_label p) \<and> 0 \<le> po_bwPaise p \<and> po_bwPaise p \<le> MAX_PAGE_PRICE_PAISE
    \<and> (case po_colorPaise p of None \<Rightarrow> True | Some c \<Rightarrow> 0 \<le> c \<and> c \<le> MAX_PAGE_PRICE_PAISE))"

definition binding_ok :: "binding_option \<Rightarrow> bool" where
  "binding_ok b = (option_text_ok (bo_id b) \<and> option_text_ok (bo_label b) \<and> 0 \<le> bo_paise b \<and> bo_paise b \<le> MAX_BINDING_PRICE_PAISE)"

text \<open>The loops of \<open>superRefine\<close> with the set of the keys seen so far.\<close>

fun papers_refined :: "string list \<Rightarrow> paper_option list \<Rightarrow> bool" where
  "papers_refined seen [] = True"
| "papers_refined seen (p # ps) = (let key = lower_case (po_id p) in
    key \<notin> set seen \<and> (case po_colorPaise p of None \<Rightarrow> True | Some c \<Rightarrow> po_bwPaise p \<le> c) \<and> papers_refined (key # seen) ps)"

fun bindings_refined :: "string list \<Rightarrow> binding_option list \<Rightarrow> bool" where
  "bindings_refined seen [] = True"
| "bindings_refined seen (b # bs) = (let key = lower_case (bo_id b) in
    key \<noteq> ''none'' \<and> key \<notin> set seen \<and> bindings_refined (key # seen) bs)"

definition printOptionsSchema :: "shop_options \<Rightarrow> bool" where
  "printOptionsSchema m = (1 \<le> length (o_papers m) \<and> length (o_papers m) \<le> 12 \<and> list_all paper_ok (o_papers m)
    \<and> length (o_bindings m) \<le> 12 \<and> list_all binding_ok (o_bindings m)
    \<and> papers_refined [] (o_papers m) \<and> bindings_refined [] (o_bindings m))"

subsection \<open>The specs and the time slot of an order\<close>

definition pageRangeSchema :: "string \<Rightarrow> bool" where
  "pageRangeSchema s = (length s \<le> 200 \<and> is_range_list s)"

definition jobSpecsSchema :: "job_specs \<Rightarrow> bool" where
  "jobSpecsSchema s = (1 \<le> copies s \<and> copies s \<le> 100 \<and> option_text_ok (paperSize s)
    \<and> (case js_binding s of None \<Rightarrow> True | Some b \<Rightarrow> option_text_ok b)
    \<and> (case pageRange s of None \<Rightarrow> True | Some r \<Rightarrow> pageRangeSchema r))"

definition slot_ok :: "job_mode \<Rightarrow> millis option \<Rightarrow> millis \<Rightarrow> bool" where
  "slot_ok mode scheduledTime now = (mode = Scheduled \<longrightarrow> (case scheduledTime of
      None \<Rightarrow> False
    | Some t \<Rightarrow> 15 * 60000 \<le> t - now \<and> t - now \<le> 72 * 3600000))"

end
