(* ===== verification/Shop_Settings.thy ===== *)
theory Shop_Settings
  imports Shop_Publication Input_Rules
begin

text \<open>
  The settings of a shop (modules/shops/routes.ts): what a change of the profile may contain, which changes
  need a new review, the version check of the menu, the counter UPI identity, the switch for new orders and
  the status of the guided set-up. A key of the body that is absent is None; a nullable one that is null is
  \<open>Some None\<close>.
\<close>

record shop_patch =
  pa_name :: "string option"
  pa_address :: "string option"
  pa_campusName :: "string option option"
  pa_campusId :: "id option option"
  pa_latitude :: "real option option"
  pa_longitude :: "real option option"
  pa_checkInRadiusM :: "int option"
  pa_counterCapacity :: "int option"
  pa_revealGraceSeconds :: "int option"
  pa_autoAssignEnabled :: "bool option"
  pa_cashPaymentsEnabled :: "bool option"
  pa_counterUpiVpa :: "string option option"
  pa_counterUpiPayeeName :: "string option option"
  pa_acceptingOrders :: "bool option"
  pa_printOptions :: "shop_options option"
  pa_expectedPrintOptionsVersion :: "int option"

definition empty_patch :: shop_patch where
  "empty_patch = \<lparr>pa_name = None, pa_address = None, pa_campusName = None, pa_campusId = None, pa_latitude = None,
    pa_longitude = None, pa_checkInRadiusM = None, pa_counterCapacity = None, pa_revealGraceSeconds = None,
    pa_autoAssignEnabled = None, pa_cashPaymentsEnabled = None, pa_counterUpiVpa = None, pa_counterUpiPayeeName = None,
    pa_acceptingOrders = None, pa_printOptions = None, pa_expectedPrintOptionsVersion = None\<rparr>"

subsection \<open>shopPatchSchema\<close>

definition when_given :: "('a \<Rightarrow> bool) \<Rightarrow> 'a option \<Rightarrow> bool" where
  "when_given p v = (case v of None \<Rightarrow> True | Some x \<Rightarrow> p x)"

definition vpa_char :: "char \<Rightarrow> bool" where
  "vpa_char c = (let n = code_of c in (97 \<le> n \<and> n \<le> 122) \<or> (48 \<le> n \<and> n \<le> 57) \<or> c = CHR ''.'' \<or> c = CHR ''-'')"

text \<open>\<open>/^[a-z0-9._-]{2,100}@[a-z][a-z0-9.-]{1,63}$/\<close>, at most 120 characters.\<close>

definition vpa_ok :: "string \<Rightarrow> bool" where
  "vpa_ok s = (length s \<le> 120 \<and> (case split_on (CHR ''@'') s of
      [user, host] \<Rightarrow> 2 \<le> length user \<and> length user \<le> 100 \<and> list_all (\<lambda>c. vpa_char c \<or> c = CHR ''_'') user
        \<and> 2 \<le> length host \<and> length host \<le> 64 \<and> 97 \<le> code_of (hd host) \<and> code_of (hd host) \<le> 122
        \<and> list_all vpa_char (tl host)
    | _ \<Rightarrow> False))"

definition COUNTER_CAPACITY_MAX :: int where "COUNTER_CAPACITY_MAX = 20"

text \<open>The keys one by one, after trimming.\<close>

definition patch_fields_ok :: "shop_patch \<Rightarrow> bool" where
  "patch_fields_ok b = (when_given (\<lambda>s. 1 \<le> length s \<and> length s \<le> 120) (pa_name b)
    \<and> when_given (\<lambda>s. 1 \<le> length s \<and> length s \<le> 300) (pa_address b)
    \<and> when_given (when_given (\<lambda>s. length s \<le> 120)) (pa_campusName b)
    \<and> when_given (when_given (\<lambda>x. -90 \<le> x \<and> x \<le> 90)) (pa_latitude b)
    \<and> when_given (when_given (\<lambda>x. -180 \<le> x \<and> x \<le> 180)) (pa_longitude b)
    \<and> when_given (\<lambda>r. r \<in> {20, 50, 100, 200}) (pa_checkInRadiusM b)
    \<and> when_given (\<lambda>c. COUNTER_CAPACITY_MIN \<le> c \<and> c \<le> COUNTER_CAPACITY_MAX) (pa_counterCapacity b)
    \<and> when_given (\<lambda>g. g \<in> {30, 60, 120}) (pa_revealGraceSeconds b)
    \<and> when_given (when_given vpa_ok) (pa_counterUpiVpa b)
    \<and> when_given (when_given (\<lambda>s. 2 \<le> length s \<and> length s \<le> 120)) (pa_counterUpiPayeeName b)
    \<and> when_given printOptionsSchema (pa_printOptions b)
    \<and> when_given (\<lambda>v. 0 \<le> v) (pa_expectedPrintOptionsVersion b))"

text \<open>The keys together: no null island, latitude with longitude, VPA with payee.\<close>

definition given_together :: "'a option option \<Rightarrow> 'b option option \<Rightarrow> bool" where
  "given_together x y = ((x = None) = (y = None) \<and> (x = Some None) = (y = Some None))"

definition patch_refined :: "shop_patch \<Rightarrow> bool" where
  "patch_refined b = (\<not> (pa_latitude b = Some (Some 0) \<and> pa_longitude b = Some (Some 0))
    \<and> given_together (pa_latitude b) (pa_longitude b)
    \<and> given_together (pa_counterUpiVpa b) (pa_counterUpiPayeeName b))"

definition patch_ok :: "shop_patch \<Rightarrow> bool" where
  "patch_ok b = (patch_fields_ok b \<and> patch_refined b)"

subsection \<open>PATCH /me: what the change means for the row that was read\<close>

text \<open>\<open>key in body && body[key] !== current[key]\<close>.\<close>

definition changed :: "'a option \<Rightarrow> 'a \<Rightarrow> bool" where
  "changed v old = (case v of None \<Rightarrow> False | Some x \<Rightarrow> x \<noteq> old)"

definition MATERIAL_MOVE_M :: real where "MATERIAL_MOVE_M = 150"

definition location_changed :: "shop_patch \<Rightarrow> shop_row \<Rightarrow> bool" where
  "location_changed b cur = (case pa_latitude b of
      None \<Rightarrow> False
    | Some lat \<Rightarrow> (let lng = the (pa_longitude b) in
        case (lat, lng, sh_latitude cur, sh_longitude cur) of
          (Some la, Some lo, Some cla, Some clo) \<Rightarrow>
            distanceMeters \<lparr>latitude = la, longitude = lo\<rparr> \<lparr>latitude = cla, longitude = clo\<rparr> > MATERIAL_MOVE_M
        | _ \<Rightarrow> lat \<noteq> sh_latitude cur \<or> lng \<noteq> sh_longitude cur))"

text \<open>The coordinates are dropped from the body when they are the stored ones.\<close>

definition writes_location :: "shop_patch \<Rightarrow> shop_row \<Rightarrow> bool" where
  "writes_location b cur = (pa_latitude b \<noteq> None
    \<and> \<not> (\<not> location_changed b cur \<and> the (pa_latitude b) = sh_latitude cur \<and> the (pa_longitude b) = sh_longitude cur))"

definition material_change :: "shop_patch \<Rightarrow> shop_row \<Rightarrow> bool" where
  "material_change b cur = (changed (pa_name b) (sh_name cur) \<or> changed (pa_address b) (sh_address cur)
    \<or> changed (pa_campusId b) (sh_campusId cur) \<or> changed (pa_campusName b) (sh_campusName cur) \<or> location_changed b cur)"

definition verification_reset :: "shop_patch \<Rightarrow> shop_row \<Rightarrow> bool" where
  "verification_reset b cur = (\<not> sh_autoLive cur \<and> material_change b cur)"

definition menu_changed :: "shop_patch \<Rightarrow> shop_row \<Rightarrow> bool" where
  "menu_changed b cur = changed (pa_printOptions b) (shopOptions cur)"

definition upi_changed :: "shop_patch \<Rightarrow> shop_row \<Rightarrow> bool" where
  "upi_changed b cur = (changed (pa_counterUpiVpa b) (sh_counterUpiVpa cur)
    \<or> changed (pa_counterUpiPayeeName b) (sh_counterUpiPayeeName cur))"

definition menu_guard :: "shop_patch \<Rightarrow> shop_row \<Rightarrow> int option" where
  "menu_guard b cur = (if menu_changed b cur then pa_expectedPrintOptionsVersion b else None)"

subsection \<open>PATCH /me: the write\<close>

definition given :: "'a option \<Rightarrow> 'a \<Rightarrow> 'a" where
  "given v old = (case v of None \<Rightarrow> old | Some x \<Rightarrow> x)"

definition write_body :: "shop_patch \<Rightarrow> shop_row \<Rightarrow> millis \<Rightarrow> shop_row \<Rightarrow> shop_row" where
  "write_body b cur now s = s\<lparr>
    sh_name := given (pa_name b) (sh_name s), sh_address := given (pa_address b) (sh_address s),
    sh_campusName := given (pa_campusName b) (sh_campusName s), sh_campusId := given (pa_campusId b) (sh_campusId s),
    sh_latitude := (if writes_location b cur then the (pa_latitude b) else sh_latitude s),
    sh_longitude := (if writes_location b cur then the (pa_longitude b) else sh_longitude s),
    sh_locationUpdatedAt := (if writes_location b cur then (if the (pa_latitude b) \<noteq> None \<and> the (pa_longitude b) \<noteq> None
      then Some now else None) else sh_locationUpdatedAt s),
    sh_checkInRadiusM := given (pa_checkInRadiusM b) (sh_checkInRadiusM s),
    sh_counterCapacity := given (pa_counterCapacity b) (sh_counterCapacity s),
    sh_revealGraceSeconds := given (pa_revealGraceSeconds b) (sh_revealGraceSeconds s),
    sh_autoAssignEnabled := given (pa_autoAssignEnabled b) (sh_autoAssignEnabled s),
    sh_cashPaymentsEnabled := given (pa_cashPaymentsEnabled b) (sh_cashPaymentsEnabled s),
    sh_counterUpiVpa := given (pa_counterUpiVpa b) (sh_counterUpiVpa s),
    sh_counterUpiPayeeName := given (pa_counterUpiPayeeName b) (sh_counterUpiPayeeName s),
    sh_acceptingOrders := given (pa_acceptingOrders b) (sh_acceptingOrders s),
    sh_printOptions := (if menu_changed b cur then pa_printOptions b else sh_printOptions s),
    sh_printOptionsVersion := sh_printOptionsVersion s + (if menu_changed b cur then 1 else 0)\<rparr>"

definition write_reset :: "shop_row \<Rightarrow> shop_row" where
  "write_reset s = s\<lparr>sh_verificationStatus := V_draft, sh_verificationSubmittedAt := None, sh_verifiedAt := None,
    sh_publishedAt := None, sh_verificationNotes := None\<rparr>"

definition patch_write :: "shop_patch \<Rightarrow> shop_row \<Rightarrow> millis \<Rightarrow> shop_row \<Rightarrow> shop_row" where
  "patch_write b cur now s =
    (let s1 = write_body b cur now s;
         s2 = (if verification_reset b cur then write_reset s1 else s1)
     in if upi_changed b cur then s2\<lparr>sh_counterUpiVerifiedAt := None\<rparr> else s2)"

text \<open>
  \<open>cur\<close> is the row as the request read it; the statement runs on the store as it is by then and finds the row
  only if its menu still has the version that the client expects.
\<close>

definition patch_statement :: "id \<Rightarrow> shop_patch \<Rightarrow> shop_row \<Rightarrow> millis \<Rightarrow> shop_store \<Rightarrow> shop_store option" where
  "patch_statement shopId b cur now st =
    (let p = \<lambda>s. sh_id s = shopId \<and> (case menu_guard b cur of None \<Rightarrow> True | Some v \<Rightarrow> sh_printOptionsVersion s = v)
     in if count_where p (sp_shops st) = 0 then None
        else Some (st\<lparr>sp_shops := update_where p (patch_write b cur now) (sp_shops st)\<rparr>))"

definition campus_refused :: "shop_patch \<Rightarrow> shop_store \<Rightarrow> bool" where
  "campus_refused b st = (case pa_campusId b of
      Some (Some c) \<Rightarrow> \<not> list_ex (\<lambda>x. cm_id x = c \<and> cm_isActive x) (sp_campuses st)
    | _ \<Rightarrow> False)"

definition patchShop :: "shop_session \<Rightarrow> shop_patch \<Rightarrow> millis \<Rightarrow> shop_store \<Rightarrow> shop_row result \<times> shop_store \<times> effect list" where
  "patchShop se b now st =
    (if \<not> patch_ok b then (Inl (BadRequest ''Invalid settings''), st, [])
     else if campus_refused b st then (Inl (BadRequest ''Choose an active campus from the approved list''), st, [])
     else case find_shop_row (ss_shopId se) st of
       None \<Rightarrow> (Inl NotFound, st, [])
     | Some cur \<Rightarrow> (case patch_statement (ss_shopId se) b cur now st of
         None \<Rightarrow> (Inl (Conflict ''SETTINGS_CHANGED_ELSEWHERE''), st, [])
       | Some st1 \<Rightarrow> (let st2 = snd (publishIfReady (ss_shopId se) now st1) in
           (case find_shop_row (ss_shopId se) st2 of None \<Rightarrow> Inl (Thrown ''P2025'') | Some s \<Rightarrow> Inr s, st2,
            if pa_counterCapacity b \<noteq> None then [Background ''emitQueueUpdate'' (ss_shopId se)] else []))))"

subsection \<open>The counter UPI identity and the switch for new orders\<close>

definition verifyCounterUpi :: "shop_session \<Rightarrow> millis \<Rightarrow> shop_store \<Rightarrow> unit result \<times> shop_store" where
  "verifyCounterUpi se now st = (case find_shop_row (ss_shopId se) st of
      None \<Rightarrow> (Inl (Conflict ''Save the merchant UPI VPA first''), st)
    | Some s \<Rightarrow> if \<not> truthy (sh_counterUpiVpa s) \<or> \<not> truthy (sh_counterUpiPayeeName s)
        then (Inl (Conflict ''Save the merchant UPI VPA first''), st)
      else (Inr (), update_shop (ss_shopId se) (\<lambda>x. x\<lparr>sh_counterUpiVerifiedAt := Some now\<rparr>) st))"

definition shop_operational :: "id \<Rightarrow> shop_store \<Rightarrow> bool" where
  "shop_operational shopId st = (case find_shop_row shopId st of
      None \<Rightarrow> False
    | Some s \<Rightarrow> isShopOperationalFrom \<lparr>v_shop = s, v_printers = sp_printers st, v_agents = sp_agents st, v_jobs = []\<rparr>)"

text \<open>The students who wait are told once: their rows are removed after the messages.\<close>

definition notifyShopReopened :: "id \<Rightarrow> shop_store \<Rightarrow> shop_store \<times> effect list" where
  "notifyShopReopened shopId st =
    (if \<not> shop_operational shopId st then (st, [])
     else let waiting = filter (\<lambda>w. fst w = shopId) (sp_interests st) in
       if waiting = [] then (st, [])
       else (st\<lparr>sp_interests := filter (\<lambda>w. fst w \<noteq> shopId) (sp_interests st)\<rparr>,
         map (\<lambda>w. Notify (snd w) (K_other ''shop-reopened'' shopId)) waiting))"

definition setAvailability :: "shop_session \<Rightarrow> bool \<Rightarrow> shop_store \<Rightarrow> bool result \<times> shop_store \<times> effect list" where
  "setAvailability se accepting st = (case find_shop_row (ss_shopId se) st of
      None \<Rightarrow> (Inl (Thrown ''P2025''), st, [])
    | Some _ \<Rightarrow>
      (let st1 = update_shop (ss_shopId se) (\<lambda>x. x\<lparr>sh_acceptingOrders := accepting\<rparr>) st;
           (st2, effs) = (if accepting then notifyShopReopened (ss_shopId se) st1 else (st1, []))
       in (Inr accepting, st2, Publish (Ch_shop (ss_shopId se)) ''shop:availability'' (ss_shopId se) # effs)))"

subsection \<open>The status of the guided set-up\<close>

record setup_status =
  su_profileReady :: bool
  su_locationReady :: bool
  su_pricingReady :: bool
  su_printerReady :: bool
  su_agentReady :: bool
  su_ready :: bool
  su_canSubmit :: bool
  su_visibility :: "visibility_state \<times> string option"
  su_detectedPrinters :: nat

text \<open>The last review event, read only for a rejected shop or a verified one that is not published.\<close>

definition last_review :: "shop_row \<Rightarrow> shop_store \<Rightarrow> audit_row option" where
  "last_review s st =
    (if sh_verificationStatus s = V_rejected \<or> (sh_verificationStatus s = V_verified \<and> sh_publishedAt s = None)
     then (case sort_key (\<lambda>a. - av_createdAt a) (filter (\<lambda>a. av_subjectType a = ''shop'' \<and> av_subjectId a = sh_id s
         \<and> av_action a \<in> set VISIBILITY_ADMIN_ACTIONS) (sp_audit st)) of [] \<Rightarrow> None | a # _ \<Rightarrow> Some a)
     else None)"

definition setup_of :: "shop_row \<Rightarrow> shop_store \<Rightarrow> setup_status" where
  "setup_of s st =
    (let printers = printers_of (sh_id s) st; agents = agents_of (sh_id s) st;
         linked = filter (\<lambda>p. truthy (pt_osPrinterName p)) printers;
         readyPrinters = filter (\<lambda>p. pt_status p = P_online) linked;
         onlineAgents = filter (\<lambda>a. ag_status a = Ag_online) agents;
         pricingReady = (o_papers (shopOptions s) \<noteq> []);
         agentReady = list_ex (\<lambda>a. list_ex (\<lambda>i. i \<in> pt_id ` set readyPrinters) (ag_connectedPrinterIds a)) onlineAgents
     in \<lparr>su_profileReady = (trim (sh_name s) \<noteq> [] \<and> trim (sh_address s) \<noteq> []),
         su_locationReady = has_location s, su_pricingReady = pricingReady,
         su_printerReady = (readyPrinters \<noteq> []), su_agentReady = agentReady,
         su_ready = (has_location s \<and> pricingReady \<and> readyPrinters \<noteq> [] \<and> agentReady
           \<and> sh_verificationStatus s = V_verified \<and> sh_publishedAt s \<noteq> None),
         su_canSubmit = (has_location s \<and> pricingReady \<and> readyPrinters \<noteq> [] \<and> agentReady
           \<and> sh_verificationStatus s \<noteq> V_submitted \<and> sh_verificationStatus s \<noteq> V_verified),
         su_visibility = shopVisibility s (campus_of s st) (hasOnlinePrinterPath agents printers) (last_review s st),
         su_detectedPrinters = countDetectedPrinters agents printers\<rparr>)"

definition setupStatus :: "shop_session \<Rightarrow> millis \<Rightarrow> shop_store \<Rightarrow> setup_status result \<times> shop_store" where
  "setupStatus se now st = (case find_shop_row (ss_shopId se) st of
      None \<Rightarrow> (Inl NotFound, st)
    | Some _ \<Rightarrow> (let st1 = snd (publishIfReady (ss_shopId se) now st) in
        case find_shop_row (ss_shopId se) st1 of
          None \<Rightarrow> (Inl NotFound, st1)
        | Some s \<Rightarrow> (Inr (setup_of s st1), st1)))"

end
