(* ===== verification/Shop_Devices.thy ===== *)
theory Shop_Devices
  imports Shop_Settings
begin

text \<open>
  Printers and print computers of a shop: the routes /printers and /agents of modules/shops/routes.ts,
  modules/shops/availability.ts and printerTest.ts, and the result of a set-up page (modules/agents/routes.ts).
  The Json column \<open>mediaConfig\<close> and the texts sent to the computer are not modelled.
\<close>

subsection \<open>Connecting printers with computers\<close>

definition reachablePrinterIds :: "id \<Rightarrow> shop_store \<Rightarrow> id list" where
  "reachablePrinterIds shopId st = unique_first (concat (map ag_connectedPrinterIds
    (filter (\<lambda>a. ag_shopId a = shopId \<and> ag_status a = Ag_online) (sp_agents st))))"

definition connectPrinterToDetectingAgents :: "id \<Rightarrow> id \<Rightarrow> string \<Rightarrow> shop_store \<Rightarrow> shop_store" where
  "connectPrinterToDetectingAgents shopId printerId osPrinterName st =
    st\<lparr>sp_agents := update_where (\<lambda>a. ag_shopId a = shopId
        \<and> (case ag_detectedPrinters a of None \<Rightarrow> False | Some names \<Rightarrow> osPrinterName \<in> set names)
        \<and> printerId \<notin> set (ag_connectedPrinterIds a))
      (\<lambda>a. a\<lparr>ag_connectedPrinterIds := ag_connectedPrinterIds a @ [printerId]\<rparr>) (sp_agents st)\<rparr>"

text \<open>What follows when a printer has the name of an operating system printer.\<close>

definition after_link :: "id \<Rightarrow> printer_row \<Rightarrow> millis \<Rightarrow> shop_store \<Rightarrow> shop_store \<times> effect list" where
  "after_link shopId p now st =
    (if \<not> truthy (pt_osPrinterName p) then (st, [])
     else let st1 = connectPrinterToDetectingAgents shopId (pt_id p) (the (pt_osPrinterName p)) st;
            st2 = snd (publishIfReady shopId now st1);
            (st3, effs) = notifyShopReopened shopId st2
       in (st3, Background ''advanceShopQueues'' shopId # effs))"

subsection \<open>Printers\<close>

definition createPrinter :: "shop_session \<Rightarrow> printer_row \<Rightarrow> millis \<Rightarrow> shop_store \<Rightarrow> printer_row \<times> shop_store \<times> effect list" where
  "createPrinter se body now st =
    (let p = body\<lparr>pt_shopId := ss_shopId se, pt_lastTestRequestId := None, pt_lastTestRequestedAt := None,
           pt_lastTestedAt := None, pt_lastTestStatus := None, pt_lastTestError := None, pt_lastTestAgentId := None\<rparr>;
         (st1, effs) = after_link (ss_shopId se) p now (st\<lparr>sp_printers := sp_printers st @ [p]\<rparr>)
     in (p, st1, effs))"

record printer_patch =
  pp_label :: "string option"
  pp_paperSizesLoaded :: "id list option"
  pp_colorSupport :: "bool option"
  pp_currentlyLoadedPaper :: "string option"
  pp_finishingOptions :: "id list option"
  pp_avgPagesPerMinute :: "int option"
  pp_status :: "printer_status option"
  pp_osPrinterName :: "string option option"

text \<open>\<open>STAFF_PRINTER_FIELDS\<close>: the keys that anyone on the staff may set.\<close>

definition staff_fields_only :: "printer_patch \<Rightarrow> bool" where
  "staff_fields_only b = (pp_label b = None \<and> pp_paperSizesLoaded b = None \<and> pp_colorSupport b = None
    \<and> pp_finishingOptions b = None \<and> pp_avgPagesPerMinute b = None \<and> pp_osPrinterName b = None)"

definition patch_printer_row :: "printer_patch \<Rightarrow> printer_row \<Rightarrow> printer_row" where
  "patch_printer_row b p = p\<lparr>pt_label := given (pp_label b) (pt_label p),
    pt_paperSizesLoaded := given (pp_paperSizesLoaded b) (pt_paperSizesLoaded p),
    pt_colorSupport := given (pp_colorSupport b) (pt_colorSupport p),
    pt_currentlyLoadedPaper := (case pp_currentlyLoadedPaper b of None \<Rightarrow> pt_currentlyLoadedPaper p | v \<Rightarrow> v),
    pt_finishingOptions := given (pp_finishingOptions b) (pt_finishingOptions p),
    pt_avgPagesPerMinute := given (pp_avgPagesPerMinute b) (pt_avgPagesPerMinute p),
    pt_status := given (pp_status b) (pt_status p),
    pt_osPrinterName := given (pp_osPrinterName b) (pt_osPrinterName p)\<rparr>"

definition find_printer :: "id \<Rightarrow> id \<Rightarrow> shop_store \<Rightarrow> printer_row option" where
  "find_printer i shopId st = find (\<lambda>p. pt_id p = i \<and> pt_shopId p = shopId) (sp_printers st)"

definition patchPrinter :: "shop_session \<Rightarrow> id \<Rightarrow> printer_patch \<Rightarrow> millis \<Rightarrow> shop_store
    \<Rightarrow> printer_row result \<times> shop_store \<times> effect list" where
  "patchPrinter se i b now st =
    (if ss_role se \<noteq> Owner \<and> \<not> staff_fields_only b
       then (Inl (Forbidden ''Only the shop owner can change printer setup''), st, [])
     else case find_printer i (ss_shopId se) st of
       None \<Rightarrow> (Inl NotFound, st, [])
     | Some existing \<Rightarrow>
       (let otherOnlineBefore = count_where (\<lambda>p. pt_shopId p = ss_shopId se \<and> pt_id p \<noteq> pt_id existing \<and> pt_status p = P_online)
              (sp_printers st);
            p = patch_printer_row b existing;
            st1 = st\<lparr>sp_printers := update_where (\<lambda>x. pt_id x = pt_id existing) (patch_printer_row b) (sp_printers st)\<rparr>;
            (st2, effs1) = (if pt_status p = P_online \<and> pt_status existing \<noteq> P_online \<and> otherOnlineBefore = 0
              then notifyShopReopened (ss_shopId se) st1 else (st1, []));
            (st3, effs2) = after_link (ss_shopId se) p now st2
        in (Inr p, st3, (if pt_status p = P_online then [Background ''advancePrinterQueue'' (pt_id p)] else [])
             @ effs1 @ effs2 @ [Background ''emitQueueUpdate'' (ss_shopId se)])))"

text \<open>The statuses in which an order keeps its printer from being deleted.\<close>

definition PRINTER_BUSY_STATUSES :: "job_status list" where
  "PRINTER_BUSY_STATUSES = [Queued, Notified, Otp_verified, Printing, Finishing]"

definition deletePrinter :: "shop_session \<Rightarrow> id \<Rightarrow> job list \<Rightarrow> shop_store \<Rightarrow> unit result \<times> shop_store" where
  "deletePrinter se i js st = (case find_printer i (ss_shopId se) st of
      None \<Rightarrow> (Inl NotFound, st)
    | Some p \<Rightarrow> if 0 < count_where (\<lambda>j. j_assignedPrinterId j = Some (pt_id p) \<and> j_status j \<in> set PRINTER_BUSY_STATUSES) js
        then (Inl (Conflict ''Printer has active jobs''), st)
      else (Inr (), st\<lparr>sp_printers := filter (\<lambda>x. pt_id x \<noteq> pt_id p) (sp_printers st)\<rparr>))"

subsection \<open>The set-up page\<close>

definition selectPrinterTestAgent :: "agent_row list \<Rightarrow> id \<Rightarrow> id option \<Rightarrow> agent_row option" where
  "selectPrinterTestAgent agents printerId requested =
    (let candidates = filter (\<lambda>a. ag_status a = Ag_online \<and> printerId \<in> set (ag_connectedPrinterIds a)) agents in
     if truthy requested then find (\<lambda>a. ag_id a = the requested) candidates
     else case candidates of [a] \<Rightarrow> Some a | _ \<Rightarrow> None)"

definition testPrint :: "shop_session \<Rightarrow> id \<Rightarrow> id option \<Rightarrow> id \<Rightarrow> millis \<Rightarrow> shop_store \<Rightarrow> id result \<times> shop_store \<times> effect list" where
  "testPrint se i requested testId now st = (case find_printer i (ss_shopId se) st of
      None \<Rightarrow> (Inl NotFound, st, [])
    | Some p \<Rightarrow>
      if pt_status p \<noteq> P_online then (Inl (Conflict ''Mark this printer online''), st, [])
      else if \<not> truthy (pt_osPrinterName p) then (Inl (Conflict ''Link this printer''), st, [])
      else case selectPrinterTestAgent (agents_of (ss_shopId se) st) (pt_id p) requested of
        None \<Rightarrow> (Inl (Conflict ''Choose an online connected computer''), st, [])
      | Some a \<Rightarrow> (Inr testId,
          st\<lparr>sp_printers := update_where (\<lambda>x. pt_id x = pt_id p) (\<lambda>x. x\<lparr>pt_lastTestRequestId := Some testId,
            pt_lastTestRequestedAt := Some now, pt_lastTestStatus := Some Test_requested, pt_lastTestError := None,
            pt_lastTestAgentId := Some (ag_id a)\<rparr>) (sp_printers st)\<rparr>,
          [Publish (Ch_agent (ag_id a)) ''printer:test_page'' testId]))"

definition printerTestResult :: "agent_auth \<Rightarrow> id \<Rightarrow> id \<Rightarrow> test_status \<Rightarrow> string option \<Rightarrow> millis \<Rightarrow> shop_store
    \<Rightarrow> unit result \<times> shop_store \<times> effect list" where
  "printerTestResult au testId printerId status error now st =
    (let p = \<lambda>x. pt_id x = printerId \<and> pt_shopId x = au_shopId au \<and> pt_lastTestRequestId x = Some testId
           \<and> pt_lastTestAgentId x = Some (au_id au)
     in if count_where p (sp_printers st) = 0 then (Inl (Conflict ''Printer test is no longer current''), st, [])
     else (Inr (), st\<lparr>sp_printers := update_where p (\<lambda>x. x\<lparr>pt_lastTestedAt := Some now, pt_lastTestStatus := Some status,
         pt_lastTestError := (if status = Test_failed then (if truthy error then error else Some ''The printer rejected the setup page'')
           else None)\<rparr>) (sp_printers st)\<rparr>,
       [Publish (Ch_shop (au_shopId au)) ''printer:test_result'' printerId]))"

subsection \<open>Print computers\<close>

definition owned_printers :: "id \<Rightarrow> id list \<Rightarrow> shop_store \<Rightarrow> nat" where
  "owned_printers shopId ids st = count_where (\<lambda>p. pt_shopId p = shopId \<and> pt_id p \<in> set ids) (sp_printers st)"

definition createAgent :: "shop_session \<Rightarrow> id \<Rightarrow> string \<Rightarrow> id list \<Rightarrow> string \<Rightarrow> millis \<Rightarrow> shop_store \<Rightarrow> id result \<times> shop_store" where
  "createAgent se newId machineLabel ids tokenHash now st =
    (if owned_printers (ss_shopId se) ids st \<noteq> length ids then (Inl (BadRequest ''Unknown printer in list''), st)
     else (Inr newId, st\<lparr>sp_agents := sp_agents st @ [\<lparr>ag_id = newId, ag_shopId = ss_shopId se, ag_connectedPrinterIds = ids,
       ag_lastHeartbeatAt = None, ag_status = Ag_offline, ag_sessionId = None, ag_createdAt = now,
       ag_machineLabel = machineLabel, ag_tokenHash = tokenHash, ag_detectedPrinters = None\<rparr>]\<rparr>))"

definition find_agent :: "id \<Rightarrow> id \<Rightarrow> shop_store \<Rightarrow> agent_row option" where
  "find_agent i shopId st = find (\<lambda>a. ag_id a = i \<and> ag_shopId a = shopId) (sp_agents st)"

definition patchAgent :: "shop_session \<Rightarrow> id \<Rightarrow> id list \<Rightarrow> shop_store \<Rightarrow> unit result \<times> shop_store" where
  "patchAgent se i ids st = (case find_agent i (ss_shopId se) st of
      None \<Rightarrow> (Inl NotFound, st)
    | Some a \<Rightarrow> if owned_printers (ss_shopId se) ids st \<noteq> length ids then (Inl (BadRequest ''Unknown printer in list''), st)
      else (Inr (), st\<lparr>sp_agents := update_where (\<lambda>x. ag_id x = ag_id a) (\<lambda>x. x\<lparr>ag_connectedPrinterIds := ids\<rparr>) (sp_agents st)\<rparr>))"

definition deleteAgent :: "shop_session \<Rightarrow> id \<Rightarrow> shop_store \<Rightarrow> unit result \<times> shop_store" where
  "deleteAgent se i st = (case find_agent i (ss_shopId se) st of
      None \<Rightarrow> (Inl NotFound, st)
    | Some a \<Rightarrow> (Inr (), st\<lparr>sp_agents := filter (\<lambda>x. ag_id x \<noteq> ag_id a) (sp_agents st)\<rparr>))"

end
