(* ===== verification/Shop_Laws.thy ===== *)
theory Shop_Laws
  imports Shop_Devices
begin

text \<open>
  What holds of the shops: the owner, the administrator and the students see the same rule of publication; the
  rows stay sound and an administrator's decision stays in force through any sequence of the operations
  (\<open>shop_op\<close>, \<open>shop_run\<close>); a menu that two tabs edit is never overwritten silently.
\<close>

subsection \<open>One rule of publication\<close>

definition campus_keys :: "shop_store \<Rightarrow> bool" where
  "campus_keys st = (distinct (map cm_id (sp_campuses st))
    \<and> (\<forall>s \<in> set (sp_shops st). sh_campusId s \<noteq> None \<longrightarrow> campus_of s st \<noteq> None))"

lemma campus_ofD: "campus_of s st = Some c \<Longrightarrow> c \<in> set (sp_campuses st) \<and> sh_campusId s = Some (cm_id c)"
  by (auto simp: campus_of_def split: option.splits dest!: find_SomeD)

lemma campus_sql:
  assumes "distinct (map cm_id (sp_campuses st))"
  shows "list_ex (\<lambda>c. sh_campusId s = Some (cm_id c) \<and> P c) (sp_campuses st) \<longleftrightarrow> (\<exists>c. campus_of s st = Some c \<and> P c)"
proof
  assume "list_ex (\<lambda>c. sh_campusId s = Some (cm_id c) \<and> P c) (sp_campuses st)"
  then obtain c where c: "c \<in> set (sp_campuses st)" "sh_campusId s = Some (cm_id c)" "P c" by (auto simp: list_ex_iff)
  then have "campus_of s st = Some c" using find_eq_Some_distinct [OF assms c(1)] by (simp add: campus_of_def)
  with c(3) show "\<exists>c. campus_of s st = Some c \<and> P c" by blast
qed (auto simp: list_ex_iff dest: campus_ofD)

lemma published_twins: "campus_keys st \<Longrightarrow> publishedShopWhere st s = isPublishedShop s (campus_of s st)"
  unfolding publishedShopWhere_def isPublishedShop_def campus_keys_def
  by (subst campus_sql) (auto split: option.splits)

text \<open>
  C29. Students, owners and administrators see one rule: on tables with unique keys and no dangling campus, the
  query of public discovery and its in-memory twin agree on every shop; the owner is told \<open>live\<close> (or live with
  the computer off) exactly when the shop is published and has a location; the administrator's list says
  \<open>live\<close> exactly when it is published; and every shop is in exactly one of the tabs live, hidden and setup.
\<close>

theorem one_rule_of_publication:
  assumes "campus_keys st" "s \<in> set (sp_shops st)"
  shows "publishedShopWhere st s = isPublishedShop s (campus_of s st)
    \<and> (fst (shopVisibility s (campus_of s st) path action) \<in> {Vs_live, Vs_live_pc_offline})
      = (isPublishedShop s (campus_of s st) \<and> has_location s)
    \<and> (shopListState s (campus_of s st) = Ls_live) = publishedShopWhere st s
    \<and> length (filter (\<lambda>tab. shopViewWhere tab st s) [Tab_live, Tab_hidden, Tab_setup]) = 1"
proof -
  have d: "distinct (map cm_id (sp_campuses st))" and fk: "(sh_campusId s = None) = (campus_of s st = None)"
    using assms by (auto simp: campus_keys_def campus_of_def)
  have twins: "publishedShopWhere st s = isPublishedShop s (campus_of s st)"
    by (rule published_twins [OF assms(1)])
  moreover have "(fst (shopVisibility s (campus_of s st) path action) \<in> {Vs_live, Vs_live_pc_offline})
      = (isPublishedShop s (campus_of s st) \<and> has_location s)"
    by (auto simp: shopVisibility_def isPublishedShop_def Let_def split: option.splits)
  moreover have "(shopListState s (campus_of s st) = Ls_live) = publishedShopWhere st s"
    unfolding twins
    by (cases "sh_verificationStatus s"; cases "campus_of s st") (auto simp: shopListState_def isPublishedShop_def fk)
  moreover have "length (filter (\<lambda>tab. shopViewWhere tab st s) [Tab_live, Tab_hidden, Tab_setup]) = 1"
    by (cases "sh_verificationStatus s"; cases "campus_of s st")
      (auto simp: shopViewWhere_def campus_sql [OF d] publishedShopWhere_def fk)
  ultimately show ?thesis by blast
qed

definition sample_store :: "shop_row \<Rightarrow> shop_store" where
  "sample_store s = \<lparr>sp_shops = [s], sp_campuses = [\<lparr>cm_id = ''c'', cm_slug = ''c'', cm_name = ''C'', cm_address = ''A'',
    cm_latitude = None, cm_longitude = None, cm_isActive = True\<rparr>], sp_printers = [sample_printer ''p''], sp_agents = [sample_agent],
    sp_audit = [], sp_interests = []\<rparr>"

lemma one_rule_of_publication_witness:
  "publishedShopWhere (sample_store sample_shop) sample_shop
    = isPublishedShop sample_shop (campus_of sample_shop (sample_store sample_shop))"
  using one_rule_of_publication [of "sample_store sample_shop" sample_shop]
  by (simp add: campus_keys_def sample_store_def sample_shop_def)

subsection \<open>The operations on a row\<close>

definition published_row :: "millis \<Rightarrow> shop_row \<Rightarrow> shop_row" where
  "published_row now s = s\<lparr>sh_verificationStatus := V_verified, sh_verificationSubmittedAt := Some now,
    sh_verifiedAt := Some now, sh_publishedAt := Some now\<rparr>"

inductive shop_move :: "bool \<Rightarrow> shop_row \<Rightarrow> shop_row \<Rightarrow> bool" for pub where
  auto_publish: "reviewable s \<Longrightarrow> shop_move pub s (published_row now s)"
| patch: "patch_ok b \<Longrightarrow> shop_move pub s (patch_write b s now s)"
| submit: "\<not> (sh_autoLive s \<and> sh_verificationStatus s = V_rejected) \<Longrightarrow> sh_verificationStatus s \<noteq> V_verified \<Longrightarrow>
    shop_move pub s (s\<lparr>sh_verificationStatus := V_submitted, sh_verificationSubmittedAt := Some now, sh_verifiedAt := None,
      sh_publishedAt := None, sh_verificationNotes := None\<rparr>)"
| verify: "sh_verificationStatus s = V_submitted \<Longrightarrow> shop_move pub s (s\<lparr>sh_verificationStatus := V_verified,
    sh_verifiedAt := Some now, sh_publishedAt := None, sh_verificationNotes := notes\<rparr>)"
| reject: "shop_move pub s (s\<lparr>sh_verificationStatus := V_rejected, sh_verifiedAt := None, sh_publishedAt := None,
    sh_verificationNotes := notes\<rparr>)"
| publish: "pub \<Longrightarrow> sh_verificationStatus s = V_verified \<Longrightarrow> shop_move pub s (s\<lparr>sh_publishedAt := Some now\<rparr>)"
| unpublish: "shop_move pub s (s\<lparr>sh_publishedAt := None\<rparr>)"
| upi: "truthy (sh_counterUpiVpa s) \<Longrightarrow> truthy (sh_counterUpiPayeeName s) \<Longrightarrow>
    shop_move pub s (s\<lparr>sh_counterUpiVerifiedAt := Some now\<rparr>)"
| availability: "shop_move pub s (s\<lparr>sh_acceptingOrders := accepting\<rparr>)"

text \<open>
  Every row of the new store comes from the row with its id by such moves; \<open>pub\<close> says which shops an
  administrator may publish meanwhile.
\<close>

definition row_moves :: "(id \<Rightarrow> bool) \<Rightarrow> shop_row \<Rightarrow> shop_row \<Rightarrow> bool" where
  "row_moves pub s s' = (shop_move (pub (sh_id s)))\<^sup>*\<^sup>* s s'"

definition shops_move :: "(id \<Rightarrow> bool) \<Rightarrow> shop_store \<Rightarrow> shop_store \<Rightarrow> bool" where
  "shops_move pub st st' = list_all2 (row_moves pub) (sp_shops st) (sp_shops st')"

lemma patch_write_id [simp]: "sh_id (patch_write b cur now s) = sh_id s" "sh_id (published_row now s) = sh_id s"
  by (simp_all add: patch_write_def write_body_def write_reset_def Let_def published_row_def)

lemma patch_write_fields [simp]:
  "sh_latitude (patch_write b cur now s) = (if writes_location b cur then the (pa_latitude b) else sh_latitude s)"
  "sh_longitude (patch_write b cur now s) = (if writes_location b cur then the (pa_longitude b) else sh_longitude s)"
  "sh_checkInRadiusM (patch_write b cur now s) = given (pa_checkInRadiusM b) (sh_checkInRadiusM s)"
  "sh_counterCapacity (patch_write b cur now s) = given (pa_counterCapacity b) (sh_counterCapacity s)"
  "sh_revealGraceSeconds (patch_write b cur now s) = given (pa_revealGraceSeconds b) (sh_revealGraceSeconds s)"
  "sh_counterUpiVpa (patch_write b cur now s) = given (pa_counterUpiVpa b) (sh_counterUpiVpa s)"
  "sh_counterUpiPayeeName (patch_write b cur now s) = given (pa_counterUpiPayeeName b) (sh_counterUpiPayeeName s)"
  "sh_counterUpiVerifiedAt (patch_write b cur now s) = (if upi_changed b cur then None else sh_counterUpiVerifiedAt s)"
  "sh_printOptions (patch_write b cur now s) = (if menu_changed b cur then pa_printOptions b else sh_printOptions s)"
  "sh_printOptionsVersion (patch_write b cur now s) = sh_printOptionsVersion s + (if menu_changed b cur then 1 else 0)"
  "sh_verificationStatus (patch_write b cur now s) = (if verification_reset b cur then V_draft else sh_verificationStatus s)"
  "sh_verificationSubmittedAt (patch_write b cur now s) = (if verification_reset b cur then None else sh_verificationSubmittedAt s)"
  "sh_verifiedAt (patch_write b cur now s) = (if verification_reset b cur then None else sh_verifiedAt s)"
  "sh_publishedAt (patch_write b cur now s) = (if verification_reset b cur then None else sh_publishedAt s)"
  "sh_autoLive (patch_write b cur now s) = sh_autoLive s"
  by (simp_all add: patch_write_def write_body_def write_reset_def Let_def)

lemma published_row_fields [simp]:
  "sh_verificationStatus (published_row now s) = V_verified" "sh_publishedAt (published_row now s) = Some now"
  "sh_verifiedAt (published_row now s) = Some now" "sh_latitude (published_row now s) = sh_latitude s"
  "sh_longitude (published_row now s) = sh_longitude s" "sh_campusId (published_row now s) = sh_campusId s"
  "sh_printOptions (published_row now s) = sh_printOptions s" "sh_printOptionsVersion (published_row now s) = sh_printOptionsVersion s"
  "sh_counterUpiVerifiedAt (published_row now s) = sh_counterUpiVerifiedAt s" "sh_autoLive (published_row now s) = sh_autoLive s"
  by (simp_all add: published_row_def)

text \<open>What publishing does to the store.\<close>

definition auto_published :: "id \<Rightarrow> millis \<Rightarrow> shop_store \<Rightarrow> shop_store" where
  "auto_published i now st = st\<lparr>sp_shops := update_where (\<lambda>s. sh_id s = i \<and> reviewable s) (published_row now) (sp_shops st)\<rparr>"

lemma publish_write_eq: "publish_write i now st = (0 < count_where (\<lambda>s. sh_id s = i \<and> reviewable s) (sp_shops st), auto_published i now st)"
  by (simp add: publish_write_def auto_published_def published_row_def [abs_def] Let_def)

lemma auto_published_same [simp]:
  "printers_of k (auto_published i now st) = printers_of k st" "agents_of k (auto_published i now st) = agents_of k st"
  "sp_campuses (auto_published i now st) = sp_campuses st"
  by (simp_all add: auto_published_def printers_of_def agents_of_def)

lemma find_auto_published:
  "find_shop_row i (auto_published i now st) = map_option (\<lambda>s. if sh_id s = i \<and> reviewable s then published_row now s else s) (find_shop_row i st)"
  by (simp add: find_shop_row_def auto_published_def find_update_where_key)

lemma shop_move_id: "shop_move pub s s' \<Longrightarrow> sh_id s' = sh_id s"
  by (erule shop_move.cases) auto

lemma row_moves_id: "row_moves pub s s' \<Longrightarrow> sh_id s' = sh_id s"
  unfolding row_moves_def by (induction rule: rtranclp_induct) (auto dest: shop_move_id)

lemma row_moves_trans: "row_moves pub s s' \<Longrightarrow> row_moves pub s' s'' \<Longrightarrow> row_moves pub s s''"
  using row_moves_id [of pub s s'] by (simp add: row_moves_def)

lemma shops_move_refl [simp]: "shops_move pub st st"
  by (simp add: shops_move_def list_all2_same row_moves_def)

lemma shops_move_same: "sp_shops st' = sp_shops st \<Longrightarrow> shops_move pub st st'"
  by (simp add: shops_move_def list_all2_same row_moves_def)

lemma shops_move_trans: "shops_move pub st st' \<Longrightarrow> shops_move pub st' st'' \<Longrightarrow> shops_move pub st st''"
  unfolding shops_move_def by (rule list_all2_trans [OF row_moves_trans])

lemma shops_move_ids: "shops_move pub st st' \<Longrightarrow> map sh_id (sp_shops st') = map sh_id (sp_shops st)"
  unfolding shops_move_def by (induction rule: list_all2_induct) (auto dest: row_moves_id)

lemma shops_move_update:
  assumes "\<And>s. s \<in> set (sp_shops st) \<Longrightarrow> p s \<Longrightarrow> shop_move (pub (sh_id s)) s (f s)"
    "sp_shops st' = update_where p f (sp_shops st)"
  shows "shops_move pub st st'"
proof -
  have "list_all2 (row_moves pub) xs (update_where p f xs)"
    if "\<And>s. s \<in> set xs \<Longrightarrow> p s \<Longrightarrow> shop_move (pub (sh_id s)) s (f s)" for xs
    using that by (induction xs) (auto simp: row_moves_def)
  then show ?thesis using assms by (simp add: shops_move_def)
qed

definition shop_keys :: "shop_store \<Rightarrow> bool" where
  "shop_keys st = distinct (map sh_id (sp_shops st))"

lemma found_row:
  assumes "shop_keys st" "find_shop_row shopId st = Some cur" "s \<in> set (sp_shops st)" "sh_id s = shopId"
  shows "s = cur"
proof -
  have "cur \<in> set (sp_shops st)" "sh_id cur = shopId" using assms(2) by (auto simp: find_shop_row_def dest: find_SomeD)
  then show ?thesis using distinct_key_eq [of sh_id "sp_shops st" s cur] assms by (simp add: shop_keys_def)
qed

lemma publishIfReady_moves:
  assumes "publishIfReady shopId now st = (x, st')"
  shows "shops_move pub st st'"
proof (cases "st' = st")
  case False
  then have "publish_write shopId now st = (x, st')"
    using assms by (auto simp: publishIfReady_def split: option.splits if_splits)
  then have "sp_shops st' = update_where (\<lambda>s. sh_id s = shopId \<and> reviewable s) (published_row now) (sp_shops st)"
    by (auto simp: publish_write_def published_row_def [abs_def] Let_def)
  then show ?thesis by (rule shops_move_update [rotated]) (auto intro: auto_publish)
qed simp

lemma patch_moves:
  assumes "patch_statement shopId b cur now st = Some st'" "patch_ok b" "shop_keys st" "find_shop_row shopId st = Some cur"
  shows "shops_move pub st st'"
  using assms(1) found_row [OF assms(3,4)] patch [OF assms(2)]
  by (intro shops_move_update [where p = "\<lambda>s. sh_id s = shopId \<and> (case menu_guard b cur of None \<Rightarrow> True | Some v \<Rightarrow> sh_printOptionsVersion s = v)"
      and f = "patch_write b cur now"]) (auto simp: patch_statement_def Let_def split: if_splits)

lemma update_shop_moves:
  assumes "find_shop_row shopId st = Some cur" "shop_keys st" "shop_move (pub shopId) cur (f cur)"
  shows "shops_move pub st (update_shop shopId f st)"
  using found_row [OF assms(2,1)] assms(3)
  by (intro shops_move_update [where p = "\<lambda>s. sh_id s = shopId" and f = f]) (auto simp: update_shop_def)

lemma with_audit_moves: "shops_move pub st st' \<Longrightarrow> shops_move pub st (with_audit a st')"
  by (simp add: shops_move_def with_audit_def)

subsection \<open>Operations and runs\<close>

datatype shop_op =
    Op_register id string registration
  | Op_patch shop_session shop_patch
  | Op_setup shop_session
  | Op_submit id
  | Op_auto_publish id
  | Op_availability shop_session bool
  | Op_verify_upi shop_session
  | Op_admin_verify id id "string option"
  | Op_admin_reject id id "string option"
  | Op_admin_publish id id
  | Op_admin_unpublish id id "string option"
  | Op_create_campus id id string string campus_input
  | Op_patch_campus id id campus_input
  | Op_create_printer shop_session printer_row
  | Op_patch_printer shop_session id printer_patch
  | Op_delete_printer shop_session id "job list"
  | Op_test_print shop_session id "id option" id
  | Op_test_result agent_auth id id test_status "string option"
  | Op_create_agent shop_session id string "id list" string
  | Op_patch_agent shop_session id "id list"
  | Op_delete_agent shop_session id

definition shop_exec :: "millis \<times> shop_op \<Rightarrow> shop_store \<Rightarrow> shop_store" where
  "shop_exec ev st = (let now = fst ev in case snd ev of
      Op_register shopId slug b \<Rightarrow> if shopId \<in> sh_id ` set (sp_shops st) \<or> slug \<in> sh_slug ` set (sp_shops st) then st
        else st\<lparr>sp_shops := sp_shops st @ [registered_shop shopId slug b]\<rparr>
    | Op_patch se b \<Rightarrow> fst (snd (patchShop se b now st))
    | Op_setup se \<Rightarrow> snd (setupStatus se now st)
    | Op_submit shopId \<Rightarrow> snd (submitVerification shopId now st)
    | Op_auto_publish shopId \<Rightarrow> snd (publishIfReady shopId now st)
    | Op_availability se accepting \<Rightarrow> fst (snd (setAvailability se accepting st))
    | Op_verify_upi se \<Rightarrow> snd (verifyCounterUpi se now st)
    | Op_admin_verify a shopId notes \<Rightarrow> snd (verifyShop a shopId notes now st)
    | Op_admin_reject a shopId notes \<Rightarrow> snd (rejectShop a shopId notes now st)
    | Op_admin_publish a shopId \<Rightarrow> snd (publishShop a shopId now st)
    | Op_admin_unpublish a shopId reason \<Rightarrow> snd (unpublishShop a shopId reason now st)
    | Op_create_campus a newId name address b \<Rightarrow> snd (createCampus a newId name address b now st)
    | Op_patch_campus a i b \<Rightarrow> snd (patchCampus a i b now st)
    | Op_create_printer se p \<Rightarrow> fst (snd (createPrinter se p now st))
    | Op_patch_printer se i b \<Rightarrow> fst (snd (patchPrinter se i b now st))
    | Op_delete_printer se i js \<Rightarrow> snd (deletePrinter se i js st)
    | Op_test_print se i requested testId \<Rightarrow> fst (snd (testPrint se i requested testId now st))
    | Op_test_result au testId printerId status error \<Rightarrow> fst (snd (printerTestResult au testId printerId status error now st))
    | Op_create_agent se newId label ids h \<Rightarrow> snd (createAgent se newId label ids h now st)
    | Op_patch_agent se i ids \<Rightarrow> snd (patchAgent se i ids st)
    | Op_delete_agent se i \<Rightarrow> snd (deleteAgent se i st))"

definition shop_run :: "(millis \<times> shop_op) list \<Rightarrow> shop_store \<Rightarrow> shop_store" where
  "shop_run ops st = fold shop_exec ops st"

lemma notifyShopReopened_shops [simp]: "sp_shops (fst (notifyShopReopened shopId st)) = sp_shops st"
  by (simp add: notifyShopReopened_def Let_def)

lemma notify_moves: "notifyShopReopened shopId st = (st', effs) \<Longrightarrow> shops_move pub st st'"
  by (rule shops_move_same) (metis fst_conv notifyShopReopened_shops)

lemma connect_moves: "shops_move pub st (connectPrinterToDetectingAgents shopId p n st)"
  by (rule shops_move_same) (simp add: connectPrinterToDetectingAgents_def)

lemma after_link_moves:
  assumes "after_link shopId p now st = (st', effs)"
  shows "shops_move pub st st'"
proof (cases "truthy (pt_osPrinterName p)")
  case True
  define st1 where "st1 = connectPrinterToDetectingAgents shopId (pt_id p) (the (pt_osPrinterName p)) st"
  obtain x st2 where p: "publishIfReady shopId now st1 = (x, st2)" by fastforce
  have "shops_move pub st2 st'"
    using assms p True notify_moves by (fastforce simp: after_link_def Let_def st1_def split: prod.splits)
  then show ?thesis
    using publishIfReady_moves [OF p] connect_moves [of _ st shopId] shops_move_trans unfolding st1_def by metis
qed (use assms in \<open>simp add: after_link_def\<close>)

lemma patchShop_moves:
  assumes "patchShop se b now st = (r, st', effs)" "shop_keys st"
  shows "shops_move pub st st'"
proof (cases "st' = st")
  case False
  then obtain cur st1 where c: "find_shop_row (ss_shopId se) st = Some cur" "patch_ok b"
      "patch_statement (ss_shopId se) b cur now st = Some st1" "st' = snd (publishIfReady (ss_shopId se) now st1)"
    using assms(1) by (auto simp: patchShop_def Let_def split: if_splits option.splits)
  then show ?thesis
    using patch_moves [OF c(3,2) assms(2) c(1)] publishIfReady_moves shops_move_trans by (metis prod.collapse)
qed simp

lemma submit_moves:
  assumes "submitVerification shopId now st = (r, st')" "shop_keys st"
  shows "shops_move pub st st'"
proof (cases "find_shop_row shopId st")
  case (Some cur)
  obtain x st1 where p: "publishIfReady shopId now st = (x, st1)" by fastforce
  note m1 = publishIfReady_moves [OF p]
  consider "st' = st" | "st' = st1"
    | "\<not> x" "\<not> (sh_autoLive cur \<and> sh_verificationStatus cur = V_rejected)" "sh_verificationStatus cur \<noteq> V_verified"
      "st' = update_shop shopId (\<lambda>x. x\<lparr>sh_verificationStatus := V_submitted, sh_verificationSubmittedAt := Some now,
        sh_verifiedAt := None, sh_publishedAt := None, sh_verificationNotes := None\<rparr>) st1"
    using assms(1) p Some by (auto simp: submitVerification_def split: if_splits bool.splits)
  then show ?thesis
  proof cases
    case 3
    have "st1 = st" if "\<not> x"
      using p that by (auto simp: publishIfReady_def publish_write_def Let_def count_where_0_iff update_where_none
        split: option.splits if_splits)
    then show ?thesis
      using 3 update_shop_moves [OF Some assms(2), where f = "\<lambda>x. x\<lparr>sh_verificationStatus := V_submitted, sh_verificationSubmittedAt := Some now,
        sh_verifiedAt := None, sh_publishedAt := None, sh_verificationNotes := None\<rparr>"] submit [of cur _ now] by simp
  qed (use m1 in auto)
qed (use assms in \<open>simp add: submitVerification_def\<close>)

lemma admin_moves:
  assumes "shop_keys st"
  shows "shops_move pub st (snd (verifyShop a shopId notes now st))" "shops_move pub st (snd (rejectShop a shopId notes now st))"
    "pub shopId \<Longrightarrow> shops_move pub st (snd (publishShop a shopId now st))" "shops_move pub st (snd (unpublishShop a shopId reason now st))"
    "shops_move pub st (snd (verifyCounterUpi se now st))"
  by (auto simp: verifyShop_def rejectShop_def publishShop_def unpublishShop_def verifyCounterUpi_def
    intro!: with_audit_moves update_shop_moves [OF _ assms] shop_move.intros split: option.splits)

lemma availability_moves:
  assumes "shop_keys st"
  shows "shops_move pub st (fst (snd (setAvailability se accepting st)))"
proof (cases "find_shop_row (ss_shopId se) st")
  case (Some cur)
  have m: "shops_move pub st (update_shop (ss_shopId se) (\<lambda>x. x\<lparr>sh_acceptingOrders := accepting\<rparr>) st)"
    by (rule update_shop_moves [OF Some assms]) (auto intro: shop_move.intros)
  obtain st2 effs where n: "notifyShopReopened (ss_shopId se) (update_shop (ss_shopId se) (\<lambda>x. x\<lparr>sh_acceptingOrders := accepting\<rparr>) st) = (st2, effs)"
    by fastforce
  show ?thesis
    using m n shops_move_trans [OF m notify_moves [OF n]] by (cases accepting) (simp_all add: setAvailability_def Some Let_def)
qed (simp add: setAvailability_def)

text \<open>Every operation moves the rows of the shops or registers a new shop.\<close>

lemma shop_exec_moves:
  assumes "shop_keys st" "\<And>a shopId. op = Op_admin_publish a shopId \<Longrightarrow> pub shopId"
  shows "shops_move pub st (shop_exec (now, op) st) \<or> (\<exists>shopId slug b. op = Op_register shopId slug b
    \<and> shopId \<notin> sh_id ` set (sp_shops st) \<and> sp_shops (shop_exec (now, op) st) = sp_shops st @ [registered_shop shopId slug b])"
proof (cases op)
  case (Op_register shopId slug b)
  then show ?thesis by (auto simp: shop_exec_def)
next
  case (Op_patch se b)
  then show ?thesis using patchShop_moves [OF _ assms(1), of se b now] by (simp add: shop_exec_def) (metis prod.collapse)
next
  case (Op_setup se)
  obtain x st1 where p: "publishIfReady (ss_shopId se) now st = (x, st1)" by fastforce
  have "shops_move pub st (snd (setupStatus se now st))"
    using publishIfReady_moves [OF p] by (auto simp: setupStatus_def p Let_def split: option.splits)
  then show ?thesis by (simp add: Op_setup shop_exec_def)
next
  case (Op_submit shopId)
  then show ?thesis using submit_moves [OF _ assms(1), of shopId now] by (simp add: shop_exec_def) (metis prod.collapse)
next
  case (Op_auto_publish shopId)
  then show ?thesis using publishIfReady_moves [of shopId now st] by (simp add: shop_exec_def) (metis prod.collapse)
next
  case (Op_create_printer se p)
  obtain p' st1 effs where c: "createPrinter se p now st = (p', st1, effs)" by (metis prod_cases3)
  then have "shops_move pub (st\<lparr>sp_printers := sp_printers st @ [p']\<rparr>) st1"
    by (auto simp: createPrinter_def Let_def dest: after_link_moves split: prod.splits)
  then have "shops_move pub st st1" by (simp add: shops_move_def)
  then show ?thesis by (simp add: Op_create_printer shop_exec_def c)
next
  case (Op_patch_printer se i b)
  obtain r st' effs where c: "patchPrinter se i b now st = (r, st', effs)" by (metis prod_cases3)
  have "shops_move pub st st'"
  proof (cases "st' = st")
    case False
    then obtain existing where e: "find_printer i (ss_shopId se) st = Some existing"
        "\<not> (ss_role se \<noteq> Owner \<and> \<not> staff_fields_only b)"
      using c by (auto simp: patchPrinter_def split: if_splits option.splits)
    define q where "q = patch_printer_row b existing"
    define st1 where "st1 = st\<lparr>sp_printers := update_where (\<lambda>x. pt_id x = pt_id existing) (patch_printer_row b) (sp_printers st)\<rparr>"
    define reopens where "reopens = (pt_status q = P_online \<and> pt_status existing \<noteq> P_online \<and> count_where
      (\<lambda>p. pt_shopId p = ss_shopId se \<and> pt_id p \<noteq> pt_id existing \<and> pt_status p = P_online) (sp_printers st) = 0)"
    obtain st2 e1 where n: "(if reopens then notifyShopReopened (ss_shopId se) st1 else (st1, [])) = (st2, e1)" by fastforce
    obtain st3 e2 where a: "after_link (ss_shopId se) q now st2 = (st3, e2)" by fastforce
    have "patchPrinter se i b now st = (let p = q; (st2, effs1) = (if reopens then notifyShopReopened (ss_shopId se) st1 else (st1, []));
        (st3, effs2) = after_link (ss_shopId se) p now st2
      in (Inr p, st3, (if pt_status p = P_online then [Background ''advancePrinterQueue'' (pt_id p)] else [])
             @ effs1 @ effs2 @ [Background ''emitQueueUpdate'' (ss_shopId se)]))"
      unfolding patchPrinter_def if_not_P [OF e(2)] e(1) option.case Let_def q_def [symmetric] st1_def [symmetric]
        reopens_def [symmetric] by (rule refl)
    then have "st' = st3" using c by (simp add: n a Let_def)
    moreover have "shops_move pub st st1" unfolding st1_def by (rule shops_move_same) simp
    moreover have "shops_move pub st1 st2" using n by (auto simp: notify_moves split: if_splits)
    ultimately show ?thesis using after_link_moves [OF a] shops_move_trans by metis
  qed simp
  then show ?thesis by (simp add: Op_patch_printer shop_exec_def c)
qed (auto simp: shop_exec_def admin_moves [OF assms(1)] assms(2) availability_moves [OF assms(1)] createCampus_def patchCampus_def deletePrinter_def
  testPrint_def printerTestResult_def createAgent_def patchAgent_def deleteAgent_def with_audit_def Let_def
  split: option.splits intro!: shops_move_same)

subsection \<open>Runs\<close>

lemma registered_id [simp]: "sh_id (registered_shop i slug b) = i"
  by (simp add: registered_shop_def)

lemma shop_exec_keys:
  assumes "shop_keys st"
  shows "shop_keys (shop_exec ev st)"
  using shop_exec_moves [OF assms, where op = "snd ev" and now = "fst ev" and pub = "\<lambda>_. True"] assms
  by (auto simp: shop_keys_def dest: shops_move_ids)

lemma row_moves_keeps:
  assumes "row_moves pub s s'" "I s" "\<And>x y. sh_id x = sh_id s \<Longrightarrow> shop_move (pub (sh_id s)) x y \<Longrightarrow> I x \<Longrightarrow> I y"
  shows "I s'"
proof -
  have "sh_id s' = sh_id s \<and> I s'"
    using assms(1) unfolding row_moves_def
    by (induction rule: rtranclp_induct) (use assms(2,3) in \<open>auto dest: shop_move_id\<close>)
  then show ?thesis by simp
qed

lemma list_all2_sources: "list_all2 P xs ys \<Longrightarrow> \<forall>y \<in> set ys. \<exists>x \<in> set xs. P x y"
  and list_all2_targets: "list_all2 P xs ys \<Longrightarrow> \<forall>x \<in> set xs. \<exists>y \<in> set ys. P x y"
  by (induction rule: list_all2_induct) auto

lemma shops_move_keeps:
  assumes "shops_move pub st st'" "\<forall>s \<in> set (sp_shops st). I s" "\<And>pub s s'. shop_move pub s s' \<Longrightarrow> I s \<Longrightarrow> I s'"
  shows "\<forall>s \<in> set (sp_shops st'). I s"
proof
  fix s' assume "s' \<in> set (sp_shops st')"
  then obtain s where "s \<in> set (sp_shops st)" "row_moves pub s s'"
    using assms(1) list_all2_sources unfolding shops_move_def by blast
  then show "I s'" using assms(2,3) row_moves_keeps [of pub s s' I] by blast
qed

text \<open>What every registration establishes and every move keeps holds of all rows after any run.\<close>

lemma run_rows:
  assumes "shop_keys st" "\<forall>s \<in> set (sp_shops st). I s"
    "\<And>i slug b. I (registered_shop i slug b)" "\<And>pub s s'. shop_move pub s s' \<Longrightarrow> I s \<Longrightarrow> I s'"
  shows "shop_keys (shop_run ops st) \<and> (\<forall>s \<in> set (sp_shops (shop_run ops st)). I s)"
  using assms(1,2) unfolding shop_run_def
proof (induction ops arbitrary: st)
  case (Cons ev ops)
  have "\<forall>s \<in> set (sp_shops (shop_exec ev st)). I s"
    using shop_exec_moves [OF Cons.prems(1), where op = "snd ev" and now = "fst ev" and pub = "\<lambda>_. True"] Cons.prems(2) assms(3)
      shops_move_keeps [OF _ Cons.prems(2) assms(4)] by auto
  then show ?case using Cons.IH [of "shop_exec ev st"] shop_exec_keys [OF Cons.prems(1)] by simp
qed simp

lemma find_row_iff: "shop_keys st \<Longrightarrow> find_shop_row i st = Some s \<longleftrightarrow> s \<in> set (sp_shops st) \<and> sh_id s = i"
  using find_eq_Some_distinct [of sh_id "sp_shops st" s]
  by (auto simp: shop_keys_def find_shop_row_def dest: find_SomeD)

text \<open>What the moves keep of one shop holds of it after any run; \<open>p\<close> says whether an
  administrator may publish it meanwhile.\<close>

definition publishes :: "id \<Rightarrow> shop_op \<Rightarrow> bool" where
  "publishes i op = (case op of Op_admin_publish a shopId \<Rightarrow> shopId = i | _ \<Rightarrow> False)"

lemma run_follows:
  assumes "shop_keys st" "find_shop_row i st = Some s" "I s" "p \<or> list_all (\<lambda>ev. \<not> publishes i (snd ev)) ops"
    "\<And>x y. shop_move p x y \<Longrightarrow> I x \<Longrightarrow> I y"
  shows "\<exists>s'. find_shop_row i (shop_run ops st) = Some s' \<and> I s'"
  using assms(1-4) unfolding shop_run_def
proof (induction ops arbitrary: st s)
  case (Cons ev ops)
  have s: "s \<in> set (sp_shops st)" "sh_id s = i" using Cons.prems(1,2) by (auto simp: find_row_iff)
  let ?st = "shop_exec ev st"
  have "\<exists>s'. s' \<in> set (sp_shops ?st) \<and> sh_id s' = i \<and> I s'"
  proof -
    have n: "k = i \<longrightarrow> p" if "snd ev = Op_admin_publish a k" for a k using that Cons.prems(4) by (auto simp: publishes_def)
    have "shops_move (\<lambda>k. k = i \<longrightarrow> p) st (shop_exec (fst ev, snd ev) st) \<or> (\<exists>shopId slug b. snd ev = Op_register shopId slug b
        \<and> shopId \<notin> sh_id ` set (sp_shops st)
        \<and> sp_shops (shop_exec (fst ev, snd ev) st) = sp_shops st @ [registered_shop shopId slug b])"
      by (rule shop_exec_moves [OF Cons.prems(1)]) (rule n)
    then consider "shops_move (\<lambda>k. k = i \<longrightarrow> p) st ?st" | b where "sp_shops ?st = sp_shops st @ [b]" by auto
    then show ?thesis
    proof cases
      case 1
      then obtain s' where s': "s' \<in> set (sp_shops ?st)" "row_moves (\<lambda>k. k = i \<longrightarrow> p) s s'"
        using s(1) list_all2_targets unfolding shops_move_def by blast
      have "I s'" using row_moves_keeps [OF s'(2), of I] Cons.prems(3) assms(5) s(2) by simp
      then show ?thesis using s' row_moves_id [OF s'(2)] s(2) by auto
    qed (use s Cons.prems(3) in auto)
  qed
  then obtain s' where "s' \<in> set (sp_shops ?st)" "sh_id s' = i" "I s'" by blast
  then show ?case using Cons.IH [of ?st s'] Cons.prems(4) shop_exec_keys [OF Cons.prems(1), of ev] by (auto simp: find_row_iff)
qed auto

end
