(* ===== verification/Shop_Properties.thy ===== *)
theory Shop_Properties
  imports Shop_Laws Claim_Once
begin

text \<open>
  The properties of the shops that rest on the runs of \<open>Shop_Laws\<close>: the rows stay sound, an administrator's
  decision stays in force, a finished set-up goes live by polling, a settings change asks for a review
  exactly when it must, and of the tabs that loaded one menu at most one overwrites it.
\<close>

subsection \<open>Sample shops\<close>

definition setup_shop :: shop_row where
  "setup_shop = sample_shop\<lparr>sh_verificationStatus := V_draft, sh_publishedAt := None, sh_verifiedAt := None, sh_autoLive := True,
    sh_printOptions := Some DEFAULT_PRINT_OPTIONS\<rparr>"

definition sample_owner_session :: shop_session where
  "sample_owner_session = \<lparr>ss_id = ''o'', ss_shopId = ''s'', ss_role = Owner\<rparr>"

lemma sample_keys: "sh_id s = ''s'' \<Longrightarrow> shop_keys (sample_store s) \<and> find_shop_row ''s'' (sample_store s) = Some s"
  by (simp add: shop_keys_def sample_store_def find_shop_row_def)

lemma sample_ids [simp]: "sh_id sample_shop = ''s''" "sh_id setup_shop = ''s''" "ss_shopId sample_owner_session = ''s''"
  by (simp_all add: sample_shop_def setup_shop_def sample_owner_session_def)

subsection \<open>Sound rows\<close>

definition shop_sound :: "shop_row \<Rightarrow> bool" where
  "shop_sound s = ((sh_publishedAt s \<noteq> None \<longrightarrow> sh_verificationStatus s = V_verified)
    \<and> (sh_verificationStatus s = V_verified \<longrightarrow> sh_verifiedAt s \<noteq> None)
    \<and> (sh_verificationStatus s = V_submitted \<longrightarrow> sh_verificationSubmittedAt s \<noteq> None)
    \<and> (sh_counterUpiVerifiedAt s \<noteq> None \<longrightarrow> truthy (sh_counterUpiVpa s) \<and> truthy (sh_counterUpiPayeeName s))
    \<and> (sh_latitude s = None) = (sh_longitude s = None)
    \<and> \<not> (sh_latitude s = Some 0 \<and> sh_longitude s = Some 0)
    \<and> COUNTER_CAPACITY_MIN \<le> sh_counterCapacity s \<and> sh_counterCapacity s \<le> COUNTER_CAPACITY_MAX
    \<and> sh_checkInRadiusM s \<in> {20, 50, 100, 200} \<and> sh_revealGraceSeconds s \<in> {30, 60, 120}
    \<and> sh_counterUpiVpa s \<noteq> Some [] \<and> sh_counterUpiPayeeName s \<noteq> Some []
    \<and> (case sh_printOptions s of None \<Rightarrow> True | Some m \<Rightarrow> printOptionsSchema m))"

lemma default_menu_ok: "printOptionsSchema DEFAULT_PRINT_OPTIONS"
  by code_simp

lemma vpa_ok_nonempty: "\<not> vpa_ok []"
  by code_simp

lemma changed_iff: "changed v old \<longleftrightarrow> given v old \<noteq> old"
  by (simp add: changed_def given_def split: option.splits)

lemma given_keeps: "when_given P v \<Longrightarrow> P old \<Longrightarrow> P (given v old)"
  by (simp add: when_given_def given_def split: option.splits)

lemma given_nonempty: "when_given (when_given P) v \<Longrightarrow> \<not> P [] \<Longrightarrow> old \<noteq> Some [] \<Longrightarrow> given v old \<noteq> Some []"
  by (auto simp: when_given_def given_def split: option.splits)

lemma patch_sound:
  assumes "shop_sound s" "patch_ok b"
  shows "shop_sound (patch_write b s now s)"
proof -
  have loc: "(pa_latitude b = None) = (pa_longitude b = None)" "(pa_latitude b = Some None) = (pa_longitude b = Some None)"
      "\<not> (pa_latitude b = Some (Some 0) \<and> pa_longitude b = Some (Some 0))"
    and f: "patch_fields_ok b" using assms(2) by (auto simp: patch_ok_def patch_refined_def given_together_def)
  let ?t = "patch_write b s now s"
  have "(sh_latitude ?t = None) = (sh_longitude ?t = None) \<and> \<not> (sh_latitude ?t = Some 0 \<and> sh_longitude ?t = Some 0)"
    using loc assms(1) by (cases "pa_latitude b"; cases "pa_longitude b") (auto simp: shop_sound_def writes_location_def)
  moreover have "given (pa_counterUpiVpa b) (sh_counterUpiVpa s) \<noteq> Some []"
    by (rule given_nonempty [of vpa_ok]) (use f assms(1) vpa_ok_nonempty in \<open>simp_all add: patch_fields_ok_def shop_sound_def\<close>)
  moreover have "given (pa_counterUpiPayeeName b) (sh_counterUpiPayeeName s) \<noteq> Some []"
    by (rule given_nonempty [of "\<lambda>s. 2 \<le> length s \<and> length s \<le> 120"])
      (use f assms(1) in \<open>simp_all add: patch_fields_ok_def shop_sound_def\<close>)
  moreover have "sh_counterUpiVerifiedAt ?t \<noteq> None \<longrightarrow> truthy (sh_counterUpiVpa ?t) \<and> truthy (sh_counterUpiPayeeName ?t)"
    using assms(1) by (simp add: shop_sound_def upi_changed_def changed_iff)
  moreover have "COUNTER_CAPACITY_MIN \<le> sh_counterCapacity ?t \<and> sh_counterCapacity ?t \<le> COUNTER_CAPACITY_MAX"
    using f assms(1) given_keeps [of "\<lambda>c. COUNTER_CAPACITY_MIN \<le> c \<and> c \<le> COUNTER_CAPACITY_MAX" "pa_counterCapacity b"]
    unfolding patch_fields_ok_def shop_sound_def by simp
  moreover have "sh_checkInRadiusM ?t \<in> {20, 50, 100, 200} \<and> sh_revealGraceSeconds ?t \<in> {30, 60, 120}"
    using f assms(1) given_keeps [of "\<lambda>c. c \<in> {20, 50, 100, 200}" "pa_checkInRadiusM b"]
      given_keeps [of "\<lambda>c. c \<in> {30, 60, 120}" "pa_revealGraceSeconds b"]
    unfolding patch_fields_ok_def shop_sound_def by simp
  moreover have "case sh_printOptions ?t of None \<Rightarrow> True | Some m \<Rightarrow> printOptionsSchema m"
    using f assms(1) by (simp add: shop_sound_def patch_fields_ok_def when_given_def)
  moreover have "(sh_publishedAt ?t \<noteq> None \<longrightarrow> sh_verificationStatus ?t = V_verified)
      \<and> (sh_verificationStatus ?t = V_verified \<longrightarrow> sh_verifiedAt ?t \<noteq> None)
      \<and> (sh_verificationStatus ?t = V_submitted \<longrightarrow> sh_verificationSubmittedAt ?t \<noteq> None)"
    using assms(1) by (simp add: shop_sound_def)
  ultimately show ?thesis unfolding shop_sound_def by simp
qed

lemma shop_move_sound: "shop_move pub s s' \<Longrightarrow> shop_sound s \<Longrightarrow> shop_sound s'"
proof (induction rule: shop_move.induct)
  case (patch b s now)
  then show ?case by (simp add: patch_sound)
qed (auto simp: shop_sound_def published_row_def)

text \<open>
  C30. The rows of the shops stay sound through any sequence of registrations, settings, set-up, verification,
  printer, computer and administrator operations, refused ones included: a published shop is verified, a
  verified one has the time of the review, a verified UPI identity is complete, a location has both
  coordinates and is not (0, 0), capacity, check-in radius and reveal grace are in their ranges, and the menu is one
  that the schema accepts.
\<close>

theorem shops_stay_sound:
  assumes "shop_keys st" "\<forall>s \<in> set (sp_shops st). shop_sound s"
  shows "\<forall>s \<in> set (sp_shops (shop_run ops st)). shop_sound s"
proof -
  have "shop_sound (registered_shop i slug b)" for i slug b
    by (simp add: shop_sound_def registered_shop_def default_menu_ok COUNTER_CAPACITY_MIN_def COUNTER_CAPACITY_MAX_def)
  then show ?thesis using run_rows [OF assms(1), where I = shop_sound] assms(2) shop_move_sound by blast
qed

lemma shops_stay_sound_witness:
  "list_all shop_sound (sp_shops (shop_run [(5, Op_setup sample_owner_session), (6, Op_admin_unpublish ''a'' ''s'' None)] (sample_store setup_shop)))"
proof -
  have "shop_sound setup_shop"
    by (simp add: shop_sound_def setup_shop_def sample_shop_def default_menu_ok COUNTER_CAPACITY_MIN_def COUNTER_CAPACITY_MAX_def)
  then show ?thesis
    using shops_stay_sound [of "sample_store setup_shop" "[(5, Op_setup sample_owner_session), (6, Op_admin_unpublish ''a'' ''s'' None)]"]
      sample_keys [of setup_shop] by (simp add: list_all_iff sample_store_def)
qed

subsection \<open>Who may publish\<close>

text \<open>
  C31. Only an administrator brings back a shop that is hidden: a shop that is not published and is an older one or
  already reviewed (verified and hidden, or rejected) is not published by any sequence of operations of
  owners, staff, computers and administrators in which no administrator publishes this shop.
\<close>

theorem hidden_until_published_by_admin:
  assumes "shop_keys st" "find_shop_row i st = Some s" "sh_publishedAt s = None"
    "\<not> sh_autoLive s \<or> sh_verificationStatus s \<in> {V_verified, V_rejected}"
    "list_all (\<lambda>ev. \<not> publishes i (snd ev)) ops"
  shows "\<exists>s'. find_shop_row i (shop_run ops st) = Some s' \<and> sh_publishedAt s' = None"
proof -
  let ?I = "\<lambda>s. sh_publishedAt s = None \<and> (\<not> sh_autoLive s \<or> sh_verificationStatus s \<in> {V_verified, V_rejected})"
  have "?I y" if "shop_move False x y" "?I x" for x y
    using that
    by (cases rule: shop_move.cases)
      (auto simp: reviewable_def verification_reset_def)
  then show ?thesis using run_follows [OF assms(1,2), where I = ?I and p = False] assms(3-5) by blast
qed

lemma hidden_until_published_by_admin_witness:
  "\<exists>s'. find_shop_row ''s'' (shop_run [(5, Op_submit ''s''), (6, Op_setup sample_owner_session)]
      (sample_store (sample_shop\<lparr>sh_publishedAt := None\<rparr>))) = Some s' \<and> sh_publishedAt s' = None"
  by (rule hidden_until_published_by_admin [where s = "sample_shop\<lparr>sh_publishedAt := None\<rparr>"])
    (simp_all add: sample_keys publishes_def, simp add: sample_shop_def)

text \<open>
  A rejection of a shop that goes live by itself is final: once such a shop is rejected, it is rejected and
  unpublished after any sequence of operations, those of administrators included.
\<close>

theorem rejection_is_final:
  assumes "shop_keys st" "find_shop_row i st = Some s" "sh_autoLive s" "sh_verificationStatus s = V_rejected" "sh_publishedAt s = None"
  shows "\<exists>s'. find_shop_row i (shop_run ops st) = Some s' \<and> sh_verificationStatus s' = V_rejected \<and> sh_publishedAt s' = None"
proof -
  let ?I = "\<lambda>s. sh_verificationStatus s = V_rejected \<and> sh_publishedAt s = None \<and> sh_autoLive s"
  have "?I y" if "shop_move True x y" "?I x" for x y
    using that
    by (cases rule: shop_move.cases)
      (auto simp: reviewable_def verification_reset_def)
  then show ?thesis using run_follows [OF assms(1,2), where I = ?I and p = True] assms(3-5) by blast
qed

lemma rejection_is_final_witness:
  "\<exists>s'. find_shop_row ''s'' (shop_run [(5, Op_admin_verify ''a'' ''s'' None), (6, Op_admin_publish ''a'' ''s'')]
      (sample_store (setup_shop\<lparr>sh_verificationStatus := V_rejected\<rparr>))) = Some s'
    \<and> sh_verificationStatus s' = V_rejected \<and> sh_publishedAt s' = None"
  by (rule rejection_is_final [where s = "setup_shop\<lparr>sh_verificationStatus := V_rejected\<rparr>"])
    (simp_all add: sample_keys, simp_all add: setup_shop_def)

subsection \<open>A finished set-up goes live by polling\<close>

lemma ready_paths:
  assumes "ready_to_publish s (printers_of i st) (agents_of i st)"
  shows "hasOnlinePrinterPath (agents_of i st) (printers_of i st)"
    "list_ex (\<lambda>a. list_ex (\<lambda>k. k \<in> pt_id ` set (filter (\<lambda>p. pt_status p = P_online) (filter (\<lambda>p. truthy (pt_osPrinterName p)) (printers_of i st))))
      (ag_connectedPrinterIds a)) (filter (\<lambda>a. ag_status a = Ag_online) (agents_of i st))"
    "filter (\<lambda>p. pt_status p = P_online) (filter (\<lambda>p. truthy (pt_osPrinterName p)) (printers_of i st)) \<noteq> []"
  using assms
  by (auto simp: ready_to_publish_def Let_def hasOnlinePrinterPath_def list_ex_iff image_iff filter_empty_conv)
    (metis+)?

text \<open>
  A poll of the set-up page publishes a finished shop: if the shop goes live by itself, is not reviewed yet,
  has a location, a menu and a linked printer online that an online computer reaches, and its campus (if any) is
  active, the next poll answers ready and live, and students find the shop from then on.
\<close>

theorem polling_goes_live:
  assumes "shop_keys st" "campus_keys st" "find_shop_row (ss_shopId se) st = Some s" "reviewable s" "\<not> campus_inactive s st"
    "ready_to_publish s (printers_of (ss_shopId se) st) (agents_of (ss_shopId se) st)"
  shows "\<exists>u st' s'. setupStatus se now st = (Inr u, st') \<and> su_ready u \<and> su_visibility u = (Vs_live, None)
    \<and> find_shop_row (ss_shopId se) st' = Some s' \<and> publishedShopWhere st' s'"
proof -
  let ?i = "ss_shopId se" and ?s = "published_row now s"
  have s: "s \<in> set (sp_shops st)" "sh_id s = ?i" using assms(1,3) by (auto simp: find_row_iff)
  have p: "publishIfReady ?i now st = (True, auto_published ?i now st)"
    using assms(3,4,6) s by (auto simp: publishIfReady_def publish_write_eq count_where_pos_iff)
  have f: "find_shop_row ?i (auto_published ?i now st) = Some ?s" using assms(3,4) s(2) by (simp add: find_auto_published)
  have same: "campus_of ?s (auto_published ?i now st) = campus_of s st" "has_location ?s = has_location s"
      "shopOptions ?s = shopOptions s"
    by (simp_all add: campus_of_def has_location_def shopOptions_def split: option.split)
  have loc: "has_location s" "o_papers (shopOptions s) \<noteq> []" using assms(6) by (simp_all add: ready_to_publish_def Let_def)
  have campus: "sh_campusId s = None \<or> (\<exists>c. campus_of s st = Some c \<and> cm_isActive c)"
    using assms(2,5) s(1) by (auto simp: campus_keys_def campus_inactive_def)
  then have live: "isPublishedShop ?s (campus_of s st)" by (auto simp: isPublishedShop_def)
  moreover have "campus_keys (auto_published ?i now st)"
    using assms(2) by (auto simp: campus_keys_def auto_published_def set_update_where campus_of_def)
  ultimately have pub: "publishedShopWhere (auto_published ?i now st) ?s" by (simp add: published_twins same)
  have "su_ready (setup_of ?s (auto_published ?i now st))"
    using ready_paths [OF assms(6)] loc s(2) by (simp add: setup_of_def Let_def same)
  moreover have "su_visibility (setup_of ?s (auto_published ?i now st)) = (Vs_live, None)"
    using ready_paths [OF assms(6)] loc s(2) live campus by (auto simp: setup_of_def Let_def same shopVisibility_def)
  ultimately show ?thesis using pub f by (auto simp: setupStatus_def assms(3) p Let_def)
qed

lemma polling_goes_live_witness:
  "\<exists>u st' s'. setupStatus sample_owner_session 9 (sample_store setup_shop) = (Inr u, st') \<and> su_ready u
    \<and> su_visibility u = (Vs_live, None) \<and> find_shop_row ''s'' st' = Some s' \<and> publishedShopWhere st' s'"
proof -
  have "ready_to_publish setup_shop (printers_of ''s'' (sample_store setup_shop)) (agents_of ''s'' (sample_store setup_shop))"
    by code_simp
  then show ?thesis
    using polling_goes_live [of "sample_store setup_shop" sample_owner_session setup_shop 9] sample_keys [of setup_shop]
    by (simp add: campus_keys_def campus_inactive_def campus_of_def reviewable_def) (simp add: sample_store_def setup_shop_def sample_shop_def)
qed

subsection \<open>Which settings ask for a review\<close>

lemma patch_statement_hit:
  assumes "shop_keys st" "find_shop_row i st = Some s" "menu_guard b cur \<in> {None, Some (sh_printOptionsVersion s)}"
  shows "\<exists>st'. patch_statement i b cur now st = Some st' \<and> find_shop_row i st' = Some (patch_write b cur now s) \<and> shop_keys st'"
proof -
  define p where "p = (\<lambda>s :: shop_row. sh_id s = i \<and> (case menu_guard b cur of None \<Rightarrow> True | Some v \<Rightarrow> sh_printOptionsVersion s = v))"
  have m: "s \<in> set (sp_shops st)" "p s" using assms by (auto simp: find_row_iff p_def)
  have w: "patch_statement i b cur now st = (if count_where p (sp_shops st) = 0 then None
      else Some (st\<lparr>sp_shops := update_where p (patch_write b cur now) (sp_shops st)\<rparr>))"
    by (simp add: patch_statement_def p_def Let_def)
  have "find (\<lambda>x. sh_id x = i) (update_where p (patch_write b cur now) (sp_shops st)) = Some (patch_write b cur now s)"
    using find_update_where_key [of sh_id "patch_write b cur now" i p] assms(2) m(2) by (simp add: find_shop_row_def)
  moreover have "count_where p (sp_shops st) \<noteq> 0" using m by (auto simp: count_where_0_iff)
  ultimately show ?thesis using assms(1) by (simp add: w find_shop_row_def shop_keys_def map_update_where)
qed

lemma patchShop_written:
  assumes "shop_keys st" "find_shop_row (ss_shopId se) st = Some s" "patch_ok b" "\<not> campus_refused b st"
    "menu_guard b s \<in> {None, Some (sh_printOptionsVersion s)}"
  shows "\<exists>s' st' effs. patchShop se b now st = (Inr s', st', effs) \<and> find_shop_row (ss_shopId se) st' = Some s'
    \<and> (s' = patch_write b s now s \<or> reviewable (patch_write b s now s) \<and> s' = published_row now (patch_write b s now s))
    \<and> shopOptions s' = given (pa_printOptions b) (shopOptions s)"
proof -
  let ?i = "ss_shopId se" and ?s = "patch_write b s now s"
  obtain st1 where st1: "patch_statement ?i b s now st = Some st1" "find_shop_row ?i st1 = Some ?s"
    using patch_statement_hit [OF assms(1,2,5)] by blast
  obtain x st2 where r: "publishIfReady ?i now st1 = (x, st2)" by fastforce
  have "sh_id ?s = ?i" using assms(2) by (auto simp: find_shop_row_def dest: find_SomeD)
  then have "find_shop_row ?i st2 = Some ?s \<or> reviewable ?s \<and> find_shop_row ?i st2 = Some (published_row now ?s)"
    using r st1(2) by (auto simp: publishIfReady_def publish_write_eq find_auto_published split: if_splits)
  then obtain s' where f: "find_shop_row ?i st2 = Some s'" "s' = ?s \<or> reviewable ?s \<and> s' = published_row now ?s" by blast
  have "shopOptions ?s = given (pa_printOptions b) (shopOptions s)" "shopOptions (published_row now ?s) = shopOptions ?s"
    by (auto simp: shopOptions_def menu_changed_def changed_def given_def split: option.splits)
  moreover have "patchShop se b now st = (Inr s', st2, if pa_counterCapacity b \<noteq> None then [Background ''emitQueueUpdate'' ?i] else [])"
    using assms(2-4) st1 r f(1) by (simp add: patchShop_def Let_def)
  ultimately show ?thesis using f by auto
qed

text \<open>
  A valid change of the settings that reads the current menu is written, and has exactly the consequences
  the code means: an older shop loses its verification and publication exactly when name, address or campus
  change or it moves by more than 150 metres, a new-style shop never; the version of the menu is counted up
  exactly when the menu changes; the check of the UPI identity is void exactly when the identity changes.
\<close>

theorem settings_review_exact:
  assumes "shop_keys st" "find_shop_row (ss_shopId se) st = Some s" "patch_ok b" "\<not> campus_refused b st"
    "menu_guard b s \<in> {None, Some (sh_printOptionsVersion s)}"
  shows "\<exists>s' st' effs. patchShop se b now st = (Inr s', st', effs) \<and> find_shop_row (ss_shopId se) st' = Some s'
    \<and> (if \<not> sh_autoLive s \<and> material_change b s
       then sh_verificationStatus s' = V_draft \<and> sh_publishedAt s' = None \<and> sh_verifiedAt s' = None
       else if reviewable s then sh_publishedAt s' = None \<or> sh_publishedAt s' = Some now
       else sh_verificationStatus s' = sh_verificationStatus s \<and> sh_publishedAt s' = sh_publishedAt s)
    \<and> sh_printOptionsVersion s' = sh_printOptionsVersion s + (if menu_changed b s then 1 else 0)
    \<and> shopOptions s' = given (pa_printOptions b) (shopOptions s)
    \<and> sh_counterUpiVerifiedAt s' = (if upi_changed b s then None else sh_counterUpiVerifiedAt s)"
proof -
  obtain s' st' effs where r: "patchShop se b now st = (Inr s', st', effs)" "find_shop_row (ss_shopId se) st' = Some s'"
      "s' = patch_write b s now s \<or> reviewable (patch_write b s now s) \<and> s' = published_row now (patch_write b s now s)"
      "shopOptions s' = given (pa_printOptions b) (shopOptions s)"
    using patchShop_written [OF assms, of now] by blast
  have "(if \<not> sh_autoLive s \<and> material_change b s
       then sh_verificationStatus s' = V_draft \<and> sh_publishedAt s' = None \<and> sh_verifiedAt s' = None
       else if reviewable s then sh_publishedAt s' = None \<or> sh_publishedAt s' = Some now
       else sh_verificationStatus s' = sh_verificationStatus s \<and> sh_publishedAt s' = sh_publishedAt s)"
    using r(3) by (elim disjE conjE) (auto simp: reviewable_def verification_reset_def)
  moreover have "sh_printOptionsVersion s' = sh_printOptionsVersion s + (if menu_changed b s then 1 else 0)"
      "sh_counterUpiVerifiedAt s' = (if upi_changed b s then None else sh_counterUpiVerifiedAt s)"
    using r(3) by auto
  ultimately show ?thesis using r by blast
qed

lemma settings_review_exact_witness:
  "\<exists>s' st' effs. patchShop sample_owner_session (empty_patch\<lparr>pa_name := Some ''New''\<rparr>) 7 (sample_store sample_shop) = (Inr s', st', effs)
    \<and> sh_verificationStatus s' = V_draft \<and> sh_publishedAt s' = None"
proof -
  let ?b = "empty_patch\<lparr>pa_name := Some ''New''\<rparr>"
  have "patch_ok ?b" "menu_guard ?b sample_shop = None" "\<not> sh_autoLive sample_shop" "material_change ?b sample_shop"
      "\<not> campus_refused ?b (sample_store sample_shop)"
    by (simp_all add: patch_ok_def patch_fields_ok_def patch_refined_def given_together_def when_given_def menu_guard_def menu_changed_def
      changed_def material_change_def empty_patch_def sample_shop_def campus_refused_def)
  then show ?thesis
    using settings_review_exact [of "sample_store sample_shop" sample_owner_session sample_shop ?b 7] sample_keys [of sample_shop] by auto
qed

subsection \<open>Two tabs with one menu\<close>

definition menu_at :: "id \<Rightarrow> int \<Rightarrow> shop_store \<Rightarrow> bool" where
  "menu_at shopId v st = (\<exists>s. find_shop_row shopId st = Some s \<and> sh_printOptionsVersion s = v)"

definition menu_write :: "id \<Rightarrow> shop_patch \<times> shop_row \<times> millis \<Rightarrow> shop_store \<Rightarrow> shop_store option" where
  "menu_write shopId tab st = (case tab of (b, cur, now) \<Rightarrow> patch_statement shopId b cur now st)"

definition loaded :: "int \<Rightarrow> shop_patch \<times> shop_row \<times> millis \<Rightarrow> bool" where
  "loaded v tab = (case tab of (b, cur, now) \<Rightarrow> menu_guard b cur = Some v)"

lemma menu_write_effect:
  assumes "loaded v tab" "shop_keys st"
  shows "menu_write i tab st = None \<and> \<not> menu_at i v st
    \<or> (\<exists>s s' st'. find_shop_row i st = Some s \<and> sh_printOptionsVersion s = v \<and> menu_write i tab st = Some st' \<and> shop_keys st'
      \<and> find_shop_row i st' = Some s' \<and> sh_printOptionsVersion s' = v + 1 \<and> sh_printOptions s' = pa_printOptions (fst tab))"
proof -
  obtain b cur now where tab: "tab = (b, cur, now)" by (cases tab)
  have g: "menu_guard b cur = Some v" "menu_changed b cur" using assms(1) by (auto simp: loaded_def tab menu_guard_def split: if_splits)
  show ?thesis
  proof (cases "menu_at i v st")
    case True
    then obtain s where s: "find_shop_row i st = Some s" "sh_printOptionsVersion s = v" by (auto simp: menu_at_def)
    then obtain st' where "menu_write i tab st = Some st'" "find_shop_row i st' = Some (patch_write b cur now s)" "shop_keys st'"
      using patch_statement_hit [OF assms(2) s(1), of b cur now] g(1) by (auto simp: menu_write_def tab)
    then show ?thesis using s g(2) by (auto simp: tab)
  next
    case False
    then show ?thesis
      using assms(2) g(1) by (auto simp: menu_write_def tab patch_statement_def Let_def count_where_0_iff menu_at_def find_row_iff)
  qed
qed

interpretation menu_version: claim_once "menu_write i" "menu_at i v" "loaded v" shop_keys for i v
proof
  fix tab and st st' :: shop_store
  assume a: "loaded v tab" "shop_keys st" "menu_write i tab st = Some st'"
  note e = menu_write_effect [OF a(1,2), of i]
  show "menu_at i v st" using e a(3) by (auto simp: menu_at_def)
  show "\<not> menu_at i v st'" using e a(3) by (auto simp: menu_at_def)
  show "shop_keys st'" using e a(3) by auto
qed

text \<open>
  C32. A menu is never overwritten blindly: of any number of tabs that loaded the same version of the menu and
  change it, in whatever order their statements reach the database, exactly the first is written; the stored
  menu is that tab's, one version on, and every other tab is refused.
\<close>

theorem one_tab_writes_the_menu:
  assumes "shop_keys st" "menu_at i v st" "list_all (loaded v) (tab # tabs)"
  shows "\<exists>s'. fst (race (menu_write i) (tab # tabs) st) = [tab]
    \<and> find_shop_row i (snd (race (menu_write i) (tab # tabs) st)) = Some s'
    \<and> sh_printOptions s' = pa_printOptions (fst tab) \<and> sh_printOptionsVersion s' = v + 1"
proof -
  obtain s' st' where w: "menu_write i tab st = Some st'" "shop_keys st'" "find_shop_row i st' = Some s'"
      "sh_printOptionsVersion s' = v + 1" "sh_printOptions s' = pa_printOptions (fst tab)"
    using menu_write_effect [of v tab st i] assms by auto
  have "race (menu_write i) tabs st' = ([], st')"
    using menu_version.race_taken [OF w(2), of i v tabs] w(3,4) assms(3) by (auto simp: menu_at_def)
  then show ?thesis using w by simp
qed

definition bw_menu :: shop_options where
  "bw_menu = \<lparr>o_papers = [\<lparr>po_id = ''A4'', po_label = ''A4'', po_bwPaise = 150, po_colorPaise = None\<rparr>], o_bindings = [],
    o_duplexEnabled = False\<rparr>"

definition sample_tab :: "int \<Rightarrow> shop_patch \<times> shop_row \<times> millis" where
  "sample_tab now = (empty_patch\<lparr>pa_printOptions := Some bw_menu, pa_expectedPrintOptionsVersion := Some 0\<rparr>, setup_shop, now)"

lemma one_tab_writes_the_menu_witness:
  "fst (race (menu_write ''s'') [sample_tab 7, sample_tab 8] (sample_store setup_shop)) = [sample_tab 7]"
proof -
  have "loaded 0 (sample_tab t)" for t
    by (simp add: loaded_def sample_tab_def menu_guard_def menu_changed_def changed_def empty_patch_def shopOptions_def setup_shop_def
      bw_menu_def DEFAULT_PRINT_OPTIONS_def)
  then have "list_all (loaded 0) [sample_tab 7, sample_tab 8]" by simp
  moreover have "menu_at ''s'' 0 (sample_store setup_shop)"
    using sample_keys [of setup_shop] by (simp add: menu_at_def) (simp add: setup_shop_def sample_shop_def)
  ultimately show ?thesis
    using one_tab_writes_the_menu [of "sample_store setup_shop" "''s''" 0 "sample_tab 7" "[sample_tab 8]"] sample_keys [of setup_shop]
    by (auto simp del: race.simps)
qed

end
