(* ===== verification/Input_Laws.thy ===== *)
theory Input_Laws
  imports Input_Rules
begin

text \<open>
  The phone field of the browser agrees with the server and recovers a number from every prefixed form; the
  code field finds the code of a message; what an accepted menu charges is bounded and every row of it is sold at
  its own price.
\<close>

subsection \<open>Phone numbers\<close>

lemma valid_mobile:
  assumes "isValidIndianMobile n"
  shows "length n = 10" "list_all is_digit n" "\<not> starts_0 n" "n \<noteq> []" "filter is_digit n = n" "filter (\<lambda>c. \<not> is_space c \<and> c \<noteq> CHR ''-'') n = n"
proof -
  obtain c cs where n: "n = c # cs" using assms by (cases n) (auto simp: isValidIndianMobile_def)
  have d: "list_all is_digit n" "54 \<le> code_of c" using assms by (auto simp: isValidIndianMobile_def n)
  show "length n = 10" "list_all is_digit n" "n \<noteq> []" using assms n by (auto simp: isValidIndianMobile_def)
  show "\<not> starts_0 n" using d(2) by (auto simp: starts_0_def n code_of_def)
  show "filter is_digit n = n" using d(1) by (simp add: filter_id_conv list_all_iff)
  show "filter (\<lambda>c. \<not> is_space c \<and> c \<noteq> CHR ''-'') n = n" using d(1) digit_not by (auto simp: filter_id_conv list_all_iff)
qed

lemma trim_digits: "list_all is_digit s \<Longrightarrow> trim s = s"
  by (rule trim_none) (cases "s = []", auto simp: list_all_iff intro!: digit_not(1))

lemma strip_done: "length n \<le> 10 \<Longrightarrow> strip_prefixes n = n"
  by (subst strip_prefixes.simps) simp

lemma strip_all_prefixes:
  assumes "length n = 10" "list_all (\<lambda>p. p = ''0'' \<or> p = ''91'') ps"
  shows "strip_prefixes (concat ps @ n) = n"
  using assms(2)
proof (induction ps)
  case Nil
  then show ?case by (simp add: strip_done assms(1))
next
  case (Cons p ps)
  then have p: "p = ''0'' \<or> p = ''91''" and ih: "strip_prefixes (concat ps @ n) = n" by simp_all
  have l: "10 < length (concat (p # ps) @ n)" using p assms(1) by auto
  show ?case
    using p ih l by (subst strip_prefixes.simps) (auto simp: starts_0_def starts_91_def)
qed

text \<open>
  A number that is pasted with its prefix is recovered: whatever separators it is written with and whatever
  sequence of country codes 91 and trunk zeros precedes it, the field of the browser holds exactly the ten digits of
  a valid number, shows no hint, and the server takes them as the number with +91.
\<close>

theorem pasted_number_recovered:
  assumes "isValidIndianMobile n" "list_all (\<lambda>p. p = ''0'' \<or> p = ''91'') ps" "filter is_digit raw = concat ps @ n"
  shows "normalizeIndianMobile raw = n \<and> phoneHint (normalizeIndianMobile raw) finished = None
    \<and> phoneSchema (normalizeIndianMobile raw) = Some (PLUS_91 @ n)"
proof -
  note v = valid_mobile [OF assms(1)]
  have "strip_prefixes (filter is_digit raw) = n" using strip_all_prefixes [OF v(1) assms(2)] assms(3) by simp
  then have n: "normalizeIndianMobile raw = n" using v(1) by (auto simp: normalizeIndianMobile_def Let_def)
  have "take 3 n \<noteq> PLUS_91" using v(2) by (cases n) (auto simp: PLUS_91_def is_digit_def code_of_def)
  then have "phoneSchema n = Some (PLUS_91 @ n)" using assms(1) v(6) trim_digits [OF v(2)] by (simp add: phoneSchema_def Let_def)
  with n show ?thesis using assms(1) by (simp add: phoneHint_def)
qed

lemma pasted_number_recovered_witness:
  "normalizeIndianMobile ''+91 0 98100-00003'' = ''9810000003''
    \<and> phoneSchema (normalizeIndianMobile ''+91 0 98100-00003'') = Some ''+919810000003''"
proof -
  have "isValidIndianMobile ''9810000003''" "filter is_digit ''+91 0 98100-00003'' = concat [''91'', ''0''] @ ''9810000003''"
    by code_simp+
  then show ?thesis
    using pasted_number_recovered [of "''9810000003''" "[''91'', ''0'']" "''+91 0 98100-00003''" True] by (auto simp: PLUS_91_def simp del: filter.simps)
qed

text \<open>What the server takes as it is typed, the browser takes as the same number.\<close>

lemma server_agrees:
  assumes "phoneSchema raw = Some e"
  shows "PLUS_91 @ normalizeIndianMobile raw = e"
proof -
  define v where "v = filter (\<lambda>c. \<not> is_space c \<and> c \<noteq> CHR ''-'') (trim raw)"
  have "filter is_digit (trim s) = filter is_digit s" for s
  proof -
    have d: "filter is_digit (dropWhile is_space xs) = filter is_digit xs" for xs
      by (induction xs) (auto dest: digit_not(1))
    show ?thesis unfolding trim_def by (simp add: rev_filter [symmetric] d)
  qed
  then have r: "filter is_digit raw = filter is_digit v"
  proof -
    have "(\<lambda>c. (\<not> is_space c \<and> c \<noteq> CHR ''-'') \<and> is_digit c) = is_digit" using digit_not by auto
    then show ?thesis by (simp add: v_def \<open>\<And>s. filter is_digit (trim s) = filter is_digit s\<close>)
  qed
  consider "take 3 v = PLUS_91" "isValidIndianMobile (drop 3 v)" "e = v" | "isValidIndianMobile v" "e = PLUS_91 @ v"
  proof -
    have "phoneSchema raw = (if take 3 v = PLUS_91 \<and> isValidIndianMobile (drop 3 v) then Some v
      else if isValidIndianMobile v then Some (PLUS_91 @ v) else None)"
      by (simp only: phoneSchema_def Let_def v_def)
    then show ?thesis using that assms by (metis option.distinct(1) option.inject)
  qed
  then show ?thesis
  proof cases
    case 1
    then have e: "v = PLUS_91 @ drop 3 v" by (metis append_take_drop_id)
    have "filter is_digit raw = concat [''91''] @ drop 3 v"
      using valid_mobile(5) [OF 1(2)] unfolding r by (subst e) (simp add: PLUS_91_def is_digit_def code_of_def)
    then show ?thesis using pasted_number_recovered [OF 1(2), of "[''91'']" raw] e 1(3) by simp
  next
    case 2
    then show ?thesis using pasted_number_recovered [OF 2(1), of "[]" raw] valid_mobile(5) [OF 2(1)] r by simp
  qed
qed

subsection \<open>Codes\<close>

lemma digit_runs_ne [simp]: "digit_runs s \<noteq> []"
  by (induction s) (auto split: list.splits)

lemma digit_runs_after:
  "list_all is_digit w \<Longrightarrow> post = [] \<or> \<not> is_digit (hd post) \<Longrightarrow> \<exists>ws. digit_runs (w @ post) = w # ws"
proof (induction w)
  case Nil
  then show ?case by (cases post) auto
qed (auto split: list.splits)

lemma digit_runs_shape: "w \<in> set (digit_runs s) \<Longrightarrow> list_all is_digit w"
  by (induction s arbitrary: w) (auto split: list.splits if_splits)

lemma find_append: "find p (xs @ ys) = (case find p xs of None \<Rightarrow> find p ys | Some x \<Rightarrow> Some x)"
  by (induction xs) auto

lemma digit_runs_skip: "\<not> is_digit c \<Longrightarrow> \<exists>us. digit_runs (pre @ c # s) = us @ digit_runs s \<and> digit_runs pre = us"
  by (induction pre) (auto split: list.splits)

text \<open>
  The code field finds the code: a message holding a six-digit run between other characters, with no such
  run before it, yields exactly that code, and whatever was typed the field holds at most six characters, all digits.
\<close>

theorem code_found_in_message:
  assumes "six_digits code" "pre = [] \<or> \<not> is_digit (last pre)" "post = [] \<or> \<not> is_digit (hd post)"
    "find (\<lambda>r. length r = 6) (digit_runs pre) = None"
  shows "extractOtp (pre @ code @ post) = code \<and> length (extractOtp raw) \<le> 6 \<and> list_all is_digit (extractOtp raw)"
proof -
  have c: "list_all is_digit code" "length code = 6" using assms(1) by (simp_all add: six_digits_def)
  obtain ws where w: "digit_runs (code @ post) = code # ws" using digit_runs_after [OF c(1) assms(3)] by blast
  have "find (\<lambda>r. length r = 6) (digit_runs (pre @ code @ post)) = Some code"
  proof (cases pre rule: rev_cases)
    case Nil
    then show ?thesis using w c(2) by simp
  next
    case (snoc p x)
    then have "\<not> is_digit x" using assms(2) by simp
    then obtain us where "digit_runs (p @ x # code @ post) = us @ digit_runs (code @ post)" "digit_runs p = us"
      using digit_runs_skip [of x p "code @ post"] by blast
    moreover obtain vs where "digit_runs (p @ [x]) = us @ vs"
      using digit_runs_skip [of x p "[]"] \<open>\<not> is_digit x\<close> calculation(2) by auto
    moreover have "find (\<lambda>r. length r = 6) us = None" using calculation(3) assms(4) snoc by (auto simp: find_None_iff)
    ultimately show ?thesis using w c(2) snoc by (simp add: find_append)
  qed
  moreover have "length (extractOtp raw) \<le> 6 \<and> list_all is_digit (extractOtp raw)"
    using digit_runs_shape [of _ raw] by (auto simp: extractOtp_def list_all_iff dest!: in_set_takeD find_SomeD split: option.splits)
  ultimately show ?thesis by (simp add: extractOtp_def)
qed

subsection \<open>Menus\<close>

lemma papers_refined_keys: "papers_refined seen ps \<Longrightarrow> distinct (map (lower_case \<circ> po_id) ps)
    \<and> set (map (lower_case \<circ> po_id) ps) \<inter> set seen = {}"
  by (induction seen ps rule: papers_refined.induct) (auto simp: Let_def)

lemma papers_refined_colour: "papers_refined seen ps \<Longrightarrow> p \<in> set ps \<Longrightarrow> po_colorPaise p = Some c \<Longrightarrow> po_bwPaise p \<le> c"
  by (induction seen ps rule: papers_refined.induct) (auto simp: Let_def)

lemma bindings_refined_keys: "bindings_refined seen bs \<Longrightarrow> distinct (map (lower_case \<circ> bo_id) bs)
    \<and> set (map (lower_case \<circ> bo_id) bs) \<inter> set seen = {}"
  by (induction seen bs rule: bindings_refined.induct) (auto simp: Let_def)

lemma distinct_map_comp: "distinct (map (f \<circ> g) xs) \<Longrightarrow> distinct (map g xs)"
  using distinct_map [of f "map g xs"] by simp

lemma menu_ok_facts:
  assumes "printOptionsSchema m"
  shows "options_ok m" "distinct (map po_id (o_papers m))" "distinct (map bo_id (o_bindings m))"
    "p \<in> set (o_papers m) \<Longrightarrow> po_colorPaise p = Some c \<Longrightarrow> po_bwPaise p \<le> c"
proof -
  have s: "list_all paper_ok (o_papers m)" "list_all binding_ok (o_bindings m)" "papers_refined [] (o_papers m)"
      "bindings_refined [] (o_bindings m)" using assms by (simp_all add: printOptionsSchema_def)
  show "options_ok m"
    using s(1,2) by (auto simp: options_ok_def price_ok_def paper_ok_def binding_ok_def list_all_iff MAX_PAGE_PRICE_PAISE_def
      MAX_BINDING_PRICE_PAISE_def split: option.splits)
  show "distinct (map po_id (o_papers m))" using papers_refined_keys [OF s(3)] distinct_map_comp by blast
  show "distinct (map bo_id (o_bindings m))" using bindings_refined_keys [OF s(4)] distinct_map_comp by blast
  show "p \<in> set (o_papers m) \<Longrightarrow> po_colorPaise p = Some c \<Longrightarrow> po_bwPaise p \<le> c" by (rule papers_refined_colour [OF s(3)])
qed

lemma menu_price_bounds:
  assumes "printOptionsSchema m" "computePrice specs n m = Inr b"
  shows "0 \<le> pb_perPagePaise b \<and> pb_perPagePaise b \<le> MAX_PAGE_PRICE_PAISE" "0 \<le> pb_bindingPaise b \<and> pb_bindingPaise b \<le> MAX_BINDING_PRICE_PAISE"
proof -
  have s: "list_all paper_ok (o_papers m)" "list_all binding_ok (o_bindings m)" using assms(1) by (simp_all add: printOptionsSchema_def)
  show "0 \<le> pb_perPagePaise b \<and> pb_perPagePaise b \<le> MAX_PAGE_PRICE_PAISE"
    using assms(2) s(1) by (auto simp: computePrice_def unit_price_def Let_def list_all_iff paper_ok_def
      split: option.splits sum.splits if_splits dest!: find_SomeD)
  show "0 \<le> pb_bindingPaise b \<and> pb_bindingPaise b \<le> MAX_BINDING_PRICE_PAISE"
    using assms(2) s(2) by (auto simp: computePrice_def binding_price_def Let_def list_all_iff binding_ok_def MAX_BINDING_PRICE_PAISE_def
      split: option.splits sum.splits if_splits dest!: find_SomeD)
qed

text \<open>
  An accepted menu can be charged: every paper and binding of it is found under its own id, colour is never
  cheaper than black and white, and an accepted order of it costs between nothing and one million paise per page
  of the document plus the dearest binding, far inside the safe integers.
\<close>

theorem accepted_menu_charges:
  assumes "printOptionsSchema m" "jobSpecsSchema specs" "computePrice specs n m = Inr b" "0 \<le> n" "p \<in> set (o_papers m)"
  shows "find (\<lambda>q. po_id q = po_id p) (o_papers m) = Some p
    \<and> po_bwPaise p \<le> (case po_colorPaise p of None \<Rightarrow> po_bwPaise p | Some c \<Rightarrow> c)
    \<and> 0 \<le> pb_totalPaise b \<and> pb_totalPaise b \<le> 1000000 * n + MAX_BINDING_PRICE_PAISE"
proof -
  note M = menu_ok_facts [OF assms(1)] and B = computePrice_facts [OF assms(3)] and L = menu_price_bounds [OF assms(1,3)]
  have k: "0 \<le> pb_pagesPerCopy b" "pb_pagesPerCopy b \<le> n" using count_nonneg [OF B(4) assms(4)] by auto
  have c: "0 \<le> copies specs" "copies specs \<le> 100" using assms(2) by (auto simp: jobSpecsSchema_def)
  have "pb_perPagePaise b * pb_pagesPerCopy b \<le> 10000 * n" "0 \<le> pb_perPagePaise b * pb_pagesPerCopy b"
    using L(1) k by (auto simp: MAX_PAGE_PRICE_PAISE_def intro: mult_mono)
  moreover have "x * copies specs \<le> (10000 * n) * 100" if "x \<le> 10000 * n" for x
    using that c assms(4) by (intro mult_mono) auto
  ultimately have "pb_perPagePaise b * pb_pagesPerCopy b * copies specs \<le> (10000 * n) * 100" "0 \<le> pb_perPagePaise b * pb_pagesPerCopy b * copies specs"
    using c by (blast, simp)
  then have "0 \<le> pb_totalPaise b \<and> pb_totalPaise b \<le> 1000000 * n + MAX_BINDING_PRICE_PAISE"
    using L(2) unfolding B(3) B(1) B(2) by linarith
  moreover have "find (\<lambda>q. po_id q = po_id p) (o_papers m) = Some p" by (rule find_eq_Some_distinct [OF M(2) assms(5)])
  moreover have "po_bwPaise p \<le> (case po_colorPaise p of None \<Rightarrow> po_bwPaise p | Some c \<Rightarrow> c)"
    using M(4) [OF assms(5)] by (auto split: option.splits)
  ultimately show ?thesis by blast
qed

lemma accepted_menu_charges_witness:
  "pb_totalPaise sample_base \<le> 1000000 * 3 + MAX_BINDING_PRICE_PAISE"
proof -
  have "printOptionsSchema DEFAULT_PRINT_OPTIONS" "jobSpecsSchema sample_specs" by code_simp+
  moreover have "hd (o_papers DEFAULT_PRINT_OPTIONS) \<in> set (o_papers DEFAULT_PRINT_OPTIONS)" by (simp add: DEFAULT_PRINT_OPTIONS_def)
  ultimately show ?thesis using accepted_menu_charges [OF _ _ sample_prices(1)] by simp
qed

lemma code_found_in_message_witness:
  "extractOtp (''Order 42, code: '' @ ''123456'' @ ''.'') = ''123456''"
proof -
  have "six_digits ''123456''" "find (\<lambda>r. length r = 6) (digit_runs ''Order 42, code: '') = None"
      "\<not> is_digit (last ''Order 42, code: '')" "\<not> is_digit (hd ''.'')" by code_simp+
  then show ?thesis using code_found_in_message [of "''123456''" "''Order 42, code: ''" "''.''"] by blast
qed

end
