(* ===== verification/Rate_Limits.thy ===== *)
theory Rate_Limits
  imports Session_Tokens Input_Rules
begin

text \<open>
  middleware/rateLimit.ts: who a request is counted for, and the limiter of failures with its counters in
  Redis. The general limiters are a third-party library around the same keys and are not modelled, nor is
  the in-memory counter that replaces Redis in unit tests.
\<close>

subsection \<open>Who is counted\<close>

text \<open>\<open>hash_token\<close> stands for hashAgentToken, a SHA-256 digest in hex.\<close>

definition principalOf :: "jwt \<Rightarrow> (string \<Rightarrow> string) \<Rightarrow> auth_request \<Rightarrow> millis \<Rightarrow> string option" where
  "principalOf J hash_token req now =
    (case (case bearer req of None \<Rightarrow> None | Some t \<Rightarrow> verifyToken J t now) of
      Some (Student_claims i) \<Rightarrow> Some (''student:'' @ i)
    | Some (Shop_claims i _ _ _) \<Rightarrow> Some (''shop:'' @ i)
    | Some (Admin_claims i _) \<Rightarrow> Some (''admin:'' @ i)
    | None \<Rightarrow> (case rq_agentToken req of
        Some t \<Rightarrow> if 32 \<le> length t then Some (''agent:'' @ take 24 (hash_token t)) else None
      | None \<Rightarrow> None))"

definition ipOf :: "string option \<Rightarrow> string" where
  "ipOf ip = ''ip:'' @ (case ip of None \<Rightarrow> ''unknown'' | Some a \<Rightarrow> a)"

definition general_key :: "jwt \<Rightarrow> (string \<Rightarrow> string) \<Rightarrow> auth_request \<Rightarrow> string option \<Rightarrow> millis \<Rightarrow> string" where
  "general_key J hash_token req ip now = (case principalOf J hash_token req now of Some p \<Rightarrow> p | None \<Rightarrow> ipOf ip)"

subsection \<open>Counters\<close>

text \<open>
  A counter has a value and the time it expires, None for never. An expired or missing counter reads as 0
  without expiry: INCR and DECR create it so, and PEXPIRE NX sets an expiry only where there is none.
\<close>

type_synonym counters = "string \<Rightarrow> (int \<times> millis option) option"

definition live_counter :: "millis \<Rightarrow> counters \<Rightarrow> string \<Rightarrow> int \<times> millis option" where
  "live_counter now h k = (case h k of
      None \<Rightarrow> (0, None)
    | Some (n, None) \<Rightarrow> (n, None)
    | Some (n, Some t) \<Rightarrow> if t \<le> now then (0, None) else (n, Some t))"

definition takeSlot :: "string \<Rightarrow> millis \<Rightarrow> millis \<Rightarrow> counters \<Rightarrow> int \<times> counters" where
  "takeSlot key windowMs now h = (let (n, e) = live_counter now h key in
    (n + 1, h(key \<mapsto> (n + 1, case e of None \<Rightarrow> Some (now + windowMs) | Some t \<Rightarrow> Some t))))"

definition giveBackSlot :: "millis \<Rightarrow> string \<Rightarrow> counters \<Rightarrow> counters" where
  "giveBackSlot now key h = (let (n, e) = live_counter now h key in h(key \<mapsto> (n - 1, e)))"

subsection \<open>makeFailureLimiter\<close>

record limiter =
  li_prefix :: string
  li_windowMs :: millis
  li_perShopIp :: int
  li_perShop :: int

record limited_request =
  lq_scope :: string
  lq_ip :: string

definition limiter_keys :: "limiter \<Rightarrow> limited_request \<Rightarrow> (string \<times> int) list" where
  "limiter_keys L r =
    [(''rl:'' @ li_prefix L @ '':ip:'' @ lq_scope r @ '':'' @ lq_ip r, li_perShopIp L),
     (''rl:'' @ li_prefix L @ '':shop:'' @ lq_scope r, li_perShop L)]"

fun take_slots :: "(string \<times> int) list \<Rightarrow> millis \<Rightarrow> millis \<Rightarrow> counters \<Rightarrow> bool \<times> counters" where
  "take_slots [] windowMs now h = (True, h)"
| "take_slots ((key, most) # ks) windowMs now h =
    (let (count, h1) = takeSlot key windowMs now h; (ok, h2) = take_slots ks windowMs now h1 in (count \<le> most \<and> ok, h2))"

definition limiter_arrive :: "limiter \<Rightarrow> limited_request \<Rightarrow> millis \<Rightarrow> counters \<Rightarrow> bool \<times> counters" where
  "limiter_arrive L r now h = take_slots (limiter_keys L r) (li_windowMs L) now h"

definition limiter_finish :: "limiter \<Rightarrow> limited_request \<Rightarrow> int \<Rightarrow> millis \<Rightarrow> counters \<Rightarrow> counters" where
  "limiter_finish L r status now h =
    (if status < 400 then fold (\<lambda>k h. giveBackSlot now (fst k) h) (limiter_keys L r) h else h)"

text \<open>Requests that were let through and have not finished, beside the counters.\<close>

record limiter_state =
  ls_counters :: counters
  ls_open :: "(id \<times> limited_request) list"

datatype limiter_event = Arrive id limited_request | Finish id int

definition limiter_step :: "limiter \<Rightarrow> millis \<times> limiter_event \<Rightarrow> limiter_state \<Rightarrow> limiter_state" where
  "limiter_step L e st = (case e of
      (now, Arrive i r) \<Rightarrow> if i \<in> fst ` set (ls_open st) then st
        else let (ok, h) = limiter_arrive L r now (ls_counters st)
          in st\<lparr>ls_counters := h, ls_open := (if ok then (i, r) # ls_open st else ls_open st)\<rparr>
    | (now, Finish i status) \<Rightarrow> (case map_of (ls_open st) i of
        None \<Rightarrow> st
      | Some r \<Rightarrow> st\<lparr>ls_counters := limiter_finish L r status now (ls_counters st),
          ls_open := filter (\<lambda>x. fst x \<noteq> i) (ls_open st)\<rparr>))"

definition counterReleaseLimiter :: limiter where
  "counterReleaseLimiter = \<lparr>li_prefix = ''counter-release'', li_windowMs = 60000, li_perShopIp = 10, li_perShop = 40\<rparr>"

definition pinFailures :: limiter where
  "pinFailures = \<lparr>li_prefix = ''pin-login-fail'', li_windowMs = 15 * 60000, li_perShopIp = 10, li_perShop = 10\<rparr>"

text \<open>\<open>digest\<close> stands for a SHA-256 digest in hex.\<close>

definition accountScope :: "(string \<Rightarrow> string) \<Rightarrow> string \<Rightarrow> string" where
  "accountScope digest email = ''acct:'' @ take 32 (digest email)"

text \<open>Only a secret of the shape of a PIN is counted; any other request passes.\<close>

definition pinLoginFailureLimiter :: "(string \<Rightarrow> string) \<Rightarrow> string \<Rightarrow> string \<Rightarrow> string option \<Rightarrow> millis \<Rightarrow> counters \<Rightarrow> bool \<times> counters" where
  "pinLoginFailureLimiter digest email ip secret now h =
    (if (case secret of None \<Rightarrow> False | Some s \<Rightarrow> staff_pin_ok s)
     then limiter_arrive pinFailures \<lparr>lq_scope = accountScope digest email, lq_ip = ip\<rparr> now h else (True, h))"

subsection \<open>What passes in one window\<close>

text \<open>The requests counted under a key that are let through, and the slots given back under it.\<close>

fun passed :: "limiter \<Rightarrow> string \<Rightarrow> (millis \<times> limiter_event) list \<Rightarrow> limiter_state \<Rightarrow> int" where
  "passed L k [] st = 0"
| "passed L k (e # es) st = (case snd e of
      Arrive i r \<Rightarrow> if i \<notin> fst ` set (ls_open st) \<and> k \<in> fst ` set (limiter_keys L r)
        \<and> fst (limiter_arrive L r (fst e) (ls_counters st)) then 1 else 0
    | Finish i status \<Rightarrow> 0) + passed L k es (limiter_step L e st)"

fun given_back :: "limiter \<Rightarrow> string \<Rightarrow> (millis \<times> limiter_event) list \<Rightarrow> limiter_state \<Rightarrow> int" where
  "given_back L k [] st = 0"
| "given_back L k (e # es) st = (case snd e of
      Arrive i r \<Rightarrow> 0
    | Finish i status \<Rightarrow> (case map_of (ls_open st) i of
        None \<Rightarrow> 0
      | Some r \<Rightarrow> if status < 400 \<and> k \<in> fst ` set (limiter_keys L r) then 1 else 0)) + given_back L k es (limiter_step L e st)"

lemma key_max:
  assumes "(k, m) \<in> set (limiter_keys L r)" "k \<in> fst ` set (limiter_keys L r')"
  shows "(k, m) \<in> set (limiter_keys L r')"
  using assms by (auto simp: limiter_keys_def)

lemma keys_distinct: "distinct (map fst (limiter_keys L r))"
  by (simp add: limiter_keys_def)

text \<open>The counter of a key reads n from \<open>begun\<close> on and does not expire before the window of length w ends.\<close>

definition in_window :: "millis \<Rightarrow> millis \<Rightarrow> string \<Rightarrow> int \<Rightarrow> counters \<Rightarrow> bool" where
  "in_window begun w k n h = (case h k of
      None \<Rightarrow> n = 0
    | Some (v, None) \<Rightarrow> v = n
    | Some (v, Some x) \<Rightarrow> if x \<le> begun then n = 0 else v = n \<and> begun + w \<le> x)"

lemma in_window_live:
  assumes "in_window begun w k n h" "begun \<le> t" "t < begun + w"
  shows "\<exists>e. live_counter t h k = (n, e) \<and> (case e of None \<Rightarrow> True | Some x \<Rightarrow> t < x \<and> begun + w \<le> x)"
  using assms by (auto simp: in_window_def live_counter_def split: option.splits if_splits prod.splits)

lemma in_window_other: "h' k = h k \<Longrightarrow> in_window begun w k n h' = in_window begun w k n h"
  by (simp add: in_window_def)

lemma take_other: "k' \<noteq> k \<Longrightarrow> snd (takeSlot k' w' t h) k = h k"
  and give_other: "k' \<noteq> k \<Longrightarrow> giveBackSlot t k' h k = h k"
  by (auto simp: takeSlot_def giveBackSlot_def split: prod.split)

lemma take_same:
  assumes "in_window begun w k n h" "begun \<le> t" "t < begun + w"
  shows "fst (takeSlot k w t h) = n + 1 \<and> in_window begun w k (n + 1) (snd (takeSlot k w t h))"
  using in_window_live [OF assms] assms(2,3) by (auto simp: takeSlot_def in_window_def split: option.splits)

lemma give_same:
  assumes "in_window begun w k n h" "begun \<le> t" "t < begun + w"
  shows "in_window begun w k (n - 1) (giveBackSlot t k h)"
  using in_window_live [OF assms] assms(2,3) by (auto simp: giveBackSlot_def in_window_def split: option.splits)

lemma take_slots_count:
  assumes "in_window begun w k n h" "begun \<le> t" "t < begun + w" "distinct (map fst ks)"
  shows "in_window begun w k (n + (if k \<in> fst ` set ks then 1 else 0)) (snd (take_slots ks w t h))
    \<and> (\<forall>m. (k, m) \<in> set ks \<longrightarrow> fst (take_slots ks w t h) \<longrightarrow> n + 1 \<le> m)"
  using assms(1,4)
proof (induction ks arbitrary: h n)
  case (Cons km ks)
  obtain key most where km: "km = (key, most)" by (cases km)
  obtain c h1 where k1: "takeSlot key w t h = (c, h1)" by fastforce
  obtain ok h2 where k2: "take_slots ks w t h1 = (ok, h2)" by fastforce
  show ?case
  proof (cases "key = k")
    case True
    then have c: "c = n + 1" "in_window begun w k (n + 1) h1" using take_same [OF Cons.prems(1) assms(2,3)] k1 by auto
    have "k \<notin> fst ` set ks" using Cons.prems(2) km True by simp
    then show ?thesis using Cons.IH [OF c(2)] Cons.prems(2) km True c(1) k1 k2 by (force simp: image_iff)
  next
    case False
    then have "in_window begun w k n h1" using Cons.prems(1) take_other [OF False, of w t h] k1 in_window_other by (metis snd_conv)
    then show ?thesis using Cons.IH [of n h1] Cons.prems(2) km False k1 k2 by (auto simp: image_iff)
  qed
qed simp

lemma give_slots_count:
  assumes "in_window begun w k n h" "begun \<le> t" "t < begun + w" "distinct (map fst ks)"
  shows "in_window begun w k (n - (if k \<in> fst ` set ks then 1 else 0)) (fold (\<lambda>k h. giveBackSlot t (fst k) h) ks h)"
  using assms(1,4)
proof (induction ks arbitrary: h n)
  case (Cons km ks)
  show ?case
  proof (cases "fst km = k")
    case True
    then have c: "in_window begun w k (n - 1) (giveBackSlot t (fst km) h)" using give_same [OF Cons.prems(1) assms(2,3)] by simp
    have "k \<notin> fst ` set ks" using Cons.prems(2) True by simp
    then show ?thesis using Cons.IH [OF c] Cons.prems(2) True by simp
  next
    case False
    then have "in_window begun w k n (giveBackSlot t (fst km) h)"
      using Cons.prems(1) in_window_other [of "giveBackSlot t (fst km) h" k h] give_other [OF False] by simp
    then show ?thesis using Cons.IH [of n] Cons.prems(2) False by auto
  qed
qed simp

text \<open>One event: what it adds to the counter bounds what it lets through.\<close>

lemma step_bound:
  assumes "in_window begun (li_windowMs L) k n (ls_counters st)" "begun \<le> t" "t < begun + li_windowMs L" "(k, m) \<in> set (limiter_keys L r0)"
    "A \<le> n" "A \<le> m"
  shows "\<exists>n'. in_window begun (li_windowMs L) k n' (ls_counters (limiter_step L (t, ev) st))
    \<and> A + passed L k [(t, ev)] st - given_back L k [(t, ev)] st \<le> n' \<and> A + passed L k [(t, ev)] st - given_back L k [(t, ev)] st \<le> m"
proof (cases ev)
  case (Arrive i r)
  show ?thesis
  proof (cases "i \<in> fst ` set (ls_open st)")
    case True
    then show ?thesis using assms Arrive by (auto simp: limiter_step_def)
  next
    case False
    obtain ok h where a: "limiter_arrive L r t (ls_counters st) = (ok, h)" by fastforce
    define q where "q = (k \<in> fst ` set (limiter_keys L r))"
    have c: "in_window begun (li_windowMs L) k (n + (if q then 1 else 0)) h" "ok \<Longrightarrow> q \<Longrightarrow> n + 1 \<le> m"
      using take_slots_count [OF assms(1-3) keys_distinct, of L r] a key_max [OF assms(4)] by (auto simp: limiter_arrive_def q_def)
    have "ls_counters (limiter_step L (t, ev) st) = h" using False a Arrive by (simp add: limiter_step_def)
    moreover have "passed L k [(t, ev)] st = (if q \<and> ok then 1 else 0)" "given_back L k [(t, ev)] st = 0"
      using False a Arrive by (simp_all add: q_def)
    ultimately show ?thesis using c assms(5,6) by (cases q; cases ok) (auto simp del: passed.simps given_back.simps)
  qed
next
  case (Finish i status)
  show ?thesis
  proof (cases "map_of (ls_open st) i")
    case None
    then show ?thesis using assms Finish by (auto simp: limiter_step_def)
  next
    case (Some r)
    then have "ls_counters (limiter_step L (t, ev) st) = limiter_finish L r status t (ls_counters st)"
      by (simp add: limiter_step_def Finish)
    then show ?thesis
      using give_slots_count [OF assms(1-3) keys_distinct, of L r] assms(1,5,6) Some Finish
      by (cases "status < 400"; cases "k \<in> fst ` set (limiter_keys L r)") (auto simp: limiter_finish_def)
  qed
qed

text \<open>
  C33. The limiter of failures bounds what passes in a window, however requests overlap: from a time at which the
  counter of a key is not running, for one length of the window, the requests let through under the key exceed
  those that succeed and give their slot back by at most the maximum of the key.
\<close>

theorem failures_bounded:
  assumes "(k, m) \<in> set (limiter_keys L r)" "live_counter begun (ls_counters st) k = (0, None)"
    "list_all (\<lambda>e. begun \<le> fst e \<and> fst e < begun + li_windowMs L) es" "0 \<le> m"
  shows "passed L k es st \<le> m + given_back L k es st"
proof -
  have "A + passed L k es st - given_back L k es st \<le> m"
    if "in_window begun (li_windowMs L) k n (ls_counters st)" "A \<le> n" "A \<le> m" for A n
    using that assms(3)
  proof (induction es arbitrary: st A n)
    case (Cons e es)
    obtain n' where n': "in_window begun (li_windowMs L) k n' (ls_counters (limiter_step L e st))"
        "A + passed L k [e] st - given_back L k [e] st \<le> n'" "A + passed L k [e] st - given_back L k [e] st \<le> m"
      using step_bound [OF Cons.prems(1) _ _ assms(1) Cons.prems(2,3), of "fst e" "snd e"] Cons.prems(4) by auto
    show ?case using Cons.IH [OF n'] Cons.prems(4) by simp
  qed simp
  moreover have "in_window begun (li_windowMs L) k 0 (ls_counters st)"
    using assms(2) by (auto simp: in_window_def live_counter_def split: option.splits if_splits prod.splits)
  ultimately show ?thesis using assms(4) by fastforce
qed

definition guess :: "id \<Rightarrow> limiter_event" where
  "guess i = Arrive i \<lparr>lq_scope = ''acct:x'', lq_ip = i\<rparr>"

definition idle :: limiter_state where
  "idle = \<lparr>ls_counters = (\<lambda>_. None), ls_open = []\<rparr>"

definition account_key :: string where
  "account_key = ''rl:pin-login-fail:shop:acct:x''"

definition wrong_guesses :: "nat \<Rightarrow> millis \<Rightarrow> (millis \<times> limiter_event) list" where
  "wrong_guesses n t = map (\<lambda>i. (t, guess (CHR ''g'' # show_nat i))) [0..<n]"

lemma failures_bounded_witness:
  "passed pinFailures account_key (wrong_guesses 12 0) idle \<le> 10 + given_back pinFailures account_key (wrong_guesses 12 0) idle"
  by (rule failures_bounded [where r = "\<lparr>lq_scope = ''acct:x'', lq_ip = ''9.9.9.9''\<rparr>" and begun = 0])
    (simp_all add: limiter_keys_def pinFailures_def account_key_def idle_def live_counter_def wrong_guesses_def guess_def list_all_iff)

text \<open>
  A slot given back after its window has ended is deducted from the next window. The counter is then below 0 and
  never expires, so the next window lets one more failure pass than its maximum: here eleven wrong PINs of one
  account, where ten are meant, follow a sign-in that was running when the window ended.
\<close>

lemma late_give_back_widens_the_window:
  "passed pinFailures account_key ((900000, Finish ''slow'' 200) # wrong_guesses 12 900001)
      (limiter_step pinFailures (899999, Arrive ''slow'' \<lparr>lq_scope = ''acct:x'', lq_ip = ''8.8.8.8''\<rparr>)
        (limiter_step pinFailures (0, guess ''first'') idle)) = 11"
  by code_simp

end
