(* ===== verification/Caches.thy ===== *)
theory Caches
  imports Prelude
begin

text \<open>
  lib/ttlCache.ts, modules/public/cache.ts and realtime/handshakeLimit.ts: the cache of the public lists and the
  limiter of socket handshakes, over maps that keep the order of insertion. A cached load is not one step: the
  loader reads the source at some moment after the miss and resolves at a later one, so the steps of several
  requests and of a change of the source interleave.
\<close>

subsection \<open>A map in insertion order\<close>

text \<open>\<open>Map.set\<close> keeps the place of a key that is present.\<close>

fun map_put :: "'k \<Rightarrow> 'v \<Rightarrow> ('k \<times> 'v) list \<Rightarrow> ('k \<times> 'v) list" where
  "map_put k v [] = [(k, v)]"
| "map_put k v (x # xs) = (if fst x = k then (k, v) # xs else x # map_put k v xs)"

lemma map_put_facts [simp]:
  "fst ` set (map_put k v xs) = insert k (fst ` set xs)"
  "distinct (map fst (map_put k v xs)) = distinct (map fst xs)"
  "map_of (map_put k v xs) = (map_of xs)(k \<mapsto> v)"
  by (induction xs) (auto simp: fun_eq_iff)

lemma length_map_put: "length (map_put k v xs) = (if k \<in> fst ` set xs then length xs else Suc (length xs))"
  by (induction xs) auto

lemma map_put_values: "x \<in> set (map_put k v xs) \<Longrightarrow> x = (k, v) \<or> x \<in> set xs"
  by (induction xs) (auto split: if_splits)

subsection \<open>TtlCache\<close>

record 'v ttl_cache =
  tc_ttlMs :: millis
  tc_maxEntries :: nat
  tc_entries :: "(string \<times> 'v \<times> millis) list"
  tc_inflight :: "string list"

text \<open>What \<open>get\<close> does: load without caching, answer from the cache, wait for the running load, or start one.\<close>

datatype 'v ttl_answer = Bypass | Hit 'v | Join | Load

definition ttl_get :: "string \<Rightarrow> millis \<Rightarrow> 'v ttl_cache \<Rightarrow> 'v ttl_answer \<times> 'v ttl_cache" where
  "ttl_get key now c =
    (if tc_ttlMs c \<le> 0 then (Bypass, c)
     else case map_of (tc_entries c) key of
       Some (v, expiresAt) \<Rightarrow> if now < expiresAt then (Hit v, c)
         else if key \<in> set (tc_inflight c) then (Join, c) else (Load, c\<lparr>tc_inflight := key # tc_inflight c\<rparr>)
     | None \<Rightarrow> if key \<in> set (tc_inflight c) then (Join, c) else (Load, c\<lparr>tc_inflight := key # tc_inflight c\<rparr>))"

text \<open>The load resolves with v, or it fails.\<close>

definition ttl_loaded :: "string \<Rightarrow> 'v \<Rightarrow> millis \<Rightarrow> 'v ttl_cache \<Rightarrow> 'v ttl_cache" where
  "ttl_loaded key v now c =
    (let es = (if tc_maxEntries c \<le> length (tc_entries c) then tl (tc_entries c) else tc_entries c)
     in c\<lparr>tc_entries := map_put key (v, now + tc_ttlMs c) es, tc_inflight := remove1 key (tc_inflight c)\<rparr>)"

definition ttl_failed :: "string \<Rightarrow> 'v ttl_cache \<Rightarrow> 'v ttl_cache" where
  "ttl_failed key c = c\<lparr>tc_inflight := remove1 key (tc_inflight c)\<rparr>"

definition ttl_clear :: "'v ttl_cache \<Rightarrow> 'v ttl_cache" where
  "ttl_clear c = c\<lparr>tc_entries := []\<rparr>"

subsection \<open>The public lists: a source that administrators change, and its cache\<close>

text \<open>\<open>pl_read\<close> holds what the running loaders have read of the source so far.\<close>

record 'v public_list =
  pl_source :: 'v
  pl_cache :: "'v ttl_cache"
  pl_read :: "(string \<times> 'v) list"

datatype 'v list_event =
    Get_list string
  | Loader_reads string
  | Loader_resolves string
  | Loader_fails string
  | Admin_changes 'v

definition list_step :: "millis \<times> 'v list_event \<Rightarrow> 'v public_list \<Rightarrow> 'v public_list" where
  "list_step ev st = (case ev of
      (now, Get_list key) \<Rightarrow> st\<lparr>pl_cache := snd (ttl_get key now (pl_cache st))\<rparr>
    | (now, Loader_reads key) \<Rightarrow> if key \<in> set (tc_inflight (pl_cache st)) \<and> map_of (pl_read st) key = None
        then st\<lparr>pl_read := (key, pl_source st) # pl_read st\<rparr> else st
    | (now, Loader_resolves key) \<Rightarrow> (case map_of (pl_read st) key of
        None \<Rightarrow> st
      | Some v \<Rightarrow> st\<lparr>pl_cache := ttl_loaded key v now (pl_cache st), pl_read := filter (\<lambda>x. fst x \<noteq> key) (pl_read st)\<rparr>)
    | (now, Loader_fails key) \<Rightarrow> st\<lparr>pl_cache := ttl_failed key (pl_cache st), pl_read := filter (\<lambda>x. fst x \<noteq> key) (pl_read st)\<rparr>
    | (now, Admin_changes v) \<Rightarrow> st\<lparr>pl_source := v, pl_cache := ttl_clear (pl_cache st)\<rparr>)"

definition list_run :: "(millis \<times> 'v list_event) list \<Rightarrow> 'v public_list \<Rightarrow> 'v public_list" where
  "list_run evs st = fold list_step evs st"

subsection \<open>HandshakeLimiter\<close>

record handshake_limiter =
  hl_limit :: int
  hl_windowMs :: millis
  hl_maxKeys :: nat
  hl_hits :: "(string \<times> int \<times> millis) list"

text \<open>\<open>sweep\<close>: expired keys go first, then the oldest insertions until one place is free.\<close>

definition handshake_sweep :: "millis \<Rightarrow> handshake_limiter \<Rightarrow> handshake_limiter" where
  "handshake_sweep now L =
    (let live = filter (\<lambda>(k, n, resetAt). now < resetAt) (hl_hits L)
     in L\<lparr>hl_hits := (if hl_maxKeys L \<le> length live then drop (length live - hl_maxKeys L + 1) live else live)\<rparr>)"

definition handshake_allow :: "string \<Rightarrow> millis \<Rightarrow> handshake_limiter \<Rightarrow> bool \<times> handshake_limiter" where
  "handshake_allow key now L =
    (let fresh = (let L1 = (if hl_maxKeys L \<le> length (hl_hits L) then handshake_sweep now L else L)
         in (True, L1\<lparr>hl_hits := map_put key (1, now + hl_windowMs L) (hl_hits L1)\<rparr>))
     in case map_of (hl_hits L) key of
       None \<Rightarrow> fresh
     | Some (n, resetAt) \<Rightarrow> if resetAt \<le> now then fresh
         else (n + 1 \<le> hl_limit L, L\<lparr>hl_hits := map_put key (n + 1, resetAt) (hl_hits L)\<rparr>))"

text \<open>The answers to a sequence of handshakes.\<close>

fun handshakes :: "(millis \<times> string) list \<Rightarrow> handshake_limiter \<Rightarrow> bool list \<times> handshake_limiter" where
  "handshakes [] L = ([], L)"
| "handshakes ((now, key) # hs) L =
    (let (ok, L1) = handshake_allow key now L; (oks, L2) = handshakes hs L1 in (ok # oks, L2))"

subsection \<open>Both maps stay within their bounds\<close>

definition cache_bounded :: "'v ttl_cache \<Rightarrow> bool" where
  "cache_bounded c = (distinct (map fst (tc_entries c)) \<and> length (tc_entries c) \<le> tc_maxEntries c \<and> distinct (tc_inflight c))"

lemma map_of_tl: "distinct (map fst xs) \<Longrightarrow> distinct (map fst (tl xs))"
  by (cases xs) auto

lemma cache_bounded_ops:
  assumes "cache_bounded c" "0 < tc_maxEntries c"
  shows "cache_bounded (snd (ttl_get k now c))" "cache_bounded (ttl_loaded k v now c)" "cache_bounded (ttl_failed k c)"
    "cache_bounded (ttl_clear c)"
proof -
  show "cache_bounded (snd (ttl_get k now c))" using assms by (auto simp: ttl_get_def cache_bounded_def split: option.splits)
  define es where "es = (if tc_maxEntries c \<le> length (tc_entries c) then tl (tc_entries c) else tc_entries c)"
  have es: "distinct (map fst es)" "length es < tc_maxEntries c"
    using assms map_of_tl [of "tc_entries c"] by (auto simp: cache_bounded_def es_def)
  have "ttl_loaded k v now c = c\<lparr>tc_entries := map_put k (v, now + tc_ttlMs c) es, tc_inflight := remove1 k (tc_inflight c)\<rparr>"
    by (simp add: ttl_loaded_def es_def)
  then show "cache_bounded (ttl_loaded k v now c)"
    using es assms(1) by (simp add: cache_bounded_def length_map_put)
  show "cache_bounded (ttl_failed k c)" "cache_bounded (ttl_clear c)"
    using assms by (auto simp: ttl_failed_def ttl_clear_def cache_bounded_def)
qed

definition handshake_bounded :: "handshake_limiter \<Rightarrow> bool" where
  "handshake_bounded L = (distinct (map fst (hl_hits L)) \<and> length (hl_hits L) \<le> hl_maxKeys L)"

lemma distinct_fst_filter: "distinct (map fst xs) \<Longrightarrow> distinct (map fst (filter P xs))"
  by (simp add: distinct_map_filter)

lemma sweep_room:
  assumes "handshake_bounded L" "0 < hl_maxKeys L"
  shows "distinct (map fst (hl_hits (handshake_sweep now L)))" "length (hl_hits (handshake_sweep now L)) < hl_maxKeys L"
    "hl_maxKeys (handshake_sweep now L) = hl_maxKeys L"
  using assms distinct_fst_filter [of "hl_hits L"]
  by (auto simp: handshake_sweep_def handshake_bounded_def Let_def drop_map [symmetric])

lemma allow_bounded:
  assumes "handshake_bounded L" "0 < hl_maxKeys L"
  shows "handshake_bounded (snd (handshake_allow k now L)) \<and> hl_maxKeys (snd (handshake_allow k now L)) = hl_maxKeys L"
proof -
  define L1 where "L1 = (if hl_maxKeys L \<le> length (hl_hits L) then handshake_sweep now L else L)"
  have "distinct (map fst (hl_hits L1))" "length (hl_hits L1) < hl_maxKeys L" "hl_maxKeys L1 = hl_maxKeys L"
    using sweep_room [OF assms] assms(1) by (auto simp: L1_def handshake_bounded_def)
  moreover have "handshake_bounded (L\<lparr>hl_hits := map_put k v (hl_hits L)\<rparr>)" if "map_of (hl_hits L) k \<noteq> None" for v
    using that assms(1) by (auto simp: handshake_bounded_def length_map_put map_of_eq_None_iff)
  ultimately show ?thesis
    by (cases "map_of (hl_hits L) k")
      (auto simp: handshake_allow_def L1_def [symmetric] handshake_bounded_def length_map_put Let_def split: prod.splits)
qed

text \<open>Both maps stay within their bounds through any use.\<close>

lemma handshakes_bounded:
  "handshake_bounded L \<Longrightarrow> 0 < hl_maxKeys L \<Longrightarrow> handshake_bounded (snd (handshakes hs L))"
proof (induction hs arbitrary: L)
  case (Cons h hs)
  obtain now key where h: "h = (now, key)" by (cases h)
  show ?case using Cons.IH [of "snd (handshake_allow key now L)"] allow_bounded [OF Cons.prems, of key now] Cons.prems(2)
    by (simp add: h case_prod_beta)
qed simp

lemma list_run_bounded:
  assumes "cache_bounded (pl_cache st)" "0 < tc_maxEntries (pl_cache st)"
  shows "cache_bounded (pl_cache (list_run evs st))"
proof -
  have "cache_bounded (pl_cache (list_step ev s)) \<and> tc_maxEntries (pl_cache (list_step ev s)) = tc_maxEntries (pl_cache s)"
    if "cache_bounded (pl_cache s)" "0 < tc_maxEntries (pl_cache s)" for ev and s :: "'a public_list"
  proof -
    obtain now e where ev: "ev = (now, e)" by (cases ev)
    have same: "tc_maxEntries (snd (ttl_get k now (pl_cache s))) = tc_maxEntries (pl_cache s)"
      "tc_maxEntries (ttl_loaded k v now (pl_cache s)) = tc_maxEntries (pl_cache s)"
      "tc_maxEntries (ttl_failed k (pl_cache s)) = tc_maxEntries (pl_cache s)" "tc_maxEntries (ttl_clear (pl_cache s)) = tc_maxEntries (pl_cache s)" for k v
      by (auto simp: ttl_get_def ttl_loaded_def ttl_failed_def ttl_clear_def Let_def split: option.splits)
    show ?thesis
      by (cases e) (simp_all add: ev list_step_def same cache_bounded_ops [OF that] that split: option.splits)
  qed
  then show ?thesis
    unfolding list_run_def using assms by (induction evs arbitrary: st) simp_all
qed

subsection \<open>Freshness after a change\<close>

definition changes_source :: "'v list_event \<Rightarrow> bool" where
  "changes_source e = (case e of Admin_changes v \<Rightarrow> True | _ \<Rightarrow> False)"

definition all_current :: "'v public_list \<Rightarrow> bool" where
  "all_current st = (list_all (\<lambda>x. fst (snd x) = pl_source st) (tc_entries (pl_cache st)) \<and> list_all (\<lambda>x. snd x = pl_source st) (pl_read st))"

lemma all_current_step:
  assumes "all_current st" "\<not> changes_source (snd ev)"
  shows "all_current (list_step ev st) \<and> pl_source (list_step ev st) = pl_source st"
proof -
  obtain now e where ev: "ev = (now, e)" by (cases ev)
  have get: "tc_entries (snd (ttl_get k now c)) = tc_entries c" for k and c :: "'a ttl_cache"
    by (auto simp: ttl_get_def split: option.splits)
  have loaded: "list_all (\<lambda>x. fst (snd x) = s) (tc_entries (ttl_loaded k s now c))"
    if "list_all (\<lambda>x. fst (snd x) = s) (tc_entries c)" for k s and c :: "'a ttl_cache"
  proof -
    have "list_all (\<lambda>x. fst (snd x) = s) (tl (tc_entries c))" using that by (cases "tc_entries c") auto
    then show ?thesis using that by (auto simp: ttl_loaded_def Let_def list_all_iff dest!: map_put_values)
  qed
  have filtered: "list_all P xs \<Longrightarrow> list_all P (filter Q xs)" for P Q and xs :: "(string \<times> 'a) list"
    by (auto simp: list_all_iff)
  note a = assms(1) [unfolded all_current_def, THEN conjunct1] assms(1) [unfolded all_current_def, THEN conjunct2]
  show ?thesis
  proof (cases e)
    case (Loader_resolves k)
    show ?thesis
    proof (cases "map_of (pl_read st) k")
      case (Some x)
      then have "x = pl_source st" using a(2) by (auto simp: list_all_iff dest!: map_of_SomeD)
      then show ?thesis using Some Loader_resolves a loaded [OF a(1)] filtered [OF a(2)] by (simp add: ev list_step_def all_current_def)
    qed (use Loader_resolves assms in \<open>simp add: ev list_step_def\<close>)
  next
    case (Loader_reads k)
    then show ?thesis using a by (simp add: ev list_step_def all_current_def)
  next
    case (Loader_fails k)
    then show ?thesis using a filtered [OF a(2)] by (simp add: ev list_step_def all_current_def ttl_failed_def)
  next
    case (Get_list k)
    then show ?thesis using a by (simp add: ev list_step_def all_current_def get)
  next
    case (Admin_changes v)
    then show ?thesis using assms(2) by (simp add: ev changes_source_def)
  qed
qed

text \<open>
  A change of the source is visible at once, unless a load had already read the source: after an administrator's
  change and the clearing of the cache, every answer from the cache is the new content, through any later requests,
  loads and failures, if no running load had read the old content before.
\<close>

theorem fresh_after_change:
  assumes "pl_read st = []" "list_all (\<lambda>ev. \<not> changes_source (snd ev)) evs"
    "fst (ttl_get key now (pl_cache (list_run evs (list_step (t, Admin_changes v) st)))) = Hit w"
  shows "w = v"
proof -
  define st1 where "st1 = list_step (t, Admin_changes v) st"
  have "all_current st1 \<and> pl_source st1 = v" using assms(1) by (simp add: st1_def list_step_def all_current_def ttl_clear_def)
  then have "all_current (list_run evs st1) \<and> pl_source (list_run evs st1) = v"
    using assms(2) unfolding list_run_def by (induction evs arbitrary: st1) (auto simp: all_current_step)
  moreover have "\<exists>e. (key, w, e) \<in> set (tc_entries (pl_cache (list_run evs st1)))"
    using assms(3) by (auto simp: st1_def ttl_get_def split: option.splits if_splits dest!: map_of_SomeD)
  ultimately show ?thesis by (auto simp: all_current_def list_all_iff)
qed

definition empty_list :: "nat public_list" where
  "empty_list = \<lparr>pl_source = 1, pl_cache = \<lparr>tc_ttlMs = 15000, tc_maxEntries = 200, tc_entries = [], tc_inflight = []\<rparr>, pl_read = []\<rparr>"

lemma fresh_after_change_witness:
  "fst (ttl_get ''all'' 20 (pl_cache (list_run [(3, Get_list ''all''), (4, Loader_reads ''all''), (5, Loader_resolves ''all'')]
    (list_step (2, Admin_changes 7) (list_step (1, Get_list ''all'') empty_list))))) = Hit 7"
proof -
  let ?evs = "[(3, Get_list ''all''), (4, Loader_reads ''all''), (5, Loader_resolves ''all'')]"
  let ?st = "list_step (1, Get_list ''all'') empty_list"
  have "case fst (ttl_get ''all'' 20 (pl_cache (list_run ?evs (list_step (2, Admin_changes 7) ?st)))) of Hit w \<Rightarrow> True | _ \<Rightarrow> False"
    by code_simp
  moreover have "pl_read ?st = []" "list_all (\<lambda>ev. \<not> changes_source (snd ev)) ?evs" by (simp_all add: list_step_def empty_list_def changes_source_def)
  ultimately show ?thesis
    using fresh_after_change [of ?st ?evs "''all''" 20 2 7]
    by (cases "fst (ttl_get ''all'' 20 (pl_cache (list_run ?evs (list_step (2, Admin_changes 7) ?st))))") auto
qed

text \<open>
  \<open>clear\<close> does not reach a running load: a request that read the old list before the change stores it after the
  clearing, and it is served until it expires; a request that arrives after the change joins that load, too.
\<close>

lemma old_list_survives_clear:
  "fst (ttl_get ''all'' 15003 (pl_cache (list_run [(1, Get_list ''all''), (2, Loader_reads ''all''), (3, Admin_changes 7),
      (4, Loader_resolves ''all'')] empty_list))) = Hit 1"
  "fst (ttl_get ''all'' 4 (pl_cache (list_run [(1, Get_list ''all''), (2, Loader_reads ''all''), (3, Admin_changes 7)] empty_list))) = Join"
  by code_simp+

end
