(* ===== verification/Outbox.thy ===== *)
theory Outbox
  imports Claim_Once Caches Orders
begin

text \<open>
  providers/fcm/outbox.ts: notifications that wait to be sent, with a lease per delivery. Workers run
  concurrently, so a pass is split at its database statements and at the send; the transport and the digest of a
  message are outside the model.
\<close>

subsection \<open>Deliveries\<close>

record push_message =
  pm_title :: string
  pm_body :: string
  pm_url :: "string option"
  pm_eventKey :: "string option"

record delivery_row =
  dl_id :: id
  dl_studentId :: id
  dl_eventKey :: string
  dl_title :: string
  dl_body :: string
  dl_url :: "string option"
  dl_attempts :: int
  dl_leaseExpiresAt :: "millis option"
  dl_deliveredAt :: "millis option"
  dl_lastError :: "string option"
  dl_createdAt :: millis

definition DELIVERY_LEASE_MS :: millis where "DELIVERY_LEASE_MS = 60000"

text \<open>\<open>digest\<close> is the SHA-256 of the JSON of the three texts.\<close>

definition stableEventKey :: "(string list \<Rightarrow> string) \<Rightarrow> push_message \<Rightarrow> string" where
  "stableEventKey digest m = (if truthy (pm_eventKey m) then the (pm_eventKey m)
    else ''legacy:'' @ digest [pm_title m, pm_body m, case pm_url m of None \<Rightarrow> [] | Some u \<Rightarrow> u])"

definition enqueueFirebaseNotification :: "bool \<Rightarrow> (string list \<Rightarrow> string) \<Rightarrow> id \<Rightarrow> id \<Rightarrow> push_message \<Rightarrow> millis
    \<Rightarrow> delivery_row list \<Rightarrow> delivery_row list" where
  "enqueueFirebaseNotification enabled digest newId studentId m now rows =
    (if \<not> enabled then rows
     else if list_ex (\<lambda>r. dl_studentId r = studentId \<and> dl_eventKey r = stableEventKey digest m) rows then rows
     else rows @ [\<lparr>dl_id = newId, dl_studentId = studentId, dl_eventKey = stableEventKey digest m, dl_title = pm_title m,
       dl_body = pm_body m, dl_url = pm_url m, dl_attempts = 0, dl_leaseExpiresAt = None, dl_deliveredAt = None,
       dl_lastError = None, dl_createdAt = now\<rparr>])"

text \<open>The condition of the query and of the claim; \<open>now\<close> is the time at which the pass started.\<close>

definition deliverable :: "millis \<Rightarrow> delivery_row \<Rightarrow> bool" where
  "deliverable now r = (dl_deliveredAt r = None \<and> (case dl_leaseExpiresAt r of None \<Rightarrow> True | Some t \<Rightarrow> t \<le> now))"

definition pending_ids :: "nat \<Rightarrow> millis \<Rightarrow> delivery_row list \<Rightarrow> id list" where
  "pending_ids most now rows = map dl_id (take most (sort_key dl_createdAt (filter (deliverable now) rows)))"

definition claim_delivery :: "id \<Rightarrow> millis \<Rightarrow> delivery_row list \<Rightarrow> delivery_row list option" where
  "claim_delivery i now rows =
    (let p = \<lambda>r. dl_id r = i \<and> deliverable now r in
     if count_where p rows = 0 then None
     else Some (update_where p (\<lambda>r. r\<lparr>dl_attempts := dl_attempts r + 1, dl_leaseExpiresAt := Some (now + DELIVERY_LEASE_MS),
       dl_lastError := None\<rparr>) rows))"

definition record_sent :: "id \<Rightarrow> millis \<Rightarrow> delivery_row list \<Rightarrow> delivery_row list" where
  "record_sent i now rows = update_where (\<lambda>r. dl_id r = i)
    (\<lambda>r. r\<lparr>dl_deliveredAt := Some now, dl_leaseExpiresAt := None, dl_lastError := None\<rparr>) rows"

definition record_failure :: "id \<Rightarrow> string \<Rightarrow> delivery_row list \<Rightarrow> delivery_row list" where
  "record_failure i message rows = update_where (\<lambda>r. dl_id r = i)
    (\<lambda>r. r\<lparr>dl_leaseExpiresAt := None, dl_lastError := Some (take 300 message)\<rparr>) rows"

subsection \<open>Passes of several workers\<close>

record pass =
  ps_start :: millis
  ps_pending :: "id list"
  ps_sending :: "id option"
  ps_delivered :: nat

record outbox =
  ob_rows :: "delivery_row list"
  ob_passes :: "(id \<times> pass) list"

datatype outbox_event =
    Enqueue id id push_message
  | Begin_pass id nat
  | Claim_next id
  | Send_ok id
  | Send_failed id string

text \<open>
  Each event names its worker (for Enqueue: the new row and the student) and happens at a time. Send_failed: the
  send failed, or the write that records it.
\<close>

definition outbox_step :: "(string list \<Rightarrow> string) \<Rightarrow> millis \<times> outbox_event \<Rightarrow> outbox \<Rightarrow> outbox" where
  "outbox_step digest ev st = (case ev of
      (now, Enqueue newId studentId m) \<Rightarrow> if newId \<in> dl_id ` set (ob_rows st) then st
        else st\<lparr>ob_rows := enqueueFirebaseNotification True digest newId studentId m now (ob_rows st)\<rparr>
    | (now, Begin_pass w most) \<Rightarrow> st\<lparr>ob_passes := map_put w \<lparr>ps_start = now, ps_pending = pending_ids most now (ob_rows st),
        ps_sending = None, ps_delivered = 0\<rparr> (ob_passes st)\<rparr>
    | (now, Claim_next w) \<Rightarrow> (case map_of (ob_passes st) w of
        None \<Rightarrow> st
      | Some p \<Rightarrow> if ps_sending p \<noteq> None then st else (case ps_pending p of
          [] \<Rightarrow> st
        | i # is \<Rightarrow> (case claim_delivery i (ps_start p) (ob_rows st) of
            None \<Rightarrow> st\<lparr>ob_passes := map_put w (p\<lparr>ps_pending := is\<rparr>) (ob_passes st)\<rparr>
          | Some rows \<Rightarrow> st\<lparr>ob_rows := rows, ob_passes := map_put w (p\<lparr>ps_pending := is, ps_sending := Some i\<rparr>) (ob_passes st)\<rparr>)))
    | (now, Send_ok w) \<Rightarrow> (case map_of (ob_passes st) w of
        None \<Rightarrow> st
      | Some p \<Rightarrow> (case ps_sending p of
          None \<Rightarrow> st
        | Some i \<Rightarrow> st\<lparr>ob_rows := record_sent i now (ob_rows st),
            ob_passes := map_put w (p\<lparr>ps_sending := None, ps_delivered := Suc (ps_delivered p)\<rparr>) (ob_passes st)\<rparr>))
    | (now, Send_failed w message) \<Rightarrow> (case map_of (ob_passes st) w of
        None \<Rightarrow> st
      | Some p \<Rightarrow> (case ps_sending p of
          None \<Rightarrow> st
        | Some i \<Rightarrow> st\<lparr>ob_rows := record_failure i message (ob_rows st),
            ob_passes := map_put w (p\<lparr>ps_sending := None\<rparr>) (ob_passes st)\<rparr>)))"

definition outbox_run :: "(string list \<Rightarrow> string) \<Rightarrow> (millis \<times> outbox_event) list \<Rightarrow> outbox \<Rightarrow> outbox" where
  "outbox_run digest evs st = fold (outbox_step digest) evs st"

subsection \<open>The lease\<close>

definition delivery_ids :: "delivery_row list \<Rightarrow> bool" where
  "delivery_ids rows = distinct (map dl_id rows)"

text \<open>Not delivered and not leased beyond one lease after p.\<close>

definition unleased :: "id \<Rightarrow> millis \<Rightarrow> delivery_row list \<Rightarrow> bool" where
  "unleased i p rows = (\<exists>r \<in> set rows. dl_id r = i \<and> dl_deliveredAt r = None
    \<and> (case dl_leaseExpiresAt r of None \<Rightarrow> True | Some t \<Rightarrow> t < p + DELIVERY_LEASE_MS))"

interpretation delivery_lease: claim_once "claim_delivery i" "unleased i p" "\<lambda>now. p \<le> now \<and> now < p + DELIVERY_LEASE_MS" delivery_ids for i p
proof
  fix now :: millis and rows rows'
  assume a: "p \<le> now \<and> now < p + DELIVERY_LEASE_MS" "delivery_ids rows" "claim_delivery i now rows = Some rows'"
  obtain r where r: "r \<in> set rows" "dl_id r = i" "deliverable now r"
    using a(3) by (auto simp: claim_delivery_def Let_def count_where_0_iff split: if_splits)
  have rows': "rows' = update_where (\<lambda>r. dl_id r = i \<and> deliverable now r) (\<lambda>r. r\<lparr>dl_attempts := dl_attempts r + 1,
      dl_leaseExpiresAt := Some (now + DELIVERY_LEASE_MS), dl_lastError := None\<rparr>) rows"
    using a(3) by (auto simp: claim_delivery_def Let_def split: if_splits)
  show "unleased i p rows" using r a(1) by (auto simp: unleased_def deliverable_def split: option.splits)
  have only: "s = r" if "s \<in> set rows" "dl_id s = i" for s
    using distinct_key_eq [of dl_id rows s r] that r a(2) by (simp add: delivery_ids_def)
  show "\<not> unleased i p rows'"
  proof
    assume "unleased i p rows'"
    then obtain s' where s': "s' \<in> set rows'" "dl_id s' = i" "case dl_leaseExpiresAt s' of None \<Rightarrow> True | Some t \<Rightarrow> t < p + DELIVERY_LEASE_MS"
      unfolding unleased_def by blast
    obtain s where s: "s \<in> set rows" "s' = (if dl_id s = i \<and> deliverable now s then s\<lparr>dl_attempts := dl_attempts s + 1,
        dl_leaseExpiresAt := Some (now + DELIVERY_LEASE_MS), dl_lastError := None\<rparr> else s)"
      using s'(1) unfolding rows' set_update_where by blast
    have "dl_id s = i" using s(2) s'(2) by (auto split: if_splits)
    then have "s = r" using only s(1) by blast
    then have "dl_leaseExpiresAt s' = Some (now + DELIVERY_LEASE_MS)" using s(2) r(2,3) by simp
    then show False using s'(3) a(1) by simp
  qed
  show "delivery_ids rows'" using a(2) by (simp add: delivery_ids_def rows' map_update_where)
qed

text \<open>
  One sender: of any number of passes that started within one lease of each other and try to take the same
  notification, in any order, at most one takes it and sends it.
\<close>

theorem one_sender_per_lease:
  assumes "distinct (map dl_id rows)" "list_all (\<lambda>start. p \<le> start \<and> start < p + DELIVERY_LEASE_MS) starts"
  shows "length (fst (race (claim_delivery i) starts rows)) \<le> 1"
  using assms by (intro delivery_lease.at_most_one_winner) (auto simp: delivery_ids_def)

definition sample_message :: push_message where
  "sample_message = \<lparr>pm_title = ''Printed'', pm_body = ''Collect it'', pm_url = None, pm_eventKey = Some ''job-7:completed''\<rparr>"

definition queued_row :: delivery_row where
  "queued_row = \<lparr>dl_id = ''d1'', dl_studentId = ''s'', dl_eventKey = ''job-7:completed'', dl_title = ''Printed'',
    dl_body = ''Collect it'', dl_url = None, dl_attempts = 0, dl_leaseExpiresAt = None, dl_deliveredAt = None,
    dl_lastError = None, dl_createdAt = 5\<rparr>"

lemma one_sender_per_lease_witness:
  "length (fst (race (claim_delivery ''d1'') [100, 90, 60089] [queued_row])) = 1"
proof -
  have "length (fst (race (claim_delivery ''d1'') [100, 90, 60089] [queued_row])) \<le> 1"
    by (rule one_sender_per_lease [where p = 90]) (simp_all add: queued_row_def DELIVERY_LEASE_MS_def)
  moreover have "fst (race (claim_delivery ''d1'') [100, 90, 60089] [queued_row]) \<noteq> []" by code_simp
  ultimately show ?thesis by (cases "fst (race (claim_delivery ''d1'') [100, 90, 60089] [queued_row])") auto
qed

subsection \<open>Delivered notifications\<close>

text \<open>The row of a delivered notification, as far as no later event may change it.\<close>

definition still_delivered :: "delivery_row \<Rightarrow> delivery_row list \<Rightarrow> bool" where
  "still_delivered r rows = (\<exists>r' \<in> set rows. dl_id r' = dl_id r \<and> dl_studentId r' = dl_studentId r
    \<and> dl_eventKey r' = dl_eventKey r \<and> dl_attempts r' = dl_attempts r \<and> dl_deliveredAt r' \<noteq> None)"

lemma still_delivered_update:
  assumes "still_delivered r rows" "\<And>s. s \<in> set rows \<Longrightarrow> P s \<Longrightarrow> dl_id s = dl_id r \<Longrightarrow> dl_deliveredAt s \<noteq> None \<Longrightarrow>
    dl_id (f s) = dl_id s \<and> dl_studentId (f s) = dl_studentId s \<and> dl_eventKey (f s) = dl_eventKey s
    \<and> dl_attempts (f s) = dl_attempts s \<and> dl_deliveredAt (f s) \<noteq> None"
  shows "still_delivered r (update_where P f rows)"
proof -
  obtain s where s: "s \<in> set rows" "dl_id s = dl_id r" "dl_studentId s = dl_studentId r" "dl_eventKey s = dl_eventKey r"
    "dl_attempts s = dl_attempts r" "dl_deliveredAt s \<noteq> None"
    using assms(1) unfolding still_delivered_def by blast
  have "(if P s then f s else s) \<in> set (update_where P f rows)" using s(1) by (simp add: set_update_where)
  moreover have "dl_id (if P s then f s else s) = dl_id r \<and> dl_studentId (if P s then f s else s) = dl_studentId r
    \<and> dl_eventKey (if P s then f s else s) = dl_eventKey r \<and> dl_attempts (if P s then f s else s) = dl_attempts r
    \<and> dl_deliveredAt (if P s then f s else s) \<noteq> None"
    using assms(2) [OF s(1)] s by simp
  ultimately show ?thesis unfolding still_delivered_def by blast
qed

lemma delivered_not_claimed:
  assumes "delivery_ids rows" "still_delivered r rows"
  shows "claim_delivery (dl_id r) now rows = None"
proof -
  obtain s where s: "s \<in> set rows" "dl_id s = dl_id r" "dl_deliveredAt s \<noteq> None"
    using assms(2) unfolding still_delivered_def by blast
  have "\<not> (dl_id x = dl_id r \<and> deliverable now x)" if "x \<in> set rows" for x
    using distinct_key_eq [of dl_id rows x s] that s assms(1) by (auto simp: delivery_ids_def deliverable_def)
  then show ?thesis by (simp add: claim_delivery_def count_where_0_iff)
qed

lemma delivered_after_claim:
  assumes "still_delivered r rows" "claim_delivery i now rows = Some rows'"
  shows "still_delivered r rows'" "delivery_ids rows \<Longrightarrow> delivery_ids rows'"
proof -
  have rows': "rows' = update_where (\<lambda>r. dl_id r = i \<and> deliverable now r) (\<lambda>r. r\<lparr>dl_attempts := dl_attempts r + 1,
      dl_leaseExpiresAt := Some (now + DELIVERY_LEASE_MS), dl_lastError := None\<rparr>) rows"
    using assms(2) by (auto simp: claim_delivery_def Let_def split: if_splits)
  show "still_delivered r rows'" unfolding rows'
    by (rule still_delivered_update [OF assms(1)]) (simp add: deliverable_def)
  show "delivery_ids rows \<Longrightarrow> delivery_ids rows'" by (simp add: delivery_ids_def rows' map_update_where)
qed

lemma delivered_after_record:
  assumes "still_delivered r rows"
  shows "still_delivered r (record_sent i now rows)" "still_delivered r (record_failure i e rows)"
  unfolding record_sent_def record_failure_def by (rule still_delivered_update [OF assms], simp)+

lemma record_keeps_ids [simp]:
  "delivery_ids (record_sent i now rows) = delivery_ids rows" "delivery_ids (record_failure i e rows) = delivery_ids rows"
  by (simp_all add: delivery_ids_def record_sent_def record_failure_def map_update_where)

lemma delivered_after_enqueue:
  "still_delivered r rows \<Longrightarrow> still_delivered r (enqueueFirebaseNotification en dig k sid m now rows)"
  "delivery_ids rows \<Longrightarrow> k \<notin> dl_id ` set rows \<Longrightarrow> delivery_ids (enqueueFirebaseNotification en dig k sid m now rows)"
  by (auto simp: still_delivered_def delivery_ids_def enqueueFirebaseNotification_def)

lemma delivered_step:
  assumes "delivery_ids (ob_rows st)" "still_delivered r (ob_rows st)"
  shows "delivery_ids (ob_rows (outbox_step dig ev st)) \<and> still_delivered r (ob_rows (outbox_step dig ev st))"
proof -
  obtain now e where ev: "ev = (now, e)" by (cases ev)
  show ?thesis
  proof (cases e)
    case (Claim_next w)
    then show ?thesis
      using assms delivered_after_claim [OF assms(2)] by (auto simp: ev outbox_step_def split: option.split list.split)
  qed (use assms in \<open>auto simp: ev outbox_step_def delivered_after_record delivered_after_enqueue split: option.split\<close>)
qed

lemma delivered_run:
  "delivery_ids (ob_rows st) \<Longrightarrow> still_delivered r (ob_rows st) \<Longrightarrow>
    delivery_ids (ob_rows (outbox_run dig evs st)) \<and> still_delivered r (ob_rows (outbox_run dig evs st))"
  unfolding outbox_run_def by (induction evs arbitrary: st) (simp_all add: delivered_step)

text \<open>
  C34. A delivered notification stays delivered: after any later requests, passes, sends and failures, also of a
  worker that took it before it was delivered, no pass takes it again, its number of attempts is the same, and a
  request to notify the same student of the same event adds nothing.
\<close>

theorem delivered_never_sent_again:
  assumes "distinct (map dl_id (ob_rows st))" "r \<in> set (ob_rows st)" "dl_deliveredAt r \<noteq> None"
    "pm_eventKey m = Some (dl_eventKey r)" "dl_eventKey r \<noteq> []"
  shows "claim_delivery (dl_id r) now (ob_rows (outbox_run digest evs st)) = None
    \<and> list_ex (\<lambda>r'. dl_id r' = dl_id r \<and> dl_attempts r' = dl_attempts r \<and> dl_deliveredAt r' \<noteq> None) (ob_rows (outbox_run digest evs st))
    \<and> enqueueFirebaseNotification enabled digest k (dl_studentId r) m now (ob_rows (outbox_run digest evs st))
      = ob_rows (outbox_run digest evs st)"
proof -
  have "delivery_ids (ob_rows st)" "still_delivered r (ob_rows st)"
    using assms(1-3) by (auto simp: delivery_ids_def still_delivered_def)
  then have after: "delivery_ids (ob_rows (outbox_run digest evs st))" "still_delivered r (ob_rows (outbox_run digest evs st))"
    using delivered_run [of st r digest evs] by simp_all
  moreover have "stableEventKey digest m = dl_eventKey r" using assms(4,5) by (simp add: stableEventKey_def truthy_def)
  ultimately show ?thesis
    using delivered_not_claimed [OF after]
    by (auto simp: still_delivered_def enqueueFirebaseNotification_def list_ex_iff)
qed

definition two_rows :: outbox where
  "two_rows = \<lparr>ob_rows = [queued_row, queued_row\<lparr>dl_id := ''d2'', dl_eventKey := ''job-8:completed'', dl_createdAt := 6\<rparr>], ob_passes = []\<rparr>"

definition sent_outbox :: outbox where
  "sent_outbox = outbox_run (\<lambda>_. []) [(10, Begin_pass ''a'' 100), (11, Claim_next ''a''), (60011, Begin_pass ''b'' 100),
    (60012, Claim_next ''b''), (60013, Send_ok ''b'')] two_rows"

lemma delivered_never_sent_again_witness:
  "claim_delivery ''d1'' 200000 (ob_rows (outbox_run (\<lambda>_. []) [(60014, Send_failed ''a'' ''timeout'')] sent_outbox)) = None"
proof -
  let ?r = "queued_row\<lparr>dl_attempts := 2, dl_deliveredAt := Some 60013\<rparr>"
  have rows: "ob_rows sent_outbox = [?r, queued_row\<lparr>dl_id := ''d2'', dl_eventKey := ''job-8:completed'', dl_createdAt := 6\<rparr>]"
    by code_simp
  show ?thesis
    using delivered_never_sent_again [of sent_outbox ?r sample_message 200000 "\<lambda>_. []" "[(60014, Send_failed ''a'' ''timeout'')]"]
    by (simp add: rows sample_message_def queued_row_def)
qed

text \<open>
  The lease of a notification counts from the start of its pass, not from the moment it is taken: when the first
  send of a pass takes longer than a lease, the later ones are taken with a lease that has already run out, and a
  second pass sends them at the same time.
\<close>

lemma two_senders_after_slow_send:
  "map (ps_sending \<circ> snd) (ob_passes (outbox_run (\<lambda>_. []) [(0, Begin_pass ''a'' 100), (1, Claim_next ''a''), (61000, Send_ok ''a''),
    (61001, Claim_next ''a''), (61002, Begin_pass ''b'' 100), (61003, Claim_next ''b'')]
    two_rows)) = [Some ''d2'', Some ''d2'']"
  by code_simp

end
