(* ===== verification/Projections.thy ===== *)
theory Projections
  imports Caches Orders Check_In_Laws
begin

text \<open>
  realtime/projections.ts: after each transition the orders of the shop are written to Firestore, from which
  the apps show them. Firestore itself is a map from paths to documents; which writes succeed, the student's
  Firebase account and the time of the last update of a row are arguments.
\<close>

subsection \<open>The documents\<close>

record student_doc =
  sd_jobId :: id
  sd_shopId :: id
  sd_status :: job_status
  sd_position :: "int option"
  sd_etaMinutes :: "int option"
  sd_band :: "queue_band option"
  sd_revealDeadlineAt :: "millis option"
  sd_counterCodeAvailable :: bool
  sd_updatedAt :: millis

record shop_doc =
  pd_jobId :: id
  pd_status :: job_status
  pd_printerId :: "id option"
  pd_position :: "int option"
  pd_band :: "queue_band option"
  pd_updatedAt :: millis

definition projectionTargets :: "job \<Rightarrow> job list \<Rightarrow> job list" where
  "projectionTargets eventJob activeJobs =
    map snd (fold (\<lambda>j m. map_put (j_id j) j m) activeJobs [(j_id eventJob, eventJob)])"

definition projectionPayload :: "millis \<Rightarrow> job \<Rightarrow> live_metrics \<Rightarrow> student_doc \<times> shop_doc" where
  "projectionPayload updatedAt j m =
    (let counterCodeAvailable = (isCounterCodeAvailable (j_status j) (j_revealedAt j)
       \<and> (j_status j = Ready_for_pickup \<or> lm_band m = Some Revealed))
     in (\<lparr>sd_jobId = j_id j, sd_shopId = j_shopId j, sd_status = j_status j, sd_position = lm_position m,
          sd_etaMinutes = lm_etaMinutes m, sd_band = lm_band m, sd_revealDeadlineAt = lm_revealDeadlineAt m,
          sd_counterCodeAvailable = counterCodeAvailable, sd_updatedAt = updatedAt\<rparr>,
         \<lparr>pd_jobId = j_id j, pd_status = j_status j, pd_printerId = j_assignedPrinterId j, pd_position = lm_position m,
          pd_band = lm_band m, pd_updatedAt = updatedAt\<rparr>))"

subsection \<open>Writing\<close>

record firestore =
  fs_shop :: "id \<times> id \<Rightarrow> shop_doc option"
  fs_student :: "string \<times> id \<Rightarrow> student_doc option"

datatype doc_path = Shop_path id id | Student_path string id

text \<open>\<open>up\<close> tells which writes reach Firestore; both are started, and the call fails when one of them does.\<close>

definition write_projection :: "(doc_path \<Rightarrow> bool) \<Rightarrow> (id \<Rightarrow> string option) \<Rightarrow> millis \<Rightarrow> job \<Rightarrow> live_metrics \<Rightarrow> firestore \<Rightarrow> bool \<times> firestore" where
  "write_projection up uidOf updatedAt j m fs =
    (let (student, shop) = projectionPayload updatedAt j m;
         shop_ok = up (Shop_path (j_shopId j) (j_id j));
         fs1 = (if shop_ok then fs\<lparr>fs_shop := (fs_shop fs)((j_shopId j, j_id j) \<mapsto> shop)\<rparr> else fs)
     in case uidOf (j_studentId j) of
       None \<Rightarrow> (shop_ok, fs1)
     | Some uid \<Rightarrow> if uid = [] then (shop_ok, fs1)
         else if up (Student_path uid (j_id j))
           then (shop_ok, fs1\<lparr>fs_student := (fs_student fs1)((uid, j_id j) \<mapsto> student)\<rparr>)
         else (False, fs1))"

text \<open>What one event needs: the clock of the rows, the shop when its active orders are read and, per order, when its place in line is read.\<close>

record projection_world =
  pw_up :: "doc_path \<Rightarrow> bool"
  pw_uidOf :: "id \<Rightarrow> string option"
  pw_updatedAt :: "id \<Rightarrow> millis"
  pw_active :: shop_view
  pw_at :: "id \<Rightarrow> shop_view"

fun write_targets :: "projection_world \<Rightarrow> job list \<Rightarrow> firestore \<Rightarrow> bool \<times> firestore" where
  "write_targets w [] fs = (True, fs)"
| "write_targets w (j # js) fs =
    (case write_projection (pw_up w) (pw_uidOf w) (pw_updatedAt w (j_id j)) j (getJobLiveMetrics (j_id j) (pw_at w (j_id j))) fs of
      (False, fs1) \<Rightarrow> (False, fs1)
    | (True, fs1) \<Rightarrow> write_targets w js fs1)"

text \<open>PostgreSQL orders an absent time last.\<close>

definition active_of :: "id \<Rightarrow> job list \<Rightarrow> job list" where
  "active_of shopId js = sort_key (\<lambda>j. case j_queuedAt j of None \<Rightarrow> (1 :: int, 0) | Some t \<Rightarrow> (0, t))
    (filter (in_line shopId) js)"

definition project_event :: "projection_world \<Rightarrow> job \<Rightarrow> firestore \<Rightarrow> bool \<times> firestore" where
  "project_event w eventJob fs =
    write_targets w (projectionTargets eventJob (active_of (j_shopId eventJob) (v_jobs (pw_active w)))) fs"

subsection \<open>The outbox\<close>

record outbox_row =
  ox_id :: nat
  ox_jobId :: id
  ox_createdAt :: millis
  ox_publishedAt :: "millis option"
  ox_attempts :: int
  ox_lastError :: "string option"

definition mark_published :: "nat \<Rightarrow> millis \<Rightarrow> outbox_row list \<Rightarrow> nat \<times> outbox_row list" where
  "mark_published i now rows =
    (let p = (\<lambda>r. ox_id r = i \<and> ox_publishedAt r = None)
     in (count_where p rows, update_where p (\<lambda>r. r\<lparr>ox_publishedAt := Some now, ox_attempts := ox_attempts r + 1, ox_lastError := None\<rparr>) rows))"

definition mark_failed :: "nat \<Rightarrow> string \<Rightarrow> outbox_row list \<Rightarrow> outbox_row list" where
  "mark_failed i message rows = update_where (\<lambda>r. ox_id r = i)
    (\<lambda>r. r\<lparr>ox_attempts := ox_attempts r + 1, ox_lastError := Some (take 300 message)\<rparr>) rows"

text \<open>\<open>world\<close> gives what is read and written during each event, \<open>jobOf\<close> the orders as they were when the pass started.\<close>

fun publish_events :: "(nat \<Rightarrow> projection_world) \<Rightarrow> (id \<Rightarrow> job) \<Rightarrow> string \<Rightarrow> millis \<Rightarrow> outbox_row list
    \<Rightarrow> outbox_row list \<Rightarrow> firestore \<Rightarrow> nat \<times> outbox_row list \<times> firestore" where
  "publish_events world jobOf message now [] rows fs = (0, rows, fs)"
| "publish_events world jobOf message now (e # es) rows fs =
    (case project_event (world (ox_id e)) (jobOf (ox_jobId e)) fs of
      (True, fs1) \<Rightarrow> (case mark_published (ox_id e) now rows of (n, rows1) \<Rightarrow>
        (case publish_events world jobOf message now es rows1 fs1 of (m, r) \<Rightarrow> (n + m, r)))
    | (False, fs1) \<Rightarrow> publish_events world jobOf message now es (mark_failed (ox_id e) message rows) fs1)"

definition publishPendingRealtimeProjections :: "bool \<Rightarrow> nat \<Rightarrow> (nat \<Rightarrow> projection_world) \<Rightarrow> (id \<Rightarrow> job) \<Rightarrow> string \<Rightarrow> millis
    \<Rightarrow> outbox_row list \<Rightarrow> firestore \<Rightarrow> nat \<times> outbox_row list \<times> firestore" where
  "publishPendingRealtimeProjections enabled most world jobOf message now rows fs =
    (if \<not> enabled then (0, rows, fs)
     else publish_events world jobOf message now
       (take most (sort_key ox_createdAt (filter (\<lambda>r. ox_publishedAt r = None) rows))) rows fs)"

subsection \<open>Every target is written once\<close>

lemma targets_fold:
  "distinct (map fst m) \<Longrightarrow> list_all (\<lambda>x. fst x = j_id (snd x)) m \<Longrightarrow>
    (let m' = fold (\<lambda>j m. map_put (j_id j) j m) js m
     in distinct (map fst m') \<and> list_all (\<lambda>x. fst x = j_id (snd x)) m' \<and> fst ` set m' = fst ` set m \<union> j_id ` set js
      \<and> (distinct (map j_id js) \<longrightarrow> (\<forall>j \<in> set js. (j_id j, j) \<in> set m')) \<and> (\<forall>x \<in> set m. fst x \<notin> j_id ` set js \<longrightarrow> x \<in> set m'))"
proof (induction js arbitrary: m)
  case Nil
  then show ?case by simp
next
  case (Cons j js)
  have ok: "distinct (map fst (map_put (j_id j) j m))" "list_all (\<lambda>x. fst x = j_id (snd x)) (map_put (j_id j) j m)"
    using Cons.prems by (auto simp: list_all_iff dest!: map_put_values)
  have new: "(j_id j, j) \<in> set (map_put (j_id j) j m)" by (induction m) auto
  have old: "x \<in> set (map_put (j_id j) j m)" if "x \<in> set m" "fst x \<noteq> j_id j" for x
    using that by (induction m) auto
  show ?case using Cons.IH [OF ok] new old Cons.prems by (auto simp: Let_def)
qed

lemma targets:
  assumes "distinct (map j_id js)"
  shows "distinct (map j_id (projectionTargets e js))"
    "j \<in> set js \<Longrightarrow> j \<in> set (projectionTargets e js)"
    "j_id e \<notin> j_id ` set js \<Longrightarrow> e \<in> set (projectionTargets e js)"
proof -
  define m where "m = fold (\<lambda>j m. map_put (j_id j) j m) js [(j_id e, e)]"
  have m: "distinct (map fst m)" "list_all (\<lambda>x. fst x = j_id (snd x)) m" "\<forall>j \<in> set js. (j_id j, j) \<in> set m"
    "j_id e \<notin> j_id ` set js \<Longrightarrow> (j_id e, e) \<in> set m"
    using targets_fold [of "[(j_id e, e)]" js] assms by (simp_all add: m_def Let_def)
  have "map j_id (map snd m) = map fst m" using m(2) by (auto simp: list_all_iff)
  then show "distinct (map j_id (projectionTargets e js))" using m(1) by (simp only: projectionTargets_def m_def [symmetric])
  show "j \<in> set js \<Longrightarrow> j \<in> set (projectionTargets e js)" using m(3) by (force simp: projectionTargets_def m_def)
  show "j_id e \<notin> j_id ` set js \<Longrightarrow> e \<in> set (projectionTargets e js)" using m(4) by (force simp: projectionTargets_def m_def)
qed

text \<open>The documents of an order as it was when its place was read.\<close>

definition projected :: "projection_world \<Rightarrow> job \<Rightarrow> firestore \<Rightarrow> bool" where
  "projected w j fs = (let docs = projectionPayload (pw_updatedAt w (j_id j)) j (getJobLiveMetrics (j_id j) (pw_at w (j_id j)))
    in fs_shop fs (j_shopId j, j_id j) = Some (snd docs)
      \<and> (case pw_uidOf w (j_studentId j) of None \<Rightarrow> True | Some uid \<Rightarrow> uid = [] \<or> fs_student fs (uid, j_id j) = Some (fst docs)))"

lemma write_projection_writes:
  assumes "write_projection (pw_up w) (pw_uidOf w) (pw_updatedAt w (j_id j)) j (getJobLiveMetrics (j_id j) (pw_at w (j_id j))) fs = (ok, fs1)"
  shows "ok \<Longrightarrow> projected w j fs1" "j_id k \<noteq> j_id j \<Longrightarrow> projected w k fs \<Longrightarrow> projected w k fs1"
  using assms by (auto simp: write_projection_def projected_def Let_def split: prod.splits option.splits if_splits)

lemma write_targets_keep:
  "write_targets w js fs = (ok, fs1) \<Longrightarrow> j_id k \<notin> j_id ` set js \<Longrightarrow> projected w k fs \<Longrightarrow> projected w k fs1"
  by (induction js arbitrary: fs) (auto split: prod.splits bool.splits dest: write_projection_writes(2))

lemma write_targets_write:
  "write_targets w js fs = (True, fs1) \<Longrightarrow> distinct (map j_id js) \<Longrightarrow> j \<in> set js \<Longrightarrow> projected w j fs1"
proof (induction js arbitrary: fs)
  case (Cons x xs)
  obtain fs2 where x: "write_projection (pw_up w) (pw_uidOf w) (pw_updatedAt w (j_id x)) x (getJobLiveMetrics (j_id x) (pw_at w (j_id x))) fs = (True, fs2)"
    and rest: "write_targets w xs fs2 = (True, fs1)"
    using Cons.prems(1) by (auto split: prod.splits bool.splits)
  show ?case
  proof (cases "j = x")
    case True
    then have "projected w j fs2" using write_projection_writes(1) [OF x] by simp
    then show ?thesis using write_targets_keep [OF rest, of j] Cons.prems(2) True by simp
  qed (use Cons.IH [OF rest] Cons.prems in simp)
qed simp

lemma distinct_active: "distinct (map j_id js) \<Longrightarrow> distinct (map j_id (active_of shopId js))"
proof -
  assume "distinct (map j_id js)"
  then have "distinct (map j_id (filter (in_line shopId) js))" by (rule distinct_map_filter)
  moreover have "mset (map j_id (active_of shopId js)) = mset (map j_id (filter (in_line shopId) js))"
    by (simp add: active_of_def)
  ultimately show ?thesis by (metis mset_eq_imp_distinct_iff)
qed

lemma project_event_writes:
  assumes "project_event w e fs = (True, fs1)" "distinct (map j_id (v_jobs (pw_active w)))"
    "j \<in> set (v_jobs (pw_active w))" "in_line (j_shopId e) j \<or> j = e"
  shows "projected w j fs1"
proof -
  define act where "act = active_of (j_shopId e) (v_jobs (pw_active w))"
  have act: "distinct (map j_id act)" "set act = {j \<in> set (v_jobs (pw_active w)). in_line (j_shopId e) j}"
    using distinct_active [OF assms(2)] by (auto simp: act_def active_of_def)
  have "j \<in> set (projectionTargets e act)"
  proof (cases "in_line (j_shopId e) j")
    case False
    then have "j_id e \<notin> j_id ` set act"
      using assms(3,4) act(2) distinct_key_eq [OF assms(2), of j] by auto
    then show ?thesis using targets(3) [OF act(1)] False assms(4) by simp
  qed (use act targets(2) [OF act(1)] assms(3) in auto)
  then show ?thesis
    using assms(1) targets(1) [OF act(1)] write_targets_write unfolding project_event_def act_def by blast
qed

subsection \<open>What the apps read is what the order page answers\<close>

text \<open>
  C35. When an event is projected and every read of it finds the shop in the same state, the document of each order
  in line, and of the order of the event itself, agrees with the answer of the order page to its student: the same
  place, estimate, band and deadline, and the counter code is announced exactly when the page shows it.
\<close>

theorem published_shows_order_page:
  assumes "project_event w e fs = (True, fs1)" "pw_active w = v" "pw_at w (j_id j) = v" "distinct (map j_id (v_jobs v))"
    "j \<in> set (v_jobs v)" "in_line (j_shopId e) j \<or> j = e" "pw_uidOf w (j_studentId j) = Some uid" "uid \<noteq> []"
  shows "\<exists>doc page. fs_student fs1 (uid, j_id j) = Some doc \<and> showOrder decrypt payeeName (j_id j) (j_studentId j) now v = Inr page
    \<and> sd_status doc = j_status j \<and> sd_position doc = lm_position (sw_live page) \<and> sd_etaMinutes doc = lm_etaMinutes (sw_live page)
    \<and> sd_band doc = lm_band (sw_live page) \<and> sd_revealDeadlineAt doc = lm_revealDeadlineAt (sw_live page)
    \<and> sd_counterCodeAvailable doc = sw_counterCodeAvailable page
    \<and> map_option pd_position (fs_shop fs1 (j_shopId j, j_id j)) = Some (lm_position (sw_live page))"
proof -
  have "projected w j fs1" using project_event_writes [OF assms(1)] assms(2,4-6) by simp
  moreover have "find (\<lambda>x. j_id x = j_id j \<and> j_studentId x = j_studentId j) (v_jobs v) = Some j"
  proof -
    have "find (\<lambda>x. j_id x = j_id j \<and> j_studentId x = j_studentId j) (v_jobs v) \<noteq> None"
      using assms(5) by (auto simp: find_None_iff)
    then obtain x where x: "find (\<lambda>x. j_id x = j_id j \<and> j_studentId x = j_studentId j) (v_jobs v) = Some x" by blast
    then have "x = j" using find_SomeD [OF x] distinct_key_eq [OF assms(4) _ assms(5)] by blast
    then show ?thesis using x by simp
  qed
  ultimately show ?thesis
    using assms(3,7,8) by (simp add: projected_def projectionPayload_def showOrder_def Let_def)
qed

subsection \<open>One pass over the outbox\<close>

text \<open>Whether an event goes through depends on its writes, not on what Firestore holds.\<close>

definition event_ok :: "(nat \<Rightarrow> projection_world) \<Rightarrow> (id \<Rightarrow> job) \<Rightarrow> outbox_row \<Rightarrow> bool" where
  "event_ok world jobOf r = fst (project_event (world (ox_id r)) (jobOf (ox_jobId r)) \<lparr>fs_shop = Map.empty, fs_student = Map.empty\<rparr>)"

lemma write_projection_ok: "fst (write_projection up u t j m fs) = fst (write_projection up u t j m fs')"
  by (simp add: write_projection_def Let_def split: option.splits prod.splits)

lemma write_targets_ok: "fst (write_targets w js fs) = fst (write_targets w js fs')"
proof (induction js arbitrary: fs fs')
  case (Cons j js)
  let ?p = "write_projection (pw_up w) (pw_uidOf w) (pw_updatedAt w (j_id j)) j (getJobLiveMetrics (j_id j) (pw_at w (j_id j)))"
  have "fst (?p fs) = fst (?p fs')" by (rule write_projection_ok)
  then show ?case using Cons.IH [of "snd (?p fs)" "snd (?p fs')"] by (cases "?p fs"; cases "?p fs'") (simp split: bool.split)
qed simp

lemma event_ok: "fst (project_event (world (ox_id r)) (jobOf (ox_jobId r)) fs) = event_ok world jobOf r"
  unfolding event_ok_def project_event_def by (rule write_targets_ok)

definition after_event :: "(nat \<Rightarrow> projection_world) \<Rightarrow> (id \<Rightarrow> job) \<Rightarrow> string \<Rightarrow> millis \<Rightarrow> outbox_row \<Rightarrow> outbox_row" where
  "after_event world jobOf message now r =
    (if event_ok world jobOf r then r\<lparr>ox_publishedAt := Some now, ox_attempts := ox_attempts r + 1, ox_lastError := None\<rparr>
     else r\<lparr>ox_attempts := ox_attempts r + 1, ox_lastError := Some (take 300 message)\<rparr>)"

lemma one_event:
  assumes "distinct (map ox_id rows)" "e \<in> set rows" "ox_publishedAt e = None"
  shows "mark_published (ox_id e) now rows = (1, map (\<lambda>r. if r = e then r\<lparr>ox_publishedAt := Some now, ox_attempts := ox_attempts r + 1,
      ox_lastError := None\<rparr> else r) rows)"
    "mark_failed (ox_id e) m rows = map (\<lambda>r. if r = e then r\<lparr>ox_attempts := ox_attempts r + 1, ox_lastError := Some (take 300 m)\<rparr> else r) rows"
proof -
  have key: "ox_id r = ox_id e \<longleftrightarrow> r = e" if "r \<in> set rows" for r using distinct_key_eq [OF assms(1) that assms(2)] by blast
  have "filter (\<lambda>r. ox_id r = ox_id e \<and> ox_publishedAt r = None) rows = filter (\<lambda>r. r = e) rows"
    using key assms(3) by (intro filter_cong) auto
  moreover have "length (filter (\<lambda>r. r = e) rows) = 1"
    using assms(1,2) distinct_length_filter [of rows "\<lambda>r. r = e"] by (simp add: distinct_map)
  ultimately show "mark_published (ox_id e) now rows = (1, map (\<lambda>r. if r = e then r\<lparr>ox_publishedAt := Some now, ox_attempts := ox_attempts r + 1,
      ox_lastError := None\<rparr> else r) rows)"
    using key assms(3) by (auto simp: mark_published_def Let_def count_where_def update_where_def)
  show "mark_failed (ox_id e) m rows = map (\<lambda>r. if r = e then r\<lparr>ox_attempts := ox_attempts r + 1, ox_lastError := Some (take 300 m)\<rparr> else r) rows"
    using key by (auto simp: mark_failed_def update_where_def)
qed

lemma publish_events_rows:
  assumes "distinct (map ox_id rows)" "set es \<subseteq> set rows" "distinct (map ox_id es)" "list_all (\<lambda>r. ox_publishedAt r = None) es"
  shows "\<exists>fs'. publish_events world jobOf message now es rows fs =
    (length (filter (event_ok world jobOf) es), map (\<lambda>r. if r \<in> set es then after_event world jobOf message now r else r) rows, fs')"
  using assms
proof (induction es arbitrary: rows fs)
  case (Cons e es)
  define upd where "upd = after_event world jobOf message now"
  define rows1 where "rows1 = map (\<lambda>r. if r = e then upd r else r) rows"
  have id: "ox_id (upd r) = ox_id r" for r by (simp add: upd_def after_event_def)
  have e: "e \<in> set rows" "ox_publishedAt e = None" "e \<notin> set es" "upd e \<notin> set es"
    using Cons.prems id [of e] by (auto simp: image_iff)
  have "map ox_id rows1 = map ox_id rows" by (simp add: rows1_def id)
  then have "distinct (map ox_id rows1)" using Cons.prems(1) by (simp only:)
  moreover have "set es \<subseteq> set rows1" using Cons.prems(2) e(3) by (auto simp: rows1_def)
  ultimately have "distinct (map ox_id rows1)" "set es \<subseteq> set rows1" "distinct (map ox_id es)" "list_all (\<lambda>r. ox_publishedAt r = None) es"
    using Cons.prems by simp_all
  note rest = Cons.IH [OF this, folded upd_def]
  have "map (\<lambda>r. if r \<in> set es then upd r else r) rows1 = map (\<lambda>r. if r \<in> set (e # es) then upd r else r) rows"
    using e(3,4) by (auto simp: rows1_def)
  moreover have "publish_events world jobOf message now (e # es) rows fs = (let ok = event_ok world jobOf e;
      r = publish_events world jobOf message now es rows1 (snd (project_event (world (ox_id e)) (jobOf (ox_jobId e)) fs))
    in ((if ok then 1 else 0) + fst r, snd r))"
    using one_event [OF Cons.prems(1) e(1,2)] event_ok [of world e jobOf fs]
    by (cases "project_event (world (ox_id e)) (jobOf (ox_jobId e)) fs")
      (auto simp: rows1_def upd_def after_event_def Let_def split: bool.split prod.split cong: if_cong)
  ultimately show ?case
    unfolding upd_def [symmetric] using rest [of "snd (project_event (world (ox_id e)) (jobOf (ox_jobId e)) fs)"]
    by (auto simp: Let_def simp del: publish_events.simps)
qed simp

text \<open>
  C36. One pass over the outbox does the same to each of its events whatever becomes of the others: an event all of
  whose documents were written is marked and counted, an event with a failed write stays pending for the next pass
  with its attempt and its error recorded, and the rows outside the batch are untouched.
\<close>

theorem pass_isolates_failures:
  assumes "distinct (map ox_id rows)"
  shows "\<exists>fs'. publishPendingRealtimeProjections True most world jobOf message now rows fs =
    (let batch = take most (sort_key ox_createdAt (filter (\<lambda>r. ox_publishedAt r = None) rows))
     in (length (filter (event_ok world jobOf) batch),
         map (\<lambda>r. if r \<in> set batch then
             (if event_ok world jobOf r then r\<lparr>ox_publishedAt := Some now, ox_attempts := ox_attempts r + 1, ox_lastError := None\<rparr>
              else r\<lparr>ox_attempts := ox_attempts r + 1, ox_lastError := Some (take 300 message)\<rparr>) else r) rows,
         fs'))"
proof -
  define batch where "batch = take most (sort_key ox_createdAt (filter (\<lambda>r. ox_publishedAt r = None) rows))"
  have sorted: "set (sort_key ox_createdAt (filter (\<lambda>r. ox_publishedAt r = None) rows)) = {r \<in> set rows. ox_publishedAt r = None}"
    by simp
  have "mset (map ox_id (sort_key ox_createdAt (filter (\<lambda>r. ox_publishedAt r = None) rows)))
      = mset (map ox_id (filter (\<lambda>r. ox_publishedAt r = None) rows))" by simp
  then have "distinct (map ox_id (sort_key ox_createdAt (filter (\<lambda>r. ox_publishedAt r = None) rows)))"
    using distinct_map_filter [OF assms] by (metis mset_eq_imp_distinct_iff)
  then have "distinct (map ox_id batch)" by (simp add: batch_def take_map [symmetric])
  moreover have "set batch \<subseteq> set rows" "list_all (\<lambda>r. ox_publishedAt r = None) batch"
    using set_take_subset [of most "sort_key ox_createdAt (filter (\<lambda>r. ox_publishedAt r = None) rows)"] sorted
    by (auto simp: batch_def list_all_iff)
  ultimately show ?thesis
    using publish_events_rows [OF assms, of batch world jobOf message now fs, unfolded after_event_def]
    unfolding publishPendingRealtimeProjections_def batch_def [symmetric] Let_def not_True_eq_False if_False by blast
qed

subsection \<open>Concrete passes\<close>

definition sample_world :: projection_world where
  "sample_world = \<lparr>pw_up = (\<lambda>_. True), pw_uidOf = (\<lambda>s. Some (''uid-'' @ s)), pw_updatedAt = (\<lambda>_. 70),
    pw_active = sample_view [revealed_job, waiting_job ''c'' 6], pw_at = (\<lambda>_. sample_view [revealed_job, waiting_job ''c'' 6])\<rparr>"

definition sample_row :: "nat \<Rightarrow> outbox_row" where
  "sample_row i = \<lparr>ox_id = i, ox_jobId = ''b'', ox_createdAt = int i, ox_publishedAt = None, ox_attempts = 0, ox_lastError = None\<rparr>"

lemma sample_row_simps [simp]:
  "ox_id (sample_row i) = i" "ox_publishedAt (sample_row i) = None" "ox_attempts (sample_row i) = 0" "ox_createdAt (sample_row i) = int i"
  "ox_jobId (sample_row i) = ''b''" "sample_row i = sample_row k \<longleftrightarrow> i = k"
  by (auto simp: sample_row_def)

definition no_docs :: firestore where "no_docs = \<lparr>fs_shop = Map.empty, fs_student = Map.empty\<rparr>"

lemma all_writes_succeed: "pw_up w = (\<lambda>_. True) \<Longrightarrow> fst (project_event w e fs)"
proof -
  assume up: "pw_up w = (\<lambda>_. True)"
  have "fst (write_projection (pw_up w) u t j m fs)" for u t j m fs
    by (simp add: up write_projection_def Let_def split: option.splits prod.splits)
  then have "fst (write_targets w js fs)" for js fs
    by (induction js arbitrary: fs) (auto split: prod.splits bool.splits, metis fst_conv)
  then show ?thesis by (simp add: project_event_def)
qed

lemma published_shows_order_page_witness:
  "map_option sd_status (fs_student (snd (project_event sample_world revealed_job no_docs)) (''uid-u'', ''c'')) = Some Queued"
proof -
  let ?run = "project_event sample_world revealed_job no_docs"
  let ?j = "waiting_job ''c'' 6"
  have "?run = (True, snd ?run)" using all_writes_succeed [of sample_world revealed_job no_docs]
    by (cases ?run) (simp add: sample_world_def)
  moreover have "j_shopId revealed_job = ''s''" "j_id revealed_job = ''b''" "j_studentId ?j = ''u''" "j_status ?j = Queued" "j_id ?j = ''c''"
    by (simp_all add: revealed_job_def waiting_job_def sample_job_def)
  ultimately show ?thesis
    using published_shows_order_page [of sample_world revealed_job no_docs "snd ?run" "pw_active sample_world" ?j "''uid-u''" "\<lambda>_ c. c" None 70]
    by (auto simp: sample_world_def sample_view_def)
qed

definition flaky_world :: "nat \<Rightarrow> projection_world" where
  "flaky_world i = (if i = 1 then sample_world\<lparr>pw_up := (\<lambda>p. p \<noteq> Student_path ''uid-u'' ''c'')\<rparr> else sample_world)"

lemma flaky_events:
  "event_ok flaky_world (\<lambda>_. revealed_job) (sample_row 2)" "\<not> event_ok flaky_world (\<lambda>_. revealed_job) (sample_row 1)"
proof -
  show "event_ok flaky_world (\<lambda>_. revealed_job) (sample_row 2)"
    using all_writes_succeed [of "flaky_world 2"] by (simp add: event_ok_def flaky_world_def sample_world_def)
  show "\<not> event_ok flaky_world (\<lambda>_. revealed_job) (sample_row 1)" by code_simp
qed

lemma pass_isolates_failures_witness:
  "map (\<lambda>r. (ox_publishedAt r, ox_attempts r)) (fst (snd (publishPendingRealtimeProjections True 100 flaky_world (\<lambda>_. revealed_job)
      ''unavailable'' 80 [sample_row 1, sample_row 2] no_docs))) = [(None, 1), (Some 80, 1)]"
proof -
  have "distinct (map ox_id [sample_row 1, sample_row 2])" by simp
  note p = pass_isolates_failures [OF this, of 100 flaky_world "\<lambda>_. revealed_job" "''unavailable''" 80 no_docs]
  have "take 100 (sort_key ox_createdAt (filter (\<lambda>r. ox_publishedAt r = None) [sample_row 1, sample_row 2])) = [sample_row 1, sample_row 2]"
    by simp
  then show ?thesis using p flaky_events by (auto simp: Let_def)
qed

end
