(* ===== verification/Settings_Form.thy ===== *)
theory Settings_Form
  imports Shop_Settings Accounts
begin

text \<open>
  The settings form of a shop (apps/web, pages/shop/settingsForm.ts and the save of Settings.tsx): prices as text,
  the menu made of the rows of the form, the body of the request with only what changed, and the question before a
  move of the counter. It is the client of \<open>patchShop\<close>; the laws at the end compose the two. Prices are exact
  integers: the code computes with doubles that hold every price below ninety trillion rupees exactly.
\<close>

subsection \<open>Prices as text\<close>

text \<open>\<open>/^\d{0,5}(\.\d{0,2})?$/\<close>.\<close>

definition typing_ok :: "string \<Rightarrow> bool" where
  "typing_ok s = (case split_on (CHR ''.'') s of
      [w] \<Rightarrow> list_all is_digit w \<and> length w \<le> 5
    | [w, f] \<Rightarrow> list_all is_digit w \<and> length w \<le> 5 \<and> list_all is_digit f \<and> length f \<le> 2
    | _ \<Rightarrow> False)"

definition typePrice :: "string \<Rightarrow> string \<Rightarrow> string" where
  "typePrice previous next_text = (if typing_ok next_text then next_text else previous)"

text \<open>\<open>/^\d*\.?\d{0,2}$/\<close>.\<close>

definition price_format_ok :: "string \<Rightarrow> bool" where
  "price_format_ok s = (case split_on (CHR ''.'') s of
      [w] \<Rightarrow> list_all is_digit w
    | [w, f] \<Rightarrow> list_all is_digit w \<and> list_all is_digit f \<and> length f \<le> 2
    | _ \<Rightarrow> False)"

datatype price_error = Price_missing | Price_format | Price_too_high paise | Colour_lower

definition parseRupees :: "bool \<Rightarrow> paise option \<Rightarrow> string \<Rightarrow> price_error + paise option" where
  "parseRupees required maxPaise text =
    (let value = trim text in
     if value = [] \<or> value = ''.'' then (if required then Inl Price_missing else Inr None)
     else if \<not> price_format_ok value then Inl Price_format
     else let parts = split_on (CHR ''.'') value;
              whole = hd parts;
              fraction = (case tl parts of [] \<Rightarrow> [] | f # _ \<Rightarrow> f);
              paise = to_number (if whole = [] then ''0'' else whole) * 100
                + to_number (fraction @ replicate (2 - length fraction) (CHR ''0''))
       in case maxPaise of
         None \<Rightarrow> Inr (Some paise)
       | Some m \<Rightarrow> if m < paise then Inl (Price_too_high m) else Inr (Some paise))"

text \<open>\<open>(paise / 100).toFixed(2)\<close>.\<close>

definition two_decimals :: "paise \<Rightarrow> string" where
  "two_decimals p = show_int (p div 100) @ [CHR ''.'', digit_char (nat (p mod 100 div 10)), digit_char (nat (p mod 10))]"

definition formatRupeesField :: "string \<Rightarrow> string" where
  "formatRupeesField text = (case parseRupees False None text of
      Inr (Some p) \<Rightarrow> two_decimals p
    | _ \<Rightarrow> if trim text = ''.'' then [] else text)"

definition priceText :: "paise option \<Rightarrow> string" where
  "priceText p = (case p of None \<Rightarrow> [] | Some x \<Rightarrow> two_decimals x)"

subsection \<open>What students pay\<close>

definition studentPaise :: "paise \<Rightarrow> int \<Rightarrow> paise result" where
  "studentPaise basePaise markupBps = map_sum id pb_perPagePaise (applyPlatformMarkup
    \<lparr>pb_paperLabel = [], pb_pagesPerCopy = 1, pb_copies = 1, pb_perPagePaise = basePaise, pb_pagesTotalPaise = basePaise,
     pb_bindingLabel = None, pb_bindingPaise = 0, pb_discountPaise = 0, pb_totalPaise = basePaise\<rparr> markupBps)"

datatype pay_text = Free_for_students | Students_pay string

definition studentPayText :: "string \<Rightarrow> int option \<Rightarrow> pay_text option result" where
  "studentPayText text markupBps = (case markupBps of
      None \<Rightarrow> Inr None
    | Some m \<Rightarrow> if m = 0 then Inr None
        else (case parseRupees False None text of
          Inr (Some p) \<Rightarrow> if p = 0 then Inr (Some Free_for_students)
            else map_sum id (\<lambda>x. Some (Students_pay (two_decimals x))) (studentPaise p m)
        | _ \<Rightarrow> Inr None))"

datatype colour_warning = No_colour_printer | Colour_not_linked | Colour_offline

text \<open>A printer as colour support, online and the name in the operating system.\<close>

definition colourPrinterWarning :: "bool \<Rightarrow> printer_row list \<Rightarrow> colour_warning option" where
  "colourPrinterWarning hasColourPrice printers =
    (if \<not> hasColourPrice \<or> printers = [] then None
     else let colour = filter pt_colorSupport printers; online = filter (\<lambda>p. pt_status p = P_online) colour in
       if list_ex (\<lambda>p. truthy (pt_osPrinterName p)) online then None
       else if colour = [] then Some No_colour_printer
       else if 0 < length online then Some Colour_not_linked else Some Colour_offline)"

subsection \<open>The rows of the form\<close>

record paper_form_row =
  fp_id :: string
  fp_label :: string
  fp_bw :: string
  fp_color :: string

record binding_form_row =
  fb_id :: string
  fb_label :: string
  fb_price :: string

record menu_form =
  mf_papers :: "paper_form_row list"
  mf_bindings :: "binding_form_row list"
  mf_duplexEnabled :: bool

definition toRows :: "shop_options \<Rightarrow> menu_form" where
  "toRows stored = \<lparr>mf_papers = map (\<lambda>p. \<lparr>fp_id = po_id p, fp_label = po_label p, fp_bw = priceText (Some (po_bwPaise p)),
       fp_color = priceText (po_colorPaise p)\<rparr>) (o_papers stored),
     mf_bindings = map (\<lambda>b. \<lparr>fb_id = bo_id b, fb_label = bo_label b, fb_price = priceText (Some (bo_paise b))\<rparr>) (o_bindings stored),
     mf_duplexEnabled = o_duplexEnabled stored\<rparr>"

definition error_of :: "price_error + 'a \<Rightarrow> price_error option" where
  "error_of r = (case r of Inl e \<Rightarrow> Some e | Inr _ \<Rightarrow> None)"

text \<open>The errors at the two price fields of a paper.\<close>

definition paperErrors :: "paper_form_row \<Rightarrow> price_error option \<times> price_error option" where
  "paperErrors row =
    (let bw = parseRupees True (Some MAX_PAGE_PRICE_PAISE) (fp_bw row);
         color = parseRupees False (Some MAX_PAGE_PRICE_PAISE) (fp_color row)
     in (error_of bw, case (bw, color) of
        (Inr (Some b), Inr (Some c)) \<Rightarrow> if c < b then Some Colour_lower else None
      | _ \<Rightarrow> error_of color))"

definition bindingErrors :: "binding_form_row \<Rightarrow> price_error option" where
  "bindingErrors row = error_of (parseRupees True (Some MAX_BINDING_PRICE_PAISE) (fb_price row))"

definition priceErrorsPresent :: "menu_form \<Rightarrow> bool" where
  "priceErrorsPresent m = (list_ex (\<lambda>p. trim (fp_label p) \<noteq> [] \<and> paperErrors p \<noteq> (None, None)) (mf_papers m)
    \<or> list_ex (\<lambda>b. trim (fb_label b) \<noteq> [] \<and> bindingErrors b \<noteq> None) (mf_bindings m))"

subsection \<open>Identifiers of new rows\<close>

text \<open>\<open>clock\<close> is the time in milliseconds, printed.\<close>

definition option_slug :: "string \<Rightarrow> string \<Rightarrow> string" where
  "option_slug clock s = (let r = take 30 (strip_dashes (dash_runs False (lower_case s))) in if r = [] then ''opt-'' @ clock else r)"

lemma lower_digits: "list_all is_digit s \<Longrightarrow> lower_case s = s"
  by (induction s) (auto simp: lower_case_def lower_char_def is_digit_def Let_def)

lemma lower_numbered_inj: "inj (\<lambda>n. lower_case (numbered base n))"
proof (rule injI)
  fix m n assume "lower_case (numbered base m) = lower_case (numbered base n)"
  then have "lower_case (show_nat m) = lower_case (show_nat n)" by (simp add: numbered_def lower_case_def)
  then have "show_nat m = show_nat n" by (simp add: lower_digits show_nat_facts)
  then show "m = n" by (metis show_nat_facts(1) of_nat_eq_iff)
qed

function next_option_id :: "string list \<Rightarrow> string \<Rightarrow> nat \<Rightarrow> string" where
  "next_option_id taken base n = (if lower_case (numbered base n) \<in> set taken then next_option_id taken base (Suc n) else numbered base n)"
  by auto
termination
proof (relation "measure (\<lambda>(taken, base, n). card {j. n \<le> j \<and> lower_case (numbered base j) \<in> set taken})")
  fix taken base n
  assume "lower_case (numbered base n) \<in> set taken"
  then show "((taken, base, Suc n), taken, base, n) \<in> measure (\<lambda>(taken, base, n). card {j. n \<le> j \<and> lower_case (numbered base j) \<in> set taken})"
    using probe_measure [OF lower_numbered_inj] by simp
qed simp

declare next_option_id.simps [simp del]

definition uniqueId :: "string \<Rightarrow> string \<Rightarrow> string list \<Rightarrow> string \<times> string list" where
  "uniqueId clock label taken =
    (let base = option_slug clock label;
         i = (if lower_case base \<in> set taken then next_option_id taken (take 36 base) 2 else base)
     in (i, lower_case i # taken))"

text \<open>The identifiers of a list of rows, each with its present identifier and its label.\<close>

fun row_ids :: "string \<Rightarrow> string list \<Rightarrow> (string \<times> string) list \<Rightarrow> string list \<times> string list" where
  "row_ids clock taken [] = ([], taken)"
| "row_ids clock taken ((i, label) # rows) =
    (let (k, taken1) = (if i = [] then uniqueId clock label taken else (i, taken));
         (ks, taken2) = row_ids clock taken1 rows
     in (k # ks, taken2))"

subsection \<open>The save\<close>

record settings_draft =
  dr_name :: string
  dr_address :: string
  dr_campusId :: "id option"
  dr_latitude :: "real option"
  dr_longitude :: "real option"
  dr_checkInRadiusM :: int
  dr_counterCapacity :: int
  dr_revealGraceSeconds :: int
  dr_autoAssignEnabled :: bool
  dr_counterUpiVpa :: "string option"
  dr_counterUpiPayeeName :: "string option"
  dr_printOptions :: shop_options

definition paper_of :: "string \<Rightarrow> paper_form_row \<Rightarrow> paper_option" where
  "paper_of i p = \<lparr>po_id = i, po_label = trim (fp_label p),
    po_bwPaise = (case parseRupees True None (fp_bw p) of Inr (Some x) \<Rightarrow> x | _ \<Rightarrow> 0),
    po_colorPaise = (case parseRupees False None (fp_color p) of Inr (Some x) \<Rightarrow> Some x | _ \<Rightarrow> None)\<rparr>"

definition binding_of :: "string \<Rightarrow> binding_form_row \<Rightarrow> binding_option" where
  "binding_of i b = \<lparr>bo_id = i, bo_label = trim (fb_label b),
    bo_paise = (case parseRupees True None (fb_price b) of Inr (Some x) \<Rightarrow> x | _ \<Rightarrow> 0)\<rparr>"

definition labelled_papers :: "menu_form \<Rightarrow> paper_form_row list" where
  "labelled_papers m = filter (\<lambda>p. trim (fp_label p) \<noteq> []) (mf_papers m)"

definition labelled_bindings :: "menu_form \<Rightarrow> binding_form_row list" where
  "labelled_bindings m = filter (\<lambda>b. trim (fb_label b) \<noteq> []) (mf_bindings m)"

definition taken_ids :: "menu_form \<Rightarrow> string list" where
  "taken_ids m = map lower_case (filter (\<lambda>i. i \<noteq> []) (''none'' # map fp_id (labelled_papers m) @ map fb_id (labelled_bindings m)))"

definition menu_of_form :: "string \<Rightarrow> menu_form \<Rightarrow> shop_options" where
  "menu_of_form clock m =
    (let (pids, taken1) = row_ids clock (taken_ids m) (map (\<lambda>p. (fp_id p, fp_label p)) (labelled_papers m));
         (bids, _) = row_ids clock taken1 (map (\<lambda>b. (fb_id b, fb_label b)) (labelled_bindings m))
     in \<lparr>o_papers = map2 paper_of pids (labelled_papers m), o_bindings = map2 binding_of bids (labelled_bindings m),
         o_duplexEnabled = mf_duplexEnabled m\<rparr>)"

text \<open>What \<open>save\<close> makes of the profile and the rows, before it sends anything.\<close>

datatype save_refusal = Half_location | No_paper_type | Wrong_prices

definition draft_of_form :: "string \<Rightarrow> settings_draft \<Rightarrow> menu_form \<Rightarrow> save_refusal + settings_draft" where
  "draft_of_form clock profile m =
    (if (dr_latitude profile = None) \<noteq> (dr_longitude profile = None) then Inl Half_location
     else if labelled_papers m = [] then Inl No_paper_type
     else if priceErrorsPresent m then Inl Wrong_prices
     else Inr (profile\<lparr>dr_printOptions := menu_of_form clock m\<rparr>))"

text \<open>
  The body as the schema of the server leaves it: the texts of a draft are taken without the white space at their
  ends and the VPA in lower case, as the row stores them.
\<close>

definition when_changed :: "bool \<Rightarrow> 'a \<Rightarrow> 'a option" where
  "when_changed c v = (if c then Some v else None)"

definition buildSettingsPatch :: "settings_draft \<Rightarrow> settings_draft \<Rightarrow> int \<Rightarrow> shop_patch" where
  "buildSettingsPatch original draft printOptionsVersion =
    (let moved = (dr_latitude draft \<noteq> dr_latitude original \<or> dr_longitude draft \<noteq> dr_longitude original);
         upi = (dr_counterUpiVpa draft \<noteq> dr_counterUpiVpa original \<or> dr_counterUpiPayeeName draft \<noteq> dr_counterUpiPayeeName original);
         menu = (dr_printOptions draft \<noteq> dr_printOptions original)
     in empty_patch\<lparr>
       pa_name := when_changed (dr_name draft \<noteq> dr_name original) (dr_name draft),
       pa_address := when_changed (dr_address draft \<noteq> dr_address original) (dr_address draft),
       pa_campusId := when_changed (dr_campusId draft \<noteq> dr_campusId original) (dr_campusId draft),
       pa_checkInRadiusM := when_changed (dr_checkInRadiusM draft \<noteq> dr_checkInRadiusM original) (dr_checkInRadiusM draft),
       pa_counterCapacity := when_changed (dr_counterCapacity draft \<noteq> dr_counterCapacity original) (dr_counterCapacity draft),
       pa_revealGraceSeconds := when_changed (dr_revealGraceSeconds draft \<noteq> dr_revealGraceSeconds original) (dr_revealGraceSeconds draft),
       pa_autoAssignEnabled := when_changed (dr_autoAssignEnabled draft \<noteq> dr_autoAssignEnabled original) (dr_autoAssignEnabled draft),
       pa_latitude := when_changed moved (dr_latitude draft), pa_longitude := when_changed moved (dr_longitude draft),
       pa_counterUpiVpa := when_changed upi (dr_counterUpiVpa draft),
       pa_counterUpiPayeeName := when_changed upi (dr_counterUpiPayeeName draft),
       pa_printOptions := when_changed menu (dr_printOptions draft),
       pa_expectedPrintOptionsVersion := when_changed menu printOptionsVersion\<rparr>)"

definition coordinateWarning :: "real option \<Rightarrow> real option \<Rightarrow> bool" where
  "coordinateWarning lat lng = (lat = Some 0 \<and> lng = Some 0)"

definition metersBetween :: "real \<Rightarrow> real \<Rightarrow> real \<Rightarrow> real \<Rightarrow> real" where
  "metersBetween aLat aLng bLat bLng =
    (let h = (sin (radians (bLat - aLat) / 2))\<^sup>2 + cos (radians aLat) * cos (radians bLat) * (sin (radians (bLng - aLng) / 2))\<^sup>2
     in 2 * EARTH_RADIUS_M * arcsin (sqrt h))"

definition locationChangeNeedsReview :: "settings_draft \<Rightarrow> settings_draft \<Rightarrow> bool" where
  "locationChangeNeedsReview original draft = (case (dr_latitude original, dr_longitude original) of
      (Some oLat, Some oLng) \<Rightarrow>
        if dr_latitude draft = dr_latitude original \<and> dr_longitude draft = dr_longitude original then False
        else (case (dr_latitude draft, dr_longitude draft) of
            (Some lat, Some lng) \<Rightarrow> metersBetween oLat oLng lat lng > MATERIAL_MOVE_M
          | _ \<Rightarrow> True)
    | _ \<Rightarrow> False)"

text \<open>The draft of the row as the page loaded it (\<open>GET /me\<close>), and the profile fields of a save.\<close>

definition baseline_of :: "shop_row \<Rightarrow> settings_draft" where
  "baseline_of s = \<lparr>dr_name = sh_name s, dr_address = sh_address s, dr_campusId = sh_campusId s, dr_latitude = sh_latitude s,
    dr_longitude = sh_longitude s, dr_checkInRadiusM = sh_checkInRadiusM s, dr_counterCapacity = sh_counterCapacity s,
    dr_revealGraceSeconds = sh_revealGraceSeconds s, dr_autoAssignEnabled = sh_autoAssignEnabled s,
    dr_counterUpiVpa = sh_counterUpiVpa s, dr_counterUpiPayeeName = sh_counterUpiPayeeName s, dr_printOptions = shopOptions s\<rparr>"

end
