(* ===== verification/Settings_Form_Laws.thy ===== *)
theory Settings_Form_Laws
  imports Settings_Form Shop_Properties "HOL-Library.Sublist"
begin

text \<open>
  What holds of the settings form: a price survives being shown, typed and parsed; the menu that is sent passes the
  schema of the server exactly within its limits on rows and labels; a save changes exactly what its tab changed; and the question before a move is asked exactly
  when the server would send the shop to review for it.
\<close>

subsection \<open>Prices\<close>

lemma dot_not_digit: "\<not> is_digit (CHR ''.'')" "\<not> is_space (CHR ''.'')"
  by (simp_all add: is_digit_def is_space_def code_of_def)

lemma digits_no_dot: "list_all is_digit w \<Longrightarrow> CHR ''.'' \<notin> set w"
  using dot_not_digit(1) by (auto simp: list_all_iff)

lemma to_number_append: "to_number (a @ b) = to_number a * 10 ^ length b + to_number b"
proof (induction b rule: rev_induct)
  case (snoc c cs)
  have "to_number (a @ cs @ [c]) = to_number ((a @ cs) @ [c])" by simp
  also have "\<dots> = to_number (a @ cs) * 10 + (code_of c - 48)" by (rule to_number_snoc)
  finally show ?case using snoc by (simp add: to_number_snoc algebra_simps)
qed (simp add: to_number_def)

lemma two_digits:
  fixes p :: int
  shows "is_digit (digit_char (nat (p mod 100 div 10)))" "is_digit (digit_char (nat (p mod 10)))"
    "to_number [digit_char (nat (p mod 100 div 10)), digit_char (nat (p mod 10))] = p mod 100"
proof -
  have d: "nat (p mod 100 div 10) < 10" "nat (p mod 10) < 10" by auto
  show "is_digit (digit_char (nat (p mod 100 div 10)))" "is_digit (digit_char (nat (p mod 10)))"
    by (simp_all add: digit_char_facts d)
  have two: "to_number [a, b] = (code_of a - 48) * 10 + (code_of b - 48)" for a b by (simp add: to_number_def)
  have m: "p mod 10 = (p mod 100) mod 10" by (rule mod_mod_cancel [symmetric]) simp
  have i: "int (nat (p mod 100 div 10)) = p mod 100 div 10" "int (nat (p mod 10)) = p mod 10"
    by (simp_all add: pos_imp_zdiv_nonneg_iff)
  show "to_number [digit_char (nat (p mod 100 div 10)), digit_char (nat (p mod 10))] = p mod 100"
    unfolding two digit_char_facts(2) [OF d(1)] digit_char_facts(2) [OF d(2)] i by (subst m) (rule div_mult_mod_eq)
qed

lemma two_decimals_text:
  assumes "0 \<le> p"
  shows "split_on (CHR ''.'') (two_decimals p) = [show_int (p div 100), [digit_char (nat (p mod 100 div 10)), digit_char (nat (p mod 10))]]"
    "trim (two_decimals p) = two_decimals p" "two_decimals p \<noteq> []" "two_decimals p \<noteq> ''.''"
    "list_all is_digit (show_int (p div 100))"
proof -
  have w: "list_all is_digit (show_int (p div 100))" "show_int (p div 100) \<noteq> []" using show_int_facts [of "p div 100"] assms by simp_all
  then show "list_all is_digit (show_int (p div 100))" by simp
  have "CHR ''.'' \<notin> set [digit_char (nat (p mod 100 div 10)), digit_char (nat (p mod 10))]"
    by (rule digits_no_dot) (simp add: two_digits)
  then have "split_on (CHR ''.'') [digit_char (nat (p mod 100 div 10)), digit_char (nat (p mod 10))]
      = [[digit_char (nat (p mod 100 div 10)), digit_char (nat (p mod 10))]]" by (rule split_on_none)
  then show "split_on (CHR ''.'') (two_decimals p) = [show_int (p div 100), [digit_char (nat (p mod 100 div 10)), digit_char (nat (p mod 10))]]"
    using split_on_append [OF digits_no_dot [OF w(1)]] by (simp add: two_decimals_def del: split_on.simps)
  have "is_digit (hd (two_decimals p))" "is_digit (last (two_decimals p))"
    using w two_digits(2) by (auto simp: two_decimals_def hd_append list_all_iff)
  then show "trim (two_decimals p) = two_decimals p" by (intro trim_none) (auto dest: digit_not(1))
  show "two_decimals p \<noteq> []" "two_decimals p \<noteq> ''.''" using w(2) by (simp_all add: two_decimals_def append_eq_Cons_conv)
qed

lemma parse_two_decimals:
  assumes "0 \<le> p"
  shows "parseRupees required mx (two_decimals p) = (case mx of None \<Rightarrow> Inr (Some p)
    | Some m \<Rightarrow> if m < p then Inl (Price_too_high m) else Inr (Some p))"
proof -
  have "price_format_ok (two_decimals p)"
    by (simp add: price_format_ok_def two_decimals_text(1,5) [OF assms] two_digits)
  moreover have "show_int (p div 100) \<noteq> []" "to_number (show_int (p div 100)) = p div 100"
    using show_int_facts [of "p div 100"] assms by simp_all
  moreover have "p div 100 * 100 + p mod 100 = p" by (rule div_mult_mod_eq)
  ultimately show ?thesis
    by (simp add: parseRupees_def two_decimals_text(1-4) [OF assms] two_digits Let_def split: option.split)
qed

lemma parse_range:
  assumes "parseRupees required mx t = Inr (Some p)"
  shows "0 \<le> p" "case mx of None \<Rightarrow> True | Some m \<Rightarrow> p \<le> m"
proof -
  have digits: "0 \<le> to_number s" if "list_all is_digit s" for s
    using that by (induction s rule: rev_induct) (auto simp: to_number_snoc to_number_def is_digit_def)
  have zeros: "list_all is_digit (replicate n (CHR ''0''))" for n by (simp add: list_all_iff is_digit_def code_of_def)
  have z: "0 \<le> to_number ''0''" by (simp add: to_number_def code_of_def)
  show "0 \<le> p"
    using assms digits zeros z
    by (auto simp: parseRupees_def Let_def price_format_ok_def split: if_splits option.splits list.splits intro!: add_nonneg_nonneg)
  show "case mx of None \<Rightarrow> True | Some m \<Rightarrow> p \<le> m"
    using assms by (auto simp: parseRupees_def Let_def split: if_splits option.splits)
qed

lemma parse_without_max: "parseRupees required (Some m) t = Inr r \<Longrightarrow> parseRupees required None t = Inr r"
  by (auto simp: parseRupees_def Let_def split: if_splits)

lemma parse_required: "parseRupees True mx t \<noteq> Inr None"
  by (auto simp: parseRupees_def Let_def split: option.splits)

text \<open>A price that is shown can be typed and parses back; leaving the field tidies its text and keeps its price.\<close>

lemma shown_price:
  assumes "0 \<le> p" "p \<le> m"
  shows "parseRupees required (Some m) (priceText (Some p)) = Inr (Some p)"
  using assms by (simp add: priceText_def parse_two_decimals)

lemma trim_empty [simp]: "trim [] = []"
  by (simp add: trim_def)

lemma parse_none: "parseRupees required mx t = Inr None \<longleftrightarrow> \<not> required \<and> (trim t = [] \<or> trim t = ''.'')"
  by (auto simp: parseRupees_def Let_def split: option.splits)

lemma parse_empty [simp]: "parseRupees False mx [] = Inr None"
  by (simp add: parse_none)

lemma blur_keeps_price:
  assumes "parseRupees required mx t = Inr r"
  shows "parseRupees required mx (formatRupeesField t) = Inr r"
proof (cases r)
  case None
  have t: "\<not> required" "trim t = [] \<or> trim t = ''.''" using assms None parse_none by blast+
  then have "parseRupees False None t = Inr None" by (simp add: parse_none)
  then have "formatRupeesField t = (if trim t = ''.'' then [] else t)" by (simp add: formatRupeesField_def)
  then have "parseRupees required mx (formatRupeesField t) = Inr None"
    using t by (cases "trim t = ''.''") (auto simp: parse_none)
  then show ?thesis using None by simp
next
  case (Some p)
  have "parseRupees False None t = Inr (Some p)" using assms Some
    by (auto simp: parseRupees_def Let_def split: if_splits option.splits)
  then have "formatRupeesField t = two_decimals p" by (simp add: formatRupeesField_def)
  then show ?thesis using parse_two_decimals [of p required mx] parse_range [of required mx t p] assms Some
    by (auto split: option.splits)
qed

text \<open>The preview of what students pay is the unit price of an order.\<close>

lemma preview_is_order_price:
  assumes "applyPlatformMarkup base m = Inr q"
  shows "studentPaise (pb_perPagePaise base) m = Inr (pb_perPagePaise q)" "studentPaise (pb_bindingPaise base) m = Inr (pb_bindingPaise q)"
  using assms by (auto simp: studentPaise_def applyPlatformMarkup_def Let_def split: if_splits)

subsection \<open>An untouched form\<close>

lemma row_ids_given: "list_all (\<lambda>r. fst r \<noteq> []) rows \<Longrightarrow> row_ids clock taken rows = (map fst rows, taken)"
  by (induction rows) auto

lemma paper_back:
  assumes "paper_ok p" "trim (po_label p) = po_label p"
  shows "paper_of (po_id p) \<lparr>fp_id = po_id p, fp_label = po_label p, fp_bw = priceText (Some (po_bwPaise p)),
    fp_color = priceText (po_colorPaise p)\<rparr> = p"
  using assms by (cases "po_colorPaise p") (auto simp: paper_of_def paper_ok_def priceText_def parse_two_decimals)

lemma binding_back:
  assumes "binding_ok b" "trim (bo_label b) = bo_label b"
  shows "binding_of (bo_id b) \<lparr>fb_id = bo_id b, fb_label = bo_label b, fb_price = priceText (Some (bo_paise b))\<rparr> = b"
  using assms by (simp add: binding_of_def binding_ok_def priceText_def parse_two_decimals)

lemma paper_no_errors:
  assumes "paper_ok p" "case po_colorPaise p of None \<Rightarrow> True | Some c \<Rightarrow> po_bwPaise p \<le> c"
  shows "paperErrors \<lparr>fp_id = po_id p, fp_label = po_label p, fp_bw = priceText (Some (po_bwPaise p)),
    fp_color = priceText (po_colorPaise p)\<rparr> = (None, None)"
  using assms by (cases "po_colorPaise p")
    (auto simp: paperErrors_def Let_def paper_ok_def priceText_def parse_two_decimals error_of_def)

lemma papers_refined_iff: "papers_refined seen ps \<longleftrightarrow> distinct (map (lower_case \<circ> po_id) ps)
    \<and> set (map (lower_case \<circ> po_id) ps) \<inter> set seen = {}
    \<and> list_all (\<lambda>p. case po_colorPaise p of None \<Rightarrow> True | Some c \<Rightarrow> po_bwPaise p \<le> c) ps"
  by (induction ps arbitrary: seen) (auto simp: Let_def)

lemma bindings_refined_iff: "bindings_refined seen bs \<longleftrightarrow> distinct (map (lower_case \<circ> bo_id) bs)
    \<and> set (map (lower_case \<circ> bo_id) bs) \<inter> insert ''none'' (set seen) = {}"
  by (induction bs arbitrary: seen) (auto simp: Let_def)

lemma map2_same: "map2 f (map g xs) (map h xs) = map (\<lambda>x. f (g x) (h x)) xs"
  by (induction xs) auto

definition labels_trimmed :: "shop_options \<Rightarrow> bool" where
  "labels_trimmed m = (list_all (\<lambda>p. trim (po_label p) = po_label p) (o_papers m)
    \<and> list_all (\<lambda>b. trim (bo_label b) = bo_label b) (o_bindings m))"

lemma form_of_menu:
  assumes "printOptionsSchema m" "labels_trimmed m"
  shows "labelled_papers (toRows m) = mf_papers (toRows m)" "labelled_bindings (toRows m) = mf_bindings (toRows m)"
    "\<not> priceErrorsPresent (toRows m)" "menu_of_form clock (toRows m) = m"
proof -
  have p: "paper_ok p" "trim (po_label p) = po_label p" "po_label p \<noteq> []" "po_id p \<noteq> []"
      "case po_colorPaise p of None \<Rightarrow> True | Some c \<Rightarrow> po_bwPaise p \<le> c" if "p \<in> set (o_papers m)" for p
    using assms that by (auto simp: printOptionsSchema_def papers_refined_iff labels_trimmed_def list_all_iff paper_ok_def option_text_ok_def)
  have b: "binding_ok b" "trim (bo_label b) = bo_label b" "bo_label b \<noteq> []" "bo_id b \<noteq> []" if "b \<in> set (o_bindings m)" for b
    using assms that by (auto simp: printOptionsSchema_def labels_trimmed_def list_all_iff binding_ok_def option_text_ok_def)
  show l: "labelled_papers (toRows m) = mf_papers (toRows m)" "labelled_bindings (toRows m) = mf_bindings (toRows m)"
    using p(2,3) b(2,3) by (auto simp: labelled_papers_def labelled_bindings_def toRows_def filter_id_conv)
  have "bindingErrors \<lparr>fb_id = bo_id b, fb_label = bo_label b, fb_price = priceText (Some (bo_paise b))\<rparr> = None" if "b \<in> set (o_bindings m)" for b
    using b(1) [OF that] by (simp add: bindingErrors_def error_of_def shown_price binding_ok_def)
  then show "\<not> priceErrorsPresent (toRows m)"
    using paper_no_errors [OF p(1,5)] by (auto simp: priceErrorsPresent_def toRows_def list_ex_iff)
  have "row_ids clock taken (map (\<lambda>p. (fp_id p, fp_label p)) (mf_papers (toRows m))) = (map po_id (o_papers m), taken)"
    "row_ids clock taken (map (\<lambda>b. (fb_id b, fb_label b)) (mf_bindings (toRows m))) = (map bo_id (o_bindings m), taken)" for taken
    using p(4) b(4) by (subst row_ids_given; auto simp: toRows_def list_all_iff comp_def)+
  then have "menu_of_form clock (toRows m) = \<lparr>o_papers = map2 paper_of (map po_id (o_papers m)) (mf_papers (toRows m)),
      o_bindings = map2 binding_of (map bo_id (o_bindings m)) (mf_bindings (toRows m)), o_duplexEnabled = mf_duplexEnabled (toRows m)\<rparr>"
    unfolding menu_of_form_def l by (simp add: Let_def)
  moreover have "map2 paper_of (map po_id (o_papers m)) (mf_papers (toRows m)) = o_papers m"
    using paper_back [OF p(1,2)] by (simp add: toRows_def map2_same map_idI)
  moreover have "map2 binding_of (map bo_id (o_bindings m)) (mf_bindings (toRows m)) = o_bindings m"
    using binding_back [OF b(1,2)] by (simp add: toRows_def map2_same map_idI)
  ultimately show "menu_of_form clock (toRows m) = m" by (simp add: toRows_def)
qed

text \<open>
  Opening the settings and saving them sends nothing: for a shop whose stored menu passes the schema, the form
  filled from the row turns back, prices and all, into the values it was filled from, and the body of the request is
  empty, so an untouched save neither hides a shop nor undoes what another tab saved.
\<close>

theorem untouched_save_sends_nothing:
  assumes "printOptionsSchema (shopOptions s)" "labels_trimmed (shopOptions s)" "sh_latitude s = None \<longleftrightarrow> sh_longitude s = None"
  shows "draft_of_form clock (baseline_of s) (toRows (shopOptions s)) = Inr (baseline_of s)
    \<and> buildSettingsPatch (baseline_of s) (baseline_of s) v = empty_patch"
proof -
  note f = form_of_menu [OF assms(1,2)]
  have "mf_papers (toRows (shopOptions s)) \<noteq> []" using assms(1) by (auto simp: printOptionsSchema_def toRows_def)
  moreover have "(baseline_of s)\<lparr>dr_printOptions := shopOptions s\<rparr> = baseline_of s" by (simp add: baseline_of_def)
  moreover have "(dr_latitude (baseline_of s) = None) = (dr_longitude (baseline_of s) = None)" using assms(3) by (simp add: baseline_of_def)
  ultimately show ?thesis
    by (simp add: draft_of_form_def f buildSettingsPatch_def Let_def when_changed_def empty_patch_def)
qed

subsection \<open>New rows\<close>

lemma next_option_id_facts:
  "lower_case (next_option_id taken base n) \<notin> set taken
    \<and> (\<exists>k. next_option_id taken base n = numbered base (n + k) \<and> (\<forall>j < k. lower_case (numbered base (n + j)) \<in> set taken))"
proof (induction taken base n rule: next_option_id.induct)
  case (1 taken base n)
  show ?case
  proof (cases "lower_case (numbered base n) \<in> set taken")
    case True
    then obtain k where k: "next_option_id taken base (Suc n) = numbered base (Suc n + k)"
      "\<forall>j < k. lower_case (numbered base (Suc n + j)) \<in> set taken" "lower_case (next_option_id taken base (Suc n)) \<notin> set taken"
      using 1 by blast
    have "\<forall>j < Suc k. lower_case (numbered base (n + j)) \<in> set taken"
      using k(2) True by (auto simp: less_Suc_eq_0_disj)
    moreover have "next_option_id taken base n = next_option_id taken base (Suc n)"
      using True by (subst next_option_id.simps) simp
    ultimately show ?thesis using k by (intro conjI exI [of _ "Suc k"]) simp_all
  next
    case False
    then have "next_option_id taken base n = numbered base n" by (subst next_option_id.simps) simp
    then show ?thesis using False by (auto intro: exI [of _ 0])
  qed
qed

lemma next_option_id_bound: "\<exists>k \<le> length taken. next_option_id taken base 2 = numbered base (2 + k)"
proof -
  obtain k where k: "next_option_id taken base 2 = numbered base (2 + k)" "\<forall>j < k. lower_case (numbered base (2 + j)) \<in> set taken"
    using next_option_id_facts [of taken base 2] by blast
  have "inj_on (\<lambda>j. lower_case (numbered base (2 + j))) {..<k}"
    using lower_numbered_inj [of base] by (auto simp: inj_on_def inj_def)
  then have "k = card ((\<lambda>j. lower_case (numbered base (2 + j))) ` {..<k})" by (simp add: card_image)
  also have "\<dots> \<le> card (set taken)" using k(2) by (intro card_mono) auto
  also have "\<dots> \<le> length taken" by (rule card_length)
  finally show ?thesis using k(1) by blast
qed

lemma show_nat_length: "n < 1000 \<Longrightarrow> length (show_nat n) \<le> 3"
  by (subst show_nat.simps, auto, subst show_nat.simps, auto, subst show_nat.simps, auto)

lemma uniqueId_facts:
  assumes "length clock \<le> 26" "length taken \<le> 900"
  shows "lower_case (fst (uniqueId clock label taken)) \<notin> set taken" "option_text_ok (fst (uniqueId clock label taken))"
    "snd (uniqueId clock label taken) = lower_case (fst (uniqueId clock label taken)) # taken"
proof -
  define base where "base = option_slug clock label"
  have base: "base \<noteq> []" "length base \<le> 30" using assms(1) by (auto simp: base_def option_slug_def Let_def)
  obtain k where k: "k \<le> length taken" "next_option_id taken (take 36 base) 2 = numbered (take 36 base) (2 + k)"
    using next_option_id_bound by blast
  have "length (show_nat (2 + k)) \<le> 3" using k(1) assms(2) by (intro show_nat_length) simp
  then have "option_text_ok (next_option_id taken (take 36 base) 2)" using base(2) k(2) by (simp add: option_text_ok_def numbered_def)
  moreover have "option_text_ok base" using base by (cases base) (auto simp: option_text_ok_def)
  ultimately show "option_text_ok (fst (uniqueId clock label taken))" by (simp add: uniqueId_def Let_def base_def)
  show "lower_case (fst (uniqueId clock label taken)) \<notin> set taken"
    using next_option_id_facts [of taken "take 36 base" 2] by (simp add: uniqueId_def Let_def base_def)
  show "snd (uniqueId clock label taken) = lower_case (fst (uniqueId clock label taken)) # taken" by (simp add: uniqueId_def Let_def)
qed

definition given_keys :: "(string \<times> string) list \<Rightarrow> string list" where
  "given_keys rows = map lower_case (filter (\<lambda>i. i \<noteq> []) (map fst rows))"

lemma row_ids_facts:
  assumes "length clock \<le> 26" "length taken + length rows \<le> 900" "distinct (given_keys rows)" "set (given_keys rows) \<subseteq> set taken"
    "set seen \<subseteq> set taken" "set seen \<inter> set (given_keys rows) = {}" "list_all (\<lambda>r. length (fst r) \<le> 40) rows"
  shows "case row_ids clock taken rows of (ks, taken') \<Rightarrow> length ks = length rows \<and> length taken' \<le> length taken + length rows
    \<and> set taken \<subseteq> set taken' \<and> distinct (map lower_case ks) \<and> set (map lower_case ks) \<inter> set seen = {} \<and> list_all option_text_ok ks
    \<and> set (map lower_case ks) \<subseteq> set taken' \<and> (\<forall>x \<in> set taken. x \<in> lower_case ` set ks \<longrightarrow> x \<in> set (given_keys rows))"
  using assms
proof (induction rows arbitrary: taken seen)
  case (Cons r rows)
  obtain i label where r: "r = (i, label)" by (cases r)
  show ?case
  proof (cases "i = []")
    case True
    define k where "k = fst (uniqueId clock label taken)"
    have k: "lower_case k \<notin> set taken" "option_text_ok k" "uniqueId clock label taken = (k, lower_case k # taken)"
      using uniqueId_facts [of clock taken label] Cons.prems(1,2) by (simp_all add: k_def prod_eq_iff)
    have g: "given_keys (r # rows) = given_keys rows" using True r by (simp add: given_keys_def)
    obtain ks t where run: "row_ids clock (lower_case k # taken) rows = (ks, t)" by fastforce
    have "set (given_keys rows) \<subseteq> set (lower_case k # taken)" "set (lower_case k # seen) \<subseteq> set (lower_case k # taken)"
      "set (lower_case k # seen) \<inter> set (given_keys rows) = {}" "length (lower_case k # taken) + length rows \<le> 900"
      using Cons.prems k(1) g by auto
    then have "case row_ids clock (lower_case k # taken) rows of (ks, t) \<Rightarrow> length ks = length rows \<and> length t \<le> length (lower_case k # taken) + length rows
      \<and> set (lower_case k # taken) \<subseteq> set t \<and> distinct (map lower_case ks) \<and> set (map lower_case ks) \<inter> set (lower_case k # seen) = {}
      \<and> list_all option_text_ok ks \<and> set (map lower_case ks) \<subseteq> set t
      \<and> (\<forall>x \<in> set (lower_case k # taken). x \<in> lower_case ` set ks \<longrightarrow> x \<in> set (given_keys rows))"
      using Cons.IH [of "lower_case k # taken" "lower_case k # seen"] Cons.prems(1,3,7) g by simp
    moreover have "row_ids clock taken (r # rows) = (k # ks, t)" using run k(3) True r by simp
    ultimately show ?thesis using run k(1,2) Cons.prems(5) g by auto
  next
    case False
    have g: "given_keys (r # rows) = lower_case i # given_keys rows" using False r by (simp add: given_keys_def)
    have ok: "option_text_ok i" using False Cons.prems(7) r by (cases i) (auto simp: option_text_ok_def)
    obtain ks t where run: "row_ids clock taken rows = (ks, t)" by fastforce
    have "set (given_keys rows) \<subseteq> set taken" "set (lower_case i # seen) \<subseteq> set taken" "set (lower_case i # seen) \<inter> set (given_keys rows) = {}"
      "length taken + length rows \<le> 900" "distinct (given_keys rows)"
      using Cons.prems g by auto
    then have "case row_ids clock taken rows of (ks, t) \<Rightarrow> length ks = length rows \<and> length t \<le> length taken + length rows
      \<and> set taken \<subseteq> set t \<and> distinct (map lower_case ks) \<and> set (map lower_case ks) \<inter> set (lower_case i # seen) = {}
      \<and> list_all option_text_ok ks \<and> set (map lower_case ks) \<subseteq> set t
      \<and> (\<forall>x \<in> set taken. x \<in> lower_case ` set ks \<longrightarrow> x \<in> set (given_keys rows))"
      using Cons.IH [of taken "lower_case i # seen"] Cons.prems(1,7) by simp
    moreover have "row_ids clock taken (r # rows) = (i # ks, t)" using run False r by simp
    moreover have "lower_case i \<in> set taken" "lower_case i \<notin> set seen" using Cons.prems(4,6) g by auto
    ultimately show ?thesis using run ok g by auto
  qed
qed (simp add: given_keys_def)

lemma paper_of_ok:
  assumes "paperErrors p = (None, None)" "option_text_ok i" "trim (fp_label p) \<noteq> []" "length (trim (fp_label p)) \<le> 40"
  shows "paper_ok (paper_of i p)" "case po_colorPaise (paper_of i p) of None \<Rightarrow> True | Some c \<Rightarrow> po_bwPaise (paper_of i p) \<le> c"
proof -
  have label: "option_text_ok (trim (fp_label p))" using assms(3,4) by (cases "trim (fp_label p)") (auto simp: option_text_ok_def)
  obtain b where b: "parseRupees True (Some MAX_PAGE_PRICE_PAISE) (fp_bw p) = Inr (Some b)"
    using assms(1) parse_required [of "Some MAX_PAGE_PRICE_PAISE" "fp_bw p"]
    by (auto simp: paperErrors_def Let_def error_of_def split: sum.splits option.splits)
  obtain c where c: "parseRupees False (Some MAX_PAGE_PRICE_PAISE) (fp_color p) = Inr c" "case c of None \<Rightarrow> True | Some x \<Rightarrow> b \<le> x"
    using assms(1) b by (auto simp: paperErrors_def Let_def error_of_def split: sum.splits option.splits if_splits)
  have row: "po_bwPaise (paper_of i p) = b" "po_colorPaise (paper_of i p) = c" "po_id (paper_of i p) = i" "po_label (paper_of i p) = trim (fp_label p)"
    using parse_without_max [OF b] parse_without_max [OF c(1)] by (simp_all add: paper_of_def split: option.split)
  show "case po_colorPaise (paper_of i p) of None \<Rightarrow> True | Some c \<Rightarrow> po_bwPaise (paper_of i p) \<le> c" using c(2) by (cases c) (simp_all add: row)
  show "paper_ok (paper_of i p)"
    using parse_range [OF b] parse_range [of False "Some MAX_PAGE_PRICE_PAISE" "fp_color p"] c(1) assms(2) label
    by (cases c) (auto simp: paper_ok_def row)
qed

lemma binding_of_ok:
  assumes "bindingErrors b = None" "option_text_ok i" "trim (fb_label b) \<noteq> []" "length (trim (fb_label b)) \<le> 40"
  shows "binding_ok (binding_of i b)"
proof -
  have label: "option_text_ok (trim (fb_label b))" using assms(3,4) by (cases "trim (fb_label b)") (auto simp: option_text_ok_def)
  obtain x where x: "parseRupees True (Some MAX_BINDING_PRICE_PAISE) (fb_price b) = Inr (Some x)"
    using assms(1) parse_required [of "Some MAX_BINDING_PRICE_PAISE" "fb_price b"]
    by (auto simp: bindingErrors_def error_of_def split: sum.splits option.splits)
  show ?thesis using parse_range [OF x] parse_without_max [OF x] assms(2) label by (simp add: binding_ok_def binding_of_def)
qed

lemma paper_ids: "length ks = length rows \<Longrightarrow> map (lower_case \<circ> po_id) (map2 paper_of ks rows) = map lower_case ks"
  by (induction ks rows rule: list_induct2) (simp_all add: paper_of_def)

lemma binding_ids: "length ks = length rows \<Longrightarrow> map (lower_case \<circ> bo_id) (map2 binding_of ks rows) = map lower_case ks"
  by (induction ks rows rule: list_induct2) (simp_all add: binding_of_def)

lemma list_all_map2:
  "length ks = length rows \<Longrightarrow> list_all P ks \<Longrightarrow> list_all Q rows \<Longrightarrow> (\<And>k r. P k \<Longrightarrow> Q r \<Longrightarrow> R (f k r)) \<Longrightarrow> list_all R (map2 f ks rows)"
  by (induction ks rows rule: list_induct2) auto

text \<open>
  The rows of a page that loaded the menu \<open>stored\<close>: a row that still has an identifier is a loaded one, in
  its place; loaded rows may have been removed, rows with an empty identifier added, and every text retyped.
\<close>

definition edited_from :: "shop_options \<Rightarrow> menu_form \<Rightarrow> bool" where
  "edited_from stored m = (subseq (filter (\<lambda>i. i \<noteq> []) (map fp_id (mf_papers m))) (map po_id (o_papers stored))
    \<and> subseq (filter (\<lambda>i. i \<noteq> []) (map fb_id (mf_bindings m))) (map bo_id (o_bindings stored)))"

text \<open>The limits of the schema that the form does not know: twelve rows of a kind, labels of forty characters.\<close>

definition menu_size_ok :: "menu_form \<Rightarrow> bool" where
  "menu_size_ok m = (length (labelled_papers m) \<le> 12 \<and> length (labelled_bindings m) \<le> 12
    \<and> list_all (\<lambda>p. length (trim (fp_label p)) \<le> 40) (labelled_papers m)
    \<and> list_all (\<lambda>b. length (trim (fb_label b)) \<le> 40) (labelled_bindings m))"

lemma subseq_distinct: "subseq xs ys \<Longrightarrow> distinct (map f ys) \<Longrightarrow> distinct (map f xs) \<and> set xs \<subseteq> set ys"
  by (induction rule: list_emb.induct) auto

lemma given_keys_edited:
  assumes "subseq (filter (\<lambda>i. i \<noteq> []) (map g rows)) ids" "distinct (map lower_case ids)"
  shows "distinct (given_keys (map (\<lambda>r. (g r, h r)) (filter q rows)))"
    "set (filter (\<lambda>i. i \<noteq> []) (map g (filter q rows))) \<subseteq> set ids"
proof -
  have "subseq (filter (\<lambda>i. i \<noteq> []) (map g (filter q rows))) (filter (\<lambda>i. i \<noteq> []) (map g rows))"
    by (intro subseq_filter subseq_map subseq_filter_left)
  then have "subseq (filter (\<lambda>i. i \<noteq> []) (map g (filter q rows))) ids"
    using assms(1) by (rule subseq_order.trans)
  from subseq_distinct [OF this assms(2)]
  show "distinct (given_keys (map (\<lambda>r. (g r, h r)) (filter q rows)))"
    "set (filter (\<lambda>i. i \<noteq> []) (map g (filter q rows))) \<subseteq> set ids"
    by (simp_all add: given_keys_def comp_def)
qed

lemma edited_ids:
  assumes "printOptionsSchema stored" "edited_from stored m"
  shows "distinct (given_keys (map (\<lambda>p. (fp_id p, fp_label p)) (labelled_papers m)))"
    "distinct (''none'' # given_keys (map (\<lambda>b. (fb_id b, fb_label b)) (labelled_bindings m)))"
    "list_all (\<lambda>p. length (fp_id p) \<le> 40) (labelled_papers m)" "list_all (\<lambda>b. length (fb_id b) \<le> 40) (labelled_bindings m)"
proof -
  have sp: "subseq (filter (\<lambda>i. i \<noteq> []) (map fp_id (mf_papers m))) (map po_id (o_papers stored))"
    and sb: "subseq (filter (\<lambda>i. i \<noteq> []) (map fb_id (mf_bindings m))) (map bo_id (o_bindings stored))"
    using assms(2) by (simp_all add: edited_from_def)
  have dp: "distinct (map lower_case (map po_id (o_papers stored)))" and db: "distinct (map lower_case (map bo_id (o_bindings stored)))"
    and none: "''none'' \<notin> set (map lower_case (map bo_id (o_bindings stored)))"
    using assms(1) by (auto simp: printOptionsSchema_def papers_refined_iff bindings_refined_iff comp_def)
  have short: "length i \<le> 40" if "i \<in> set (map po_id (o_papers stored)) \<or> i \<in> set (map bo_id (o_bindings stored))" for i
    using assms(1) that by (auto simp: printOptionsSchema_def list_all_iff paper_ok_def binding_ok_def option_text_ok_def)
  note P = given_keys_edited [OF sp dp, where q = "\<lambda>p. trim (fp_label p) \<noteq> []", folded labelled_papers_def]
  note B = given_keys_edited [OF sb db, where q = "\<lambda>b. trim (fb_label b) \<noteq> []", folded labelled_bindings_def]
  show "distinct (given_keys (map (\<lambda>p. (fp_id p, fp_label p)) (labelled_papers m)))" by (rule P(1))
  have "''none'' \<notin> lower_case ` set (filter (\<lambda>i. i \<noteq> []) (map fb_id (labelled_bindings m)))"
    using B(2) none by (auto simp: subset_iff)
  then have "''none'' \<notin> set (given_keys (map (\<lambda>b. (fb_id b, fb_label b)) (labelled_bindings m)))"
    by (simp add: given_keys_def comp_def)
  then show "distinct (''none'' # given_keys (map (\<lambda>b. (fb_id b, fb_label b)) (labelled_bindings m)))"
    using B(1) by simp
  have "length (fp_id p) \<le> 40" if "p \<in> set (labelled_papers m)" for p
    using P(2) short [of "fp_id p"] that by (cases "fp_id p = []") (auto simp: subset_iff)
  then show "list_all (\<lambda>p. length (fp_id p) \<le> 40) (labelled_papers m)" by (simp add: list_all_iff)
  have "length (fb_id b) \<le> 40" if "b \<in> set (labelled_bindings m)" for b
    using B(2) short [of "fb_id b"] that by (cases "fb_id b = []") (auto simp: subset_iff)
  then show "list_all (\<lambda>b. length (fb_id b) \<le> 40) (labelled_bindings m)" by (simp add: list_all_iff)
qed

lemma row_ids_length: "length (fst (row_ids clock taken rows)) = length rows"
  by (induction clock taken rows rule: row_ids.induct) (auto simp: Let_def split: prod.splits if_splits)

text \<open>The rows of the menu that is sent are the labelled rows, in order, with their trimmed labels.\<close>

lemma menu_of_form_labels: "map po_label (o_papers (menu_of_form clock m)) = map (trim \<circ> fp_label) (labelled_papers m)"
    "map bo_label (o_bindings (menu_of_form clock m)) = map (trim \<circ> fb_label) (labelled_bindings m)"
proof -
  have P: "map po_label (map2 paper_of ks rows) = map (trim \<circ> fp_label) rows" if "length ks = length rows" for ks rows
    using that by (induction ks rows rule: list_induct2) (simp_all add: paper_of_def)
  have B: "map bo_label (map2 binding_of ks rows) = map (trim \<circ> fb_label) rows" if "length ks = length rows" for ks rows
    using that by (induction ks rows rule: list_induct2) (simp_all add: binding_of_def)
  obtain ps t1 where ps: "row_ids clock (taken_ids m) (map (\<lambda>p. (fp_id p, fp_label p)) (labelled_papers m)) = (ps, t1)" by fastforce
  obtain bs t2 where bs: "row_ids clock t1 (map (\<lambda>b. (fb_id b, fb_label b)) (labelled_bindings m)) = (bs, t2)" by fastforce
  have "length ps = length (labelled_papers m)" "length bs = length (labelled_bindings m)"
    using row_ids_length [of clock "taken_ids m" "map (\<lambda>p. (fp_id p, fp_label p)) (labelled_papers m)"]
      row_ids_length [of clock t1 "map (\<lambda>b. (fb_id b, fb_label b)) (labelled_bindings m)"] ps bs by simp_all
  then show "map po_label (o_papers (menu_of_form clock m)) = map (trim \<circ> fp_label) (labelled_papers m)"
    "map bo_label (o_bindings (menu_of_form clock m)) = map (trim \<circ> fb_label) (labelled_bindings m)"
    using P B by (simp_all add: menu_of_form_def ps bs)
qed

lemma schema_needs_size: "printOptionsSchema (menu_of_form clock m) \<Longrightarrow> menu_size_ok m"
proof -
  assume s: "printOptionsSchema (menu_of_form clock m)"
  have "list_all (\<lambda>l. length l \<le> 40) (map po_label (o_papers (menu_of_form clock m)))"
    "list_all (\<lambda>l. length l \<le> 40) (map bo_label (o_bindings (menu_of_form clock m)))"
    "length (map po_label (o_papers (menu_of_form clock m))) \<le> 12" "length (map bo_label (o_bindings (menu_of_form clock m))) \<le> 12"
    using s by (auto simp: printOptionsSchema_def list_all_iff paper_ok_def binding_ok_def option_text_ok_def)
  then show "menu_size_ok m" unfolding menu_of_form_labels by (simp add: menu_size_ok_def list_all_iff)
qed

lemma size_gives_schema:
  assumes "draft_of_form clock profile m = Inr draft" "menu_size_ok m" "length clock \<le> 26"
    "printOptionsSchema stored" "edited_from stored m"
  shows "printOptionsSchema (dr_printOptions draft)"
proof -
  define P B where "P = labelled_papers m" and "B = labelled_bindings m"
  define prows brows where "prows = map (\<lambda>p. (fp_id p, fp_label p)) P" and "brows = map (\<lambda>b. (fb_id b, fb_label b)) B"
  note f = edited_ids [OF assms(4,5), folded P_def B_def, folded prows_def brows_def] assms(2) [unfolded menu_size_ok_def, folded P_def B_def]
  have d: "P \<noteq> []" "\<not> priceErrorsPresent m" "dr_printOptions draft = menu_of_form clock m"
    using assms(1) by (auto simp: draft_of_form_def P_def split: if_splits)
  have taken: "taken_ids m = ''none'' # given_keys prows @ given_keys brows"
    by (simp add: taken_ids_def given_keys_def prows_def brows_def P_def B_def comp_def lower_case_def lower_char_def code_of_def)
  have small: "length (given_keys prows) \<le> length P" "length (given_keys brows) \<le> length B" "length prows = length P" "length brows = length B"
    using length_filter_le [of "\<lambda>i. i \<noteq> []" "map fst prows"] length_filter_le [of "\<lambda>i. i \<noteq> []" "map fst brows"]
    by (simp_all add: given_keys_def prows_def brows_def)
  obtain ps t1 where ps: "row_ids clock (taken_ids m) prows = (ps, t1)" by fastforce
  obtain bs t2 where bs: "row_ids clock t1 brows = (bs, t2)" by fastforce
  have pre: "length (taken_ids m) + length prows \<le> 900" "distinct (given_keys prows)" "set (given_keys prows) \<subseteq> set (taken_ids m)"
      "list_all (\<lambda>r. length (fst r) \<le> 40) prows"
    using f small by (auto simp: taken list_all_iff prows_def)
  have p: "length ps = length P" "length t1 \<le> length (taken_ids m) + length P" "set (taken_ids m) \<subseteq> set t1" "distinct (map lower_case ps)" "list_all option_text_ok ps"
    using row_ids_facts [OF assms(3) pre(1-3) _ _ pre(4), of "[]"] ps small(3) by simp_all
  have pre2: "length t1 + length brows \<le> 900" "distinct (given_keys brows)" "set (given_keys brows) \<subseteq> set t1" "''none'' \<in> set t1"
      "list_all (\<lambda>r. length (fst r) \<le> 40) brows"
    using p(2,3) f small by (auto simp: taken list_all_iff brows_def)
  have b: "length bs = length B" "distinct (map lower_case bs)" "list_all option_text_ok bs" "''none'' \<notin> lower_case ` set bs"
    using row_ids_facts [OF assms(3) pre2(1-3) _ _ pre2(5), of "[]"] bs small(4) pre2(4) f by auto
  have menu: "menu_of_form clock m = \<lparr>o_papers = map2 paper_of ps P, o_bindings = map2 binding_of bs B, o_duplexEnabled = mf_duplexEnabled m\<rparr>"
    using ps bs by (simp add: menu_of_form_def P_def B_def prows_def brows_def Let_def)
  have rows: "list_all (\<lambda>r. paperErrors r = (None, None) \<and> trim (fp_label r) \<noteq> [] \<and> length (trim (fp_label r)) \<le> 40) P"
    "list_all (\<lambda>r. bindingErrors r = None \<and> trim (fb_label r) \<noteq> [] \<and> length (trim (fb_label r)) \<le> 40) B"
    using d(2) f by (auto simp: priceErrorsPresent_def list_ex_iff list_all_iff P_def B_def labelled_papers_def labelled_bindings_def)
  have "list_all paper_ok (map2 paper_of ps P)"
    by (rule list_all_map2 [OF p(1,5) rows(1)]) (simp add: paper_of_ok(1))
  moreover have "list_all (\<lambda>p. case po_colorPaise p of None \<Rightarrow> True | Some c \<Rightarrow> po_bwPaise p \<le> c) (map2 paper_of ps P)"
    by (rule list_all_map2 [OF p(1,5) rows(1)]) (use paper_of_ok(2) in blast)
  moreover have "list_all binding_ok (map2 binding_of bs B)"
    by (rule list_all_map2 [OF b(1,3) rows(2)]) (simp add: binding_of_ok)
  moreover have "1 \<le> length P" using d(1) by (cases P) auto
  ultimately show ?thesis
    unfolding d(3) menu printOptionsSchema_def papers_refined_iff bindings_refined_iff shop_options.simps paper_ids [OF p(1)] binding_ids [OF b(1)]
    using f p(1,4) b(1,2,4) by simp
qed

text \<open>
  C37. When the server accepts the menu of a form. A page loads a menu that passes the schema; its rows are
  edited in any way (rows removed, rows added without an identifier, labels and prices retyped). When \<open>save\<close>
  finds nothing to refuse, the menu it sends passes the schema of the server exactly when it has at most twelve
  labelled papers and twelve labelled bindings and no label of more than forty characters: prices and
  identifiers are always acceptable, in particular every new row gets an identifier that is not empty, not too long,
  not used by another row, up to case, and not the reserved none. The form checks neither limit, so a thirteenth
  row or a longer label is sent and refused.
\<close>

theorem form_menu_passes_schema:
  assumes "printOptionsSchema stored" "edited_from stored m" "draft_of_form clock profile m = Inr draft" "length clock \<le> 26"
  shows "printOptionsSchema (dr_printOptions draft) \<longleftrightarrow> menu_size_ok m"
proof
  have "dr_printOptions draft = menu_of_form clock m"
    using assms(3) by (auto simp: draft_of_form_def split: if_splits)
  then show "menu_size_ok m" if "printOptionsSchema (dr_printOptions draft)"
    using that schema_needs_size [of clock m] by simp
  show "printOptionsSchema (dr_printOptions draft)" if "menu_size_ok m"
    by (rule size_gives_schema [OF assms(3) that assms(4,1,2)])
qed

subsection \<open>What a save changes\<close>

text \<open>The specification: what the tab changed is taken from its draft, the rest from the row.\<close>

definition merge_draft :: "settings_draft \<Rightarrow> settings_draft \<Rightarrow> settings_draft \<Rightarrow> settings_draft" where
  "merge_draft original draft cur =
    \<lparr>dr_name = (if dr_name draft = dr_name original then dr_name cur else dr_name draft),
      dr_address = (if dr_address draft = dr_address original then dr_address cur else dr_address draft),
      dr_campusId = (if dr_campusId draft = dr_campusId original then dr_campusId cur else dr_campusId draft),
      dr_latitude = (if (dr_latitude draft, dr_longitude draft) = (dr_latitude original, dr_longitude original) then dr_latitude cur else dr_latitude draft),
      dr_longitude = (if (dr_latitude draft, dr_longitude draft) = (dr_latitude original, dr_longitude original) then dr_longitude cur else dr_longitude draft),
      dr_checkInRadiusM = (if dr_checkInRadiusM draft = dr_checkInRadiusM original then dr_checkInRadiusM cur else dr_checkInRadiusM draft),
      dr_counterCapacity = (if dr_counterCapacity draft = dr_counterCapacity original then dr_counterCapacity cur else dr_counterCapacity draft),
      dr_revealGraceSeconds = (if dr_revealGraceSeconds draft = dr_revealGraceSeconds original then dr_revealGraceSeconds cur else dr_revealGraceSeconds draft),
      dr_autoAssignEnabled = (if dr_autoAssignEnabled draft = dr_autoAssignEnabled original then dr_autoAssignEnabled cur else dr_autoAssignEnabled draft),
      dr_counterUpiVpa = (if (dr_counterUpiVpa draft, dr_counterUpiPayeeName draft) = (dr_counterUpiVpa original, dr_counterUpiPayeeName original)
        then dr_counterUpiVpa cur else dr_counterUpiVpa draft),
      dr_counterUpiPayeeName = (if (dr_counterUpiVpa draft, dr_counterUpiPayeeName draft) = (dr_counterUpiVpa original, dr_counterUpiPayeeName original)
        then dr_counterUpiPayeeName cur else dr_counterUpiPayeeName draft),
      dr_printOptions = (if dr_printOptions draft = dr_printOptions original then dr_printOptions cur else dr_printOptions draft)\<rparr>"

lemma published_baseline: "shopOptions (published_row now s) = shopOptions s \<and> baseline_of (published_row now s) = baseline_of s"
  by (simp add: baseline_of_def published_row_def shopOptions_def)

lemma patch_fields:
  "pa_name (buildSettingsPatch o1 d v) = when_changed (dr_name d \<noteq> dr_name o1) (dr_name d)"
  "pa_address (buildSettingsPatch o1 d v) = when_changed (dr_address d \<noteq> dr_address o1) (dr_address d)"
  "pa_campusId (buildSettingsPatch o1 d v) = when_changed (dr_campusId d \<noteq> dr_campusId o1) (dr_campusId d)"
  "pa_campusName (buildSettingsPatch o1 d v) = None"
  "pa_latitude (buildSettingsPatch o1 d v) = when_changed (dr_latitude d \<noteq> dr_latitude o1 \<or> dr_longitude d \<noteq> dr_longitude o1) (dr_latitude d)"
  "pa_longitude (buildSettingsPatch o1 d v) = when_changed (dr_latitude d \<noteq> dr_latitude o1 \<or> dr_longitude d \<noteq> dr_longitude o1) (dr_longitude d)"
  "pa_checkInRadiusM (buildSettingsPatch o1 d v) = when_changed (dr_checkInRadiusM d \<noteq> dr_checkInRadiusM o1) (dr_checkInRadiusM d)"
  "pa_counterCapacity (buildSettingsPatch o1 d v) = when_changed (dr_counterCapacity d \<noteq> dr_counterCapacity o1) (dr_counterCapacity d)"
  "pa_revealGraceSeconds (buildSettingsPatch o1 d v) = when_changed (dr_revealGraceSeconds d \<noteq> dr_revealGraceSeconds o1) (dr_revealGraceSeconds d)"
  "pa_autoAssignEnabled (buildSettingsPatch o1 d v) = when_changed (dr_autoAssignEnabled d \<noteq> dr_autoAssignEnabled o1) (dr_autoAssignEnabled d)"
  "pa_counterUpiVpa (buildSettingsPatch o1 d v) = when_changed (dr_counterUpiVpa d \<noteq> dr_counterUpiVpa o1 \<or> dr_counterUpiPayeeName d \<noteq> dr_counterUpiPayeeName o1) (dr_counterUpiVpa d)"
  "pa_counterUpiPayeeName (buildSettingsPatch o1 d v) = when_changed (dr_counterUpiVpa d \<noteq> dr_counterUpiVpa o1 \<or> dr_counterUpiPayeeName d \<noteq> dr_counterUpiPayeeName o1) (dr_counterUpiPayeeName d)"
  "pa_printOptions (buildSettingsPatch o1 d v) = when_changed (dr_printOptions d \<noteq> dr_printOptions o1) (dr_printOptions d)"
  "pa_expectedPrintOptionsVersion (buildSettingsPatch o1 d v) = when_changed (dr_printOptions d \<noteq> dr_printOptions o1) v"
  by (simp_all add: buildSettingsPatch_def Let_def empty_patch_def)

lemma written_columns:
  "sh_name (patch_write b cur now s) = given (pa_name b) (sh_name s)" "sh_address (patch_write b cur now s) = given (pa_address b) (sh_address s)"
  "sh_campusId (patch_write b cur now s) = given (pa_campusId b) (sh_campusId s)"
  "sh_autoAssignEnabled (patch_write b cur now s) = given (pa_autoAssignEnabled b) (sh_autoAssignEnabled s)"
  by (simp_all add: patch_write_def write_body_def write_reset_def Let_def)

lemma given_when_changed [simp]: "given (when_changed c v) old = (if c then v else old)"
  by (simp add: given_def when_changed_def)

lemma written_location:
  assumes "b = buildSettingsPatch original draft v"
  shows "(if writes_location b s then the (pa_latitude b) else sh_latitude s)
      = (if (dr_latitude draft, dr_longitude draft) = (dr_latitude original, dr_longitude original) then sh_latitude s else dr_latitude draft)"
    "(if writes_location b s then the (pa_longitude b) else sh_longitude s)
      = (if (dr_latitude draft, dr_longitude draft) = (dr_latitude original, dr_longitude original) then sh_longitude s else dr_longitude draft)"
  by (auto simp: assms writes_location_def patch_fields when_changed_def)

lemma save_merges:
  assumes "b = buildSettingsPatch original draft v" "shopOptions s' = given (pa_printOptions b) (shopOptions s)"
    "s' = patch_write b s now s \<or> s' = published_row now (patch_write b s now s)"
  shows "baseline_of s' = merge_draft original draft (baseline_of s)"
proof -
  have o: "shopOptions (patch_write b s now s) = given (pa_printOptions b) (shopOptions s)"
    using assms(2,3) published_baseline by metis
  have "baseline_of s' = baseline_of (patch_write b s now s)" using assms(3) published_baseline by metis
  also have "\<dots> = merge_draft original draft (baseline_of s)"
    unfolding baseline_of_def merge_draft_def settings_draft.simps patch_write_fields written_columns o written_location [OF assms(1)]
    by (simp add: assms(1) patch_fields)
  finally show ?thesis .
qed

text \<open>
  C38. A save changes exactly what its tab changed. When the request of a form that was loaded earlier reaches the
  server, every setting the owner changed in this tab is stored, every other one keeps the value the row has by then,
  also one that another tab saved meanwhile; location and UPI identity go as pairs. If this tab changed the menu and
  the stored menu is a different one with another version, nothing is written and the answer is a conflict.
\<close>

theorem save_keeps_other_tabs:
  assumes "shop_keys st" "find_shop_row (ss_shopId se) st = Some s" "b = buildSettingsPatch original draft v" "patch_ok b" "\<not> campus_refused b st"
  shows "if dr_printOptions draft \<noteq> dr_printOptions original \<and> dr_printOptions draft \<noteq> shopOptions s \<and> v \<noteq> sh_printOptionsVersion s
    then patchShop se b now st = (Inl (Conflict ''SETTINGS_CHANGED_ELSEWHERE''), st, [])
    else \<exists>s' st' effs. patchShop se b now st = (Inr s', st', effs) \<and> find_shop_row (ss_shopId se) st' = Some s'
      \<and> baseline_of s' = merge_draft original draft (baseline_of s)"
proof -
  let ?i = "ss_shopId se"
  have guard: "menu_guard b s = (if dr_printOptions draft \<noteq> dr_printOptions original \<and> dr_printOptions draft \<noteq> shopOptions s then Some v else None)"
    by (auto simp: menu_guard_def menu_changed_def changed_def assms(3) patch_fields when_changed_def)
  show ?thesis
  proof (cases "dr_printOptions draft \<noteq> dr_printOptions original \<and> dr_printOptions draft \<noteq> shopOptions s \<and> v \<noteq> sh_printOptionsVersion s")
    case True
    have "\<not> (sh_id x = ?i \<and> sh_printOptionsVersion x = v)" if "x \<in> set (sp_shops st)" for x
      using that assms(1,2) True distinct_key_eq [of sh_id "sp_shops st" x s] by (auto simp: find_row_iff shop_keys_def)
    then have "patch_statement ?i b s now st = None"
      using True guard by (simp add: patch_statement_def count_where_0_iff)
    then show ?thesis using True assms(2,4,5) by (simp add: patchShop_def)
  next
    case False
    then have "menu_guard b s \<in> {None, Some (sh_printOptionsVersion s)}" by (auto simp: guard)
    from patchShop_written [OF assms(1,2,4,5) this, of now] obtain s' st' effs where
      r: "patchShop se b now st = (Inr s', st', effs)" "find_shop_row ?i st' = Some s'" "shopOptions s' = given (pa_printOptions b) (shopOptions s)"
      "s' = patch_write b s now s \<or> reviewable (patch_write b s now s) \<and> s' = published_row now (patch_write b s now s)" by blast
    then have "baseline_of s' = merge_draft original draft (baseline_of s)" using save_merges [OF assms(3) r(3)] by blast
    then show ?thesis using False r by auto
  qed
qed

subsection \<open>The question before a move\<close>

lemma meters_distance: "metersBetween aLat aLng bLat bLng = distanceMeters \<lparr>latitude = bLat, longitude = bLng\<rparr> \<lparr>latitude = aLat, longitude = aLng\<rparr>"
proof -
  have "radians (aLat - bLat) / 2 = - (radians (bLat - aLat) / 2)" "radians (aLng - bLng) / 2 = - (radians (bLng - aLng) / 2)"
    by (simp_all add: radians_def field_simps)
  then have "(sin (radians (aLat - bLat) / 2))\<^sup>2 = (sin (radians (bLat - aLat) / 2))\<^sup>2"
    "(sin (radians (aLng - bLng) / 2))\<^sup>2 = (sin (radians (bLng - aLng) / 2))\<^sup>2"
    by (simp_all only: sin_minus power2_minus)
  then show ?thesis by (simp add: metersBetween_def distanceMeters_def Let_def mult.commute)
qed

text \<open>
  C39. The owner of a shop that was verified by hand is asked before a save exactly when the move of the counter alone
  would hide the shop: for a form loaded from the row, the two computations of the distance and all cases of absent
  coordinates agree with the test of the server, and with name, address and campus untouched the shop goes back to
  review exactly when the question is asked.
\<close>

theorem review_question_exact:
  assumes "sh_latitude s \<noteq> None" "sh_longitude s \<noteq> None"
  shows "locationChangeNeedsReview (baseline_of s) draft = location_changed (buildSettingsPatch (baseline_of s) draft v) s
    \<and> (dr_name draft = sh_name s \<and> dr_address draft = sh_address s \<and> dr_campusId draft = sh_campusId s \<longrightarrow>
      verification_reset (buildSettingsPatch (baseline_of s) draft v) s = (\<not> sh_autoLive s \<and> locationChangeNeedsReview (baseline_of s) draft))"
proof -
  obtain a c where s: "sh_latitude s = Some a" "sh_longitude s = Some c" using assms by auto
  have loc: "locationChangeNeedsReview (baseline_of s) draft = location_changed (buildSettingsPatch (baseline_of s) draft v) s"
    by (cases "dr_latitude draft"; cases "dr_longitude draft")
      (auto simp: locationChangeNeedsReview_def location_changed_def patch_fields when_changed_def baseline_of_def s meters_distance)
  moreover have "verification_reset (buildSettingsPatch (baseline_of s) draft v) s
      = (\<not> sh_autoLive s \<and> location_changed (buildSettingsPatch (baseline_of s) draft v) s)"
    if "dr_name draft = sh_name s" "dr_address draft = sh_address s" "dr_campusId draft = sh_campusId s"
    using that by (simp add: verification_reset_def material_change_def changed_def patch_fields when_changed_def baseline_of_def)
  ultimately show ?thesis by blast
qed

subsection \<open>Concrete forms\<close>

lemma default_menu_accepted: "printOptionsSchema DEFAULT_PRINT_OPTIONS" "labels_trimmed DEFAULT_PRINT_OPTIONS"
  by code_simp+

lemma setup_menu: "shopOptions setup_shop = DEFAULT_PRINT_OPTIONS"
  by (simp add: shopOptions_def setup_shop_def)

lemma untouched_save_sends_nothing_witness:
  "draft_of_form ''1700000000000'' (baseline_of setup_shop) (toRows DEFAULT_PRINT_OPTIONS) = Inr (baseline_of setup_shop)"
  using untouched_save_sends_nothing [of setup_shop "''1700000000000''" 0] default_menu_accepted
  by (simp add: setup_menu) (simp add: setup_shop_def sample_shop_def)

definition grown_form :: menu_form where
  "grown_form = (toRows DEFAULT_PRINT_OPTIONS)\<lparr>mf_papers := mf_papers (toRows DEFAULT_PRINT_OPTIONS)
     @ [\<lparr>fp_id = [], fp_label = '' a4 '', fp_bw = ''2.5'', fp_color = []\<rparr>, \<lparr>fp_id = [], fp_label = ''  '', fp_bw = ''x'', fp_color = []\<rparr>],
     mf_bindings := [\<lparr>fb_id = [], fb_label = ''None'', fb_price = ''0''\<rparr>]\<rparr>"

definition crowded_form :: menu_form where
  "crowded_form = (toRows DEFAULT_PRINT_OPTIONS)\<lparr>mf_papers := mf_papers (toRows DEFAULT_PRINT_OPTIONS)
     @ replicate 11 \<lparr>fp_id = [], fp_label = ''A5'', fp_bw = ''2.00'', fp_color = []\<rparr>\<rparr>"

lemma form_menu_passes_schema_witness:
  "printOptionsSchema (menu_of_form ''1700000000000'' grown_form) \<and> map po_id (o_papers (menu_of_form ''1700000000000'' grown_form)) = [''A4'', ''A3'', ''a4-2'']
    \<and> map bo_id (o_bindings (menu_of_form ''1700000000000'' grown_form)) = [''none-2'']
    \<and> draft_of_form ''1700000000000'' (baseline_of setup_shop) crowded_form
        = Inr ((baseline_of setup_shop)\<lparr>dr_printOptions := menu_of_form ''1700000000000'' crowded_form\<rparr>)
    \<and> \<not> printOptionsSchema (menu_of_form ''1700000000000'' crowded_form)"
proof -
  have loc: "(dr_latitude (baseline_of setup_shop) = None) = (dr_longitude (baseline_of setup_shop) = None)"
    by (simp add: baseline_of_def setup_shop_def sample_shop_def)
  have draft: "draft_of_form ''1700000000000'' (baseline_of setup_shop) m = Inr ((baseline_of setup_shop)\<lparr>dr_printOptions := menu_of_form ''1700000000000'' m\<rparr>)"
    if "\<not> priceErrorsPresent m" "labelled_papers m \<noteq> []" for m
    using that loc by (simp add: draft_of_form_def)
  have grown: "\<not> priceErrorsPresent grown_form" "labelled_papers grown_form \<noteq> []" "menu_size_ok grown_form" "edited_from DEFAULT_PRINT_OPTIONS grown_form"
    by code_simp+
  have crowded: "\<not> priceErrorsPresent crowded_form" "labelled_papers crowded_form \<noteq> []" "\<not> menu_size_ok crowded_form" "edited_from DEFAULT_PRINT_OPTIONS crowded_form"
    by code_simp+
  note t = form_menu_passes_schema [OF default_menu_accepted(1), where clock = "''1700000000000''" and profile = "baseline_of setup_shop"]
  have "printOptionsSchema (menu_of_form ''1700000000000'' grown_form)"
    using t [OF grown(4) draft [OF grown(1,2)]] grown(3) by simp
  moreover have "\<not> printOptionsSchema (menu_of_form ''1700000000000'' crowded_form)"
    using t [OF crowded(4) draft [OF crowded(1,2)]] crowded(3) by simp
  moreover have "map po_id (o_papers (menu_of_form ''1700000000000'' grown_form)) = [''A4'', ''A3'', ''a4-2'']"
    "map bo_id (o_bindings (menu_of_form ''1700000000000'' grown_form)) = [''none-2'']" by code_simp+
  ultimately show ?thesis using draft [OF crowded(1,2)] by blast
qed

text \<open>A tab that was loaded when the counter had room for nine renames the shop; the capacity of the row stays.\<close>

definition old_tab :: settings_draft where
  "old_tab = (baseline_of sample_shop)\<lparr>dr_counterCapacity := 9\<rparr>"

lemma save_keeps_other_tabs_witness:
  "\<exists>s' st' effs. patchShop sample_owner_session (buildSettingsPatch old_tab (old_tab\<lparr>dr_name := ''New''\<rparr>) 0) 7 (sample_store sample_shop) = (Inr s', st', effs)
    \<and> sh_name s' = ''New'' \<and> sh_counterCapacity s' = sh_counterCapacity sample_shop"
proof -
  let ?b = "buildSettingsPatch old_tab (old_tab\<lparr>dr_name := ''New''\<rparr>) 0"
  have "patch_ok ?b" "\<not> campus_refused ?b (sample_store sample_shop)"
    by (simp_all add: patch_ok_def patch_fields_ok_def patch_refined_def given_together_def when_given_def patch_fields when_changed_def
      old_tab_def baseline_of_def sample_shop_def campus_refused_def)
  then obtain s' st' effs where r: "patchShop sample_owner_session ?b 7 (sample_store sample_shop) = (Inr s', st', effs)"
    "baseline_of s' = merge_draft old_tab (old_tab\<lparr>dr_name := ''New''\<rparr>) (baseline_of sample_shop)"
    using save_keeps_other_tabs [of "sample_store sample_shop" sample_owner_session sample_shop ?b old_tab "old_tab\<lparr>dr_name := ''New''\<rparr>" 0 7]
      sample_keys [of sample_shop] by auto
  have "old_tab\<lparr>dr_name := ''New''\<rparr> \<noteq> old_tab" "dr_name old_tab \<noteq> ''New''" by (simp_all add: old_tab_def baseline_of_def sample_shop_def)
  then have "dr_name (baseline_of s') = ''New'' \<and> dr_counterCapacity (baseline_of s') = dr_counterCapacity (baseline_of sample_shop)"
    unfolding r(2) by (simp add: merge_draft_def)
  then show ?thesis using r(1) by (auto simp: baseline_of_def)
qed

definition placed_shop :: shop_row where
  "placed_shop = sample_shop\<lparr>sh_latitude := Some 12, sh_longitude := Some 77, sh_autoLive := False\<rparr>"

lemma review_question_exact_witness:
  "verification_reset (buildSettingsPatch (baseline_of placed_shop) ((baseline_of placed_shop)\<lparr>dr_latitude := None, dr_longitude := None\<rparr>) 0) placed_shop"
  using review_question_exact [of placed_shop "(baseline_of placed_shop)\<lparr>dr_latitude := None, dr_longitude := None\<rparr>" 0]
  by (simp add: placed_shop_def baseline_of_def locationChangeNeedsReview_def)

end
