(* ===== verification/Setup_Guide.thy ===== *)
theory Setup_Guide
  imports Shop_Properties
begin

text \<open>
  The guide through the set-up of a shop in the browser (apps/web, lib/setupSteps.ts, lib/setupPolling.ts and the
  paths of lib/locationFlow.ts), on the answer of \<open>GET /setup-status\<close>. A text is the constructor that chooses it.
\<close>

subsection \<open>The answer of the server as the browser reads it\<close>

record setup_counts =
  ct_linkedPrinters :: nat
  ct_onlinePrinters :: nat
  ct_agents :: nat
  ct_onlineAgents :: nat
  ct_detectedPrinters :: "nat option"

text \<open>An older server sends no visibility.\<close>

record setup_snapshot =
  sn_locationReady :: bool
  sn_pricingReady :: bool
  sn_agentReady :: bool
  sn_ready :: bool
  sn_counts :: setup_counts
  sn_platformMarkupBps :: "int option"
  sn_visibility :: "(visibility_state \<times> string option) option"
  sn_publishedAt :: "millis option"

definition counts_of :: "id \<Rightarrow> shop_store \<Rightarrow> setup_counts" where
  "counts_of shopId st =
    (let printers = printers_of shopId st; agents = agents_of shopId st; linked = filter (\<lambda>p. truthy (pt_osPrinterName p)) printers
     in \<lparr>ct_linkedPrinters = length linked, ct_onlinePrinters = length (filter (\<lambda>p. pt_status p = P_online) linked),
         ct_agents = length agents, ct_onlineAgents = length (filter (\<lambda>a. ag_status a = Ag_online) agents),
         ct_detectedPrinters = Some (countDetectedPrinters agents printers)\<rparr>)"

definition snapshot_of :: "int \<Rightarrow> shop_row \<Rightarrow> shop_store \<Rightarrow> setup_snapshot" where
  "snapshot_of markupBps s st =
    (let u = setup_of s st in
     \<lparr>sn_locationReady = su_locationReady u, sn_pricingReady = su_pricingReady u, sn_agentReady = su_agentReady u, sn_ready = su_ready u,
      sn_counts = counts_of (sh_id s) st, sn_platformMarkupBps = Some markupBps, sn_visibility = Some (su_visibility u),
      sn_publishedAt = sh_publishedAt s\<rparr>)"

subsection \<open>setupSteps.ts\<close>

definition visibilityState :: "setup_snapshot \<Rightarrow> visibility_state" where
  "visibilityState u = (case sn_visibility u of
      Some (v, _) \<Rightarrow> v
    | None \<Rightarrow> if sn_ready u then Vs_live else if sn_publishedAt u \<noteq> None then Vs_live_pc_offline else Vs_not_ready)"

definition isListed :: "visibility_state \<Rightarrow> bool" where
  "isListed v = (v = Vs_live \<or> v = Vs_live_pc_offline)"

definition stillOnboarding :: "visibility_state \<Rightarrow> bool" where
  "stillOnboarding v = (v = Vs_not_ready \<or> v = Vs_pending_review)"

datatype next_action =
    Save_location
  | Set_prices
  | Install_pc
  | Turn_on_pc
  | No_printer_found
  | Add_printer "nat option"
  | Printer_offline
  | Being_checked
  | Everything_in_place

definition pcStepTodo :: "setup_snapshot \<Rightarrow> next_action option" where
  "pcStepTodo u = (let c = sn_counts u in
     if sn_agentReady u then None
     else if ct_onlineAgents c = 0 then Some (if ct_agents c = 0 then Install_pc else Turn_on_pc)
     else if ct_linkedPrinters c = 0 then
       (if ct_detectedPrinters c = Some 0 then Some No_printer_found else Some (Add_printer (ct_detectedPrinters c)))
     else Some Printer_offline)"

text \<open>The page an action leads to.\<close>

definition action_path :: "next_action \<Rightarrow> string" where
  "action_path a = (case a of
      Save_location \<Rightarrow> ''/dashboard/setup''
    | Set_prices \<Rightarrow> ''/dashboard/settings#prices''
    | Install_pc \<Rightarrow> ''/dashboard/agents''
    | Turn_on_pc \<Rightarrow> ''/dashboard/agents''
    | No_printer_found \<Rightarrow> ''/dashboard/printers''
    | Add_printer _ \<Rightarrow> ''/dashboard/printers''
    | Printer_offline \<Rightarrow> ''/dashboard/printers''
    | Being_checked \<Rightarrow> ''/dashboard/setup''
    | Everything_in_place \<Rightarrow> ''/dashboard/setup'')"

text \<open>The fee in hundredths of a percent, when a line about it is shown.\<close>

definition platformFeeLine :: "int option \<Rightarrow> int option" where
  "platformFeeLine bps = (case bps of None \<Rightarrow> None | Some b \<Rightarrow> if b \<le> 0 then None else Some b)"

datatype step_key = Step_location | Step_prices | Step_pc | Step_live

record setup_step =
  sp_key :: step_key
  sp_todo :: "next_action option"
  sp_note :: "int option"
  sp_done :: bool
  sp_to :: "string option"

definition setupSteps :: "setup_snapshot \<Rightarrow> setup_step list" where
  "setupSteps u =
    (let pc = pcStepTodo u in
     [\<lparr>sp_key = Step_location, sp_todo = None, sp_note = None, sp_done = sn_locationReady u, sp_to = None\<rparr>,
      \<lparr>sp_key = Step_prices, sp_todo = None, sp_note = platformFeeLine (sn_platformMarkupBps u), sp_done = sn_pricingReady u,
        sp_to = Some (action_path Set_prices)\<rparr>,
      \<lparr>sp_key = Step_pc, sp_todo = pc, sp_note = None, sp_done = (pc = None),
        sp_to = Some (case pc of Some a \<Rightarrow> action_path a | None \<Rightarrow> ''/dashboard/printers'')\<rparr>,
      \<lparr>sp_key = Step_live, sp_todo = None, sp_note = None, sp_done = isListed (visibilityState u), sp_to = None\<rparr>])"

definition nextSetupAction :: "setup_snapshot \<Rightarrow> next_action" where
  "nextSetupAction u =
    (if \<not> sn_locationReady u then Save_location
     else if \<not> sn_pricingReady u then Set_prices
     else case pcStepTodo u of
       Some a \<Rightarrow> a
     | None \<Rightarrow> if visibilityState u = Vs_pending_review then Being_checked else Everything_in_place)"

datatype status_banner =
    Live_add_printer next_action
  | Live_pc_offline
  | Paused "string option"
  | Campus_off
  | Waiting_for_review next_action
  | Almost_live next_action
  | Finish_setup next_action

definition statusBanner :: "setup_snapshot \<Rightarrow> status_banner option" where
  "statusBanner u = (case visibilityState u of
      Vs_live \<Rightarrow> None
    | Vs_live_pc_offline \<Rightarrow> (case (if 0 < ct_onlineAgents (sn_counts u) then pcStepTodo u else None) of
        Some a \<Rightarrow> Some (Live_add_printer a)
      | None \<Rightarrow> Some Live_pc_offline)
    | Vs_hidden_by_admin \<Rightarrow> Some (Paused (case sn_visibility u of
        Some (_, Some r) \<Rightarrow> if trim r = [] then None else Some (trim r)
      | _ \<Rightarrow> None))
    | Vs_campus_inactive \<Rightarrow> Some Campus_off
    | _ \<Rightarrow> (let a = nextSetupAction u in
        if sn_locationReady u \<and> sn_pricingReady u \<and> pcStepTodo u = None
        then Some (if visibilityState u = Vs_pending_review then Waiting_for_review a else Almost_live a)
        else Some (Finish_setup a)))"

subsection \<open>setupPolling.ts\<close>

definition shouldPollSetup :: "setup_snapshot option \<Rightarrow> bool" where
  "shouldPollSetup u = (case u of None \<Rightarrow> False | Some x \<Rightarrow> \<not> sn_ready x)"

subsection \<open>locationFlow.ts: where a login leads\<close>

definition path_word :: "char \<Rightarrow> bool" where
  "path_word c = (let n = code_of c in (48 \<le> n \<and> n \<le> 57) \<or> (65 \<le> n \<and> n \<le> 90) \<or> (97 \<le> n \<and> n \<le> 122) \<or> c = CHR ''_'' \<or> c = CHR ''-'')"

text \<open>
  \<open>(?:\/[\w-]+)*\/?\<close> followed by the end or by a query or fragment: after a slash the pattern reads as many word
  characters as there are, and a slash without any is the last one.
\<close>

function match_segments :: "string \<Rightarrow> string" where
  "match_segments s = (case s of
      c # cs \<Rightarrow> if c = CHR ''/'' then
          (if cs \<noteq> [] \<and> path_word (hd cs) then match_segments (dropWhile path_word cs) else cs)
        else s
    | [] \<Rightarrow> [])"
  by auto
termination by (relation "measure length") (auto intro: le_imp_less_Suc length_dropWhile_le)

declare match_segments.simps [simp del]

definition dashboard_path_ok :: "string \<Rightarrow> bool" where
  "dashboard_path_ok s = (take 10 s = ''/dashboard'' \<and> (case match_segments (drop 10 s) of
      [] \<Rightarrow> True
    | c # cs \<Rightarrow> (c = CHR ''?'' \<or> c = CHR ''#'') \<and> list_all (\<lambda>x. \<not> is_space x \<and> x \<noteq> CHR 0x5C) cs))"

definition path_part :: "string \<Rightarrow> string" where
  "path_part s = (let p = takeWhile (\<lambda>c. c \<noteq> CHR ''?'' \<and> c \<noteq> CHR ''#'') s in
    if p \<noteq> [] \<and> last p = CHR ''/'' then butlast p else p)"

definition safeDashboardNext :: "string option \<Rightarrow> string option" where
  "safeDashboardNext next_path = (case next_path of
      None \<Rightarrow> None
    | Some s \<Rightarrow> if s = [] \<or> \<not> dashboard_path_ok s then None
        else if path_part s \<in> {''/dashboard/login'', ''/dashboard/register''} then None else Some s)"

definition postLoginPath :: "string option \<Rightarrow> setup_snapshot option \<Rightarrow> string" where
  "postLoginPath next_path u = (case safeDashboardNext next_path of
      Some s \<Rightarrow> s
    | None \<Rightarrow> (case u of
        Some x \<Rightarrow> if stillOnboarding (visibilityState x) then ''/dashboard/setup'' else ''/dashboard''
      | None \<Rightarrow> ''/dashboard''))"

subsection \<open>The answer of a poll\<close>

definition steps_done :: "shop_row \<Rightarrow> shop_store \<Rightarrow> bool" where
  "steps_done s st = (su_locationReady (setup_of s st) \<and> su_pricingReady (setup_of s st) \<and> su_agentReady (setup_of s st))"

lemma pc_done: "pcStepTodo u = None \<longleftrightarrow> sn_agentReady u"
  by (simp add: pcStepTodo_def Let_def)

lemma steps_done_ready: "steps_done s st \<longleftrightarrow> ready_to_publish s (printers_of (sh_id s) st) (agents_of (sh_id s) st)"
  by (auto simp: steps_done_def setup_of_def ready_to_publish_def Let_def list_ex_iff image_iff)
    (blast+)?

lemma almost_live_state:
  "(\<exists>a. statusBanner (snapshot_of m s st) = Some (Almost_live a)) \<longleftrightarrow> fst (su_visibility (setup_of s st)) = Vs_not_ready \<and> steps_done s st"
  by (cases "su_visibility (setup_of s st)"; cases "fst (su_visibility (setup_of s st))")
    (auto simp: statusBanner_def visibilityState_def snapshot_of_def Let_def pc_done steps_done_def split: option.splits)

lemma sound_published: "shop_sound s \<Longrightarrow> sh_publishedAt s \<noteq> None \<Longrightarrow> sh_verificationStatus s = V_verified"
  by (simp add: shop_sound_def)

lemma not_ready_states:
  assumes "shop_sound s" "steps_done s st"
  shows "fst (su_visibility (setup_of s st)) = Vs_not_ready \<longleftrightarrow>
    (sh_verificationStatus s = V_draft \<or> (sh_verificationStatus s = V_submitted \<and> sh_autoLive s))
    \<and> (sh_campusId s = None \<or> (\<exists>c. campus_of s st = Some c \<and> cm_isActive c))"
  using assms
  by (cases "sh_verificationStatus s")
    (auto simp: setup_of_def shopVisibility_def Let_def isPublishedShop_def steps_done_def split: option.splits)

text \<open>
  C40. The banner \<open>Almost live: your shop shows to students in a few seconds\<close> is never shown to a shop that goes live
  by itself: the poll that answers has then published it. After a poll it is shown exactly to the owner of a shop of
  the old kind in draft whose steps are done, which no poll ever publishes: it stays hidden until the owner asks for
  a review.
\<close>

theorem almost_live_only_for_old_drafts:
  assumes "shop_keys st" "find_shop_row (ss_shopId se) st = Some s" "shop_sound s" "setupStatus se now st = (Inr u, st')"
    "find_shop_row (ss_shopId se) st' = Some s'"
  shows "(\<exists>a. statusBanner (snapshot_of markupBps s' st') = Some (Almost_live a)) \<longleftrightarrow>
    \<not> sh_autoLive s' \<and> sh_verificationStatus s' = V_draft \<and> steps_done s' st'
    \<and> (sh_campusId s' = None \<or> (\<exists>c. campus_of s' st' = Some c \<and> cm_isActive c))"
    (is "?banner \<longleftrightarrow> ?old")
proof -
  let ?i = "ss_shopId se"
  have s: "s \<in> set (sp_shops st)" "sh_id s = ?i" using assms(1,2) by (auto simp: find_row_iff)
  have st': "st' = snd (publishIfReady ?i now st)" using assms(2,4) by (auto simp: setupStatus_def Let_def split: option.splits)
  show ?thesis
  proof (cases "reviewable s \<and> ready_to_publish s (printers_of ?i st) (agents_of ?i st)")
    case True
    then have "st' = auto_published ?i now st" using st' assms(2) s by (simp add: publishIfReady_def publish_write_eq)
    then have "s' = published_row now s" using assms(2,5) True s(2) by (simp add: find_auto_published)
    then have v: "sh_verificationStatus s' = V_verified" "sh_publishedAt s' \<noteq> None" by simp_all
    then have "\<not> (fst (su_visibility (setup_of s' st')) = Vs_not_ready \<and> steps_done s' st')"
      by (auto simp: setup_of_def shopVisibility_def Let_def isPublishedShop_def steps_done_def split: option.splits)
    then show ?thesis using almost_live_state v by simp
  next
    case False
    then have same: "st' = st" "s' = s" using st' assms(2,5) by (auto simp: publishIfReady_def split: if_splits)
    have "?banner \<longleftrightarrow> steps_done s st \<and> (sh_verificationStatus s = V_draft \<or> (sh_verificationStatus s = V_submitted \<and> sh_autoLive s))
        \<and> (sh_campusId s = None \<or> (\<exists>c. campus_of s st = Some c \<and> cm_isActive c))"
      unfolding almost_live_state same using not_ready_states [OF assms(3), of st] by blast
    moreover have "\<not> sh_autoLive s" if "steps_done s st" "sh_verificationStatus s \<in> {V_draft, V_submitted}"
    proof
      assume "sh_autoLive s"
      moreover have "sh_publishedAt s = None" using sound_published [OF assms(3)] that(2) by (cases "sh_publishedAt s") auto
      ultimately have "reviewable s" using that(2) by (auto simp: reviewable_def)
      then show False using False that(1) steps_done_ready [of s st] s(2) by simp
    qed
    ultimately show ?thesis unfolding same by blast
  qed
qed

definition old_draft :: shop_row where
  "old_draft = setup_shop\<lparr>sh_autoLive := False\<rparr>"

lemma almost_live_only_for_old_drafts_witness:
  "\<exists>u st' s' a. setupStatus sample_owner_session 9 (sample_store old_draft) = (Inr u, st') \<and> find_shop_row ''s'' st' = Some s'
    \<and> statusBanner (snapshot_of 2500 s' st') = Some (Almost_live a) \<and> sh_publishedAt s' = None"
proof -
  have f: "find_shop_row ''s'' (sample_store old_draft) = Some old_draft" "shop_keys (sample_store old_draft)"
    using sample_keys [of old_draft] by (simp_all add: old_draft_def)
  have p: "publishIfReady ''s'' 9 (sample_store old_draft) = (False, sample_store old_draft)"
    using f(1) by (simp add: publishIfReady_def reviewable_def old_draft_def)
  have run: "setupStatus sample_owner_session 9 (sample_store old_draft) = (Inr (setup_of old_draft (sample_store old_draft)), sample_store old_draft)"
    using f(1) p by (simp add: setupStatus_def Let_def)
  have "ready_to_publish setup_shop (printers_of ''s'' (sample_store setup_shop)) (agents_of ''s'' (sample_store setup_shop))" by code_simp
  then have "ready_to_publish old_draft (printers_of ''s'' (sample_store old_draft)) (agents_of ''s'' (sample_store old_draft))"
    by (simp add: ready_to_publish_def old_draft_def Let_def has_location_def shopOptions_def sample_store_def printers_of_def agents_of_def)
  then have "steps_done old_draft (sample_store old_draft)" by (simp add: steps_done_ready old_draft_def)
  moreover have "shop_sound old_draft" "sh_campusId old_draft = None" "\<not> sh_autoLive old_draft" "sh_verificationStatus old_draft = V_draft" "sh_publishedAt old_draft = None"
    by (simp_all add: old_draft_def shop_sound_def setup_shop_def sample_shop_def default_menu_ok COUNTER_CAPACITY_MIN_def COUNTER_CAPACITY_MAX_def)
  ultimately have "\<exists>a. statusBanner (snapshot_of 2500 old_draft (sample_store old_draft)) = Some (Almost_live a)"
    using almost_live_only_for_old_drafts [OF f(2), of sample_owner_session old_draft 9 "setup_of old_draft (sample_store old_draft)"
      "sample_store old_draft" old_draft 2500] f(1) run by simp
  then show ?thesis using f(1) run \<open>sh_publishedAt old_draft = None\<close> by blast
qed

subsection \<open>The guide points at what is missing\<close>

definition step_of :: "next_action \<Rightarrow> step_key option" where
  "step_of a = (case a of Save_location \<Rightarrow> Some Step_location | Set_prices \<Rightarrow> Some Step_prices
    | Being_checked \<Rightarrow> None | Everything_in_place \<Rightarrow> None | _ \<Rightarrow> Some Step_pc)"

lemma finish_setup_first_open_step:
  assumes "statusBanner u = Some (Finish_setup a)"
  shows "\<exists>before st after. setupSteps u = before @ st # after \<and> step_of a = Some (sp_key st) \<and> \<not> sp_done st \<and> list_all sp_done before"
proof -
  have a: "a = nextSetupAction u" "\<not> (sn_locationReady u \<and> sn_pricingReady u \<and> pcStepTodo u = None)"
    using assms by (auto simp: statusBanner_def Let_def split: visibility_state.splits if_splits option.splits)
  have pc: "step_of x = Some Step_pc" if "pcStepTodo u = Some x" for x
    using that by (auto simp: pcStepTodo_def Let_def step_of_def split: if_splits)
  show ?thesis
  proof (cases "sn_locationReady u")
    case False
    then show ?thesis using a(1) by (intro exI [of _ "[]"]) (simp add: setupSteps_def Let_def nextSetupAction_def step_of_def)
  next
    case loc: True
    show ?thesis
    proof (cases "sn_pricingReady u")
      case False
      then show ?thesis using a(1) loc
        by (intro exI [of _ "[setupSteps u ! 0]"] exI [of _ "setupSteps u ! 1"] exI [of _ "drop 2 (setupSteps u)"])
          (simp add: setupSteps_def Let_def nextSetupAction_def step_of_def)
    next
      case True
      then obtain x where x: "pcStepTodo u = Some x" using a(2) loc by auto
      then show ?thesis using a(1) loc True pc [OF x]
        by (intro exI [of _ "take 2 (setupSteps u)"] exI [of _ "setupSteps u ! 2"] exI [of _ "drop 3 (setupSteps u)"])
          (simp add: setupSteps_def Let_def nextSetupAction_def)
    qed
  qed
qed

text \<open>When students cannot order from a listed shop, the step of the counter PC is open, so the guide never calls it complete.\<close>

lemma offline_step_open:
  assumes "fst (su_visibility (setup_of s st)) = Vs_live_pc_offline"
  shows "pcStepTodo (snapshot_of m s st) \<noteq> None"
proof -
  have "\<not> hasOnlinePrinterPath (agents_of (sh_id s) st) (printers_of (sh_id s) st)"
    using assms by (auto simp: setup_of_def shopVisibility_def Let_def split: if_splits)
  then have "\<not> su_agentReady (setup_of s st)"
    by (auto simp: hasOnlinePrinterPath_def setup_of_def Let_def list_ex_iff)
  then show ?thesis by (simp add: pc_done snapshot_of_def Let_def)
qed

subsection \<open>A login never leaves the dashboard\<close>

lemma match_segments_split:
  "\<exists>p. s = p @ match_segments s \<and> list_all (\<lambda>c. c = CHR ''/'' \<or> path_word c) p \<and> (p \<noteq> [] \<longrightarrow> hd p = CHR ''/'')"
proof (induction s rule: match_segments.induct)
  case (1 s)
  show ?case
  proof (cases s)
    case (Cons c cs)
    consider "c \<noteq> CHR ''/''" | "c = CHR ''/''" "cs = [] \<or> \<not> path_word (hd cs)" | "c = CHR ''/''" "cs \<noteq> []" "path_word (hd cs)" by blast
    then show ?thesis
    proof cases
      case 1
      then have "match_segments s = s" using Cons by (subst match_segments.simps) simp
      then show ?thesis by auto
    next
      case 2
      then have "match_segments s = cs" using Cons by (subst match_segments.simps) auto
      then show ?thesis using Cons 2 by (intro exI [of _ "[c]"]) simp
    next
      case 3
      then obtain p where p: "dropWhile path_word cs = p @ match_segments (dropWhile path_word cs)" "list_all (\<lambda>c. c = CHR ''/'' \<or> path_word c) p"
        using "1.IH" [OF Cons 3(1)] by auto
      have "match_segments s = match_segments (dropWhile path_word cs)" using Cons 3 by (subst match_segments.simps) simp
      moreover have "cs = takeWhile path_word cs @ p @ match_segments (dropWhile path_word cs)"
        using p(1) takeWhile_dropWhile_id [of path_word cs] by simp
      moreover have "list_all (\<lambda>c. c = CHR ''/'' \<or> path_word c) (takeWhile path_word cs)"
        by (auto simp: list_all_iff dest: set_takeWhileD)
      ultimately show ?thesis using Cons 3(1) p(2) by (intro exI [of _ "c # takeWhile path_word cs @ p"]) simp
    qed
  qed (subst match_segments.simps, simp)
qed

lemma safe_path:
  assumes "dashboard_path_ok s"
  shows "\<exists>p q. s = ''/dashboard'' @ p @ q \<and> list_all (\<lambda>c. c = CHR ''/'' \<or> path_word c) p \<and> (p = [] \<or> hd p = CHR ''/'')
    \<and> (q = [] \<or> hd q \<in> {CHR ''?'', CHR ''#''}) \<and> list_all (\<lambda>x. \<not> is_space x \<and> x \<noteq> CHR 0x5C) q"
proof -
  obtain p where p: "drop 10 s = p @ match_segments (drop 10 s)" "list_all (\<lambda>c. c = CHR ''/'' \<or> path_word c) p" "p \<noteq> [] \<longrightarrow> hd p = CHR ''/''"
    using match_segments_split [of "drop 10 s"] by blast
  have "take 10 s = ''/dashboard''" using assms by (simp add: dashboard_path_ok_def)
  then have "take 10 s @ drop 10 s = ''/dashboard'' @ p @ match_segments (drop 10 s)" using p(1) by (rule arg_cong2)
  then have "s = ''/dashboard'' @ p @ match_segments (drop 10 s)" by (simp only: append_take_drop_id)
  moreover have "match_segments (drop 10 s) = [] \<or> hd (match_segments (drop 10 s)) \<in> {CHR ''?'', CHR ''#''}"
    "list_all (\<lambda>x. \<not> is_space x \<and> x \<noteq> CHR 0x5C) (match_segments (drop 10 s))"
    using assms by (auto simp: dashboard_path_ok_def is_space_def code_of_def split: list.splits)
  ultimately show ?thesis using p(2,3) by blast
qed

text \<open>
  Whatever the parameter \<open>next\<close> of a login says, the login leads to a page of the dashboard of this site: the target is
  \<open>/dashboard\<close>, then only slashes and word characters up to a query or fragment, with no white space or backslash
  anywhere, so it is no address of another site, and it is neither the login nor the registration again.
\<close>

theorem login_stays_on_dashboard:
  "\<exists>p q. postLoginPath next_path u = ''/dashboard'' @ p @ q \<and> list_all (\<lambda>c. c = CHR ''/'' \<or> path_word c) p \<and> (p = [] \<or> hd p = CHR ''/'')
    \<and> (q = [] \<or> hd q \<in> {CHR ''?'', CHR ''#''}) \<and> list_all (\<lambda>x. \<not> is_space x \<and> x \<noteq> CHR 0x5C) q
    \<and> path_part (postLoginPath next_path u) \<notin> {''/dashboard/login'', ''/dashboard/register''}"
proof -
  have "dashboard_path_ok (postLoginPath next_path u) \<and> path_part (postLoginPath next_path u) \<notin> {''/dashboard/login'', ''/dashboard/register''}"
  proof (cases "safeDashboardNext next_path")
    case (Some s)
    then have "dashboard_path_ok s" "path_part s \<notin> {''/dashboard/login'', ''/dashboard/register''}"
      by (auto simp: safeDashboardNext_def split: option.splits if_splits)
    then show ?thesis using Some by (simp add: postLoginPath_def)
  next
    case None
    have "postLoginPath next_path u = ''/dashboard/setup'' \<or> postLoginPath next_path u = ''/dashboard''"
      using None by (simp add: postLoginPath_def split: option.split)
    then consider "postLoginPath next_path u = ''/dashboard/setup''" | "postLoginPath next_path u = ''/dashboard''" by blast
    then show ?thesis
    proof cases
      case 1
      show ?thesis unfolding 1 by code_simp
    next
      case 2
      show ?thesis unfolding 2 by code_simp
    qed
  qed
  then show ?thesis using safe_path [of "postLoginPath next_path u"] by blast
qed

end
