(* ===== verification/Client_Requests.thy ===== *)
theory Client_Requests
  imports Prelude
begin

text \<open>
  How the browser asks for data (apps/web, lib/latestRequest.ts and lib/useResource.ts): tickets for requests that
  overtake each other, and the life of one loaded resource with its automatic retries. Answers, timers and the
  leaving of the page are events in any order.
\<close>

subsection \<open>createLatestRequest\<close>

record 'v latest_request =
  lr_seq :: nat
  lr_controller :: "nat option"
  lr_aborted :: "nat list"
  lr_applied :: "(nat \<times> 'v) list"

text \<open>A controller is named by the ticket it was made for; the applied answers are the page's.\<close>

definition lr_begin :: "'v latest_request \<Rightarrow> nat \<times> 'v latest_request" where
  "lr_begin l = (Suc (lr_seq l), l\<lparr>lr_aborted := (case lr_controller l of None \<Rightarrow> lr_aborted l | Some c \<Rightarrow> c # lr_aborted l),
     lr_seq := Suc (lr_seq l), lr_controller := Some (Suc (lr_seq l))\<rparr>)"

definition lr_isCurrent :: "nat \<Rightarrow> 'v latest_request \<Rightarrow> bool" where
  "lr_isCurrent mine l = (mine = lr_seq l \<and> mine \<notin> set (lr_aborted l))"

definition lr_cancel :: "'v latest_request \<Rightarrow> 'v latest_request" where
  "lr_cancel l = l\<lparr>lr_seq := Suc (lr_seq l), lr_aborted := (case lr_controller l of None \<Rightarrow> lr_aborted l | Some c \<Rightarrow> c # lr_aborted l),
     lr_controller := None\<rparr>"

text \<open>An answer arrives for a ticket; the page applies it only while the ticket is current.\<close>

datatype 'v lr_event = Lr_begin | Lr_answer nat 'v | Lr_cancel

definition lr_step :: "'v lr_event \<Rightarrow> 'v latest_request \<Rightarrow> 'v latest_request" where
  "lr_step e l = (case e of
      Lr_begin \<Rightarrow> snd (lr_begin l)
    | Lr_answer n v \<Rightarrow> if lr_isCurrent n l then l\<lparr>lr_applied := lr_applied l @ [(n, v)]\<rparr> else l
    | Lr_cancel \<Rightarrow> lr_cancel l)"

definition lr_run :: "'v lr_event list \<Rightarrow> 'v latest_request \<Rightarrow> 'v latest_request" where
  "lr_run es l = fold lr_step es l"

definition lr_start :: "'v latest_request" where
  "lr_start = \<lparr>lr_seq = 0, lr_controller = None, lr_aborted = [], lr_applied = []\<rparr>"

definition lr_inv :: "'v latest_request \<Rightarrow> bool" where
  "lr_inv l = (sorted (map fst (lr_applied l)) \<and> (\<forall>x \<in> set (lr_applied l). fst x \<le> lr_seq l)
    \<and> (\<forall>c \<in> set (lr_aborted l). c < lr_seq l) \<and> (\<forall>c. lr_controller l = Some c \<longrightarrow> c \<le> lr_seq l))"

lemma lr_inv_step: "lr_inv l \<Longrightarrow> lr_inv (lr_step e l)"
  by (cases e) (fastforce simp: lr_inv_def lr_step_def lr_begin_def lr_cancel_def lr_isCurrent_def sorted_append split: option.splits)+

lemma lr_inv_run: "lr_inv l \<Longrightarrow> lr_inv (lr_run es l)"
  unfolding lr_run_def by (induction es arbitrary: l) (simp_all add: lr_inv_step)

text \<open>
  A slow older answer never overwrites a newer one: through any interleaving of requests, answers and cancellations the
  tickets of the applied answers never go back, and an answer to a ticket older than the last request or
  cancellation changes nothing.
\<close>

theorem newest_answer_stays:
  "sorted (map fst (lr_applied (lr_run es lr_start)))
    \<and> (n < lr_seq (lr_run es lr_start) \<longrightarrow> lr_step (Lr_answer n v) (lr_run es lr_start) = lr_run es lr_start)"
proof -
  have "lr_inv (lr_run es lr_start)" by (rule lr_inv_run) (simp add: lr_inv_def lr_start_def)
  then show ?thesis by (auto simp: lr_inv_def lr_step_def lr_isCurrent_def)
qed

text \<open>The answer to the newest request is always applied.\<close>

lemma newest_answer_applied:
  "lr_applied (lr_run (es @ [Lr_begin, Lr_answer (Suc (lr_seq (lr_run es lr_start))) v]) lr_start)
    = lr_applied (lr_run es lr_start) @ [(Suc (lr_seq (lr_run es lr_start)), v)]"
proof -
  define l where "l = lr_run es (lr_start :: 'a latest_request)"
  have inv: "lr_inv l" unfolding l_def by (rule lr_inv_run) (simp add: lr_inv_def lr_start_def)
  have "lr_run (es @ [Lr_begin, Lr_answer (Suc (lr_seq l)) v]) lr_start = lr_step (Lr_answer (Suc (lr_seq l)) v) (snd (lr_begin l))"
    by (simp add: lr_run_def l_def lr_step_def)
  moreover have "lr_isCurrent (Suc (lr_seq l)) (snd (lr_begin l))"
    using inv by (fastforce simp: lr_isCurrent_def lr_begin_def lr_inv_def split: option.splits)
  ultimately show ?thesis by (simp add: l_def [symmetric] lr_step_def) (simp add: lr_begin_def)
qed

subsection \<open>useResource\<close>

datatype resource_status = Rs_loading | Rs_slow | Rs_retrying | Rs_error | Rs_ready

text \<open>An error of the server with its status, or any other: a timeout, an unusable body.\<close>

datatype load_error = Api_error int | Other_error

definition MAX_AUTO_RETRIES :: nat where "MAX_AUTO_RETRIES = 3"

definition backoffMs :: "nat \<Rightarrow> millis" where
  "backoffMs attempt = min (2000 * 2 ^ attempt) 8000"

definition isRetryable :: "load_error \<Rightarrow> bool" where
  "isRetryable e = (case e of Api_error st \<Rightarrow> st = 0 \<or> st = 408 \<or> st = 429 \<or> 500 \<le> st | Other_error \<Rightarrow> True)"

text \<open>One run of the effect: what is shown, the number of retries, whether a load is under way or a retry waits.\<close>

record 'v resource =
  rs_data :: "'v option"
  rs_status :: resource_status
  rs_error :: "load_error option"
  rs_attempt :: nat
  rs_cancelled :: bool
  rs_loading :: bool
  rs_backoff :: "millis option"
  rs_loads :: nat

definition rs_start_load :: "'v resource \<Rightarrow> 'v resource" where
  "rs_start_load r = r\<lparr>rs_status := (if rs_attempt r = 0 then Rs_loading else Rs_retrying), rs_error := None, rs_loading := True,
     rs_backoff := None, rs_loads := Suc (rs_loads r)\<rparr>"

definition rs_fail :: "load_error \<Rightarrow> 'v resource \<Rightarrow> 'v resource" where
  "rs_fail e r = (if isRetryable e \<and> rs_attempt r < MAX_AUTO_RETRIES
     then r\<lparr>rs_loading := False, rs_backoff := Some (backoffMs (rs_attempt r)), rs_attempt := Suc (rs_attempt r),
       rs_status := Rs_retrying, rs_error := Some e\<rparr>
     else r\<lparr>rs_loading := False, rs_status := Rs_error, rs_error := Some e\<rparr>)"

text \<open>The effect runs: what was shown stays until an answer replaces it.\<close>

definition rs_open :: "'v option \<Rightarrow> 'v resource" where
  "rs_open shown = rs_start_load \<lparr>rs_data = shown, rs_status = Rs_loading, rs_error = None, rs_attempt = 0, rs_cancelled = False,
     rs_loading = False, rs_backoff = None, rs_loads = 0\<rparr>"

datatype 'v rs_event = Rs_answer 'v | Rs_failure load_error | Rs_slow_timer | Rs_backoff_over | Rs_leave

definition rs_step :: "('v \<Rightarrow> bool) \<Rightarrow> 'v rs_event \<Rightarrow> 'v resource \<Rightarrow> 'v resource" where
  "rs_step valid e r = (if rs_cancelled r then r else case e of
      Rs_answer v \<Rightarrow> if \<not> rs_loading r then r
        else if \<not> valid v then rs_fail Other_error r
        else r\<lparr>rs_loading := False, rs_data := Some v, rs_status := Rs_ready, rs_error := None\<rparr>
    | Rs_failure err \<Rightarrow> if rs_loading r then rs_fail err r else r
    | Rs_slow_timer \<Rightarrow> if rs_loading r \<and> rs_status r \<in> {Rs_loading, Rs_retrying} then r\<lparr>rs_status := Rs_slow\<rparr> else r
    | Rs_backoff_over \<Rightarrow> if rs_backoff r = None then r else rs_start_load r
    | Rs_leave \<Rightarrow> r\<lparr>rs_cancelled := True, rs_loading := False, rs_backoff := None\<rparr>)"

definition rs_run :: "('v \<Rightarrow> bool) \<Rightarrow> 'v rs_event list \<Rightarrow> 'v resource \<Rightarrow> 'v resource" where
  "rs_run valid es r = fold (rs_step valid) es r"

definition rs_inv :: "('v \<Rightarrow> bool) \<Rightarrow> 'v resource \<Rightarrow> bool" where
  "rs_inv valid r = (rs_attempt r \<le> MAX_AUTO_RETRIES \<and> rs_loads r \<le> Suc (rs_attempt r)
    \<and> (rs_backoff r \<noteq> None \<longrightarrow> rs_loads r \<le> rs_attempt r \<and> \<not> rs_loading r)
    \<and> (case rs_data r of None \<Rightarrow> rs_status r \<noteq> Rs_ready | Some v \<Rightarrow> valid v)
    \<and> (rs_status r = Rs_error \<longrightarrow> (\<exists>e. rs_error r = Some e \<and> (isRetryable e \<longrightarrow> rs_attempt r = MAX_AUTO_RETRIES)))
    \<and> (rs_loading r \<longrightarrow> rs_status r \<noteq> Rs_error \<and> rs_status r \<noteq> Rs_ready))"

lemma rs_fail_inv: "rs_inv valid r \<Longrightarrow> rs_loading r \<Longrightarrow> rs_inv valid (rs_fail e r)"
  by (auto simp: rs_inv_def rs_fail_def split: option.splits)

lemma rs_start_inv: "rs_inv valid r \<Longrightarrow> rs_backoff r \<noteq> None \<Longrightarrow> rs_inv valid (rs_start_load r)"
  by (auto simp: rs_inv_def rs_start_load_def split: option.splits)

lemma rs_inv_step: "rs_inv valid r \<Longrightarrow> rs_inv valid (rs_step valid e r)"
proof (cases e)
  case (Rs_answer v)
  assume "rs_inv valid r"
  then show ?thesis using Rs_answer rs_fail_inv [of valid r Other_error]
    by (cases "rs_cancelled r \<or> \<not> rs_loading r"; cases "valid v") (auto simp: rs_step_def rs_inv_def split: option.splits)
next
  case (Rs_failure err)
  assume "rs_inv valid r"
  then show ?thesis using Rs_failure rs_fail_inv [of valid r err] by (simp add: rs_step_def)
next
  case Rs_slow_timer
  assume "rs_inv valid r"
  then show ?thesis using Rs_slow_timer by (auto simp: rs_step_def rs_inv_def split: option.splits)
next
  case Rs_backoff_over
  assume "rs_inv valid r"
  then show ?thesis using Rs_backoff_over rs_start_inv [of valid r] by (auto simp: rs_step_def)
next
  case Rs_leave
  assume "rs_inv valid r"
  then show ?thesis using Rs_leave by (auto simp: rs_step_def rs_inv_def split: option.splits)
qed

lemma rs_inv_run: "rs_inv valid r \<Longrightarrow> rs_inv valid (rs_run valid es r)"
  unfolding rs_run_def by (induction es arbitrary: r) (simp_all add: rs_inv_step)

lemma rs_open_inv: "(case shown of None \<Rightarrow> True | Some v \<Rightarrow> valid v) \<Longrightarrow> rs_inv valid (rs_open shown)"
  by (auto simp: rs_inv_def rs_open_def rs_start_load_def split: option.splits)

text \<open>
  One effect sends at most four requests, whatever the network and the timers do; what is shown always passed the
  check of its shape, a page that says ready has data, and a page that shows an error stopped for a definite answer of
  the server or after three retries. After leaving nothing changes any more.
\<close>

theorem resource_life:
  assumes "case shown of None \<Rightarrow> True | Some v \<Rightarrow> valid v" "r = rs_run valid es (rs_open shown)"
  shows "rs_loads r \<le> 4 \<and> (case rs_data r of None \<Rightarrow> rs_status r \<noteq> Rs_ready | Some v \<Rightarrow> valid v)
    \<and> (rs_status r = Rs_error \<longrightarrow> (\<exists>e. rs_error r = Some e \<and> (isRetryable e \<longrightarrow> rs_attempt r = 3)))
    \<and> (rs_cancelled r \<longrightarrow> rs_run valid later r = r)"
proof -
  have inv: "rs_inv valid r" unfolding assms(2) using assms(1) by (intro rs_inv_run rs_open_inv)
  moreover have "rs_run valid later r = r" if "rs_cancelled r"
    using that unfolding rs_run_def by (induction later) (simp_all add: rs_step_def)
  ultimately show ?thesis by (auto simp: rs_inv_def MAX_AUTO_RETRIES_def)
qed

lemma resource_life_witness:
  "rs_loads (rs_run (\<lambda>v. v = (7 :: nat)) (concat (replicate 9 [Rs_failure (Api_error 503), Rs_backoff_over])) (rs_open None)) = 4
    \<and> rs_status (rs_run (\<lambda>v. v = (7 :: nat)) (concat (replicate 9 [Rs_failure (Api_error 503), Rs_backoff_over])) (rs_open None)) = Rs_error"
proof -
  let ?r = "rs_run (\<lambda>v. v = (7 :: nat)) (concat (replicate 9 [Rs_failure (Api_error 503), Rs_backoff_over])) (rs_open None)"
  have "rs_loads ?r \<le> 4" using resource_life [where shown = None and valid = "\<lambda>v. v = (7 :: nat)" and r = ?r] by simp
  moreover have "4 \<le> rs_loads ?r" "rs_status ?r = Rs_error" by code_simp+
  ultimately show ?thesis by simp
qed

text \<open>The waits before the retries.\<close>

lemma backoff_waits: "map backoffMs [0, 1, 2] = [2000, 4000, 8000]"
  by code_simp

end
