(* ===== verification/Spec2Isabelle.thy ===== *)
theory Spec2Isabelle
  imports Print_Laws Release_Laws Assignment_Laws Fee_Settlement Retention_Laws Order_System Account_Laws Shop_Properties Input_Laws Rate_Limits Outbox Projections Settings_Form_Laws Setup_Guide Client_Requests
begin

text \<open>
  printQ, a print-queue service (apps/api, packages/shared, apps/web): students upload a document, order a
  print at a shop, check in at the shop's counter, show a code and collect the paper. This library models
  the logic of the service and proves what makes it correct.

  Parts and theories, in the order of import:
  \<^item> \<^verbatim>\<open>Prelude\<close>, \<^verbatim>\<open>Claim_Once\<close>: errors as values of a sum (lib/errors.ts), updates of a table by a
    condition, and two interfaces as locales: a compare-and-set write that only one competitor wins
    (\<open>claim_once\<close>) and a write that may be repeated (\<open>write_once\<close>).
  \<^item> \<^verbatim>\<open>State_Machine\<close> (packages/shared/src/stateMachine.ts): statuses, events, the transition table.
  \<^item> \<^verbatim>\<open>Job_Types\<close>, \<^verbatim>\<open>Shop_Types\<close>: the rows of the tables and the shared types, and the effects a handler
    records instead of performing them (notifications, socket events, timers, background work).
  \<^item> \<^verbatim>\<open>Job_Columns\<close>, \<^verbatim>\<open>Transitions\<close>, \<^verbatim>\<open>Transition_Audit\<close> (jobs/transitions.ts): \<open>applyTransition\<close>, the
    only sanctioned change of a job's status, with the SQL statement of its fast path and its transaction
    path; their equality, the first possible of competing transitions as the only winner, and the completeness of the audit trail.
  \<^item> \<^verbatim>\<open>Assignment\<close>, \<^verbatim>\<open>Assignment_Laws\<close> (shared/assignment.ts, capability.ts): choice of a printer.
  \<^item> \<^verbatim>\<open>Queue_Bands\<close>, \<^verbatim>\<open>Band_Sync\<close> (shared/queueBands.ts, queue/bands.ts): which students the counter
    calls, and the locked SQL pass that implements it.
  \<^item> \<^verbatim>\<open>Queue_Engine\<close>, \<^verbatim>\<open>Check_In\<close>, \<^verbatim>\<open>Check_In_Laws\<close> (queue/engine.ts, lib/geo.ts, queue/visibility.ts):
    arrival, absence, sweeps, dispatch.
  \<^item> \<^verbatim>\<open>Release\<close>, \<^verbatim>\<open>Release_Laws\<close> (queue/release.ts): the counter's release by code.
  \<^item> \<^verbatim>\<open>Print_Agent\<close>, \<^verbatim>\<open>Print_Routes\<close>, \<^verbatim>\<open>Print_Laws\<close> (jobs/printLease.ts, jobs/printCompletion.ts,
    lib/printProblem.ts, agents/routes.ts, the order actions of shops/routes.ts): leases, completion, retries; reports that
    read before and write after another computer's claim.
  \<^item> \<^verbatim>\<open>Fee_Store\<close>, \<^verbatim>\<open>Fee_Account\<close> (fees/feeConfig.ts, fees/account.ts): the tables of the platform fee and what
    a shop owes now.
  \<^item> \<^verbatim>\<open>Commission\<close> (commission/service.ts, statements.ts, statementService.ts, the counter refund of
    admin/routes.ts): the commission of a verified print, the weekly freeze, the credit of a refund.
  \<^item> \<^verbatim>\<open>Fee_Enforcement\<close>, \<^verbatim>\<open>Fee_Payments\<close>, \<^verbatim>\<open>Fee_Webhook\<close> (fees/enforcement.ts, notices.ts, payments.ts, webhook.ts).
  \<^item> \<^verbatim>\<open>Fee_Laws\<close>, \<^verbatim>\<open>Fee_Runs\<close>, \<^verbatim>\<open>Fee_Settlement\<close>: the books balance through every sequence of these operations,
    a payment is posted once, the block follows the debt, notices are sent once.
  \<^item> \<^verbatim>\<open>Js_Text\<close>, \<^verbatim>\<open>Js_Value\<close>: the string functions and the JSON values of JavaScript that the code uses.
  \<^item> \<^verbatim>\<open>Page_Range\<close>, \<^verbatim>\<open>Pricing\<close> (shared/pageRange.ts, pricing.ts): the regular expression, the parser and the
    normal form of a page selection; prices, markup and coupons with the rounding of binary64 numbers.
  \<^item> \<^verbatim>\<open>Input_Rules\<close>, \<^verbatim>\<open>Input_Laws\<close> (shared/schemas.ts, password.ts, web/lib/phone.ts): what is accepted as a
    phone number, code, password, menu and time slot; the phone field of the browser agrees with the server, and
    an accepted menu can be charged within bounds.
  \<^item> \<^verbatim>\<open>File_Retention\<close>, \<^verbatim>\<open>Conversion\<close>, \<^verbatim>\<open>Retention_Laws\<close> (lib/fileRetention.ts, workers/conversion.ts,
    conversionErrors.ts): deletion deadlines and the conversion of a document; the object store and the PDF tools
    are parameters.
  \<^item> \<^verbatim>\<open>Orders\<close>, \<^verbatim>\<open>Order_Laws\<close> (jobs/routes.ts, coupons.ts, lib/idempotency.ts, payments/refund.ts): quote, order,
    idempotency keys and locks, rivals, rating, cancellation, refund.
  \<^item> \<^verbatim>\<open>Order_System\<close>: the handlers of orders, counter, agents and sweeps together, each on rows it may have read at
    any earlier time; released orders are paid, printed ones paid or refunded, audit trails complete.
  \<^item> \<^verbatim>\<open>Session_Tokens\<close> (lib/tokens.ts, lib/shopSession.ts, middleware/auth.ts): tokens, their claims and every check
    that a request passes; the JWT library is a parameter.
  \<^item> \<^verbatim>\<open>Auth_Codes\<close>, \<^verbatim>\<open>Accounts\<close>, \<^verbatim>\<open>Account_Runs\<close>, \<^verbatim>\<open>Account_Laws\<close> (auth/routes.ts, lib/otp.ts, admin/routes.ts,
    admin/bootstrap.ts, the staff routes of shops/routes.ts): one-time codes, sign-in, registration, password reset,
    staff, the administrator's account; requests interleave phase by phase.
  \<^item> \<^verbatim>\<open>Shop_Publication\<close> (public/discovery.ts, shops/visibility.ts, autoLive.ts, admin/shopViews.ts and the review and
    campus routes of admin/routes.ts), \<^verbatim>\<open>Shop_Settings\<close> (PATCH /me, set-up status, availability, counter UPI of
    shops/routes.ts), \<^verbatim>\<open>Shop_Devices\<close> (printers, print computers and set-up pages): the life of a shop.
  \<^item> \<^verbatim>\<open>Shop_Laws\<close>, \<^verbatim>\<open>Shop_Properties\<close>: one rule of publication for students, owner and administrator; sound rows
    and lasting administrator decisions through every run; a menu written by one tab only.
  \<^item> \<^verbatim>\<open>Rate_Limits\<close> (middleware/rateLimit.ts): the limiter of failures over counters with expiry times.
  \<^item> \<^verbatim>\<open>Caches\<close> (lib/ttlCache.ts, public/cache.ts, realtime/handshakeLimit.ts): maps in insertion order with bounds;
    what a request may still see of a public list after a change, with loads that run across it.
  \<^item> \<^verbatim>\<open>Outbox\<close> (providers/fcm/outbox.ts): notifications with leases and several workers; a delivered one is never
    sent again. \<^verbatim>\<open>Projections\<close> (realtime/projections.ts): the documents written to Firestore after a transition agree
    with the order page, and a failed write leaves only its own event pending.
  \<^item> \<^verbatim>\<open>Settings_Form\<close>, \<^verbatim>\<open>Settings_Form_Laws\<close> (web pages/shop/settingsForm.ts and the save of Settings.tsx): the client
    of the settings; when its menu passes the schema of the server, a save changes exactly what its tab changed, and the
    question before a move agrees with the server.
  \<^item> \<^verbatim>\<open>Setup_Guide\<close> (web lib/setupSteps.ts, setupPolling.ts, locationFlow.ts): the guide through the set-up on the
    server's answer, and where a login leads. \<^verbatim>\<open>Client_Requests\<close> (web lib/latestRequest.ts, useResource.ts): answers
    that overtake each other, automatic retries.

  State and time. A store is a record of tables (\<open>db\<close> for orders, \<open>auth_db\<close> for accounts, \<open>shop_store\<close> for the
  profile of shops, and so on); a handler takes the rows it read and the store its writes meet, where
  something may happen in between, and returns a result, the new store and the effects. The clock is an
  argument. Cryptographic functions are arguments. Where a query has a limit (100 rows of a sweep, 50 or 200
  prints) the model has it too. Every loop terminates: the searches for a free slug or identifier by the number of
  taken ones, the parsers by the length of the text, so no fuel is used anywhere.

  What is one step. Some handlers run several statements that the model joins: the lock and the start of a claim
  (\<open>claim_lock\<close>, \<open>claim_start\<close> in \<open>claimJob\<close>), the read, the conditional update and the
  publication of \<open>patchShop\<close>, the reads of \<open>setupStatus\<close> and the publication that follows, a pass of
  \<open>cleanupExpiredFiles\<close> (which reads the orders of its files once, as the code does). Integer columns are
  unbounded here; where their range matters it comes from the schemas. A reply of Redis that is missing
  (\<open>takeSlot\<close> then counts 1) is not modelled.

  Interfaces. \<open>claim_once\<close> is interpreted on status transitions, one-time codes, ratings, refunds, menu writes and
  delivery leases, \<open>write_once\<close> on commission entries, fee notices and returned payments, \<open>reveal_rule\<close> on the
  bands of the queue.

  Not modelled. React components and the pages of apps/web beyond their pure helpers; apps/agent, the Windows
  program that drives the spooler (its server side is modelled); Express, socket.io, BullMQ and Prisma glue,
  configuration parsing, receipts as PDF, storage, e-mail, SMS, push and geocoding providers, which call
  services that are not under src/; pages that only list rows (history, statistics, console lists); scripts
  and seeds. Texts of notifications and errors are reduced to constants. Coordinates are real numbers.
\<close>

end
